(* ===== verification/Prelude.thy ===== *)
theory Prelude
  imports Main "HOL-Library.AList" "HOL-Library.Sublist" "HOL-Library.List_Lexorder"
    "HOL-Library.Char_ord" "HOL-Library.Product_Lexorder" "HOL-Library.Word"
begin

text \<open>
  What the components share. The Go language and its standard library are modelled here: the
  string functions the sources call, \<open>strconv.ParseInt\<close>, 64-bit signed wrap-around, times
  and durations, and errors as values of a sum type. A Go string is a sequence of bytes, here a
  \<^typ>\<open>string\<close>; white space and letter case are those of ASCII. The generic lemmas on
  association lists and on lists without duplicates that several components use are declared
  into the collections \<open>go_simps\<close> and \<open>db_simps\<close> or to the simplifier.
\<close>

named_theorems go_simps "unfolding the models of Go library functions"
named_theorems db_simps "facts on rows of the store's tables"
named_theorems inv_intros "an operation keeps its component's invariant"

section \<open>Go strings\<close>

type_synonym path = string

definition is_space :: "char \<Rightarrow> bool" where
  "is_space c \<longleftrightarrow> c \<in> {CHR '' '', CHR 0x09, CHR 0x0A, CHR 0x0B, CHR 0x0C, CHR 0x0D}"

definition trim_space :: "string \<Rightarrow> string" where
  "trim_space s = rev (dropWhile is_space (rev (dropWhile is_space s)))"

fun has_prefix :: "string \<Rightarrow> string \<Rightarrow> bool" where
  "has_prefix [] s = True"
| "has_prefix (p # ps) [] = False"
| "has_prefix (p # ps) (c # cs) = (p = c \<and> has_prefix ps cs)"

definition trim_prefix :: "string \<Rightarrow> string \<Rightarrow> string" where
  "trim_prefix p s = (if has_prefix p s then drop (length p) s else s)"

definition has_suffix :: "string \<Rightarrow> string \<Rightarrow> bool" where
  "has_suffix x s = has_prefix (rev x) (rev s)"

definition trim_suffix :: "string \<Rightarrow> string \<Rightarrow> string" where
  "trim_suffix x s = (if has_suffix x s then take (length s - length x) s else s)"

fun contains :: "string \<Rightarrow> string \<Rightarrow> bool" where
  "contains [] sub = (sub = [])"
| "contains (c # cs) sub = (has_prefix sub (c # cs) \<or> contains cs sub)"

text \<open>\<open>strings.Split\<close> on a separator of one byte: always at least one part.\<close>

fun split_on :: "char \<Rightarrow> string \<Rightarrow> string list" where
  "split_on sep [] = [[]]"
| "split_on sep (c # cs) =
     (if c = sep then [] # split_on sep cs
      else case split_on sep cs of [] \<Rightarrow> [[c]] | p # ps \<Rightarrow> (c # p) # ps)"

text \<open>The part of a string before the first \<open>c\<close>, and the part after it if there is one
  (\<open>strings.IndexByte\<close> and a slice; \<open>strings.Cut\<close>).\<close>

definition before_byte :: "char \<Rightarrow> string \<Rightarrow> string" where
  "before_byte c s = takeWhile (\<lambda>x. x \<noteq> c) s"

definition after_byte :: "char \<Rightarrow> string \<Rightarrow> string option" where
  "after_byte c s = (case dropWhile (\<lambda>x. x \<noteq> c) s of [] \<Rightarrow> None | _ # r \<Rightarrow> Some r)"

definition to_lower_char :: "char \<Rightarrow> char" where
  "to_lower_char c =
     (let n = of_char c :: nat in if 65 \<le> n \<and> n \<le> 90 then char_of (n + 32) else c)"

definition to_lower :: "string \<Rightarrow> string" where
  "to_lower s = map to_lower_char s"

definition equal_fold :: "string \<Rightarrow> string \<Rightarrow> bool" where
  "equal_fold a b \<longleftrightarrow> to_lower a = to_lower b"

lemma has_prefix_iff: "has_prefix p s \<longleftrightarrow> (\<exists>t. s = p @ t)"
  by (induction p s rule: has_prefix.induct) auto

lemma has_suffix_iff: "has_suffix x s \<longleftrightarrow> (\<exists>t. s = t @ x)"
  unfolding has_suffix_def has_prefix_iff by (metis rev_append rev_rev_ident)

lemma contains_iff: "contains s sub \<longleftrightarrow> (\<exists>a b. s = a @ sub @ b)"
proof (induction s)
  case (Cons c cs)
  have "(\<exists>a b. c # cs = a @ sub @ b) \<longleftrightarrow>
      has_prefix sub (c # cs) \<or> (\<exists>a b. cs = a @ sub @ b)"
    by (auto simp: has_prefix_iff Cons_eq_append_conv)
  with Cons show ?case by simp
qed simp

lemma contains_empty [simp]: "contains s []"
  by (cases s) auto

lemma split_on_not_Nil [simp]: "split_on sep s \<noteq> []"
  by (induction s) (auto split: list.splits)

lemma trim_space_Nil [simp]: "trim_space [] = []"
  by (simp add: trim_space_def)

lemma trim_space_idem [simp]: "trim_space (trim_space s) = trim_space s"
proof -
  let ?r = "dropWhile is_space (rev (dropWhile is_space s))"
  have "dropWhile is_space (rev ?r) = rev ?r"
  proof (cases "rev ?r")
    case (Cons c cs)
    obtain t where t: "dropWhile is_space s = rev ?r @ t"
      by (metis rev_append rev_rev_ident takeWhile_dropWhile_id)
    then have "hd (dropWhile is_space s) = c" "dropWhile is_space s \<noteq> []"
      using Cons by auto
    then have "\<not> is_space c" by (metis hd_dropWhile)
    with Cons show ?thesis by simp
  qed (simp only: dropWhile.simps)
  then show ?thesis by (simp add: trim_space_def)
qed

section \<open>Integers\<close>

text \<open>Values of \<open>int64\<close> and \<open>time.Duration\<close> are \<^typ>\<open>int\<close>s in this range; where
  the code's arithmetic can leave it, the wrap-around is written out.\<close>

definition min_int64 :: int where "min_int64 = - (2 ^ 63)"
definition max_int64 :: int where "max_int64 = 2 ^ 63 - 1"

definition wrap64 :: "int \<Rightarrow> int" where
  "wrap64 n = (n + 2 ^ 63) mod 2 ^ 64 - 2 ^ 63"

lemma wrap64_id: "min_int64 \<le> n \<Longrightarrow> n \<le> max_int64 \<Longrightarrow> wrap64 n = n"
  by (simp add: wrap64_def min_int64_def max_int64_def)

lemma wrap64_range: "min_int64 \<le> wrap64 n \<and> wrap64 n \<le> max_int64"
proof -
  have "0 \<le> (n + 2 ^ 63) mod 2 ^ 64" "(n + 2 ^ 63) mod 2 ^ 64 < (2 ^ 64 :: int)"
    by (rule pos_mod_sign, simp) (rule pos_mod_bound, simp)
  then show ?thesis by (simp add: wrap64_def min_int64_def max_int64_def)
qed

lemma wrap64_sint: "wrap64 n = sint (word_of_int n :: 64 word)"
  by (simp add: wrap64_def sint_sbintrunc' signed_take_bit_eq_take_bit_shift take_bit_eq_mod)

definition is_digit :: "char \<Rightarrow> bool" where
  "is_digit c \<longleftrightarrow> (let n = of_char c :: nat in 48 \<le> n \<and> n \<le> 57)"

definition digit_val :: "char \<Rightarrow> int" where
  "digit_val c = int (of_char c) - 48"

definition digits_val :: "string \<Rightarrow> int" where
  "digits_val s = foldl (\<lambda>n c. 10 * n + digit_val c) 0 s"

text \<open>\<open>strconv.ParseInt(s, 10, 64)\<close>: an optional sign, then one or more digits, and a value
  in range; \<open>None\<close> is the error.\<close>

definition parse_int64 :: "string \<Rightarrow> int option" where
  "parse_int64 s =
     (let neg = (case s of c # _ \<Rightarrow> c = CHR ''-'' | [] \<Rightarrow> False);
          ds = (case s of c # cs \<Rightarrow> if c = CHR ''-'' \<or> c = CHR ''+'' then cs else s | [] \<Rightarrow> [])
      in if ds = [] \<or> \<not> list_all is_digit ds then None
         else let n = (if neg then - digits_val ds else digits_val ds)
              in if n < min_int64 \<or> n > max_int64 then None else Some n)"

text \<open>The value that comes with the error, for callers that ignore the error: 0 for bad syntax,
  the nearest bound for a value out of range.\<close>

definition parse_int64_value :: "string \<Rightarrow> int" where
  "parse_int64_value s =
     (case parse_int64 s of Some n \<Rightarrow> n
      | None \<Rightarrow>
        let ds = (case s of c # cs \<Rightarrow> if c = CHR ''-'' \<or> c = CHR ''+'' then cs else s | [] \<Rightarrow> [])
        in if ds = [] \<or> \<not> list_all is_digit ds then 0
           else if hd s = CHR ''-'' then min_int64 else max_int64)"

lemma parse_int64_range: "parse_int64 s = Some n \<Longrightarrow> min_int64 \<le> n \<and> n \<le> max_int64"
  unfolding parse_int64_def Let_def by (simp split: if_splits)

text \<open>The decimal text of an integer, as \<open>strconv.FormatInt\<close> and \<open>%d\<close> print it.\<close>

definition digit_char :: "nat \<Rightarrow> char" where
  "digit_char n = char_of (48 + n)"

fun show_nat :: "nat \<Rightarrow> string" where
  "show_nat n = (if n < 10 then [digit_char n] else show_nat (n div 10) @ [digit_char (n mod 10)])"

declare show_nat.simps [simp del]

definition show_int :: "int \<Rightarrow> string" where
  "show_int n = (if n < 0 then CHR ''-'' # show_nat (nat (- n)) else show_nat (nat n))"

lemma digit_char_val:
  assumes "n < 10"
  shows "is_digit (digit_char n) \<and> digit_val (digit_char n) = int n"
proof -
  have "of_char (digit_char n) = 48 + n"
    using assms by (simp add: digit_char_def)
  then show ?thesis using assms by (simp add: is_digit_def digit_val_def Let_def)
qed

text \<open>Evaluation of \<open>show_int\<close> works on integers throughout.\<close>

function show_digits :: "int \<Rightarrow> string" where
  "show_digits n = (if n < 10 then [digit_char (nat n)] else show_digits (n div 10) @ [digit_char (nat (n mod 10))])"
  by pat_completeness auto
termination
  by (relation "measure nat") auto

declare show_digits.simps [simp del]

lemma show_digits_nat: "show_digits (int n) = show_nat n"
proof (induction n rule: show_nat.induct)
  case (1 n)
  have "nat (int n mod 10) = n mod 10" by (simp add: nat_mod_distrib)
  moreover have "int n div 10 = int (n div 10)" by (simp add: zdiv_int)
  ultimately show ?case
    using 1 by (simp add: show_digits.simps [of "int n"] show_nat.simps [of n])
qed

lemma show_int_code [code]:
  "show_int n = (if n < 0 then CHR ''-'' # show_digits (- n) else show_digits n)"
  using show_digits_nat [of "nat n"] show_digits_nat [of "nat (- n)"] by (cases "n < 0") (simp_all add: show_int_def)

lemma digits_val_snoc: "digits_val (s @ [c]) = 10 * digits_val s + digit_val c"
  by (simp add: digits_val_def)

lemma show_nat_digits: "show_nat n \<noteq> [] \<and> list_all is_digit (show_nat n) \<and> digits_val (show_nat n) = int n"
proof (induction n rule: show_nat.induct)
  case (1 n)
  show ?case
  proof (cases "n < 10")
    case True
    then show ?thesis
      using digit_char_val [of n] by (simp add: show_nat.simps [of n] digits_val_def)
  next
    case False
    with 1 show ?thesis
      using digit_char_val [of "n mod 10"]
      by (simp add: show_nat.simps [of n] digits_val_snoc zdiv_int zmod_int)
  qed
qed

lemma parse_show_int:
  assumes "min_int64 \<le> n" and "n \<le> max_int64"
  shows "parse_int64 (show_int n) = Some n"
proof (cases "n < 0")
  case True
  then show ?thesis
    using assms show_nat_digits [of "nat (- n)"] by (auto simp: parse_int64_def show_int_def Let_def)
next
  case False
  obtain c cs where c: "show_nat (nat n) = c # cs" "is_digit c"
    using show_nat_digits [of "nat n"] by (cases "show_nat (nat n)") auto
  then have "c \<noteq> CHR ''-''" "c \<noteq> CHR ''+''" by (auto simp: is_digit_def)
  with c False show ?thesis
    using assms show_nat_digits [of "nat n"]
    by (simp add: parse_int64_def show_int_def Let_def c)
qed

section \<open>Times and durations\<close>

text \<open>An instant is a number of nanoseconds since midnight of 1 January of year 1, UTC: Go's
  zero \<open>time.Time\<close> is 0. A duration is an \<open>int64\<close> of nanoseconds.\<close>

type_synonym time = int
type_synonym duration = int

abbreviation (input) zero_time :: time where "zero_time \<equiv> 0"

definition second :: duration where "second = 1000000000"
definition minute :: duration where "minute = 60 * second"
definition hour :: duration where "hour = 60 * minute"
definition day :: duration where "day = 24 * hour"

lemmas time_units = second_def minute_def hour_def day_def

text \<open>\<open>time.Duration(n) * time.Second\<close> wraps; \<open>t.Sub(u)\<close> saturates.\<close>

definition seconds :: "int \<Rightarrow> duration" where
  "seconds n = wrap64 (n * second)"

definition minutes :: "int \<Rightarrow> duration" where
  "minutes n = wrap64 (n * minute)"

definition time_sub :: "time \<Rightarrow> time \<Rightarrow> duration" where
  "time_sub t u = max min_int64 (min max_int64 (t - u))"

lemma time_sub_simps [simp]: "0 < time_sub t u \<longleftrightarrow> u < t" "time_sub t t = 0"
  by (auto simp: time_sub_def min_int64_def max_int64_def)

lemma time_sub_step: "s \<le> t \<Longrightarrow> time_sub s u \<le> time_sub t u \<and> time_sub t u \<le> time_sub s u + (t - s)"
  by (auto simp: time_sub_def min_int64_def max_int64_def)

text \<open>\<open>int(d.Seconds())\<close>: truncation towards zero.\<close>

definition whole_seconds :: "duration \<Rightarrow> int" where
  "whole_seconds d = (if d < 0 then - ((- d) div second) else d div second)"

text \<open>\<open>d.Round(time.Second)\<close>: half a second rounds away from zero, and the result saturates.\<close>

definition round_second :: "duration \<Rightarrow> duration" where
  "round_second d =
     (let m = \<bar>d\<bar> mod second; r = (if m + m < second then \<bar>d\<bar> - m else \<bar>d\<bar> + second - m)
      in max min_int64 (min max_int64 (if d < 0 then - r else r)))"

text \<open>\<open>strings.Join\<close>.\<close>

fun join :: "string \<Rightarrow> string list \<Rightarrow> string" where
  "join sep [] = []"
| "join sep [x] = x"
| "join sep (x # xs) = x @ sep @ join sep xs"

text \<open>The RFC 3339 text of an instant keeps whole seconds; the store keeps times as such texts.\<close>

definition trunc_sec :: "time \<Rightarrow> time" where
  "trunc_sec t = t - t mod second"

lemma seconds_small: "0 \<le> n \<Longrightarrow> n \<le> 9223372036 \<Longrightarrow> seconds n = n * second"
  by (simp add: seconds_def second_def wrap64_id min_int64_def max_int64_def)

lemma minutes_small: "0 \<le> n \<Longrightarrow> n \<le> 153722867 \<Longrightarrow> minutes n = n * minute"
  by (simp add: minutes_def time_units wrap64_id min_int64_def max_int64_def)

lemma trunc_sec_le: "trunc_sec t \<le> t" and trunc_sec_gt: "t - second < trunc_sec t"
  using pos_mod_sign [of second t] pos_mod_bound [of second t]
  by (simp_all add: trunc_sec_def second_def)

lemma trunc_sec_idem [simp]: "trunc_sec (trunc_sec t) = trunc_sec t"
  by (simp add: trunc_sec_def minus_mod_eq_mult_div second_def)

lemma trunc_sec_mono: "t \<le> u \<Longrightarrow> trunc_sec t \<le> trunc_sec u"
  by (simp add: trunc_sec_def minus_mod_eq_mult_div second_def zdiv_mono1)

lemma trunc_sec_zero [simp]: "trunc_sec 0 = 0"
  by (simp add: trunc_sec_def)

section \<open>Errors as values\<close>

abbreviation Err :: "'e \<Rightarrow> 'e + 'a" where "Err \<equiv> Inl"
abbreviation Ok :: "'a \<Rightarrow> 'e + 'a" where "Ok \<equiv> Inr"

definition is_ok :: "'e + 'a \<Rightarrow> bool" where
  "is_ok r \<longleftrightarrow> (case r of Inl _ \<Rightarrow> False | Inr _ \<Rightarrow> True)"

lemma is_ok_simps [simp]: "\<not> is_ok (Inl e)" "is_ok (Inr x)"
  by (simp_all add: is_ok_def)

lemma is_ok_iff: "is_ok r \<longleftrightarrow> (\<exists>x. r = Inr x)"
  by (cases r) auto

definition bind_res :: "'e + 'a \<Rightarrow> ('a \<Rightarrow> 'e + 'b) \<Rightarrow> 'e + 'b" where
  "bind_res r f = (case r of Inl e \<Rightarrow> Inl e | Inr x \<Rightarrow> f x)"

lemma bind_res_simps [simp]:
  "bind_res (Inl e) f = Inl e" "bind_res (Inr x) f = f x"
  by (simp_all add: bind_res_def)

lemma bind_res_Inr_iff: "bind_res r f = Inr y \<longleftrightarrow> (\<exists>x. r = Inr x \<and> f x = Inr y)"
  by (cases r) auto

section \<open>Lists without duplicates\<close>

text \<open>The loop shape the sources use to clean a list: keep an element when it passes a test and
  was not seen before.\<close>

fun dedup :: "('a \<Rightarrow> bool) \<Rightarrow> 'a list \<Rightarrow> 'a list \<Rightarrow> 'a list" where
  "dedup ok seen [] = []"
| "dedup ok seen (x # xs) =
     (if \<not> ok x \<or> x \<in> set seen then dedup ok seen xs else x # dedup ok (x # seen) xs)"

lemma set_dedup: "set (dedup ok seen xs) = {x \<in> set xs. ok x} - set seen"
  by (induction ok seen xs rule: dedup.induct) auto

lemma distinct_dedup: "distinct (dedup ok seen xs)"
  by (induction ok seen xs rule: dedup.induct) (auto simp: set_dedup)

lemma dedup_id:
  "distinct xs \<Longrightarrow> list_all ok xs \<Longrightarrow> set xs \<inter> set seen = {} \<Longrightarrow> dedup ok seen xs = xs"
  by (induction ok seen xs rule: dedup.induct) auto

lemma dedup_seen_cong:
  "(\<And>y. ok y \<Longrightarrow> y \<in> set s \<longleftrightarrow> y \<in> set s') \<Longrightarrow> dedup ok s xs = dedup ok s' xs"
proof (induction xs arbitrary: s s')
  case (Cons x xs)
  have "dedup ok (x # s) xs = dedup ok (x # s') xs" using Cons.prems by (intro Cons.IH) simp
  moreover have "dedup ok s xs = dedup ok s' xs" using Cons.prems by (rule Cons.IH)
  ultimately show ?case using Cons.prems [of x] by (simp only: dedup.simps) auto
qed simp

lemma dedup_irrelevant: "\<not> ok x \<Longrightarrow> dedup ok (x # seen) xs = dedup ok seen xs"
  by (rule dedup_seen_cong) auto

lemma dedup_idem: "dedup ok [] (dedup ok [] xs) = dedup ok [] xs"
  by (rule dedup_id) (auto simp: distinct_dedup set_dedup list_all_iff)

lemma find_SomeD: "find P xs = Some x \<Longrightarrow> x \<in> set xs \<and> P x"
  by (auto simp: find_Some_iff)

lemma find_NoneD: "find P xs = None \<Longrightarrow> x \<in> set xs \<Longrightarrow> \<not> P x"
  by (auto simp: find_None_iff)

text \<open>A chain of conditionals takes its values from a set.\<close>

lemma if_mem: "x \<in> S \<Longrightarrow> y \<in> S \<Longrightarrow> (if b then x else y) \<in> S"
  by simp

end
