(* ===== verification/Tables.thy ===== *)
theory Tables
  imports Prelude
begin

text \<open>
  A table of the store with an \<open>INTEGER PRIMARY KEY AUTOINCREMENT\<close> column: rows in the order
  they were inserted, and the highest id ever given out, which SQLite keeps so that the id of a
  deleted row is never used again. The operations are the statements the store runs on such a
  table; the locale \<open>id_store\<close> states what its clients rely on.
\<close>

record 'r tbl =
  tbl_rows :: "(int \<times> 'r) list"
  tbl_seq :: int

definition tbl_empty :: "'r tbl" where
  "tbl_empty = \<lparr>tbl_rows = [], tbl_seq = 0\<rparr>"

definition tbl_insert :: "'r \<Rightarrow> 'r tbl \<Rightarrow> int \<times> 'r tbl" where
  "tbl_insert r t =
     (let i = tbl_seq t + 1 in (i, t\<lparr>tbl_rows := tbl_rows t @ [(i, r)], tbl_seq := i\<rparr>))"

definition tbl_lookup :: "'r tbl \<Rightarrow> int \<Rightarrow> 'r option" where
  "tbl_lookup t i = map_of (tbl_rows t) i"

definition tbl_update :: "int \<Rightarrow> ('r \<Rightarrow> 'r) \<Rightarrow> 'r tbl \<Rightarrow> 'r tbl" where
  "tbl_update i f t =
     t\<lparr>tbl_rows := map (\<lambda>(j, r). (j, if j = i then f r else r)) (tbl_rows t)\<rparr>"

definition tbl_delete :: "int \<Rightarrow> 'r tbl \<Rightarrow> 'r tbl" where
  "tbl_delete i t = t\<lparr>tbl_rows := filter (\<lambda>(j, r). j \<noteq> i) (tbl_rows t)\<rparr>"

text \<open>The invariant: ids are distinct, positive and not above the sequence.\<close>

definition tbl_wf :: "'r tbl \<Rightarrow> bool" where
  "tbl_wf t \<longleftrightarrow> distinct (map fst (tbl_rows t))
     \<and> list_all (\<lambda>(i, r). 1 \<le> i \<and> i \<le> tbl_seq t) (tbl_rows t) \<and> 0 \<le> tbl_seq t"

lemma tbl_wf_empty [simp]: "tbl_wf tbl_empty"
  by (simp add: tbl_wf_def tbl_empty_def)

lemma tbl_lookup_empty [simp]: "tbl_lookup tbl_empty i = None"
  by (simp add: tbl_lookup_def tbl_empty_def)

lemma tbl_lookup_bounds:
  "tbl_wf t \<Longrightarrow> tbl_lookup t i = Some r \<Longrightarrow> 1 \<le> i \<and> i \<le> tbl_seq t"
  by (auto simp: tbl_wf_def tbl_lookup_def list_all_iff dest: map_of_SomeD)

lemma tbl_fresh: "tbl_wf t \<Longrightarrow> tbl_lookup t (tbl_seq t + 1) = None"
  using tbl_lookup_bounds [of t "tbl_seq t + 1"] by (cases "tbl_lookup t (tbl_seq t + 1)") auto

lemma tbl_insert_id [simp]: "fst (tbl_insert r t) = tbl_seq t + 1"
  by (simp add: tbl_insert_def Let_def)

lemma tbl_lookup_insert:
  "tbl_wf t \<Longrightarrow> tbl_lookup (snd (tbl_insert r t)) = (tbl_lookup t)(tbl_seq t + 1 \<mapsto> r)"
  using tbl_fresh [of t]
  by (auto simp: tbl_insert_def tbl_lookup_def Let_def fun_eq_iff map_add_def
      split: option.splits)

lemma map_of_update_rows:
  "map_of (map (\<lambda>(j, r). (j, if j = i then f r else r)) ps) k =
     (if k = i then map_option f (map_of ps k) else map_of ps k)"
  by (induction ps) auto

lemma tbl_lookup_update:
  "tbl_lookup (tbl_update i f t) = (tbl_lookup t)(i := map_option f (tbl_lookup t i))"
  by (auto simp: tbl_update_def tbl_lookup_def map_of_update_rows)

lemma map_of_filter_ne:
  "map_of (filter (\<lambda>(j, r). j \<noteq> i) ps) = (map_of ps)(i := None)"
  by (induction ps) (auto simp: fun_eq_iff)

lemma tbl_lookup_delete: "tbl_lookup (tbl_delete i t) = (tbl_lookup t)(i := None)"
  by (simp add: tbl_delete_def tbl_lookup_def map_of_filter_ne fun_eq_iff)

lemma tbl_wf_insert [inv_intros]: "tbl_wf t \<Longrightarrow> tbl_wf (snd (tbl_insert r t))"
  by (auto simp: tbl_wf_def tbl_insert_def Let_def list_all_iff)

lemma map_fst_update_rows:
  "map fst (map (\<lambda>(j, r). (j, if j = i then f r else r)) ps) = map fst ps"
  by (induction ps) auto

lemma tbl_wf_update [inv_intros]: "tbl_wf t \<Longrightarrow> tbl_wf (tbl_update i f t)"
  by (auto simp: tbl_wf_def tbl_update_def map_fst_update_rows list_all_iff
      simp del: map_map)

lemma tbl_wf_delete [inv_intros]: "tbl_wf t \<Longrightarrow> tbl_wf (tbl_delete i t)"
  by (auto simp: tbl_wf_def tbl_delete_def list_all_iff distinct_map
      intro: inj_on_subset)

lemma tbl_seq_simps [simp]:
  "tbl_seq (snd (tbl_insert r t)) = tbl_seq t + 1"
  "tbl_seq (tbl_update i f t) = tbl_seq t"
  "tbl_seq (tbl_delete i t) = tbl_seq t"
  by (simp_all add: tbl_insert_def tbl_update_def tbl_delete_def Let_def)

lemmas tbl_lookups [db_simps] =
  tbl_lookup_insert tbl_lookup_update tbl_lookup_delete

lemma set_rows_lookup:
  "tbl_wf t \<Longrightarrow> (i, r) \<in> set (tbl_rows t) \<longleftrightarrow> tbl_lookup t i = Some r"
  by (simp add: tbl_wf_def tbl_lookup_def)

text \<open>A property of every row.\<close>

definition tbl_all :: "('r \<Rightarrow> bool) \<Rightarrow> 'r tbl \<Rightarrow> bool" where
  "tbl_all P t \<longleftrightarrow> list_all (\<lambda>(i, r). P r) (tbl_rows t)"

lemma tbl_all_empty [simp]: "tbl_all P tbl_empty"
  by (simp add: tbl_all_def tbl_empty_def)

lemma tbl_all_insert [simp]: "tbl_all P (snd (tbl_insert r t)) \<longleftrightarrow> tbl_all P t \<and> P r"
  by (auto simp: tbl_all_def tbl_insert_def Let_def)

lemma tbl_all_update [inv_intros]:
  "tbl_all P t \<Longrightarrow> (\<And>r. P r \<Longrightarrow> P (f r)) \<Longrightarrow> tbl_all P (tbl_update i f t)"
  by (auto simp: tbl_all_def tbl_update_def list_all_iff)

lemma tbl_all_delete [inv_intros]: "tbl_all P t \<Longrightarrow> tbl_all P (tbl_delete i t)"
  by (auto simp: tbl_all_def tbl_delete_def list_all_iff)

lemma tbl_all_lookup: "tbl_all P t \<Longrightarrow> tbl_lookup t i = Some r \<Longrightarrow> P r"
  by (auto simp: tbl_all_def tbl_lookup_def list_all_iff dest!: map_of_SomeD)

section \<open>The interface of an id-keyed store\<close>

text \<open>
  What a client of a table relies on: an insertion gives an id not in use and changes nothing
  else, a deletion removes one row and changes nothing else, and an id is not given out twice,
  also across deletions.
\<close>

locale id_store =
  fixes ins :: "'r \<Rightarrow> 's \<Rightarrow> int \<times> 's"
    and del :: "int \<Rightarrow> 's \<Rightarrow> 's"
    and look :: "'s \<Rightarrow> int \<Rightarrow> 'r option"
    and top :: "'s \<Rightarrow> int"
    and wf :: "'s \<Rightarrow> bool"
  assumes look_ins: "wf s \<Longrightarrow> look (snd (ins r s)) = (look s)(fst (ins r s) \<mapsto> r)"
    and look_del: "wf s \<Longrightarrow> look (del i s) = (look s)(i := None)"
    and below_top: "wf s \<Longrightarrow> look s i = Some r \<Longrightarrow> i \<le> top s"
    and ins_above: "wf s \<Longrightarrow> top s < fst (ins r s)"
    and top_ins: "wf s \<Longrightarrow> top (snd (ins r s)) = fst (ins r s)"
    and top_del: "wf s \<Longrightarrow> top (del i s) = top s"
    and wf_ins: "wf s \<Longrightarrow> wf (snd (ins r s))"
    and wf_del: "wf s \<Longrightarrow> wf (del i s)"
begin

lemma ins_fresh: "wf s \<Longrightarrow> look s (fst (ins r s)) = None"
  using below_top [of s "fst (ins r s)"] ins_above [of s r]
  by (cases "look s (fst (ins r s))") auto

lemma ins_keeps: "wf s \<Longrightarrow> look s i = Some x \<Longrightarrow> look (snd (ins r s)) i = Some x"
  using ins_fresh [of s r] by (auto simp: look_ins)

lemma no_reuse: "wf s \<Longrightarrow> i \<le> top s \<Longrightarrow> fst (ins r (del i s)) \<noteq> i"
  using ins_above [OF wf_del, of s i r] by (simp add: top_del)

lemma del_ins: "wf s \<Longrightarrow> look (del (fst (ins r s)) (snd (ins r s))) = look s"
  using ins_fresh [of s r] by (simp add: look_del wf_ins look_ins fun_eq_iff)

end

interpretation tab: id_store tbl_insert tbl_delete tbl_lookup tbl_seq tbl_wf
  by unfold_locales
    (auto simp: db_simps intro: inv_intros dest: tbl_lookup_bounds)

end
