(* ===== verification/Roles.thy ===== *)
theory Roles
  imports Tables
begin

text \<open>
  Roles, sections and hosts: \<open>src/internal/store/access.go\<close>, \<open>roles.go\<close>, the host
  lookups of \<open>hosts.go\<close> and the account record of \<open>users.go\<close>. The state is the tables
  these functions read and write. Columns that hold JSON are kept as the value they encode.
  A statement the database refuses is an error path of the code, so the state has a predicate
  \<open>d_fails\<close> on statements: a statement of which it holds returns an SQL error and changes
  nothing, whatever the moment; every theorem holds for every such predicate.
\<close>

section \<open>Sections\<close>

definition Sections :: "string list" where
  "Sections = [''dashboard'', ''containers'', ''projects'', ''images'', ''volumes'', ''networks'',
     ''topology'', ''logs'', ''events'', ''alerts'', ''hosts'', ''registries'', ''audit'',
     ''diagnostics'']"

definition ValidSection :: "string \<Rightarrow> bool" where
  "ValidSection key \<longleftrightarrow> list_ex (\<lambda>s. s = key) Sections"

lemma ValidSection_iff: "ValidSection key \<longleftrightarrow> key \<in> set Sections"
  by (auto simp: ValidSection_def list_ex_iff)

section \<open>Records and tables\<close>

record RoleSection =
  rs_Section :: string
  rs_Write :: bool

record Role =
  r_ID :: int
  r_Name :: string
  r_Description :: string
  r_Builtin :: bool
  r_Sections :: "RoleSection list"
  r_HostIDs :: "int list"

record Grant =
  g_Granted :: bool
  g_Write :: bool
  g_AllHosts :: bool
  g_Hosts :: "int set"

record User =
  u_ID :: int
  u_Username :: string
  u_PasswordHash :: string
  u_Role :: string
  u_Email :: string
  u_AuthSource :: string
  u_ReadOnly :: bool
  u_Sections :: "string list"
  u_TOTPSecret :: string
  u_TOTPEnabled :: bool
  u_MFAEnabled :: bool
  u_TOTPPending :: string
  u_TOTPPendingStepUp :: bool
  u_Passwordless :: bool
  u_TOTPLastCounter :: int
  u_SessionEpoch :: int
  u_CreatedAt :: time
  u_LastLoginAt :: time

definition IsAdmin :: "User \<Rightarrow> bool" where
  "IsAdmin u \<longleftrightarrow> u_Role u = ''admin''"

text \<open>A row of the \<open>roles\<close> table, without its id.\<close>

record role_row =
  rr_name :: string
  rr_description :: string
  rr_builtin :: bool

record Host =
  h_ID :: int
  h_Name :: string
  h_Kind :: string
  h_Address :: string
  h_TLSCA :: string
  h_TLSCert :: string
  h_TLSKey :: string
  h_HostKey :: string
  h_AlertEmail :: string
  h_Disabled :: bool
  h_CreatedAt :: time

datatype db_error = ErrNotFound | ErrDuplicate | ErrBuiltinRole | ErrRoleInUseAsFallback
  | ErrNameRequired | ErrSQL

datatype stmt =
    BeginTx | CommitTx
  | SelSetting string | PutSetting string
  | SelRoleByName string | InsRole string | SelRoles | SelRole int | UpdRole int | DelRole int
  | SelRoleSections int | DelRoleSections int | InsRoleSection int string
  | SelRoleHosts int | DelRoleHosts int | InsRoleHost int int
  | SelUserRoles int | DelUserRoles int | InsUserRole int int | DelRoleUsers int
  | SelScopes int | SelGrants int
  | SelHosts | SelHostKind int | SelHost int | SelLocalHost | SelUser int

record db =
  d_roles :: "role_row tbl"
  d_role_sections :: "(int \<times> string \<times> bool) list"
  d_role_hosts :: "(int \<times> int) list"
  d_user_roles :: "(int \<times> int) list"
  d_users :: "User list"
  d_hosts :: "Host list"
  d_disabled :: "string list"
  d_ldap_fallback :: "int option"
  d_fails :: "stmt \<Rightarrow> bool"

text \<open>The setting \<open>ldap_config\<close>: \<open>None\<close> when its text does not parse, otherwise the
  fallback role id it names (0 for none, also when the setting is absent).\<close>

definition query :: "db \<Rightarrow> stmt \<Rightarrow> 'a \<Rightarrow> db_error + 'a" where
  "query d q x = (if d_fails d q then Err ErrSQL else Ok x)"

lemma query_Inr [simp]: "query d q x = Inr y \<longleftrightarrow> \<not> d_fails d q \<and> y = x"
  by (auto simp: query_def)

section \<open>Settings\<close>

definition DisabledSections :: "db \<Rightarrow> db_error + string list" where
  "DisabledSections d = query d (SelSetting ''disabled_sections'') (d_disabled d)"

definition SetDisabledSections :: "db \<Rightarrow> string list \<Rightarrow> (db_error + unit) \<times> db" where
  "SetDisabledSections d keys =
     (let clean = filter ValidSection keys
      in if d_fails d (PutSetting ''disabled_sections'') then (Err ErrSQL, d)
         else (Ok (), d\<lparr>d_disabled := clean\<rparr>))"

definition GetLDAP_fallback :: "db \<Rightarrow> db_error + int" where
  "GetLDAP_fallback d =
     (if d_fails d (SelSetting ''ldap_config'') then Err ErrSQL
      else case d_ldap_fallback d of None \<Rightarrow> Err ErrSQL | Some i \<Rightarrow> Ok i)"

section \<open>Hosts and users\<close>

definition ListHosts :: "db \<Rightarrow> db_error + Host list" where
  "ListHosts d = query d SelHosts (sort_key h_Name (d_hosts d))"

definition NormalizeHostID :: "db \<Rightarrow> int \<Rightarrow> int" where
  "NormalizeHostID d i =
     (if i = 0 then 0
      else case (if d_fails d (SelHostKind i) then None else find (\<lambda>h. h_ID h = i) (d_hosts d)) of
        None \<Rightarrow> i
      | Some h \<Rightarrow> if h_Kind h = ''local'' then 0 else i)"

definition LocalHostID :: "db \<Rightarrow> db_error + int" where
  "LocalHostID d =
     (if d_fails d SelLocalHost then Err ErrSQL
      else case sort (map h_ID (filter (\<lambda>h. h_Kind h = ''local'') (d_hosts d))) of
        [] \<Rightarrow> Err ErrNotFound | i # _ \<Rightarrow> Ok i)"

definition UserByID :: "db \<Rightarrow> int \<Rightarrow> db_error + User" where
  "UserByID d i =
     (if d_fails d (SelUser i) then Err ErrSQL
      else case find (\<lambda>u. u_ID u = i) (d_users d) of None \<Rightarrow> Err ErrNotFound | Some u \<Rightarrow> Ok u)"

section \<open>Role rows\<close>

definition operatorSections :: "string list" where
  "operatorSections = [''dashboard'', ''containers'', ''projects'', ''images'', ''volumes'',
     ''networks'', ''topology'', ''logs'', ''events'', ''alerts'', ''diagnostics'']"

definition allSectionsRO :: "RoleSection list" where
  "allSectionsRO = map (\<lambda>s. \<lparr>rs_Section = s, rs_Write = False\<rparr>) Sections"

definition writable :: "string list \<Rightarrow> RoleSection list" where
  "writable ss = map (\<lambda>s. \<lparr>rs_Section = s, rs_Write = True\<rparr>) ss"

text \<open>The loop of \<open>replaceRoleSections\<close> inside its transaction.\<close>

fun ins_role_sections ::
    "db \<Rightarrow> int \<Rightarrow> string list \<Rightarrow> RoleSection list \<Rightarrow> db_error + db" where
  "ins_role_sections d rid seen [] = Ok d"
| "ins_role_sections d rid seen (rs # rest) =
     (let key = trim_space (rs_Section rs)
      in if key = [] \<or> key \<in> set seen \<or> \<not> ValidSection key
         then ins_role_sections d rid seen rest
         else if d_fails d (InsRoleSection rid key) then Err ErrSQL
         else ins_role_sections
                (d\<lparr>d_role_sections := d_role_sections d @ [(rid, key, rs_Write rs)]\<rparr>)
                rid (key # seen) rest)"

definition replaceRoleSections ::
    "db \<Rightarrow> int \<Rightarrow> RoleSection list \<Rightarrow> (db_error + unit) \<times> db" where
  "replaceRoleSections d rid secs =
     (if d_fails d BeginTx \<or> d_fails d (DelRoleSections rid) then (Err ErrSQL, d)
      else case ins_role_sections
                  (d\<lparr>d_role_sections := filter (\<lambda>(r, _). r \<noteq> rid) (d_role_sections d)\<rparr>) rid [] secs of
        Inl e \<Rightarrow> (Err e, d)
      | Inr d' \<Rightarrow> if d_fails d CommitTx then (Err ErrSQL, d) else (Ok (), d'))"

fun ins_role_hosts :: "db \<Rightarrow> int \<Rightarrow> int list \<Rightarrow> int list \<Rightarrow> db_error + db" where
  "ins_role_hosts d rid seen [] = Ok d"
| "ins_role_hosts d rid seen (h # rest) =
     (if h \<le> 0 \<or> h \<in> set seen then ins_role_hosts d rid seen rest
      else if d_fails d (InsRoleHost rid h) then Err ErrSQL
      else ins_role_hosts (d\<lparr>d_role_hosts := d_role_hosts d @ [(rid, h)]\<rparr>) rid (h # seen) rest)"

definition replaceRoleHosts :: "db \<Rightarrow> int \<Rightarrow> int list \<Rightarrow> (db_error + unit) \<times> db" where
  "replaceRoleHosts d rid hs =
     (if d_fails d BeginTx \<or> d_fails d (DelRoleHosts rid) then (Err ErrSQL, d)
      else case ins_role_hosts
                  (d\<lparr>d_role_hosts := filter (\<lambda>(r, _). r \<noteq> rid) (d_role_hosts d)\<rparr>) rid [] hs of
        Inl e \<Rightarrow> (Err e, d)
      | Inr d' \<Rightarrow> if d_fails d CommitTx then (Err ErrSQL, d) else (Ok (), d'))"

definition roleHosts :: "db \<Rightarrow> int \<Rightarrow> db_error + int list" where
  "roleHosts d rid =
     query d (SelRoleHosts rid) (sort (map snd (filter (\<lambda>(r, _). r = rid) (d_role_hosts d))))"

definition roleSections :: "db \<Rightarrow> int \<Rightarrow> db_error + RoleSection list" where
  "roleSections d rid =
     query d (SelRoleSections rid)
       (map (\<lambda>(s, w). \<lparr>rs_Section = s, rs_Write = w\<rparr>)
          (sort_key fst (map snd (filter (\<lambda>(r, _). r = rid) (d_role_sections d)))))"

text \<open>A role row completed with its sections and hosts, as \<open>ListRoles\<close> and
  \<open>RoleByID\<close> do after reading the row.\<close>

definition fill_role :: "db \<Rightarrow> int \<times> role_row \<Rightarrow> db_error + Role" where
  "fill_role d ir =
     (case ir of (i, r) \<Rightarrow>
       bind_res (roleSections d i) (\<lambda>secs.
       bind_res (roleHosts d i) (\<lambda>hs.
         Ok \<lparr>r_ID = i, r_Name = rr_name r, r_Description = rr_description r,
             r_Builtin = rr_builtin r, r_Sections = secs, r_HostIDs = hs\<rparr>)))"

fun fill_roles :: "db \<Rightarrow> (int \<times> role_row) list \<Rightarrow> db_error + Role list" where
  "fill_roles d [] = Ok []"
| "fill_roles d (x # xs) =
     bind_res (fill_role d x) (\<lambda>r. bind_res (fill_roles d xs) (\<lambda>rs. Ok (r # rs)))"

definition ListRoles :: "db \<Rightarrow> db_error + Role list" where
  "ListRoles d =
     bind_res (query d SelRoles
                 (sort_key (\<lambda>(i, r). (\<not> rr_builtin r, rr_name r)) (tbl_rows (d_roles d))))
       (fill_roles d)"

definition RoleByID :: "db \<Rightarrow> int \<Rightarrow> db_error + Role" where
  "RoleByID d i =
     (if d_fails d (SelRole i) then Err ErrSQL
      else case tbl_lookup (d_roles d) i of
        None \<Rightarrow> Err ErrNotFound
      | Some r \<Rightarrow> fill_role d (i, r))"

definition role_named :: "db \<Rightarrow> string \<Rightarrow> int option" where
  "role_named d n = map_option fst (find (\<lambda>(i, r). rr_name r = n) (tbl_rows (d_roles d)))"

definition CreateRole :: "db \<Rightarrow> Role \<Rightarrow> (db_error + int) \<times> db" where
  "CreateRole d r =
     (let name = trim_space (r_Name r)
      in if name = [] then (Err ErrNameRequired, d)
         else if d_fails d (InsRole name) then (Err ErrSQL, d)
         else if role_named d name \<noteq> None then (Err ErrDuplicate, d)
         else let (i, t) = tbl_insert
                    \<lparr>rr_name = name, rr_description = r_Description r, rr_builtin = False\<rparr> (d_roles d)
              in case replaceRoleSections (d\<lparr>d_roles := t\<rparr>) i (r_Sections r) of
                   (Inl e, d1) \<Rightarrow> (Err e, d1)
                 | (Inr _, d1) \<Rightarrow>
                   (case replaceRoleHosts d1 i (r_HostIDs r) of
                      (Inl e, d2) \<Rightarrow> (Err e, d2)
                    | (Inr _, d2) \<Rightarrow> (Ok i, d2)))"

definition UpdateRole ::
    "db \<Rightarrow> int \<Rightarrow> string \<Rightarrow> string \<Rightarrow> RoleSection list \<Rightarrow> int list \<Rightarrow> (db_error + unit) \<times> db" where
  "UpdateRole d i name description secs hs =
     (case RoleByID d i of
        Inl e \<Rightarrow> (Err e, d)
      | Inr existing \<Rightarrow>
        if r_Builtin existing then (Err ErrBuiltinRole, d)
        else let name = trim_space name
        in if name = [] then (Err ErrNameRequired, d)
        else if d_fails d (UpdRole i) then (Err ErrSQL, d)
        else if (case role_named d name of None \<Rightarrow> False | Some j \<Rightarrow> j \<noteq> i) then (Err ErrDuplicate, d)
        else let d1 = d\<lparr>d_roles := tbl_update i
                          (\<lambda>r. r\<lparr>rr_name := name, rr_description := description\<rparr>) (d_roles d)\<rparr>
        in case replaceRoleSections d1 i secs of
             (Inl e, d2) \<Rightarrow> (Err e, d2)
           | (Inr _, d2) \<Rightarrow> replaceRoleHosts d2 i hs)"

definition DeleteRole :: "db \<Rightarrow> int \<Rightarrow> (db_error + unit) \<times> db" where
  "DeleteRole d i =
     (case RoleByID d i of
        Inl e \<Rightarrow> (Err e, d)
      | Inr existing \<Rightarrow>
        if r_Builtin existing then (Err ErrBuiltinRole, d)
        else case GetLDAP_fallback d of
          Inl e \<Rightarrow> (Err e, d)
        | Inr fb \<Rightarrow>
          if fb = i then (Err ErrRoleInUseAsFallback, d)
          else if d_fails d (DelRoleUsers i) then (Err ErrSQL, d)
          else let d1 = d\<lparr>d_user_roles := filter (\<lambda>(u, r). r \<noteq> i) (d_user_roles d)\<rparr>
          in if d_fails d (DelRoleHosts i) then (Err ErrSQL, d1)
          else let d2 = d1\<lparr>d_role_hosts := filter (\<lambda>(r, h). r \<noteq> i) (d_role_hosts d1)\<rparr>
          in if d_fails d (DelRole i) then (Err ErrSQL, d2)
          else (Ok (), d2\<lparr>d_roles := tbl_delete i (d_roles d2)\<rparr>))"

fun ExistingRoleIDs :: "db \<Rightarrow> int list \<Rightarrow> db_error + int list" where
  "ExistingRoleIDs d [] = Ok []"
| "ExistingRoleIDs d (i # rest) =
     (if i \<le> 0 then ExistingRoleIDs d rest
      else if d_fails d (SelRole i) then Err ErrSQL
      else if tbl_lookup (d_roles d) i = None then ExistingRoleIDs d rest
      else bind_res (ExistingRoleIDs d rest) (\<lambda>out. Ok (i # out)))"

definition RoleIDsForUser :: "db \<Rightarrow> int \<Rightarrow> db_error + int list" where
  "RoleIDsForUser d uid =
     query d (SelUserRoles uid) (sort (map snd (filter (\<lambda>(u, _). u = uid) (d_user_roles d))))"

fun ins_user_roles :: "db \<Rightarrow> int \<Rightarrow> int list \<Rightarrow> int list \<Rightarrow> (db_error + unit) \<times> db" where
  "ins_user_roles d uid seen [] = (Ok (), d)"
| "ins_user_roles d uid seen (i # rest) =
     (if i \<le> 0 \<or> i \<in> set seen then ins_user_roles d uid seen rest
      else case RoleByID d i of
        Inl _ \<Rightarrow> ins_user_roles d uid (i # seen) rest
      | Inr _ \<Rightarrow>
        if d_fails d (InsUserRole uid i) then (Err ErrSQL, d)
        else ins_user_roles (d\<lparr>d_user_roles := d_user_roles d @ [(uid, i)]\<rparr>) uid (i # seen) rest)"

definition SetUserRoles :: "db \<Rightarrow> int \<Rightarrow> int list \<Rightarrow> (db_error + unit) \<times> db" where
  "SetUserRoles d uid ids =
     (if d_fails d (DelUserRoles uid) then (Err ErrSQL, d)
      else ins_user_roles (d\<lparr>d_user_roles := filter (\<lambda>(u, _). u \<noteq> uid) (d_user_roles d)\<rparr>) uid [] ids)"

definition RolesForUser :: "db \<Rightarrow> int \<Rightarrow> db_error + Role list" where
  "RolesForUser d uid =
     bind_res (RoleIDsForUser d uid) (\<lambda>ids.
       Ok (List.map_filter (\<lambda>i. case RoleByID d i of Inl _ \<Rightarrow> None | Inr r \<Rightarrow> Some r) ids))"

text \<open>\<open>seedBuiltinRoles\<close>: each built-in role is inserted when no role has its name.\<close>

definition seed_role ::
    "string \<Rightarrow> string \<Rightarrow> RoleSection list \<Rightarrow> db \<Rightarrow> (db_error + unit) \<times> db" where
  "seed_role name desc secs d =
     (if d_fails d (SelRoleByName name) then (Err ErrSQL, d)
      else if role_named d name \<noteq> None then (Ok (), d)
      else if d_fails d (InsRole name) then (Err ErrSQL, d)
      else let (i, t) = tbl_insert
                 \<lparr>rr_name = name, rr_description = desc, rr_builtin = True\<rparr> (d_roles d)
           in replaceRoleSections (d\<lparr>d_roles := t\<rparr>) i secs)"

definition seedBuiltinRoles :: "db \<Rightarrow> (db_error + unit) \<times> db" where
  "seedBuiltinRoles d =
     (case seed_role ''Viewer'' ''Read-only access to every section.'' allSectionsRO d of
        (Inl e, d1) \<Rightarrow> (Err e, d1)
      | (Inr _, d1) \<Rightarrow>
        seed_role ''Operator''
          ''Day-to-day operation: workloads, storage, networking and alerts. No hosts, registries or audit log.''
          (writable operatorSections) d1)"

section \<open>Effective grants\<close>

definition HasHost :: "Grant \<Rightarrow> int \<Rightarrow> bool" where
  "HasHost g h \<longleftrightarrow> h = 0 \<or> g_AllHosts g \<or> h \<in> g_Hosts g"

text \<open>\<open>roleScopesForUser\<close> joins \<open>role_hosts\<close> with \<open>user_roles\<close>; a role without rows is
  absent from its result, which reads as the empty list.\<close>

definition scope_rows :: "db \<Rightarrow> int \<Rightarrow> int \<Rightarrow> int list" where
  "scope_rows d uid rid =
     [h. (r, h) \<leftarrow> d_role_hosts d, (u, r') \<leftarrow> d_user_roles d, r' = r \<and> u = uid \<and> r = rid]"

definition roleScopesForUser :: "db \<Rightarrow> int \<Rightarrow> db_error + (int \<Rightarrow> int list)" where
  "roleScopesForUser d uid = query d (SelScopes uid) (scope_rows d uid)"

text \<open>The map \<open>out\<close> of \<open>EffectiveGrants\<close> is an association list; a missing key reads as
  the zero grant.\<close>

definition zero_grant :: Grant where
  "zero_grant = \<lparr>g_Granted = False, g_Write = False, g_AllHosts = False, g_Hosts = {}\<rparr>"

definition add_grant ::
    "(string \<times> Grant) list \<Rightarrow> string \<times> bool \<times> int list \<Rightarrow> (string \<times> Grant) list" where
  "add_grant out x =
     (case x of (section, write, hs) \<Rightarrow>
      if \<not> ValidSection section then out
      else let g = (case map_of out section of None \<Rightarrow> zero_grant | Some g \<Rightarrow> g);
               g1 = g\<lparr>g_Granted := True, g_Write := g_Write g \<or> write\<rparr>;
               g2 = (if hs = [] then g1\<lparr>g_AllHosts := True\<rparr>
                     else g1\<lparr>g_Hosts := g_Hosts g1 \<union> set hs\<rparr>)
           in AList.update section g2 out)"

definition grant_rows :: "db \<Rightarrow> int \<Rightarrow> (int \<times> string \<times> bool) list" where
  "grant_rows d uid =
     [(r, s, w). (r, s, w) \<leftarrow> d_role_sections d, (u, r') \<leftarrow> d_user_roles d, r' = r \<and> u = uid]"

definition EffectiveGrants :: "db \<Rightarrow> User option \<Rightarrow> db_error + (string \<times> Grant) list" where
  "EffectiveGrants d uo =
     (case uo of None \<Rightarrow> Ok []
      | Some u \<Rightarrow>
        let own = foldl add_grant [] (map (\<lambda>s. (s, True, [])) (u_Sections u))
        in bind_res (roleScopesForUser d (u_ID u)) (\<lambda>scopes.
           bind_res (query d (SelGrants (u_ID u)) (grant_rows d (u_ID u))) (\<lambda>rows.
             let out = foldl add_grant own (map (\<lambda>(r, s, w). (s, w, scopes r)) rows);
                 capped = (if u_ReadOnly u then map (\<lambda>(s, g). (s, g\<lparr>g_Write := False\<rparr>)) out else out)
             in bind_res (DisabledSections d) (\<lambda>disabled.
                  Ok (foldl (\<lambda>m s. AList.delete s m) capped disabled)))))"

text \<open>\<open>ReachableHosts\<close>: the pair of the host set and of the flag \<open>all\<close>.\<close>

fun reach_grants :: "int set \<Rightarrow> (string \<times> Grant) list \<Rightarrow> int set \<times> bool" where
  "reach_grants hs [] = (hs, False)"
| "reach_grants hs ((s, g) # rest) =
     (if \<not> g_Granted g then reach_grants hs rest
      else if g_AllHosts g then ({}, True)
      else reach_grants (hs \<union> g_Hosts g) rest)"

definition ReachableHosts :: "db \<Rightarrow> User option \<Rightarrow> db_error + (int set \<times> bool)" where
  "ReachableHosts d uo = bind_res (EffectiveGrants d uo) (\<lambda>gs. Ok (reach_grants {} gs))"

definition CanReachHost :: "db \<Rightarrow> User \<Rightarrow> int \<Rightarrow> db_error + bool" where
  "CanReachHost d u h =
     (if NormalizeHostID d h = 0 then Ok True
      else bind_res (ReachableHosts d (Some u)) (\<lambda>(hs, a). Ok (a \<or> h \<in> hs)))"

definition EffectiveSections :: "db \<Rightarrow> User \<Rightarrow> db_error + string list" where
  "EffectiveSections d u = bind_res (EffectiveGrants d (Some u)) (\<lambda>gs. Ok (sort (map fst gs)))"


section \<open>Replacing the rows of a role is all or nothing\<close>

text \<open>What is stored for a list of section grants: trimmed keys, valid ones only, the first of
  each key; and for a list of hosts: positive ids, once each.\<close>

fun clean_sections :: "string list \<Rightarrow> RoleSection list \<Rightarrow> (string \<times> bool) list" where
  "clean_sections seen [] = []"
| "clean_sections seen (rs # rest) =
     (let key = trim_space (rs_Section rs)
      in if key = [] \<or> key \<in> set seen \<or> \<not> ValidSection key then clean_sections seen rest
         else (key, rs_Write rs) # clean_sections (key # seen) rest)"

abbreviation clean_hosts :: "int list \<Rightarrow> int list" where
  "clean_hosts hs \<equiv> dedup (\<lambda>h. 0 < h) [] hs"

definition role_grant_rows :: "db \<Rightarrow> int \<Rightarrow> (string \<times> bool) list" where
  "role_grant_rows d i = map snd (filter (\<lambda>(r, _). r = i) (d_role_sections d))"

definition role_host_rows :: "db \<Rightarrow> int \<Rightarrow> int list" where
  "role_host_rows d i = map snd (filter (\<lambda>(r, _). r = i) (d_role_hosts d))"

lemma clean_sections_keys:
  "set (map fst (clean_sections seen secs)) \<subseteq> {s. ValidSection s} - set seen"
  by (induction seen secs rule: clean_sections.induct) (auto simp: Let_def)

lemma distinct_clean_sections: "distinct (map fst (clean_sections seen secs))"
proof (induction seen secs rule: clean_sections.induct)
  case (2 seen rs rest)
  then show ?case
    using clean_sections_keys [of "trim_space (rs_Section rs) # seen" rest]
    by (auto simp: Let_def)
qed simp

lemma ins_role_sections_Inr:
  "ins_role_sections d rid seen secs = Inr d' \<Longrightarrow>
     d' = d\<lparr>d_role_sections := d_role_sections d
              @ map (\<lambda>x. (rid, x)) (clean_sections seen secs)\<rparr>"
  by (induction d rid seen secs rule: ins_role_sections.induct)
    (auto simp: Let_def split: if_splits)

lemma ins_role_hosts_Inr:
  "ins_role_hosts d rid seen hs = Inr d' \<Longrightarrow>
     d' = d\<lparr>d_role_hosts := d_role_hosts d @ map (\<lambda>h. (rid, h)) (dedup (\<lambda>h. 0 < h) seen hs)\<rparr>"
  by (induction d rid seen hs rule: ins_role_hosts.induct)
    (auto simp: not_less split: if_splits)

lemma replaceRoleSections_Inl: "replaceRoleSections d i secs = (Inl e, d') \<Longrightarrow> d' = d"
  by (auto simp: replaceRoleSections_def split: if_splits sum.splits)

lemma replaceRoleHosts_Inl: "replaceRoleHosts d i hs = (Inl e, d') \<Longrightarrow> d' = d"
  by (auto simp: replaceRoleHosts_def split: if_splits sum.splits)

lemma replaceRoleSections_Inr:
  "replaceRoleSections d i secs = (Inr u, d') \<Longrightarrow>
     d' = d\<lparr>d_role_sections := filter (\<lambda>(r, _). r \<noteq> i) (d_role_sections d)
              @ map (\<lambda>x. (i, x)) (clean_sections [] secs)\<rparr>"
  by (auto simp: replaceRoleSections_def split: if_splits sum.splits
      dest!: ins_role_sections_Inr)

lemma replaceRoleHosts_Inr:
  "replaceRoleHosts d i hs = (Inr u, d') \<Longrightarrow>
     d' = d\<lparr>d_role_hosts := filter (\<lambda>(r, _). r \<noteq> i) (d_role_hosts d)
              @ map (\<lambda>h. (i, h)) (clean_hosts hs)\<rparr>"
  by (auto simp: replaceRoleHosts_def split: if_splits sum.splits
      dest!: ins_role_hosts_Inr)

lemma filter_pair_const:
  "filter (\<lambda>(r, _). r = j) (map (\<lambda>x. (i, x)) xs) = (if j = i then map (\<lambda>x. (i, x)) xs else [])"
  by (induction xs) auto

lemma filter_pair_ne:
  "filter (\<lambda>(r, _). r = j) (filter (\<lambda>(r, _). r \<noteq> i) xs) =
     (if j = i then [] else filter (\<lambda>(r, _). r = j) xs)"
  by (induction xs) auto

lemma map_snd_pair_const: "map snd (map (\<lambda>x. (i, x)) xs) = xs"
  by (induction xs) auto

lemmas pair_filters = filter_pair_const filter_pair_ne

text \<open>A transactional replacement of the rows one owner has in a table.\<close>

locale tx_replace =
  fixes replace :: "'d \<Rightarrow> int \<Rightarrow> 'x \<Rightarrow> ('e + unit) \<times> 'd"
    and rows :: "'d \<Rightarrow> int \<Rightarrow> 'r list"
    and clean :: "'x \<Rightarrow> 'r list"
  assumes failed: "replace d i x = (Inl e, d') \<Longrightarrow> d' = d"
    and replaced: "replace d i x = (Inr u, d') \<Longrightarrow> rows d' j = (if j = i then clean x else rows d j)"
begin

lemma other_rows: "j \<noteq> i \<Longrightarrow> rows (snd (replace d i x)) j = rows d j"
  by (cases "replace d i x"; cases "fst (replace d i x)")
    (auto dest: failed replaced [where j = j])

lemma all_or_nothing:
  "(is_ok (fst (replace d i x)) \<and> rows (snd (replace d i x)) i = clean x)
   \<or> (\<not> is_ok (fst (replace d i x)) \<and> snd (replace d i x) = d)"
  by (cases "replace d i x"; cases "fst (replace d i x)")
    (auto dest: failed replaced [where j = i])

lemma last_wins:
  assumes "replace d i x = (Inr u, d1)" and "replace d1 i y = (Inr v, d2)"
  shows "rows d2 i = clean y"
  using replaced [OF assms(2)] by simp

end

interpretation sec_tx: tx_replace replaceRoleSections role_grant_rows "clean_sections []"
  by unfold_locales
    (auto simp: role_grant_rows_def pair_filters map_snd_pair_const
      dest: replaceRoleSections_Inl dest!: replaceRoleSections_Inr simp del: map_map filter_filter)

interpretation host_tx: tx_replace replaceRoleHosts role_host_rows "\<lambda>hs. clean_hosts hs"
  by unfold_locales
    (auto simp: role_host_rows_def pair_filters map_snd_pair_const
      dest: replaceRoleHosts_Inl dest!: replaceRoleHosts_Inr simp del: map_map filter_filter)

lemma replaceRoleSections_frame [simp]:
  assumes "replaceRoleSections d i secs = (r, d')"
  shows "d_roles d' = d_roles d \<and> d_role_hosts d' = d_role_hosts d \<and> d_user_roles d' = d_user_roles d
    \<and> d_users d' = d_users d \<and> d_hosts d' = d_hosts d \<and> d_disabled d' = d_disabled d
    \<and> d_ldap_fallback d' = d_ldap_fallback d \<and> d_fails d' = d_fails d"
  using assms by (cases r) (auto dest: replaceRoleSections_Inl replaceRoleSections_Inr)

lemma replaceRoleHosts_frame [simp]:
  assumes "replaceRoleHosts d i hs = (r, d')"
  shows "d_roles d' = d_roles d \<and> d_role_sections d' = d_role_sections d
    \<and> d_user_roles d' = d_user_roles d
    \<and> d_users d' = d_users d \<and> d_hosts d' = d_hosts d \<and> d_disabled d' = d_disabled d
    \<and> d_ldap_fallback d' = d_ldap_fallback d \<and> d_fails d' = d_fails d"
  using assms by (cases r) (auto dest: replaceRoleHosts_Inl replaceRoleHosts_Inr)

end
