(* ===== verification/Grants.thy ===== *)
theory Grants
  imports Roles
begin

text \<open>
  What \<open>EffectiveGrants\<close> of \<open>src/internal/store/roles.go\<close> computes. An account's access
  to a section is specified declaratively over the tables (\<open>may_read\<close>, \<open>may_write\<close>,
  \<open>may_host\<close>), and the fold the code runs is shown to compute exactly that. The consumers
  of the grants (\<open>ReachableHosts\<close>, \<open>CanReachHost\<close>, \<open>EffectiveSections\<close>) are then
  characterised over the specification.
\<close>

section \<open>Specification\<close>

definition holds_role :: "db \<Rightarrow> User \<Rightarrow> int \<Rightarrow> bool" where
  "holds_role d u r \<longleftrightarrow> (u_ID u, r) \<in> set (d_user_roles d)"

definition role_scope :: "db \<Rightarrow> int \<Rightarrow> int set" where
  "role_scope d r = {h. (r, h) \<in> set (d_role_hosts d)}"

text \<open>A source of access to a section: the account's own list (writable, every host) or a role
  it holds (as writable as the row says, on the role's hosts, every host when it has none).\<close>

definition source :: "db \<Rightarrow> User \<Rightarrow> string \<Rightarrow> bool \<Rightarrow> int set option \<Rightarrow> bool" where
  "source d u s w hs \<longleftrightarrow>
     s \<in> set (u_Sections u) \<and> w \<and> hs = None
     \<or> (\<exists>r. holds_role d u r \<and> (r, s, w) \<in> set (d_role_sections d)
           \<and> hs = (if role_scope d r = {} then None else Some (role_scope d r)))"

definition may_read :: "db \<Rightarrow> User \<Rightarrow> string \<Rightarrow> bool" where
  "may_read d u s \<longleftrightarrow> ValidSection s \<and> s \<notin> set (d_disabled d) \<and> (\<exists>w hs. source d u s w hs)"

definition may_write :: "db \<Rightarrow> User \<Rightarrow> string \<Rightarrow> bool" where
  "may_write d u s \<longleftrightarrow> may_read d u s \<and> \<not> u_ReadOnly u \<and> (\<exists>hs. source d u s True hs)"

definition may_host :: "db \<Rightarrow> User \<Rightarrow> string \<Rightarrow> int \<Rightarrow> bool" where
  "may_host d u s h \<longleftrightarrow> may_read d u s \<and>
     (h = 0 \<or> (\<exists>w. source d u s w None) \<or> (\<exists>w H. source d u s w (Some H) \<and> h \<in> H))"

section \<open>The fold\<close>

text \<open>The grant a list of additions amounts to.\<close>

definition sum_grant :: "(string \<times> bool \<times> int list) list \<Rightarrow> string \<Rightarrow> Grant option" where
  "sum_grant L s =
     (if ValidSection s \<and> (\<exists>w hs. (s, w, hs) \<in> set L)
      then Some \<lparr>g_Granted = True, g_Write = (\<exists>hs. (s, True, hs) \<in> set L),
                 g_AllHosts = (\<exists>w. (s, w, []) \<in> set L),
                 g_Hosts = \<Union> {set hs | w hs. (s, w, hs) \<in> set L}\<rparr>
      else None)"

lemma map_of_add_grant:
  "map_of (add_grant out (s', w, hs)) s =
     (if ValidSection s' \<and> s = s'
      then let g = (case map_of out s of None \<Rightarrow> zero_grant | Some g \<Rightarrow> g)
           in Some (g\<lparr>g_Granted := True, g_Write := g_Write g \<or> w,
                     g_AllHosts := g_AllHosts g \<or> hs = [], g_Hosts := g_Hosts g \<union> set hs\<rparr>)
      else map_of out s)"
  by (auto simp: add_grant_def update_conv Let_def)

lemma hosts_snoc:
  "\<Union> {set hs | w hs. (s, w, hs) \<in> set (L @ [(s', w', hs')])} =
     \<Union> {set hs | w hs. (s, w, hs) \<in> set L} \<union> (if s = s' then set hs' else {})"
  by auto

lemma sum_grant_snoc:
  "sum_grant (L @ [(s', w, hs)]) s =
     (if ValidSection s' \<and> s = s'
      then let g = (case sum_grant L s of None \<Rightarrow> zero_grant | Some g \<Rightarrow> g)
           in Some (g\<lparr>g_Granted := True, g_Write := g_Write g \<or> w,
                     g_AllHosts := g_AllHosts g \<or> hs = [], g_Hosts := g_Hosts g \<union> set hs\<rparr>)
      else sum_grant L s)"
proof (cases "ValidSection s' \<and> s = s'")
  case True
  show ?thesis
  proof (cases "\<exists>w hs. (s, w, hs) \<in> set L")
    case old: True
    with True show ?thesis by (auto simp: sum_grant_def Let_def hosts_snoc)
  next
    case False
    with True show ?thesis by (auto simp: sum_grant_def Let_def zero_grant_def)
  qed
next
  case False
  then show ?thesis by (auto simp: sum_grant_def hosts_snoc)
qed

lemma foldl_add_grant: "map_of (foldl add_grant [] L) s = sum_grant L s"
proof (induction L arbitrary: s rule: rev_induct)
  case Nil
  show ?case by (simp add: sum_grant_def)
next
  case (snoc x L)
  obtain s' w hs where "x = (s', w, hs)" by (cases x)
  with snoc show ?case by (simp add: map_of_add_grant sum_grant_snoc)
qed

lemma map_of_cap:
  "map_of (map (\<lambda>(s, g). (s, f g)) gs) s = map_option f (map_of gs s)"
  by (induction gs) auto

lemma map_of_delete_all:
  "map_of (foldl (\<lambda>m s. AList.delete s m) gs ks) s = (if s \<in> set ks then None else map_of gs s)"
  by (induction ks arbitrary: gs) (auto simp: delete_conv')

definition additions :: "db \<Rightarrow> User \<Rightarrow> (string \<times> bool \<times> int list) list" where
  "additions d u =
     map (\<lambda>s. (s, True, [])) (u_Sections u)
     @ map (\<lambda>(r, s, w). (s, w, scope_rows d (u_ID u) r)) (grant_rows d (u_ID u))"

lemma EffectiveGrants_Inr:
  assumes "EffectiveGrants d (Some u) = Inr gs"
  shows "map_of gs s =
    (if s \<in> set (d_disabled d) then None
     else map_option (\<lambda>g. if u_ReadOnly u then g\<lparr>g_Write := False\<rparr> else g)
            (sum_grant (additions d u) s))"
  using assms
  by (auto simp: EffectiveGrants_def Let_def bind_res_Inr_iff roleScopesForUser_def
      DisabledSections_def map_of_delete_all map_of_cap additions_def
      foldl_add_grant [symmetric] option.map_ident)

lemma mem_grant_rows:
  "(r, s, w) \<in> set (grant_rows d uid) \<longleftrightarrow>
     (r, s, w) \<in> set (d_role_sections d) \<and> (uid, r) \<in> set (d_user_roles d)"
  by (force simp: grant_rows_def)

lemma scope_list:
  assumes "holds_role d u r"
  shows "set (scope_rows d (u_ID u) r) = role_scope d r"
  using assms by (force simp: scope_rows_def holds_role_def role_scope_def)

lemma additions_source:
  assumes "(s, w, hs) \<in> set (additions d u)"
  shows "source d u s w (if hs = [] then None else Some (set hs))"
proof -
  from assms consider (own) "s \<in> set (u_Sections u)" "w" "hs = []"
    | (role) r where "(r, s, w) \<in> set (d_role_sections d)" "holds_role d u r"
        "set hs = role_scope d r"
    by (auto simp: additions_def mem_grant_rows holds_role_def scope_list)
  then show ?thesis
  proof cases
    case role
    then have "hs = [] \<longleftrightarrow> role_scope d r = {}" by (cases hs) auto
    with role show ?thesis by (auto simp: source_def)
  qed (simp add: source_def)
qed

lemma source_additions:
  assumes "source d u s w sc"
  shows "\<exists>hs. (s, w, hs) \<in> set (additions d u) \<and> (if hs = [] then None else Some (set hs)) = sc"
  using assms unfolding source_def
proof (elim disjE conjE exE)
  fix r assume r: "holds_role d u r" "(r, s, w) \<in> set (d_role_sections d)"
    and sc: "sc = (if role_scope d r = {} then None else Some (role_scope d r))"
  let ?hs = "scope_rows d (u_ID u) r"
  have hs: "set ?hs = role_scope d r" by (rule scope_list [OF r(1)])
  then have "?hs = [] \<longleftrightarrow> role_scope d r = {}" by (metis set_empty)
  moreover have "(r, s, w) \<in> set (grant_rows d (u_ID u))"
    using r by (simp add: mem_grant_rows holds_role_def)
  then have "(s, w, ?hs) \<in> set (additions d u)"
    unfolding additions_def set_append set_map by (intro UnI2) force
  ultimately show ?thesis using hs sc by metis
qed (auto simp: additions_def)

lemma sum_grant_source:
  "sum_grant (additions d u) s =
     (if ValidSection s \<and> (\<exists>w sc. source d u s w sc)
      then Some \<lparr>g_Granted = True, g_Write = (\<exists>sc. source d u s True sc),
                 g_AllHosts = (\<exists>w. source d u s w None),
                 g_Hosts = \<Union> {H | w H. source d u s w (Some H)}\<rparr>
      else None)"
proof -
  have ex: "(\<exists>hs. (s, w, hs) \<in> set (additions d u)) \<longleftrightarrow> (\<exists>sc. source d u s w sc)" for w
    using additions_source source_additions by metis
  have all: "(s, w, []) \<in> set (additions d u) \<longleftrightarrow> source d u s w None" for w
    using additions_source [of s w "[]"] source_additions [of d u s w None]
    by (auto split: if_splits)
  have hosts: "\<Union> {set hs | w hs. (s, w, hs) \<in> set (additions d u)} =
      \<Union> {H | w H. source d u s w (Some H)}" (is "?L = ?R")
  proof
    show "?L \<subseteq> ?R"
    proof
      fix h assume "h \<in> ?L"
      then obtain w hs where "(s, w, hs) \<in> set (additions d u)" "h \<in> set hs" by blast
      with additions_source [of s w hs d u] have "source d u s w (Some (set hs))"
        by (cases hs) auto
      with \<open>h \<in> set hs\<close> show "h \<in> ?R" by blast
    qed
    show "?R \<subseteq> ?L"
    proof
      fix h assume "h \<in> ?R"
      then obtain w H where "source d u s w (Some H)" "h \<in> H" by blast
      with source_additions obtain hs where "(s, w, hs) \<in> set (additions d u)" "set hs = H"
        by (metis option.distinct(1) option.inject)
      with \<open>h \<in> H\<close> show "h \<in> ?L" by blast
    qed
  qed
  show ?thesis unfolding sum_grant_def using ex all hosts by auto
qed

lemma EffectiveGrants_correct_aux:
  assumes "EffectiveGrants d (Some u) = Inr gs"
  shows "(map_of gs s = None \<longleftrightarrow> \<not> may_read d u s)
    \<and> (\<forall>g. map_of gs s = Some g \<longrightarrow>
         g_Granted g \<and> (g_Write g \<longleftrightarrow> may_write d u s) \<and> (\<forall>h. HasHost g h \<longleftrightarrow> may_host d u s h))"
  using EffectiveGrants_Inr [OF assms, of s]
  by (auto simp: sum_grant_source may_read_def may_write_def may_host_def HasHost_def
      split: if_splits)

text \<open>An installation with the local daemon, a staging and a production host, and one account
  that holds two roles: \<open>Operator\<close> limited to staging and \<open>Viewer\<close> on every host.\<close>

definition demo_user :: User where
  "demo_user = \<lparr>u_ID = 7, u_Username = ''eva'', u_PasswordHash = [], u_Role = ''user'', u_Email = [],
     u_AuthSource = ''local'', u_ReadOnly = False, u_Sections = [], u_TOTPSecret = [],
     u_TOTPEnabled = False, u_MFAEnabled = False, u_TOTPPending = [], u_TOTPPendingStepUp = False,
     u_Passwordless = False, u_TOTPLastCounter = 0, u_SessionEpoch = 0, u_CreatedAt = 0,
     u_LastLoginAt = 0\<rparr>"

definition demo_host :: "int \<Rightarrow> string \<Rightarrow> string \<Rightarrow> Host" where
  "demo_host i n k = \<lparr>h_ID = i, h_Name = n, h_Kind = k, h_Address = [], h_TLSCA = [], h_TLSCert = [],
     h_TLSKey = [], h_HostKey = [], h_AlertEmail = [], h_Disabled = False, h_CreatedAt = 0\<rparr>"

definition demo_db :: db where
  "demo_db = \<lparr>d_roles = \<lparr>tbl_rows =
       [(1, \<lparr>rr_name = ''Operator on staging'', rr_description = [], rr_builtin = False\<rparr>),
        (2, \<lparr>rr_name = ''Viewer'', rr_description = [], rr_builtin = True\<rparr>)], tbl_seq = 2\<rparr>,
     d_role_sections = [(1, ''containers'', True), (2, ''containers'', False), (2, ''images'', False)],
     d_role_hosts = [(1, 2)], d_user_roles = [(7, 1), (7, 2)], d_users = [demo_user],
     d_hosts = [demo_host 1 ''local'' ''local'', demo_host 2 ''staging'' ''ssh'',
       demo_host 3 ''production'' ''ssh''],
     d_disabled = [], d_ldap_fallback = Some 0, d_fails = (\<lambda>_. False)\<rparr>"




section \<open>Consumers of the grants\<close>

lemma EffectiveGrants_keys_distinct:
  assumes "EffectiveGrants d (Some u) = Inr gs"
  shows "distinct (map fst gs)"
proof -
  have upd: "distinct (map fst (add_grant out x))" if "distinct (map fst out)" for out x
    using that by (cases x) (simp add: add_grant_def distinct_update Let_def)
  have fold: "distinct (map fst (foldl add_grant out L))" if "distinct (map fst out)" for out L
    using that by (induction L arbitrary: out) (simp_all add: upd)
  have del: "distinct (map fst (foldl (\<lambda>m s. AList.delete s m) out L))"
    if "distinct (map fst out)" for out :: "(string \<times> Grant) list" and L
    using that by (induction L arbitrary: out) (simp_all add: distinct_delete)
  have cap: "map fst (map (\<lambda>(s, g). (s, f g)) out) = map fst out"
    for f and out :: "(string \<times> Grant) list"
    by (induction out) auto
  show ?thesis
    using assms by (auto simp: EffectiveGrants_def Let_def bind_res_Inr_iff cap
        intro!: del fold simp del: map_map)
qed

lemma EffectiveGrants_mem:
  assumes "EffectiveGrants d (Some u) = Inr gs" and "(s, g) \<in> set gs"
  shows "may_read d u s \<and> g_Granted g \<and> (g_Write g \<longleftrightarrow> may_write d u s)
    \<and> (\<forall>h. HasHost g h \<longleftrightarrow> may_host d u s h)"
proof -
  have "map_of gs s = Some g"
    using assms EffectiveGrants_keys_distinct by (simp add: map_of_eq_Some_iff)
  then show ?thesis using EffectiveGrants_correct_aux [OF assms(1), of s] by auto
qed

lemma EffectiveGrants_dom:
  "EffectiveGrants d (Some u) = Inr gs \<Longrightarrow> set (map fst gs) = {s. may_read d u s}"
  using EffectiveGrants_correct_aux [of d u gs] dom_map_of_conv_image_fst [of gs]
  by (auto simp: dom_def)

lemma reach_grants_all:
  "snd (reach_grants hs gs) \<longleftrightarrow> (\<exists>(s, g) \<in> set gs. g_Granted g \<and> g_AllHosts g)"
  by (induction hs gs rule: reach_grants.induct) auto

lemma reach_grants_hosts:
  "\<not> snd (reach_grants hs gs) \<Longrightarrow>
     fst (reach_grants hs gs) = hs \<union> \<Union> {g_Hosts g | s g. (s, g) \<in> set gs \<and> g_Granted g}"
  by (induction hs gs rule: reach_grants.induct) (auto split: if_splits)

text \<open>A host other than the local one is reachable exactly when some section reaches it.\<close>

lemma ReachableHosts_spec:
  assumes "ReachableHosts d (Some u) = Inr (hs, a)" and "h \<noteq> 0"
  shows "a \<or> h \<in> hs \<longleftrightarrow> (\<exists>s. may_host d u s h)"
proof -
  obtain gs where gs: "EffectiveGrants d (Some u) = Inr gs" "reach_grants {} gs = (hs, a)"
    using assms(1) by (auto simp: ReachableHosts_def bind_res_Inr_iff)
  have "a \<or> h \<in> hs \<longleftrightarrow> (\<exists>(s, g) \<in> set gs. g_Granted g \<and> HasHost g h)"
    using reach_grants_all [of "{}" gs] reach_grants_hosts [of "{}" gs] gs(2) assms(2)
    by (auto simp: HasHost_def)
  also have "\<dots> \<longleftrightarrow> (\<exists>s. may_host d u s h)"
  proof
    assume "\<exists>s. may_host d u s h"
    then obtain s where s: "may_host d u s h" ..
    then have "s \<in> set (map fst gs)"
      using EffectiveGrants_dom [OF gs(1)] by (simp add: may_host_def)
    then obtain g where "(s, g) \<in> set gs" by auto
    with EffectiveGrants_mem [OF gs(1)] s show "\<exists>(s, g) \<in> set gs. g_Granted g \<and> HasHost g h"
      by blast
  qed (use EffectiveGrants_mem [OF gs(1)] in blast)
  finally show ?thesis .
qed

text \<open>A host that is reachable by name is in the scope of some role.\<close>

lemma EffectiveGrants_hosts:
  assumes "EffectiveGrants d (Some u) = Inr gs" and "(s, g) \<in> set gs" and "h \<in> g_Hosts g"
  shows "\<exists>r. (r, h) \<in> set (d_role_hosts d)"
proof -
  have "map_of gs s = Some g"
    using assms EffectiveGrants_keys_distinct by (simp add: map_of_eq_Some_iff)
  with EffectiveGrants_Inr [OF assms(1), of s] obtain g' where
    "sum_grant (additions d u) s = Some g'" "g_Hosts g' = g_Hosts g"
    by (cases "sum_grant (additions d u) s") (auto split: if_splits)
  then have "g_Hosts g = \<Union> {H | w H. source d u s w (Some H)}"
    unfolding sum_grant_source by (metis (no_types, lifting) Grant.select_convs(4) option.distinct(1) option.inject)
  with assms(3) obtain w H where "source d u s w (Some H)" "h \<in> H" by blast
  then show ?thesis by (auto simp: source_def role_scope_def split: if_splits)
qed

lemma ReachableHosts_rows:
  assumes "ReachableHosts d (Some u) = Inr (hs, a)" and "h \<in> hs" and "\<not> a"
  shows "\<exists>r. (r, h) \<in> set (d_role_hosts d)"
proof -
  obtain gs where gs: "EffectiveGrants d (Some u) = Inr gs" "reach_grants {} gs = (hs, a)"
    using assms(1) by (auto simp: ReachableHosts_def bind_res_Inr_iff)
  then obtain s g where "(s, g) \<in> set gs" "h \<in> g_Hosts g"
    using reach_grants_hosts [of "{}" gs] assms(2,3) by auto
  then show ?thesis using EffectiveGrants_hosts [OF gs(1)] by blast
qed

end
