(* ===== verification/RoleSteps.thy ===== *)
theory RoleSteps
  imports Grants
begin

text \<open>
  The role tables as a state machine: a step is one call of an operation of
  \<open>src/internal/store/roles.go\<close>, successful or not. The invariant \<open>db_wf\<close> says what the
  schema's keys and the code together keep: role names are unique, grants name known sections,
  host scopes hold positive ids only, and no row of a join table names a role id that was never
  given out. Deleting a role leaves its section rows behind; that this gives nobody anything
  rests on ids never being used again, which is part of the invariant.
\<close>

definition db_wf :: "db \<Rightarrow> bool" where
  "db_wf d \<longleftrightarrow> tbl_wf (d_roles d)
     \<and> distinct (map (rr_name \<circ> snd) (tbl_rows (d_roles d)))
     \<and> distinct (map (\<lambda>(r, s, w). (r, s)) (d_role_sections d))
     \<and> (\<forall>x \<in> set (d_role_sections d). ValidSection (fst (snd x)) \<and> fst x \<le> tbl_seq (d_roles d))
     \<and> distinct (d_role_hosts d)
     \<and> (\<forall>x \<in> set (d_role_hosts d). 0 < snd x \<and> fst x \<le> tbl_seq (d_roles d))
     \<and> distinct (d_user_roles d)
     \<and> (\<forall>x \<in> set (d_user_roles d). tbl_lookup (d_roles d) (snd x) \<noteq> None)
     \<and> list_all ValidSection (d_disabled d)"

inductive role_step :: "db \<Rightarrow> db \<Rightarrow> bool" where
  seed: "role_step d (snd (seedBuiltinRoles d))"
| create: "role_step d (snd (CreateRole d r))"
| update: "role_step d (snd (UpdateRole d i name desc secs hs))"
| delete: "role_step d (snd (DeleteRole d i))"
| assign: "role_step d (snd (SetUserRoles d uid ids))"
| disable: "role_step d (snd (SetDisabledSections d keys))"
| others: "role_step d (d\<lparr>d_users := us, d_hosts := hs, d_ldap_fallback := fb\<rparr>)"
| fault: "role_step d (d\<lparr>d_fails := f\<rparr>)"

text \<open>A state is reachable from an empty database by any sequence of operations, with accounts,
  hosts and the LDAP settings changed by others and the set of statements that fail changing at
  any point.\<close>

definition empty_db :: "(stmt \<Rightarrow> bool) \<Rightarrow> db" where
  "empty_db f = \<lparr>d_roles = tbl_empty, d_role_sections = [], d_role_hosts = [], d_user_roles = [],
     d_users = [], d_hosts = [], d_disabled = [], d_ldap_fallback = Some 0, d_fails = f\<rparr>"

inductive role_reachable :: "db \<Rightarrow> bool" where
  start: "role_reachable (empty_db f)"
| step: "role_reachable d \<Longrightarrow> role_step d d' \<Longrightarrow> role_reachable d'"

inductive_cases role_stepE: "role_step d d'"

section \<open>Every operation keeps the invariant\<close>

lemma db_wf_empty: "db_wf (empty_db f)"
  by (simp add: db_wf_def empty_db_def) (simp add: tbl_empty_def)

lemma distinct_pairs_append:
  "distinct (map (\<lambda>(r, s, w). (r, s)) (filter (\<lambda>(r, _). r \<noteq> i) xs
     @ map (\<lambda>x. (i, x)) (ys :: ('a \<times> 'b) list)))"
  if "distinct (map (\<lambda>(r, s, w). (r, s)) xs)" "distinct (map fst ys)"
proof -
  have "map (\<lambda>(r, s, w). (r, s)) (map (\<lambda>x. (i, x)) ys) = map (Pair i) (map fst ys)"
    by (induction ys) auto
  with that(2) have "distinct (map (\<lambda>(r, s, w). (r, s)) (map (\<lambda>x. (i, x)) ys))"
    by (simp add: distinct_map [of "Pair i"] inj_on_def del: map_map)
  moreover have "distinct (map (\<lambda>(r, s, w). (r, s)) (filter (\<lambda>(r, _). r \<noteq> i) xs))"
    using that(1) by (rule distinct_map_filter)
  ultimately show ?thesis by (auto simp del: map_map)
qed

lemma db_wf_replaceRoleSections [inv_intros]:
  assumes "db_wf d" and "i \<le> tbl_seq (d_roles d)" and "replaceRoleSections d i secs = (r, d')"
  shows "db_wf d'"
proof (cases r)
  case Inl
  with assms show ?thesis by (auto dest: replaceRoleSections_Inl)
next
  case (Inr u)
  with assms(3) have d': "d' = d\<lparr>d_role_sections := filter (\<lambda>(r, _). r \<noteq> i) (d_role_sections d)
      @ map (\<lambda>x. (i, x)) (clean_sections [] secs)\<rparr>"
    by (auto dest: replaceRoleSections_Inr)
  have "\<forall>(s, w) \<in> set (clean_sections [] secs). ValidSection s"
    using clean_sections_keys [of "[]" secs] by auto
  moreover have "distinct (map (\<lambda>(r, s, w). (r, s)) (d_role_sections d'))"
    using distinct_pairs_append [OF _ distinct_clean_sections,
        of "d_role_sections d" i "[]" secs] assms(1)
    by (simp add: db_wf_def d' del: map_append map_map)
  ultimately show ?thesis using assms(1,2)
    by (auto simp: db_wf_def d' simp del: map_append map_map)
qed

lemma db_wf_replaceRoleHosts [inv_intros]:
  assumes "db_wf d" and "i \<le> tbl_seq (d_roles d)" and "replaceRoleHosts d i hs = (r, d')"
  shows "db_wf d'"
proof (cases r)
  case Inl
  with assms show ?thesis by (auto dest: replaceRoleHosts_Inl)
next
  case (Inr u)
  with assms(3) have d': "d' = d\<lparr>d_role_hosts := filter (\<lambda>(r, _). r \<noteq> i) (d_role_hosts d)
      @ map (\<lambda>h. (i, h)) (clean_hosts hs)\<rparr>"
    by (auto dest: replaceRoleHosts_Inr)
  have "distinct (map (Pair i) (clean_hosts hs))" by (simp add: distinct_map distinct_dedup inj_on_def)
  with assms(1,2) d' show ?thesis by (auto simp: db_wf_def set_dedup)
qed

lemma db_wf_insert_role:
  assumes "db_wf d" and "role_named d (rr_name r) = None"
  shows "db_wf (d\<lparr>d_roles := snd (tbl_insert r (d_roles d))\<rparr>)"
proof -
  have "rr_name r \<notin> set (map (rr_name \<circ> snd) (tbl_rows (d_roles d)))"
    using assms(2) by (force simp: role_named_def find_None_iff)
  then have "distinct (map (rr_name \<circ> snd) (tbl_rows (snd (tbl_insert r (d_roles d)))))"
    using assms(1) by (simp add: db_wf_def tbl_insert_def Let_def)
  moreover have "tbl_lookup (snd (tbl_insert r (d_roles d))) j \<noteq> None"
    if "tbl_lookup (d_roles d) j \<noteq> None" for j
    using that assms(1) by (simp add: db_wf_def tbl_lookup_insert)
  ultimately show ?thesis using assms(1)
    by (simp add: db_wf_def tbl_wf_insert) (auto intro!: add_increasing2)
qed

lemma db_wf_CreateRole: "db_wf d \<Longrightarrow> db_wf (snd (CreateRole d r))"
proof -
  assume wf: "db_wf d"
  let ?row = "\<lparr>rr_name = trim_space (r_Name r), rr_description = r_Description r, rr_builtin = False\<rparr>"
  let ?d1 = "d\<lparr>d_roles := snd (tbl_insert ?row (d_roles d))\<rparr>"
  have ins: "tbl_insert ?row (d_roles d) = (tbl_seq (d_roles d) + 1, snd (tbl_insert ?row (d_roles d)))"
    by (metis prod.collapse tbl_insert_id)
  have wf1: "role_named d (trim_space (r_Name r)) = None \<Longrightarrow> db_wf ?d1"
    using db_wf_insert_role [OF wf, of ?row] by simp
  show ?thesis
  proof (cases "replaceRoleSections ?d1 (tbl_seq (d_roles d) + 1) (r_Sections r)")
    case (Pair x d2)
    note sec = this
    have wf2: "role_named d (trim_space (r_Name r)) = None \<Longrightarrow> db_wf d2"
      using db_wf_replaceRoleSections [OF wf1 _ sec] by simp
    obtain y d3 where hosts: "replaceRoleHosts d2 (tbl_seq (d_roles d) + 1) (r_HostIDs r) = (y, d3)"
      by (cases "replaceRoleHosts d2 (tbl_seq (d_roles d) + 1) (r_HostIDs r)")
    have "role_named d (trim_space (r_Name r)) = None \<Longrightarrow> db_wf d3"
      using db_wf_replaceRoleHosts [OF wf2 _ hosts] replaceRoleSections_frame [OF sec] by simp
    with wf wf2 show ?thesis
      unfolding CreateRole_def Let_def
      by (subst ins) (auto simp: sec hosts split: sum.splits)
  qed
qed

lemma role_named_unique:
  assumes "db_wf d" and "\<not> (case role_named d n of None \<Rightarrow> False | Some j \<Rightarrow> j \<noteq> i)"
    and "(j, r) \<in> set (tbl_rows (d_roles d))" and "rr_name r = n"
  shows "j = i"
proof (cases "find (\<lambda>(i, r). rr_name r = n) (tbl_rows (d_roles d))")
  case None
  with assms(3,4) show ?thesis by (auto simp: find_None_iff)
next
  case (Some y)
  have inj: "inj_on (rr_name \<circ> snd) (set (tbl_rows (d_roles d)))"
    using assms(1) by (simp add: db_wf_def distinct_map)
  obtain k r' where y: "y = (k, r')" by (cases y)
  with Some have "(k, r') \<in> set (tbl_rows (d_roles d))" "rr_name r' = n"
    by (auto simp: find_Some_iff dest: nth_mem)
  with inj assms(3,4) have "k = j" by (simp add: inj_on_def) force
  moreover have "k = i" using assms(2) Some y by (simp add: role_named_def)
  ultimately show ?thesis by simp
qed

lemma db_wf_rename_role:
  assumes wf: "db_wf d" and "\<not> (case role_named d n of None \<Rightarrow> False | Some j \<Rightarrow> j \<noteq> i)"
  shows "db_wf (d\<lparr>d_roles := tbl_update i (\<lambda>r. r\<lparr>rr_name := n, rr_description := x\<rparr>) (d_roles d)\<rparr>)"
proof -
  let ?rows = "tbl_rows (d_roles d)"
  let ?upd = "\<lambda>(j, r). (j, if j = i then r\<lparr>rr_name := n, rr_description := x\<rparr> else r)"
  have ids: "distinct (map fst ?rows)" and names: "distinct (map (rr_name \<circ> snd) ?rows)"
    using wf by (simp_all add: db_wf_def tbl_wf_def)
  have "inj_on (rr_name \<circ> snd \<circ> ?upd) (set ?rows)"
  proof (rule inj_onI)
    fix a b assume a: "a \<in> set ?rows" and b: "b \<in> set ?rows"
      and eq: "(rr_name \<circ> snd \<circ> ?upd) a = (rr_name \<circ> snd \<circ> ?upd) b"
    obtain j r k r' where [simp]: "a = (j, r)" "b = (k, r')" by (cases a; cases b)
    have id: "j = k \<Longrightarrow> a = b" using ids a b by (simp add: distinct_map inj_on_def) force
    have name: "rr_name r = rr_name r' \<Longrightarrow> a = b"
      using names a b by (simp add: distinct_map inj_on_def) force
    have new: "rr_name r' = n \<Longrightarrow> k = i" "rr_name r = n \<Longrightarrow> j = i"
      using role_named_unique [OF assms] a b by auto
    from eq consider "j = i" "k = i" | "j = i" "k \<noteq> i" "rr_name r' = n"
      | "j \<noteq> i" "k = i" "rr_name r = n" | "rr_name r = rr_name r'"
      by (cases "j = i"; cases "k = i") auto
    then show "a = b" using id name new by cases simp_all
  qed
  moreover have "distinct ?rows" using ids by (simp add: distinct_map)
  ultimately have "distinct (map (rr_name \<circ> snd) (tbl_rows
      (tbl_update i (\<lambda>r. r\<lparr>rr_name := n, rr_description := x\<rparr>) (d_roles d))))"
    by (simp add: tbl_update_def distinct_map comp_assoc)
  then show ?thesis using wf
    by (simp add: db_wf_def tbl_wf_update tbl_lookup_update) auto
qed

lemma RoleByID_lookup: "RoleByID d i = Inr r \<Longrightarrow> tbl_lookup (d_roles d) i \<noteq> None"
  by (auto simp: RoleByID_def split: if_splits option.splits)

lemma RoleByID_seq: "db_wf d \<Longrightarrow> RoleByID d i = Inr r \<Longrightarrow> i \<le> tbl_seq (d_roles d)"
  using RoleByID_lookup [of d i r] tbl_lookup_bounds [of "d_roles d" i]
  by (auto simp: db_wf_def)

lemma db_wf_UpdateRole: "db_wf d \<Longrightarrow> db_wf (snd (UpdateRole d i n x secs hs))"
proof -
  assume wf: "db_wf d"
  let ?n = "trim_space n"
  let ?d1 = "d\<lparr>d_roles := tbl_update i (\<lambda>r. r\<lparr>rr_name := ?n, rr_description := x\<rparr>) (d_roles d)\<rparr>"
  obtain y d2 where sec: "replaceRoleSections ?d1 i secs = (y, d2)"
    by (cases "replaceRoleSections ?d1 i secs")
  obtain z d3 where host: "replaceRoleHosts d2 i hs = (z, d3)" by (cases "replaceRoleHosts d2 i hs")
  have *: "db_wf d2 \<and> db_wf d3" if "RoleByID d i = Inr e"
      and "\<not> (case role_named d ?n of None \<Rightarrow> False | Some j \<Rightarrow> j \<noteq> i)" for e
    using db_wf_replaceRoleSections [OF db_wf_rename_role [OF wf that(2)] _ sec]
      db_wf_replaceRoleHosts [OF _ _ host] RoleByID_seq [OF wf that(1)]
      replaceRoleSections_frame [OF sec] by simp
  show ?thesis
    using wf * unfolding UpdateRole_def Let_def
    by (simp add: sec host split: sum.splits)
qed

lemma tbl_rows_delete: "tbl_rows (tbl_delete i t) = filter (\<lambda>(j, r). j \<noteq> i) (tbl_rows t)"
  by (simp add: tbl_delete_def)

lemma db_wf_DeleteRole: "db_wf d \<Longrightarrow> db_wf (snd (DeleteRole d i))"
  by (auto simp: DeleteRole_def Let_def db_wf_def tbl_wf_delete tbl_lookup_delete
      tbl_rows_delete distinct_map_filter split: sum.splits)

lemma db_wf_ins_user_roles:
  "db_wf d \<Longrightarrow> \<forall>x. (uid, x) \<in> set (d_user_roles d) \<longrightarrow> x \<in> set seen \<Longrightarrow>
     db_wf (snd (ins_user_roles d uid seen ids))"
proof (induction d uid seen ids rule: ins_user_roles.induct)
  case (2 d uid seen i rest)
  have "db_wf (d\<lparr>d_user_roles := d_user_roles d @ [(uid, i)]\<rparr>)"
    if "i \<notin> set seen" "RoleByID d i = Inr r" for r
    using "2.prems" that RoleByID_lookup [OF that(2)] by (auto simp: db_wf_def)
  with 2 show ?case by (auto split: sum.splits)
qed simp

lemma db_wf_SetUserRoles: "db_wf d \<Longrightarrow> db_wf (snd (SetUserRoles d uid ids))"
proof -
  assume "db_wf d"
  then have "db_wf (d\<lparr>d_user_roles := filter (\<lambda>(u, _). u \<noteq> uid) (d_user_roles d)\<rparr>)"
    by (auto simp: db_wf_def)
  then have "db_wf (snd (ins_user_roles
      (d\<lparr>d_user_roles := filter (\<lambda>(u, _). u \<noteq> uid) (d_user_roles d)\<rparr>) uid [] ids))"
    by (rule db_wf_ins_user_roles) auto
  with \<open>db_wf d\<close> show ?thesis by (simp add: SetUserRoles_def)
qed

lemma db_wf_seed_role: "db_wf d \<Longrightarrow> db_wf (snd (seed_role n x secs d))"
proof -
  assume wf: "db_wf d"
  let ?row = "\<lparr>rr_name = n, rr_description = x, rr_builtin = True\<rparr>"
  let ?d1 = "d\<lparr>d_roles := snd (tbl_insert ?row (d_roles d))\<rparr>"
  have ins: "tbl_insert ?row (d_roles d) = (tbl_seq (d_roles d) + 1, snd (tbl_insert ?row (d_roles d)))"
    by (metis prod.collapse tbl_insert_id)
  have "db_wf (snd (replaceRoleSections ?d1 (tbl_seq (d_roles d) + 1) secs))"
    if "role_named d n = None"
    using db_wf_replaceRoleSections [OF db_wf_insert_role [OF wf], of ?row] that
    by (metis (no_types, lifting) order_refl prod.collapse role_row.select_convs(1)
        db.select_convs(1) db.surjective db.update_convs(1) tbl_seq_simps(1))
  with wf show ?thesis unfolding seed_role_def Let_def by (subst ins) auto
qed

lemma db_wf_seedBuiltinRoles: "db_wf d \<Longrightarrow> db_wf (snd (seedBuiltinRoles d))"
  using db_wf_seed_role [of d] unfolding seedBuiltinRoles_def
  by (auto split: prod.splits sum.splits) (metis db_wf_seed_role snd_conv)+

lemma db_wf_others:
  "db_wf (d\<lparr>d_users := us, d_hosts := hs, d_ldap_fallback := fb\<rparr>) = db_wf d"
  "db_wf (d\<lparr>d_fails := f\<rparr>) = db_wf d"
  by (simp_all add: db_wf_def)

lemma role_step_wf: "role_step d d' \<Longrightarrow> db_wf d \<Longrightarrow> db_wf d'"
proof (induction rule: role_step.induct)
  case (disable d keys)
  then show ?case by (auto simp: SetDisabledSections_def Let_def db_wf_def list_all_iff)
qed (simp_all add: db_wf_others db_wf_seedBuiltinRoles db_wf_CreateRole db_wf_UpdateRole db_wf_DeleteRole
    db_wf_SetUserRoles)

lemma role_reachable_wf: "role_reachable d \<Longrightarrow> db_wf d"
  by (induction rule: role_reachable.induct) (auto intro: db_wf_empty role_step_wf)


section \<open>What one step can change\<close>

text \<open>The part of the state that is about one role.\<close>

definition role_part :: "db \<Rightarrow> int \<Rightarrow> role_row option \<times> (string \<times> bool) list \<times> int list" where
  "role_part d i = (tbl_lookup (d_roles d) i, role_grant_rows d i, role_host_rows d i)"

lemma role_part_cong:
  "d_roles d' = d_roles d \<Longrightarrow> d_role_sections d' = d_role_sections d \<Longrightarrow>
     d_role_hosts d' = d_role_hosts d \<Longrightarrow> role_part d' j = role_part d j"
  by (simp add: role_part_def role_grant_rows_def role_host_rows_def)

lemma role_part_replaceRoleSections:
  "replaceRoleSections d i secs = (r, d') \<Longrightarrow> j \<noteq> i \<Longrightarrow> role_part d' j = role_part d j"
  using sec_tx.other_rows [of j i d secs] replaceRoleSections_frame [of d i secs r d']
  by (simp add: role_part_def role_host_rows_def)

lemma role_part_replaceRoleHosts:
  "replaceRoleHosts d i hs = (r, d') \<Longrightarrow> j \<noteq> i \<Longrightarrow> role_part d' j = role_part d j"
  using host_tx.other_rows [of j i d hs] replaceRoleHosts_frame [of d i hs r d']
  by (simp add: role_part_def role_grant_rows_def)

text \<open>What \<open>CreateRole\<close> does when it succeeds, and what it never touches.\<close>

lemma CreateRole_cases:
  obtains (refused) e where "CreateRole d r = (Inl e, d)"
  | (tried) n d1 x d2 y d3 where "n = trim_space (r_Name r)" "n \<noteq> []" "role_named d n = None"
      "d1 = d\<lparr>d_roles := snd (tbl_insert \<lparr>rr_name = n, rr_description = r_Description r,
          rr_builtin = False\<rparr> (d_roles d))\<rparr>"
      "replaceRoleSections d1 (tbl_seq (d_roles d) + 1) (r_Sections r) = (x, d2)"
      "replaceRoleHosts d2 (tbl_seq (d_roles d) + 1) (r_HostIDs r) = (y, d3)"
      "CreateRole d r = (case x of Inl e \<Rightarrow> (Inl e, d2)
         | Inr _ \<Rightarrow> (case y of Inl e \<Rightarrow> (Inl e, d3) | Inr _ \<Rightarrow> (Inr (tbl_seq (d_roles d) + 1), d3)))"
proof -
  let ?n = "trim_space (r_Name r)"
  let ?row = "\<lparr>rr_name = ?n, rr_description = r_Description r, rr_builtin = False\<rparr>"
  let ?d1 = "d\<lparr>d_roles := snd (tbl_insert ?row (d_roles d))\<rparr>"
  obtain x d2 where sec: "replaceRoleSections ?d1 (tbl_seq (d_roles d) + 1) (r_Sections r) = (x, d2)"
    by fastforce
  obtain y d3 where host: "replaceRoleHosts d2 (tbl_seq (d_roles d) + 1) (r_HostIDs r) = (y, d3)"
    by fastforce
  show thesis
  proof (cases "?n = [] \<or> d_fails d (InsRole ?n) \<or> role_named d ?n \<noteq> None")
    case True
    then have "\<exists>e. CreateRole d r = (Inl e, d)" by (auto simp: CreateRole_def Let_def)
    then show thesis using refused by blast
  next
    case False
    then show thesis
      by (intro tried [OF refl _ _ refl sec host])
        (auto simp: CreateRole_def Let_def case_prod_unfold sec host split: sum.splits)
  qed
qed

lemma role_part_CreateRole:
  assumes "db_wf d" and "j \<le> tbl_seq (d_roles d)"
  shows "role_part (snd (CreateRole d r)) j = role_part d j"
proof (cases rule: CreateRole_cases [of d r])
  case (tried n d1 x d2 y d3)
  have "role_part d1 j = role_part d j"
    using assms tried(4) by (simp add: role_part_def role_grant_rows_def role_host_rows_def
        db_wf_def tbl_lookup_insert)
  moreover have "role_part d2 j = role_part d1 j"
    using role_part_replaceRoleSections [OF tried(5)] assms(2) by simp
  moreover have "role_part d3 j = role_part d2 j"
    using role_part_replaceRoleHosts [OF tried(6)] assms(2) by simp
  ultimately show ?thesis using tried(7) by (cases x; cases y) simp_all
qed simp

lemma role_part_UpdateRole:
  "j \<noteq> i \<or> (\<exists>r. tbl_lookup (d_roles d) i = Some r \<and> rr_builtin r) \<Longrightarrow>
     role_part (snd (UpdateRole d i n x secs hs)) j = role_part d j"
proof -
  assume j: "j \<noteq> i \<or> (\<exists>r. tbl_lookup (d_roles d) i = Some r \<and> rr_builtin r)"
  show ?thesis
  proof (cases "\<exists>r. tbl_lookup (d_roles d) i = Some r \<and> rr_builtin r")
    case True
    then show ?thesis
      by (auto simp: UpdateRole_def RoleByID_def fill_role_def bind_res_Inr_iff
          split: sum.splits)
  next
    case False
    let ?d1 = "d\<lparr>d_roles := tbl_update i
      (\<lambda>r. r\<lparr>rr_name := trim_space n, rr_description := x\<rparr>) (d_roles d)\<rparr>"
    have ji: "j \<noteq> i" using j False by simp
    obtain y d2 where sec: "replaceRoleSections ?d1 i secs = (y, d2)" by fastforce
    obtain z d3 where host: "replaceRoleHosts d2 i hs = (z, d3)" by fastforce
    have "role_part ?d1 j = role_part d j"
      using ji by (simp add: role_part_def role_grant_rows_def role_host_rows_def tbl_lookup_update)
    with role_part_replaceRoleSections [OF sec ji] role_part_replaceRoleHosts [OF host ji]
    show ?thesis unfolding UpdateRole_def Let_def
      by (simp add: sec host split: sum.splits)
  qed
qed

lemma filter_other_role:
  "j \<noteq> i \<Longrightarrow> filter (\<lambda>(r, _). r = j) (filter (\<lambda>(r, h). r \<noteq> i) xs) = filter (\<lambda>(r, _). r = j) xs"
  by (induction xs) auto

lemma DeleteRole_builtin:
  "tbl_lookup (d_roles d) i = Some r \<Longrightarrow> rr_builtin r \<Longrightarrow> snd (DeleteRole d i) = d"
  by (auto simp: DeleteRole_def RoleByID_def fill_role_def bind_res_Inr_iff split: sum.splits)

lemma DeleteRole_Inr:
  "DeleteRole d i = (Inr u, d') \<Longrightarrow>
     d' = d\<lparr>d_user_roles := filter (\<lambda>(u, r). r \<noteq> i) (d_user_roles d),
            d_role_hosts := filter (\<lambda>(r, h). r \<noteq> i) (d_role_hosts d),
            d_roles := tbl_delete i (d_roles d)\<rparr>"
  by (auto simp: DeleteRole_def Let_def split: sum.splits if_splits)

lemma role_part_DeleteRole:
  assumes "j \<noteq> i \<or> (\<exists>r. tbl_lookup (d_roles d) i = Some r \<and> rr_builtin r)"
  shows "role_part (snd (DeleteRole d i)) j = role_part d j"
  using assms
proof
  assume "j \<noteq> i"
  then have "role_part (d\<lparr>d_user_roles := ur, d_role_hosts := filter (\<lambda>(r, h). r \<noteq> i) (d_role_hosts d),
      d_roles := tbl_delete i (d_roles d)\<rparr>) j = role_part d j"
    and "role_part (d\<lparr>d_user_roles := ur, d_role_hosts := filter (\<lambda>(r, h). r \<noteq> i) (d_role_hosts d)\<rparr>) j
      = role_part d j"
    and "role_part (d\<lparr>d_user_roles := ur\<rparr>) j = role_part d j" for ur
    by (simp_all add: role_part_def role_grant_rows_def role_host_rows_def tbl_lookup_delete
        filter_other_role del: filter_filter)
  then show ?thesis by (simp add: DeleteRole_def Let_def split: sum.splits)
next
  assume "\<exists>r. tbl_lookup (d_roles d) i = Some r \<and> rr_builtin r"
  then show ?thesis using DeleteRole_builtin by metis
qed

lemma ins_user_roles_frame:
  "\<exists>ur. snd (ins_user_roles d uid seen ids) = d\<lparr>d_user_roles := ur\<rparr>"
proof (induction d uid seen ids rule: ins_user_roles.induct)
  case (1 d uid seen)
  have "d = d\<lparr>d_user_roles := d_user_roles d\<rparr>" by simp
  then show ?case by (metis ins_user_roles.simps(1) snd_conv)
next
  case (2 d uid seen i rest)
  have "d = d\<lparr>d_user_roles := d_user_roles d\<rparr>" by simp
  then have "\<exists>ur. d = d\<lparr>d_user_roles := ur\<rparr>" by metis
  with 2 show ?case by (auto split: sum.splits)
qed

lemma role_part_SetUserRoles: "role_part (snd (SetUserRoles d uid ids)) j = role_part d j"
proof -
  obtain ur where "snd (ins_user_roles
      (d\<lparr>d_user_roles := filter (\<lambda>(u, _). u \<noteq> uid) (d_user_roles d)\<rparr>) uid [] ids)
      = d\<lparr>d_user_roles := ur\<rparr>"
    using ins_user_roles_frame [of
        "d\<lparr>d_user_roles := filter (\<lambda>(u, _). u \<noteq> uid) (d_user_roles d)\<rparr>" uid "[]" ids]
    by auto
  then show ?thesis by (auto simp: SetUserRoles_def intro!: role_part_cong)
qed

lemma role_part_seed_role:
  assumes "db_wf d" and "j \<le> tbl_seq (d_roles d)"
  shows "role_part (snd (seed_role n x secs d)) j = role_part d j
    \<and> tbl_seq (d_roles d) \<le> tbl_seq (d_roles (snd (seed_role n x secs d)))"
proof -
  let ?row = "\<lparr>rr_name = n, rr_description = x, rr_builtin = True\<rparr>"
  let ?d1 = "d\<lparr>d_roles := snd (tbl_insert ?row (d_roles d))\<rparr>"
  obtain y d2 where sec: "replaceRoleSections ?d1 (tbl_seq (d_roles d) + 1) secs = (y, d2)"
    by fastforce
  have "role_part ?d1 j = role_part d j"
    using assms by (simp add: role_part_def role_grant_rows_def role_host_rows_def db_wf_def
        tbl_lookup_insert)
  with role_part_replaceRoleSections [OF sec, of j] replaceRoleSections_frame [OF sec] assms(2)
  show ?thesis by (simp add: seed_role_def Let_def case_prod_unfold sec)
qed

lemma role_part_two_seeds:
  assumes "db_wf d" and "j \<le> tbl_seq (d_roles d)"
  shows "role_part (snd (case seed_role n x secs d of
      (Inl e, d1) \<Rightarrow> (Err e, d1) | (Inr _, d1) \<Rightarrow> seed_role n' x' secs' d1)) j = role_part d j"
proof -
  obtain y d1 where s: "seed_role n x secs d = (y, d1)" by fastforce
  have p: "role_part d1 j = role_part d j \<and> tbl_seq (d_roles d) \<le> tbl_seq (d_roles d1)"
    using role_part_seed_role [OF assms, of n x secs] s by simp
  have "db_wf d1" using db_wf_seed_role [OF assms(1), of n x secs] s by simp
  then have "role_part (snd (seed_role n' x' secs' d1)) j = role_part d1 j"
    using role_part_seed_role p assms(2) by (meson order_trans)
  with p show ?thesis by (cases y) (simp_all add: s)
qed

lemma role_part_seedBuiltinRoles:
  "db_wf d \<Longrightarrow> j \<le> tbl_seq (d_roles d) \<Longrightarrow> role_part (snd (seedBuiltinRoles d)) j = role_part d j"
  unfolding seedBuiltinRoles_def by (rule role_part_two_seeds)

lemma role_part_step:
  assumes "role_step d d'" and "db_wf d" and "tbl_lookup (d_roles d) i = Some r" and "rr_builtin r"
  shows "role_part d' i = role_part d i"
proof -
  have i: "i \<le> tbl_seq (d_roles d)"
    using assms(2,3) tbl_lookup_bounds [of "d_roles d" i r] by (simp add: db_wf_def)
  from assms(1) show ?thesis
  proof cases
    case (update k n x secs hs)
    then show ?thesis using role_part_UpdateRole [of i k d] assms(3,4) by metis
  next
    case (delete k)
    then show ?thesis using role_part_DeleteRole [of i k d] assms(3,4) by metis
  next
    case (disable keys)
    then show ?thesis
      by (auto simp: SetDisabledSections_def Let_def intro: role_part_cong)
  next
    case (others us hs fb)
    show ?thesis unfolding others by (rule role_part_cong) simp_all
  next
    case (fault f)
    then show ?thesis by (auto intro: role_part_cong)
  qed (use role_part_CreateRole role_part_seedBuiltinRoles role_part_SetUserRoles assms(2) i in auto)
qed


section \<open>Properties\<close>

lemma CreateRole_Inr:
  assumes "CreateRole d r = (Inr i, d')"
  shows "i = tbl_seq (d_roles d) + 1
    \<and> d_roles d' = snd (tbl_insert \<lparr>rr_name = trim_space (r_Name r),
        rr_description = r_Description r, rr_builtin = False\<rparr> (d_roles d))
    \<and> role_grant_rows d' i = clean_sections [] (r_Sections r)
    \<and> role_host_rows d' i = clean_hosts (r_HostIDs r)
    \<and> d_user_roles d' = d_user_roles d \<and> d_fails d' = d_fails d"
proof (cases rule: CreateRole_cases [of d r])
  case (tried n d1 x d2 y d3)
  then obtain u v where ok: "x = Inr u" "y = Inr v" and i: "i = tbl_seq (d_roles d) + 1" "d' = d3"
    using assms by (auto split: sum.splits)
  have "role_grant_rows d2 i = clean_sections [] (r_Sections r)"
    using sec_tx.replaced [of d1 i "r_Sections r" u d2 i] tried(5) ok i by simp
  moreover have "role_grant_rows d3 i = role_grant_rows d2 i"
    using replaceRoleHosts_frame [OF tried(6)] by (simp add: role_grant_rows_def)
  moreover have "role_host_rows d3 i = clean_hosts (r_HostIDs r)"
    using host_tx.replaced [of d2 i "r_HostIDs r" v d3 i] tried(6) ok i by simp
  ultimately show ?thesis
    using replaceRoleSections_frame [OF tried(5)] replaceRoleHosts_frame [OF tried(6)] tried(1,4) i
    by simp
qed (use assms in simp)

lemma roleSections_rows:
  "roleSections d i = query d (SelRoleSections i)
     (map (\<lambda>(s, w). \<lparr>rs_Section = s, rs_Write = w\<rparr>) (sort_key fst (role_grant_rows d i)))"
  and roleHosts_rows: "roleHosts d i = query d (SelRoleHosts i) (sort (role_host_rows d i))"
  by (simp_all add: roleSections_def roleHosts_def role_grant_rows_def role_host_rows_def)

lemma user_roles_below:
  "db_wf d \<Longrightarrow> (u, r) \<in> set (d_user_roles d) \<Longrightarrow> r \<le> tbl_seq (d_roles d)"
  using tbl_lookup_bounds [of "d_roles d" r] by (force simp: db_wf_def)

text \<open>A store as the server first finds it after seeding its built-in roles, with one role of
  its own.\<close>

definition new_role :: Role where
  "new_role = \<lparr>r_ID = 0, r_Name = '' Deployer '', r_Description = ''ships'', r_Builtin = False,
     r_Sections = [\<lparr>rs_Section = ''projects'', rs_Write = True\<rparr>, \<lparr>rs_Section = ''images'', rs_Write = False\<rparr>,
       \<lparr>rs_Section = ''projects'', rs_Write = False\<rparr>, \<lparr>rs_Section = ''moon'', rs_Write = True\<rparr>],
     r_HostIDs = [5, 2, 5, -1]\<rparr>"

definition seeded_db :: db where
  "seeded_db = snd (seedBuiltinRoles (empty_db (\<lambda>_. False)))"

definition custom_db :: db where
  "custom_db = snd (CreateRole seeded_db new_role)"

lemma seeded_reachable: "role_reachable seeded_db"
  unfolding seeded_db_def by (rule role_reachable.step [OF role_reachable.start role_step.seed])

lemma custom_reachable: "role_reachable custom_db"
  unfolding custom_db_def by (rule role_reachable.step [OF seeded_reachable role_step.create])

lemma custom_eval:
  "CreateRole seeded_db new_role = (Inr 3, custom_db)"
  "DeleteRole custom_db 3 = (Inr (), snd (DeleteRole custom_db 3))"
proof -
  have "fst (CreateRole seeded_db new_role) = Inr 3" by code_simp
  then show "CreateRole seeded_db new_role = (Inr 3, custom_db)"
    by (simp add: custom_db_def prod_eq_iff)
  have "fst (DeleteRole custom_db 3) = Inr ()" by code_simp
  then show "DeleteRole custom_db 3 = (Inr (), snd (DeleteRole custom_db 3))"
    by (simp add: prod_eq_iff)
qed

lemma seeded_reads: "\<not> d_fails seeded_db (SelRole 3)" "\<not> d_fails seeded_db (SelRoleSections 3)"
  "\<not> d_fails seeded_db (SelRoleHosts 3)"
  by code_simp+

text \<open>C28. In every state the store can reach, whatever operations ran and whatever statements
  failed, the role tables are well formed: ids and names are unique, no grant names an unknown
  section, no scope names a host id that is not positive, and no account is assigned a role that
  does not exist.\<close>

theorem role_tables_invariant: "role_reachable d \<Longrightarrow> db_wf d"
  by (rule role_reachable_wf)

theorem role_tables_invariant_witness: "role_reachable custom_db \<and> db_wf custom_db"
  using custom_reachable role_tables_invariant [OF custom_reachable] by blast

text \<open>A role that was created is read back as it was given, cleaned: trimmed name, known
  sections once each in order of their keys, positive host ids once each in order; no account
  holds it yet, although rows of deleted roles may still be in the tables, and what is stored of
  every older role is unchanged.\<close>

theorem CreateRole_roundtrip:
  assumes "role_reachable d" and "CreateRole d r = (Inr i, d')"
    and "\<not> d_fails d (SelRole i)" and "\<not> d_fails d (SelRoleSections i)"
    and "\<not> d_fails d (SelRoleHosts i)"
  shows "RoleByID d' i = Inr \<lparr>r_ID = i, r_Name = trim_space (r_Name r),
      r_Description = r_Description r, r_Builtin = False,
      r_Sections = map (\<lambda>(s, w). \<lparr>rs_Section = s, rs_Write = w\<rparr>)
        (sort_key fst (clean_sections [] (r_Sections r))),
      r_HostIDs = sort (clean_hosts (r_HostIDs r))\<rparr>
    \<and> (\<forall>u. \<not> holds_role d' u i)
    \<and> (\<forall>j. tbl_lookup (d_roles d) j \<noteq> None \<longrightarrow> role_part d' j = role_part d j)"
proof -
  have wf: "db_wf d" using assms(1) by (rule role_reachable_wf)
  then have twf: "tbl_wf (d_roles d)" by (simp add: db_wf_def)
  note c = CreateRole_Inr [OF assms(2)]
  have "tbl_lookup (d_roles d') i = Some \<lparr>rr_name = trim_space (r_Name r),
        rr_description = r_Description r, rr_builtin = False\<rparr>"
    using c tbl_lookup_insert [OF twf] by simp
  moreover have "\<not> holds_role d' u i" for u
    using user_roles_below [OF wf, of "u_ID u" i] c by (auto simp: holds_role_def)
  moreover have "role_part d' j = role_part d j" if "tbl_lookup (d_roles d) j \<noteq> None" for j
    using role_part_CreateRole [OF wf, of j r] tbl_lookup_bounds [OF twf] that assms(2) by fastforce
  moreover have "role_grant_rows d' i = clean_sections [] (r_Sections r)"
    "role_host_rows d' i = clean_hosts (r_HostIDs r)" "d_fails d' = d_fails d"
    using c by blast+
  ultimately show ?thesis
    using assms(3-5)
    by (simp add: RoleByID_def fill_role_def roleSections_rows roleHosts_rows query_def)
qed

theorem CreateRole_roundtrip_witness:
  "CreateRole seeded_db new_role = (Inr 3, custom_db)
   \<and> RoleByID custom_db 3 = Inr \<lparr>r_ID = 3, r_Name = ''Deployer'', r_Description = ''ships'',
       r_Builtin = False, r_Sections = [\<lparr>rs_Section = ''images'', rs_Write = False\<rparr>,
         \<lparr>rs_Section = ''projects'', rs_Write = True\<rparr>], r_HostIDs = [2, 5]\<rparr>"
proof -
  have "trim_space (r_Name new_role) = ''Deployer''"
    "sort_key fst (clean_sections [] (r_Sections new_role)) = [(''images'', False), (''projects'', True)]"
    "sort (clean_hosts (r_HostIDs new_role)) = [2, 5]" by code_simp+
  moreover have "r_Description new_role = ''ships''" by (simp add: new_role_def)
  ultimately show ?thesis
    using CreateRole_roundtrip [OF seeded_reachable custom_eval(1) seeded_reads] custom_eval(1)
    by simp
qed

text \<open>After a role was deleted it is gone for good: it is not found, no account holds it, no
  role created next gets its id, and the access of an account that did not hold it is what it
  was.\<close>

theorem DeleteRole_complete:
  assumes "role_reachable d" and "DeleteRole d i = (Inr u, d')"
  shows "tbl_lookup (d_roles d') i = None \<and> (\<forall>v. \<not> holds_role d' v i)
    \<and> (\<forall>r. fst (CreateRole d' r) \<noteq> Inr i)
    \<and> (\<forall>v s h. \<not> holds_role d v i \<longrightarrow> may_read d' v s = may_read d v s
         \<and> may_write d' v s = may_write d v s \<and> may_host d' v s h = may_host d v s h)"
proof -
  have wf: "db_wf d" using assms(1) by (rule role_reachable_wf)
  then have twf: "tbl_wf (d_roles d)" by (simp add: db_wf_def)
  note d' = DeleteRole_Inr [OF assms(2)]
  obtain existing where "RoleByID d i = Inr existing"
    using assms(2) by (auto simp: DeleteRole_def split: sum.splits)
  then have i: "i \<le> tbl_seq (d_roles d)" by (rule RoleByID_seq [OF wf])
  have "fst (CreateRole d' r) \<noteq> Inr i" for r
    using CreateRole_Inr [of d' r i] i d' by (cases "CreateRole d' r") auto
  moreover have "source d' v s w hs = source d v s w hs" if v: "\<not> holds_role d v i" for v s w hs
  proof -
    have holds: "holds_role d' v r \<longleftrightarrow> holds_role d v r" for r
      using v d' by (auto simp: holds_role_def)
    have scope: "role_scope d' r = role_scope d r" if "r \<noteq> i" for r
      using that d' by (auto simp: role_scope_def)
    have secs: "d_role_sections d' = d_role_sections d" using d' by simp
    have "(holds_role d' v r \<and> (r, s, w) \<in> set (d_role_sections d')
          \<and> hs = (if role_scope d' r = {} then None else Some (role_scope d' r)))
        = (holds_role d v r \<and> (r, s, w) \<in> set (d_role_sections d)
          \<and> hs = (if role_scope d r = {} then None else Some (role_scope d r)))" for r
      using v scope [of r] secs by (cases "r = i") (simp_all add: holds)
    then show ?thesis unfolding source_def by simp
  qed
  then have "\<not> holds_role d v i \<longrightarrow> may_read d' v s = may_read d v s
      \<and> may_write d' v s = may_write d v s \<and> may_host d' v s h = may_host d v s h" for v s h
    using d' by (simp add: may_read_def may_write_def may_host_def)
  ultimately show ?thesis using d' by (auto simp: tbl_lookup_delete holds_role_def)
qed

theorem DeleteRole_complete_witness:
  "role_reachable custom_db \<and> DeleteRole custom_db 3 = (Inr (), snd (DeleteRole custom_db 3))
   \<and> tbl_lookup (d_roles custom_db) 3 \<noteq> None
   \<and> tbl_lookup (d_roles (snd (DeleteRole custom_db 3))) 3 = None
   \<and> fst (CreateRole (snd (DeleteRole custom_db 3)) new_role) \<noteq> Inr 3"
proof -
  have "tbl_lookup (d_roles custom_db) 3 \<noteq> None" by code_simp
  then show ?thesis
    using DeleteRole_complete [OF custom_reachable custom_eval(2)] custom_reachable custom_eval(2)
    by blast
qed

text \<open>C37. No operation changes a built-in role: its row, its section grants and its host scope
  are the same after any step, be it an update or a deletion of that very role.\<close>

theorem builtin_roles_immutable:
  assumes "role_reachable d" and "role_step d d'"
    and "tbl_lookup (d_roles d) i = Some r" and "rr_builtin r"
  shows "tbl_lookup (d_roles d') i = Some r \<and> role_grant_rows d' i = role_grant_rows d i
    \<and> role_host_rows d' i = role_host_rows d i"
  using role_part_step [OF assms(2) role_reachable_wf [OF assms(1)] assms(3,4)] assms(3)
  by (simp add: role_part_def)

theorem builtin_roles_immutable_witness:
  "role_reachable seeded_db \<and> role_step seeded_db (snd (DeleteRole seeded_db 1))
   \<and> (\<exists>r. tbl_lookup (d_roles seeded_db) 1 = Some r \<and> rr_builtin r
        \<and> tbl_lookup (d_roles (snd (DeleteRole seeded_db 1))) 1 = Some r)"
proof -
  have "case tbl_lookup (d_roles seeded_db) 1 of None \<Rightarrow> False | Some r \<Rightarrow> rr_builtin r"
    by code_simp
  then obtain r where r: "tbl_lookup (d_roles seeded_db) 1 = Some r" "rr_builtin r"
    by (auto split: option.splits)
  show ?thesis
    using builtin_roles_immutable [OF seeded_reachable role_step.delete [of seeded_db 1] r] r
      seeded_reachable role_step.delete [of seeded_db 1] by blast
qed

text \<open>C40. Replacing the grants of a role is all or nothing: when it returns without error the
  role has exactly the cleaned grants, and on any error (a failing delete, insert in the middle,
  or commit) the database is as it was; the same for the host scope.\<close>

theorem replaceRole_atomic:
  "(if is_ok (fst (replaceRoleSections d i secs))
    then role_grant_rows (snd (replaceRoleSections d i secs)) i = clean_sections [] secs
    else snd (replaceRoleSections d i secs) = d)
   \<and> (if is_ok (fst (replaceRoleHosts d i hs))
      then role_host_rows (snd (replaceRoleHosts d i hs)) i = clean_hosts hs
      else snd (replaceRoleHosts d i hs) = d)"
  using sec_tx.all_or_nothing [of d i secs] host_tx.all_or_nothing [of d i hs] by auto

end
