(* ===== verification/Access.thy ===== *)
theory Access
  imports Grants
begin

text \<open>
  The RBAC gate of the HTTP server, \<open>src/internal/api/access_middleware.go\<close>: which section a
  path belongs to, which requests count as writes, \<open>checkAccess\<close>, the \<open>permissions\<close>
  middleware in front of every handler, and the filters for views over several hosts. A request is
  what these functions read of an \<open>http.Request\<close>: the method, the path, the query parameter
  \<open>host\<close> (empty when absent) and the user id of the claims in its context, if it has any; the
  name in those claims and the remote address go into audit entries. A
  denial is a value of \<open>denial\<close>; its texts are those of the code.
\<close>

record request =
  rq_Method :: string
  rq_Path :: path
  rq_Host :: string
  rq_Claims :: "int option"
  rq_Username :: string
  rq_RemoteAddr :: string

datatype denial = AdminOnly | CannotDetermine | NotPermitted | AccountReadOnly | SectionReadOnly
  | HostNotIncluded

datatype response = Next | BadRequest | Unauthorized | Forbidden denial | ForbiddenHost

section \<open>Paths\<close>

definition sectionForInspectKind :: "string \<Rightarrow> string" where
  "sectionForInspectKind p =
     (let kind = (case after_byte CHR ''/'' p of None \<Rightarrow> [] | Some r \<Rightarrow> before_byte CHR ''/'' r)
      in if kind = ''image'' then ''images''
         else if kind = ''volume'' then ''volumes''
         else if kind = ''network'' then ''networks''
         else ''containers'')"

definition sectionForPath :: "path \<Rightarrow> string" where
  "sectionForPath path =
     (let p = trim_prefix ''/api/'' path;
          seg = before_byte CHR ''/'' p
      in if seg \<in> {''containers'', ''stacks''} then ''containers''
         else if seg \<in> {''projects'', ''project-templates'', ''service-blocks'', ''compose-fragments''}
           then ''projects''
         else if seg = ''images'' then ''images''
         else if seg = ''volumes'' then ''volumes''
         else if seg = ''networks'' then ''networks''
         else if seg = ''topology'' then ''topology''
         else if seg = ''events'' then ''events''
         else if seg = ''parse-rules'' then ''logs''
         else if seg \<in> {''alerts'', ''alert-rules'', ''webhooks'', ''maintenance-windows''} then ''alerts''
         else if seg = ''smtp'' then ''__admin''
         else if seg = ''hosts'' then ''hosts''
         else if seg = ''registries'' then ''registries''
         else if seg = ''audit'' then ''audit''
         else if seg = ''diagnostics'' then ''diagnostics''
         else if seg \<in> {''users'', ''roles'', ''settings'', ''ldap'', ''update'', ''mcp-admin'', ''policy-rules''}
           then ''__admin''
         else if seg = ''recovery'' then ''__admin''
         else if seg = ''backup-jobs'' then ''__admin''
         else if seg = ''stats'' then ''dashboard''
         else if seg = ''system'' then (if has_prefix ''system/df'' p then ''dashboard'' else [])
         else if seg = ''inspect'' then sectionForInspectKind p
         else [])"

definition isRawDataDownload :: "path \<Rightarrow> bool" where
  "isRawDataDownload path =
     (let p = trim_prefix ''/api/'' path; parts = split_on CHR ''/'' p
      in length parts = 3 \<and> parts ! 0 = ''containers'' \<and> parts ! 2 = ''export''
       \<or> length parts = 4 \<and> (parts ! 0 = ''containers'' \<or> parts ! 0 = ''volumes'')
           \<and> parts ! 2 = ''files'' \<and> parts ! 3 = ''download''
       \<or> p = ''images/save'')"

definition write_suffixes :: "string list" where
  "write_suffixes = [''/exec'', ''/pull'', ''/push'', ''/scan'', ''/stats/ports'', ''/bulk-pull'']"

definition isWriteRequest :: "request \<Rightarrow> bool" where
  "isWriteRequest r =
     (rq_Method r \<in> {''POST'', ''PUT'', ''PATCH'', ''DELETE''}
      \<or> list_ex (\<lambda>s. has_suffix s (rq_Path r)) write_suffixes
      \<or> isRawDataDownload (rq_Path r))"

definition sectionForRequest :: "request \<Rightarrow> string" where
  "sectionForRequest r =
     (let section = sectionForPath (rq_Path r); p = trim_prefix ''/api/'' (rq_Path r)
      in if (p = ''webhooks'' \<or> has_prefix ''webhooks/'' p) \<and> isWriteRequest r then ''__admin''
         else section)"

text \<open>The pair of Go is an option: \<open>None\<close> is \<open>ok = false\<close>.\<close>

definition wsChannelSection :: "string \<Rightarrow> string option" where
  "wsChannelSection channel =
     (if channel = ''stats'' \<or> channel = ''logs'' then Some ''containers'' else None)"

definition hostParam :: "request \<Rightarrow> int option" where
  "hostParam r =
     (if rq_Host r = [] then Some 0
      else case parse_int64 (rq_Host r) of
        None \<Rightarrow> None
      | Some i \<Rightarrow> if i < 0 then Some 0 else Some i)"

section \<open>The gate\<close>

definition checkAccess :: "db \<Rightarrow> User \<Rightarrow> string \<Rightarrow> bool \<Rightarrow> int \<Rightarrow> denial option" where
  "checkAccess d u section write h =
     (if section = [] then None
      else if section = ''__admin'' then (if \<not> IsAdmin u then Some AdminOnly else None)
      else if IsAdmin u then None
      else case EffectiveGrants d (Some u) of
        Inl _ \<Rightarrow> Some CannotDetermine
      | Inr grants \<Rightarrow>
        (case map_of grants section of
           None \<Rightarrow> Some NotPermitted
         | Some g \<Rightarrow>
           if \<not> g_Granted g then Some NotPermitted
           else if write \<and> \<not> g_Write g
             then (if u_ReadOnly u then Some AccountReadOnly else Some SectionReadOnly)
           else if \<not> HasHost g (NormalizeHostID d h) then Some HostNotIncluded
           else None))"

definition callerCanReachHost :: "db \<Rightarrow> request \<Rightarrow> int \<Rightarrow> bool" where
  "callerCanReachHost d r h =
     (case rq_Claims r of None \<Rightarrow> False
      | Some uid \<Rightarrow>
        (case UserByID d uid of Inl _ \<Rightarrow> False
         | Inr u \<Rightarrow> if IsAdmin u then True
             else (case CanReachHost d u h of Inl _ \<Rightarrow> False | Inr ok \<Rightarrow> ok)))"

definition permissions :: "db \<Rightarrow> request \<Rightarrow> response" where
  "permissions d r =
     (let section = sectionForRequest r; hp = hostParam r
      in if section = [] then
           (case hp of None \<Rightarrow> BadRequest
            | Some h \<Rightarrow> if h \<noteq> 0 \<and> \<not> callerCanReachHost d r h then ForbiddenHost else Next)
         else case rq_Claims r of
           None \<Rightarrow> Unauthorized
         | Some uid \<Rightarrow>
           (case UserByID d uid of Inl _ \<Rightarrow> Unauthorized
            | Inr u \<Rightarrow>
              (case hp of None \<Rightarrow> BadRequest
               | Some h \<Rightarrow>
                 (case checkAccess d u section (isWriteRequest r) h of
                    Some e \<Rightarrow> Forbidden e
                  | None \<Rightarrow> Next))))"

text \<open>\<open>visibleHosts\<close> returns a predicate; \<open>visibleHostIDs\<close> a set and the flag for "every
  host", with which the set is meaningless.\<close>

definition visibleHosts :: "db \<Rightarrow> request \<Rightarrow> int \<Rightarrow> bool" where
  "visibleHosts d r =
     (let local_only = (\<lambda>h. NormalizeHostID d h = 0)
      in case rq_Claims r of None \<Rightarrow> local_only
         | Some uid \<Rightarrow>
           (case UserByID d uid of Inl _ \<Rightarrow> local_only
            | Inr u \<Rightarrow>
              if IsAdmin u then (\<lambda>_. True)
              else case ReachableHosts d (Some u) of Inl _ \<Rightarrow> local_only
                | Inr (hs, a) \<Rightarrow>
                  if a then (\<lambda>_. True) else (\<lambda>h. NormalizeHostID d h = 0 \<or> h \<in> hs)))"

definition local_ids :: "db \<Rightarrow> int set" where
  "local_ids d =
     insert 0 (case ListHosts d of Inl _ \<Rightarrow> {}
       | Inr hs \<Rightarrow> set (map h_ID (filter (\<lambda>h. h_Kind h = ''local'') hs)))"

definition visibleHostIDs :: "db \<Rightarrow> request \<Rightarrow> int set \<times> bool" where
  "visibleHostIDs d r =
     (case rq_Claims r of None \<Rightarrow> (local_ids d, False)
      | Some uid \<Rightarrow>
        (case UserByID d uid of Inl _ \<Rightarrow> (local_ids d, False)
         | Inr u \<Rightarrow>
           if IsAdmin u then ({}, True)
           else case ReachableHosts d (Some u) of Inl _ \<Rightarrow> (local_ids d, False)
             | Inr (hs, a) \<Rightarrow> if a then ({}, True) else (local_ids d \<union> hs, False)))"

section \<open>Lemmas\<close>

lemma sectionForInspectKind_range: "sectionForInspectKind p \<in> set Sections"
  unfolding sectionForInspectKind_def Let_def by (intro if_mem) (simp_all add: Sections_def)

lemma sectionForPath_range: "sectionForPath p \<in> {[], ''__admin''} \<union> set Sections"
  unfolding sectionForPath_def Let_def
  by (intro if_mem UnI2 [OF sectionForInspectKind_range]) (simp_all add: Sections_def)

lemma sectionForRequest_range:
  "sectionForRequest r = [] \<or> sectionForRequest r = ''__admin'' \<or> ValidSection (sectionForRequest r)"
  using sectionForPath_range [of "rq_Path r"]
  by (auto simp: sectionForRequest_def Let_def ValidSection_iff)

lemma checkAccess_section:
  assumes "s \<noteq> []" and "s \<noteq> ''__admin''" and "\<not> IsAdmin u"
    and "EffectiveGrants d (Some u) = Inr gs"
  shows "checkAccess d u s w h =
    (if \<not> may_read d u s then Some NotPermitted
     else if w \<and> \<not> may_write d u s then (if u_ReadOnly u then Some AccountReadOnly else Some SectionReadOnly)
     else if \<not> may_host d u s (NormalizeHostID d h) then Some HostNotIncluded
     else None)"
  using EffectiveGrants_correct_aux [OF assms(4), of s] assms
  by (auto simp: checkAccess_def split: option.splits)

lemma checkAccess_allowed:
  assumes "s \<noteq> []" and "s \<noteq> ''__admin''" and "\<not> IsAdmin u"
  shows "checkAccess d u s w h = None \<longleftrightarrow>
    is_ok (EffectiveGrants d (Some u)) \<and> may_read d u s \<and> (w \<longrightarrow> may_write d u s)
    \<and> may_host d u s (NormalizeHostID d h)"
proof (cases "EffectiveGrants d (Some u)")
  case Inl
  then show ?thesis using assms by (simp add: checkAccess_def)
next
  case (Inr gs)
  then show ?thesis using checkAccess_section [OF assms Inr] by auto
qed


lemma NormalizeHostID_zero_iff:
  assumes "distinct (map h_ID (d_hosts d))" and "\<not> d_fails d (SelHostKind h)"
  shows "NormalizeHostID d h = 0 \<longleftrightarrow>
    h = 0 \<or> h \<in> h_ID ` {x \<in> set (d_hosts d). h_Kind x = ''local''}"
proof (cases "find (\<lambda>x. h_ID x = h) (d_hosts d)")
  case None
  then have "h \<notin> h_ID ` set (d_hosts d)" by (auto simp: find_None_iff)
  with None show ?thesis by (auto simp: NormalizeHostID_def)
next
  case (Some x)
  then have x: "x \<in> set (d_hosts d)" "h_ID x = h" by (auto simp: find_Some_iff)
  have "y = x" if "y \<in> set (d_hosts d)" "h_ID y = h" for y
    using assms(1) x that by (auto simp: distinct_map inj_on_def)
  then have "h \<in> h_ID ` {x \<in> set (d_hosts d). h_Kind x = ''local''} \<longleftrightarrow> h_Kind x = ''local''"
    using x by blast
  with Some assms(2) show ?thesis by (simp add: NormalizeHostID_def)
qed

lemma CanReachHost_visible:
  "(case CanReachHost d u h of Inl _ \<Rightarrow> False | Inr ok \<Rightarrow> ok) =
     (NormalizeHostID d h = 0 \<or> (case ReachableHosts d (Some u) of Inl _ \<Rightarrow> False
        | Inr (hs, a) \<Rightarrow> a \<or> h \<in> hs))"
  by (auto simp: CanReachHost_def split: sum.splits)

lemma visibleHosts_callerCanReachHost:
  assumes "rq_Claims r = Some uid" and "UserByID d uid = Inr u"
  shows "visibleHosts d r h \<longleftrightarrow> callerCanReachHost d r h"
  using assms
  by (auto simp: visibleHosts_def callerCanReachHost_def CanReachHost_visible Let_def
      split: sum.splits)

lemma visibleHostIDs_visibleHosts:
  assumes "rq_Claims r = Some uid" and "UserByID d uid = Inr u"
    and "distinct (map h_ID (d_hosts d))" and "\<not> d_fails d SelHosts"
    and "\<not> d_fails d (SelHostKind h)"
  shows "visibleHosts d r h \<longleftrightarrow> snd (visibleHostIDs d r) \<or> h \<in> fst (visibleHostIDs d r)"
proof -
  have loc: "NormalizeHostID d h = 0 \<longleftrightarrow> h \<in> local_ids d"
    using NormalizeHostID_zero_iff [OF assms(3,5)] assms(4)
    by (auto simp: local_ids_def ListHosts_def query_def)
  then show ?thesis
    using assms(1,2)
    by (auto simp: visibleHosts_def visibleHostIDs_def Let_def split: sum.splits)
qed

section \<open>Properties\<close>

text \<open>A request of the account of the example installation.\<close>

definition demo_request :: "string \<Rightarrow> path \<Rightarrow> string \<Rightarrow> request" where
  "demo_request m p h = \<lparr>rq_Method = m, rq_Path = p, rq_Host = h, rq_Claims = Some 7,
     rq_Username = ''eva'', rq_RemoteAddr = ''10.0.0.9''\<rparr>"



lemma demo_UserByID: "UserByID demo_db 7 = Inr demo_user"
  by (simp add: UserByID_def demo_db_def demo_user_def)


text \<open>C30. An account marked read-only that is not an administrator gets no write through the
  gate, whatever roles it holds and whatever fails: not a POST, PUT, PATCH or DELETE, not a GET
  that acts (exec, pull, push, scan, port probe) and not a download of raw data. Whoever gets an
  answer from a gated handler for such a request is an administrator or not read-only.\<close>

theorem read_only_never_writes:
  assumes "permissions d r = Next" and "isWriteRequest r" and "sectionForRequest r \<noteq> []"
    and "rq_Claims r = Some uid" and "UserByID d uid = Inr u"
  shows "IsAdmin u \<or> \<not> u_ReadOnly u"
proof -
  obtain h where "checkAccess d u (sectionForRequest r) True h = None"
    using assms by (auto simp: permissions_def Let_def split: option.splits)
  then show ?thesis
    using assms(3) checkAccess_allowed [of "sectionForRequest r" u d True h]
    by (auto simp: may_write_def checkAccess_def split: if_splits)
qed

theorem read_only_never_writes_witness:
  "permissions demo_db (demo_request ''POST'' ''/api/containers/abc/restart'' ''2'') = Next
   \<and> isWriteRequest (demo_request ''POST'' ''/api/containers/abc/restart'' ''2'') \<and> \<not> u_ReadOnly demo_user"
proof -
  let ?r = "demo_request ''POST'' ''/api/containers/abc/restart'' ''2''"
  have "permissions demo_db ?r = Next" by code_simp
  moreover have "isWriteRequest ?r" by code_simp
  moreover have "sectionForRequest ?r \<noteq> []" by code_simp
  moreover have "rq_Claims ?r = Some 7" by (simp add: demo_request_def)
  moreover have "\<not> IsAdmin demo_user" by (simp add: IsAdmin_def demo_user_def)
  ultimately show ?thesis using read_only_never_writes [OF _ _ _ _ demo_UserByID] by blast
qed

text \<open>On a path that belongs to no section, a request that names a host other than the local
  one is let through only for a caller some section of whom reaches that host, or an
  administrator; a request without a host parameter is let through for everyone.\<close>

theorem ungated_host_checked:
  assumes "sectionForRequest r = []" and "permissions d r = Next" and "hostParam r = Some h"
    and "NormalizeHostID d h \<noteq> 0"
  shows "\<exists>uid u. rq_Claims r = Some uid \<and> UserByID d uid = Inr u
    \<and> (IsAdmin u \<or> (\<exists>s. may_host d u s h))"
proof -
  have h: "h \<noteq> 0" using assms(4) by (auto simp: NormalizeHostID_def)
  with assms(1-3) have "callerCanReachHost d r h"
    by (simp add: permissions_def Let_def split: if_splits)
  then obtain uid u where u: "rq_Claims r = Some uid" "UserByID d uid = Inr u"
    and "IsAdmin u \<or> (case CanReachHost d u h of Inl _ \<Rightarrow> False | Inr ok \<Rightarrow> ok)"
    by (auto simp: callerCanReachHost_def split: option.splits sum.splits if_splits)
  then consider "IsAdmin u"
    | hs a where "ReachableHosts d (Some u) = Inr (hs, a)" "a \<or> h \<in> hs"
    using assms(4) unfolding CanReachHost_visible by (auto split: sum.splits)
  then show ?thesis
  proof cases
    case 2
    with ReachableHosts_spec [OF _ h] u show ?thesis by blast
  qed (use u in blast)
qed

theorem ungated_host_checked_witness:
  "permissions demo_db (demo_request ''GET'' ''/api/system'' ''3'') = Next
   \<and> (\<exists>s. may_host demo_db demo_user s 3)"
proof -
  let ?r = "demo_request ''GET'' ''/api/system'' ''3''"
  have "sectionForRequest ?r = []" and nxt: "permissions demo_db ?r = Next"
    and "hostParam ?r = Some 3" and "NormalizeHostID demo_db 3 \<noteq> 0" by code_simp+
  from ungated_host_checked [OF this] obtain uid u where
    "rq_Claims ?r = Some uid" "UserByID demo_db uid = Inr u" "IsAdmin u \<or> (\<exists>s. may_host demo_db u s 3)"
    by blast
  moreover have "\<not> IsAdmin demo_user" by (simp add: IsAdmin_def demo_user_def)
  ultimately show ?thesis using nxt demo_UserByID by (auto simp: demo_request_def)
qed

text \<open>Enforcement and filtering agree: for a caller that is identified, a host is visible in
  the views over several hosts exactly when a request naming it passes the check of the ungated
  paths, also when the store fails; and for any caller the set handed to SQL queries is the
  predicate, when the host table can be read.\<close>

theorem visible_iff_reachable:
  assumes "rq_Claims r = Some uid" and "UserByID d uid = Inr u"
    and "distinct (map h_ID (d_hosts d))" and "\<not> d_fails d SelHosts"
    and "\<not> d_fails d (SelHostKind h)"
  shows "(visibleHosts d r h \<longleftrightarrow> callerCanReachHost d r h)
    \<and> (visibleHosts d r h \<longleftrightarrow> snd (visibleHostIDs d r) \<or> h \<in> fst (visibleHostIDs d r))"
  using visibleHosts_callerCanReachHost [OF assms(1,2)] visibleHostIDs_visibleHosts [OF assms] by blast

theorem visible_iff_reachable_witness:
  "let r = demo_request ''GET'' ''/api/alerts'' [] in
   distinct (map h_ID (d_hosts demo_db)) \<and> visibleHosts demo_db r 3
   \<and> callerCanReachHost demo_db r 3 \<and> (snd (visibleHostIDs demo_db r) \<or> 3 \<in> fst (visibleHostIDs demo_db r))"
proof -
  let ?r = "demo_request ''GET'' ''/api/alerts'' []"
  have "distinct (map h_ID (d_hosts demo_db))" "\<not> d_fails demo_db SelHosts"
    "\<not> d_fails demo_db (SelHostKind 3)"
    by (simp_all add: demo_db_def demo_host_def)
  moreover have "rq_Claims ?r = Some 7" by (simp add: demo_request_def)
  moreover have "callerCanReachHost demo_db ?r 3" by code_simp
  ultimately show ?thesis
    using visible_iff_reachable [of ?r 7 demo_db demo_user 3] demo_UserByID unfolding Let_def
    by blast
qed

text \<open>Write access and host scope are combined per section, not per role. An account with
  \<open>Operator\<close> limited to staging and \<open>Viewer\<close> on every host may restart a container on
  production, although no role it holds gives write access there: the manual says that with
  these roles it changes only staging.\<close>

theorem scoped_write_reaches_other_hosts:
  "permissions demo_db (demo_request ''POST'' ''/api/containers/abc/restart'' ''3'') = Next
   \<and> \<not> IsAdmin demo_user \<and> u_Sections demo_user = []
   \<and> {r. holds_role demo_db demo_user r \<and> (r, ''containers'', True) \<in> set (d_role_sections demo_db)} = {1}
   \<and> role_scope demo_db 1 = {2}"
proof -
  have "permissions demo_db (demo_request ''POST'' ''/api/containers/abc/restart'' ''3'') = Next"
    by code_simp
  then show ?thesis
    by (auto simp: IsAdmin_def demo_user_def demo_db_def holds_role_def role_scope_def)
qed

end
