(* ===== verification/Maintenance.thy ===== *)
theory Maintenance
  imports Grants
begin

text \<open>
  Maintenance windows, \<open>src/internal/store/maintenance.go\<close>: when a window covers an instant
  (one-off and recurring), which events its scope covers, and the table of windows. The time zone
  database is a parameter \<open>zones\<close>: for a name it gives the offset from UTC in force at an
  instant, \<open>None\<close> when \<open>time.LoadLocation\<close> fails. Calendar dates are day numbers counted
  from 1 January of year 1, a Monday, so that a date is \<open>local time div day\<close>. Columns that
  hold JSON are kept as the list they encode, instants as the whole seconds their RFC 3339 text
  keeps, and the column \<open>ends_at\<close>, empty for a zero time, as an option.
\<close>

section \<open>Data\<close>

record MaintenanceWindow =
  w_ID :: int
  w_Name :: string
  w_Reason :: string
  w_AuthorID :: int
  w_Author :: string
  w_HostIDs :: "int list"
  w_Project :: string
  w_Container :: string
  w_RuleID :: "int option"
  w_Severities :: "string list"
  w_Recurring :: bool
  w_StartsAt :: time
  w_EndsAt :: time
  w_Weekdays :: "int list"
  w_TimeOfDay :: string
  w_DurationMin :: int
  w_Timezone :: string
  w_Ended :: bool
  w_CreatedAt :: time

record mw_row =
  mc_name :: string
  mc_reason :: string
  mc_author_id :: int
  mc_host_ids :: "int list"
  mc_project :: string
  mc_container :: string
  mc_rule_id :: "int option"
  mc_severities :: "string list"
  mc_recurring :: bool
  mc_starts_at :: time
  mc_ends_at :: "time option"
  mc_weekdays :: "int list"
  mc_time_of_day :: string
  mc_duration_min :: int
  mc_timezone :: string
  mc_ended :: bool
  mc_created_at :: time

datatype mw_stmt = SelWindows | SelCandidates | SelWindow int | InsWindow | UpdWindow int
  | EndWindow int | DelWindow int

record mdb =
  m_windows :: "mw_row tbl"
  m_fails :: "mw_stmt \<Rightarrow> bool"

type_synonym zone = "time \<Rightarrow> duration"
type_synonym tzdb = "string \<Rightarrow> zone option"

section \<open>Calendar arithmetic of package time\<close>

definition utc :: zone where "utc = (\<lambda>_. 0)"

text \<open>The date of an instant in a zone, its weekday (0 is Sunday), and \<open>time.Date\<close>: the
  instant a civil time denotes, with the offset looked up the way the library does it.\<close>

definition day_of :: "zone \<Rightarrow> time \<Rightarrow> int" where
  "day_of off t = (t + off t) div day"

definition weekday_num :: "int \<Rightarrow> int" where
  "weekday_num n = (n + 1) mod 7"

definition go_date :: "zone \<Rightarrow> int \<Rightarrow> time" where
  "go_date off c = (if off c \<noteq> 0 then c - off (c - off c) else c)"

definition add_days :: "zone \<Rightarrow> time \<Rightarrow> int \<Rightarrow> time" where
  "add_days off t n = go_date off (t + off t + n * day)"

text \<open>\<open>time.Parse("15:04", s)\<close>: one or two digits below 24, a colon, two digits below 60.\<close>

definition parseTimeOfDay :: "string \<Rightarrow> (int \<times> int) option" where
  "parseTimeOfDay s =
     (let hm = (case s of
          a # b # rest \<Rightarrow> if \<not> is_digit a then None
            else if is_digit b then Some (10 * digit_val a + digit_val b, rest)
            else Some (digit_val a, b # rest)
        | _ \<Rightarrow> None)
      in case hm of
           Some (h, [colon, x, y]) \<Rightarrow>
             if colon = CHR '':'' \<and> is_digit x \<and> is_digit y \<and> h < 24 \<and> 10 * digit_val x + digit_val y < 60
             then Some (h, 10 * digit_val x + digit_val y) else None
         | _ \<Rightarrow> None)"

section \<open>When a window is active\<close>

definition weekdayIn :: "int list \<Rightarrow> int \<Rightarrow> bool" where
  "weekdayIn days d = list_ex (\<lambda>w. w = d) days"

definition window_zone :: "tzdb \<Rightarrow> MaintenanceWindow \<Rightarrow> zone" where
  "window_zone zones w =
     (case zones (w_Timezone w) of
        None \<Rightarrow> utc
      | Some off \<Rightarrow> if w_Timezone w = [] then utc else off)"

text \<open>One round of the loop over the candidate days.\<close>

definition span_on_day ::
    "zone \<Rightarrow> MaintenanceWindow \<Rightarrow> int \<Rightarrow> int \<Rightarrow> time \<Rightarrow> time \<Rightarrow> int \<Rightarrow> (time \<times> time) option" where
  "span_on_day off w hh mm seriesStart now dayOffset =
     (let dn = day_of off (add_days off now dayOffset);
          occDate = go_date off (dn * day)
      in if occDate < seriesStart then None
         else if \<not> weekdayIn (w_Weekdays w) (weekday_num dn) then None
         else let occStart = go_date off (dn * day + hh * hour + mm * minute);
                  occEnd = occStart + minutes (w_DurationMin w)
              in if \<not> now < occStart \<and> now < occEnd then Some (occStart, occEnd) else None)"

definition recurringSpanAt :: "tzdb \<Rightarrow> MaintenanceWindow \<Rightarrow> time \<Rightarrow> (time \<times> time) option" where
  "recurringSpanAt zones w now =
     (let off = window_zone zones w
      in case parseTimeOfDay (w_TimeOfDay w) of
           None \<Rightarrow> None
         | Some (hh, mm) \<Rightarrow>
           if w_DurationMin w \<le> 0 then None
           else let seriesStart = go_date off (day_of off (w_StartsAt w) * day)
           in if now < seriesStart then None
           else if w_EndsAt w \<noteq> 0 \<and> \<not> now < w_EndsAt w then None
           else case span_on_day off w hh mm seriesStart now 0 of
             Some se \<Rightarrow> Some se
           | None \<Rightarrow> span_on_day off w hh mm seriesStart now (-1))"

definition ActiveSpan :: "tzdb \<Rightarrow> MaintenanceWindow \<Rightarrow> time \<Rightarrow> (time \<times> time) option" where
  "ActiveSpan zones w now =
     (if w_Ended w then None
      else if \<not> w_Recurring w then
        (if \<not> now < w_StartsAt w \<and> now < w_EndsAt w then Some (w_StartsAt w, w_EndsAt w) else None)
      else recurringSpanAt zones w now)"

definition Active :: "tzdb \<Rightarrow> MaintenanceWindow \<Rightarrow> time \<Rightarrow> bool" where
  "Active zones w now \<longleftrightarrow> ActiveSpan zones w now \<noteq> None"

definition Closed :: "MaintenanceWindow \<Rightarrow> time \<Rightarrow> bool" where
  "Closed w now \<longleftrightarrow> w_Ended w \<or> (w_EndsAt w \<noteq> 0 \<and> \<not> now < w_EndsAt w)"

definition MaxRecurringDurationMin :: int where
  "MaxRecurringDurationMin = 24 * 60"

section \<open>Scope\<close>

definition containsInt64 :: "int list \<Rightarrow> int \<Rightarrow> bool" where
  "containsInt64 xs v = list_ex (\<lambda>x. x = v) xs"

definition containsStr :: "string list \<Rightarrow> string \<Rightarrow> bool" where
  "containsStr xs v = list_ex (\<lambda>x. x = v) xs"

definition containsFold :: "string \<Rightarrow> string \<Rightarrow> bool" where
  "containsFold haystack needle \<longleftrightarrow> needle \<noteq> [] \<and> contains (to_lower haystack) (to_lower needle)"

definition Matches ::
    "MaintenanceWindow \<Rightarrow> int \<Rightarrow> string \<Rightarrow> string \<Rightarrow> int \<Rightarrow> string \<Rightarrow> bool" where
  "Matches w hostID project container ruleID severity =
     (if w_HostIDs w \<noteq> [] \<and> \<not> containsInt64 (w_HostIDs w) hostID then False
      else if w_Project w \<noteq> [] \<and> \<not> containsFold project (w_Project w) then False
      else if w_Container w \<noteq> [] \<and> \<not> containsFold container (w_Container w) then False
      else if (case w_RuleID w of None \<Rightarrow> False | Some r \<Rightarrow> r \<noteq> ruleID) then False
      else if w_Severities w \<noteq> [] \<and> \<not> containsStr (w_Severities w) severity then False
      else True)"

section \<open>The table\<close>

definition formatOptionalTime :: "time \<Rightarrow> time option" where
  "formatOptionalTime t = (if t = 0 then None else Some (trunc_sec t))"

definition scanMaintenanceWindow :: "string \<Rightarrow> int \<times> mw_row \<Rightarrow> MaintenanceWindow" where
  "scanMaintenanceWindow author ir =
     (case ir of (i, r) \<Rightarrow>
       \<lparr>w_ID = i, w_Name = mc_name r, w_Reason = mc_reason r, w_AuthorID = mc_author_id r,
        w_Author = author, w_HostIDs = mc_host_ids r, w_Project = mc_project r,
        w_Container = mc_container r, w_RuleID = mc_rule_id r, w_Severities = mc_severities r,
        w_Recurring = mc_recurring r, w_StartsAt = mc_starts_at r,
        w_EndsAt = (case mc_ends_at r of None \<Rightarrow> 0 | Some t \<Rightarrow> t), w_Weekdays = mc_weekdays r,
        w_TimeOfDay = mc_time_of_day r, w_DurationMin = mc_duration_min r,
        w_Timezone = mc_timezone r, w_Ended = mc_ended r, w_CreatedAt = mc_created_at r\<rparr>)"

definition mquery :: "mdb \<Rightarrow> mw_stmt \<Rightarrow> 'a \<Rightarrow> db_error + 'a" where
  "mquery m q x = (if m_fails m q then Err ErrSQL else Ok x)"

definition ListMaintenanceWindows :: "db \<Rightarrow> mdb \<Rightarrow> db_error + MaintenanceWindow list" where
  "ListMaintenanceWindows d m =
     mquery m SelWindows
       (map (\<lambda>(i, r). scanMaintenanceWindow
               (case find (\<lambda>u. u_ID u = mc_author_id r) (d_users d) of None \<Rightarrow> [] | Some u \<Rightarrow> u_Username u)
               (i, r))
          (sort_key (\<lambda>(i, r). - mc_created_at r) (tbl_rows (m_windows m))))"

definition candidate :: "time \<Rightarrow> int \<times> mw_row \<Rightarrow> bool" where
  "candidate now ir = (case ir of (i, r) \<Rightarrow> \<not> mc_ended r \<and>
     (mc_recurring r \<or> (case mc_ends_at r of None \<Rightarrow> False | Some t \<Rightarrow> t > trunc_sec now)))"

definition activeCandidateMaintenanceWindows :: "mdb \<Rightarrow> time \<Rightarrow> db_error + MaintenanceWindow list" where
  "activeCandidateMaintenanceWindows m now =
     mquery m SelCandidates
       (map (scanMaintenanceWindow []) (filter (candidate now) (tbl_rows (m_windows m))))"

definition MaintenanceWindowByID :: "mdb \<Rightarrow> int \<Rightarrow> db_error + MaintenanceWindow" where
  "MaintenanceWindowByID m i =
     (if m_fails m (SelWindow i) then Err ErrSQL
      else case tbl_lookup (m_windows m) i of
        None \<Rightarrow> Err ErrNotFound
      | Some r \<Rightarrow> Ok (scanMaintenanceWindow [] (i, r)))"

fun log_missing :: "mdb \<Rightarrow> int list \<Rightarrow> int list \<Rightarrow> db_error + MaintenanceWindow list" where
  "log_missing m seen [] = Ok []"
| "log_missing m seen (i # rest) =
     (if i \<in> set seen then log_missing m seen rest
      else case MaintenanceWindowByID m i of
        Inl e \<Rightarrow> if e = ErrNotFound then log_missing m seen rest else Err e
      | Inr w \<Rightarrow> bind_res (log_missing m seen rest) (\<lambda>ws. Ok (w # ws)))"

definition MaintenanceWindowsForLog ::
    "mdb \<Rightarrow> time \<Rightarrow> int list \<Rightarrow> db_error + MaintenanceWindow list" where
  "MaintenanceWindowsForLog m now ids =
     bind_res (activeCandidateMaintenanceWindows m now) (\<lambda>cands.
     bind_res (log_missing m (map w_ID cands) ids) (\<lambda>ws. Ok (cands @ ws)))"

definition FindActiveMaintenanceWindow ::
    "tzdb \<Rightarrow> db \<Rightarrow> mdb \<Rightarrow> int \<Rightarrow> string \<Rightarrow> string \<Rightarrow> int \<Rightarrow> string \<Rightarrow> time
     \<Rightarrow> db_error + MaintenanceWindow option" where
  "FindActiveMaintenanceWindow zones d m hostID project container ruleID severity now =
     (let hostID = NormalizeHostID d hostID
      in bind_res (activeCandidateMaintenanceWindows m now) (\<lambda>candidates.
           Ok (find (\<lambda>w. Active zones w now \<and> Matches w hostID project container ruleID severity)
                 candidates)))"

text \<open>The columns written from a window; an update keeps the author, the end flag and the
  creation time of the row.\<close>

definition CreateMaintenanceWindow :: "mdb \<Rightarrow> MaintenanceWindow \<Rightarrow> time \<Rightarrow> (db_error + int) \<times> mdb" where
  "CreateMaintenanceWindow m w now =
     (if m_fails m InsWindow then (Err ErrSQL, m)
      else let (i, t) = tbl_insert
        \<lparr>mc_name = w_Name w, mc_reason = w_Reason w, mc_author_id = w_AuthorID w,
         mc_host_ids = w_HostIDs w, mc_project = w_Project w, mc_container = w_Container w,
         mc_rule_id = w_RuleID w, mc_severities = w_Severities w, mc_recurring = w_Recurring w,
         mc_starts_at = trunc_sec (w_StartsAt w), mc_ends_at = formatOptionalTime (w_EndsAt w),
         mc_weekdays = w_Weekdays w, mc_time_of_day = w_TimeOfDay w,
         mc_duration_min = w_DurationMin w, mc_timezone = w_Timezone w, mc_ended = False,
         mc_created_at = trunc_sec now\<rparr> (m_windows m)
      in (Ok i, m\<lparr>m_windows := t\<rparr>))"

definition UpdateMaintenanceWindow :: "mdb \<Rightarrow> int \<Rightarrow> MaintenanceWindow \<Rightarrow> (db_error + unit) \<times> mdb" where
  "UpdateMaintenanceWindow m i w =
     (if m_fails m (UpdWindow i) then (Err ErrSQL, m)
      else if tbl_lookup (m_windows m) i = None then (Err ErrNotFound, m)
      else (Ok (), m\<lparr>m_windows := tbl_update i (\<lambda>r. r
        \<lparr>mc_name := w_Name w, mc_reason := w_Reason w, mc_host_ids := w_HostIDs w,
         mc_project := w_Project w, mc_container := w_Container w, mc_rule_id := w_RuleID w,
         mc_severities := w_Severities w, mc_recurring := w_Recurring w,
         mc_starts_at := trunc_sec (w_StartsAt w), mc_ends_at := formatOptionalTime (w_EndsAt w),
         mc_weekdays := w_Weekdays w, mc_time_of_day := w_TimeOfDay w,
         mc_duration_min := w_DurationMin w, mc_timezone := w_Timezone w\<rparr>) (m_windows m)\<rparr>))"

definition EndMaintenanceWindow :: "mdb \<Rightarrow> int \<Rightarrow> (db_error + unit) \<times> mdb" where
  "EndMaintenanceWindow m i =
     (if m_fails m (EndWindow i) then (Err ErrSQL, m)
      else if tbl_lookup (m_windows m) i = None then (Err ErrNotFound, m)
      else (Ok (), m\<lparr>m_windows := tbl_update i (\<lambda>r. r\<lparr>mc_ended := True\<rparr>) (m_windows m)\<rparr>))"

definition DeleteMaintenanceWindow :: "mdb \<Rightarrow> int \<Rightarrow> (db_error + unit) \<times> mdb" where
  "DeleteMaintenanceWindow m i =
     (if m_fails m (DelWindow i) then (Err ErrSQL, m)
      else if tbl_lookup (m_windows m) i = None then (Err ErrNotFound, m)
      else (Ok (), m\<lparr>m_windows := tbl_delete i (m_windows m)\<rparr>))"

section \<open>What an occurrence is\<close>

text \<open>The specification of a recurring series, over all days and not only the two the code
  looks at: the occurrence of day \<open>n\<close> starts at the time of day on that date and lasts the
  given minutes, provided the date is not before the series and its weekday is listed.\<close>

definition occurrence_start :: "zone \<Rightarrow> int \<times> int \<Rightarrow> int \<Rightarrow> time" where
  "occurrence_start off hm n = go_date off (n * day + fst hm * hour + snd hm * minute)"

definition series_start :: "zone \<Rightarrow> MaintenanceWindow \<Rightarrow> time" where
  "series_start off w = go_date off (day_of off (w_StartsAt w) * day)"

definition covers_on ::
    "zone \<Rightarrow> MaintenanceWindow \<Rightarrow> int \<times> int \<Rightarrow> time \<Rightarrow> int \<Rightarrow> bool" where
  "covers_on off w hm now n \<longleftrightarrow>
     series_start off w \<le> go_date off (n * day) \<and> weekday_num n \<in> set (w_Weekdays w)
     \<and> occurrence_start off hm n \<le> now
     \<and> now < occurrence_start off hm n + minutes (w_DurationMin w)"

definition series_covers :: "zone \<Rightarrow> MaintenanceWindow \<Rightarrow> time \<Rightarrow> bool" where
  "series_covers off w now \<longleftrightarrow>
     0 < w_DurationMin w \<and> series_start off w \<le> now \<and> (w_EndsAt w = 0 \<or> now < w_EndsAt w)
     \<and> (\<exists>hm n. parseTimeOfDay (w_TimeOfDay w) = Some hm \<and> covers_on off w hm now n)"

lemma span_on_day_iff:
  "span_on_day off w hh mm (series_start off w) now k = Some (s, e) \<longleftrightarrow>
     (let n = day_of off (add_days off now k)
      in covers_on off w (hh, mm) now n \<and> s = occurrence_start off (hh, mm) n
         \<and> e = s + minutes (w_DurationMin w))"
  by (auto simp: span_on_day_def covers_on_def occurrence_start_def weekdayIn_def list_ex_iff Let_def)

lemma recurringSpanAt_Some:
  "recurringSpanAt zones w now = Some (s, e) \<Longrightarrow>
     series_covers (window_zone zones w) w now \<and> s \<le> now \<and> now < e
     \<and> e = s + minutes (w_DurationMin w)"
  unfolding recurringSpanAt_def Let_def series_start_def [symmetric]
  by (auto simp: span_on_day_iff Let_def series_covers_def covers_on_def
      split: option.splits if_splits)

text \<open>In a zone of constant offset a civil time and its instant differ by the offset.\<close>

lemma fixed_zone:
  "go_date (\<lambda>_. c) x = x - c" "day_of (\<lambda>_. c) t = (t + c) div day"
  "day_of (\<lambda>_. c) (add_days (\<lambda>_. c) t n) = (t + c) div day + n"
  by (auto simp: go_date_def day_of_def add_days_def time_units)

lemma parseTimeOfDay_range:
  assumes "parseTimeOfDay s = Some (h, m)"
  shows "0 \<le> h \<and> h < 24 \<and> 0 \<le> m \<and> m < 60"
proof -
  have dv: "0 \<le> digit_val c" if "is_digit c" for c
    using that by (simp add: is_digit_def digit_val_def Let_def)
  show ?thesis
    using assms dv
    by (auto simp: parseTimeOfDay_def Let_def split: list.splits option.splits if_splits)
qed

text \<open>An occurrence of at most a day that covers an instant starts on that instant's date or
  the one before.\<close>

lemma two_days_suffice:
  assumes "parseTimeOfDay s = Some hm" and "0 < dur" and "dur \<le> MaxRecurringDurationMin"
    and "occurrence_start (\<lambda>_. c) hm n \<le> now"
    and "now < occurrence_start (\<lambda>_. c) hm n + minutes dur"
  shows "n = (now + c) div day \<or> n = (now + c) div day - 1"
proof -
  obtain h m where hm: "hm = (h, m)" by (cases hm)
  have "0 \<le> h" "h < 24" "0 \<le> m" "m < 60"
    using parseTimeOfDay_range assms(1) hm by auto
  moreover have "minutes dur = dur * minute" "dur \<le> 1440"
    using assms(2,3) by (auto intro: minutes_small simp: MaxRecurringDurationMin_def)
  ultimately have "n * day \<le> now + c" "now + c < (n + 2) * day"
    using assms(4,5) by (auto simp: occurrence_start_def fixed_zone hm time_units)
  then have "n \<le> (now + c) div day" "(now + c) div day < n + 2"
    by (auto simp: time_units)
  then show ?thesis by linarith
qed

lemma recurringSpanAt_complete:
  assumes zone: "window_zone zones w = (\<lambda>_. c)" and dur: "w_DurationMin w \<le> MaxRecurringDurationMin"
    and "series_covers (\<lambda>_. c) w now"
  shows "recurringSpanAt zones w now \<noteq> None"
proof -
  obtain hh mm n where hm: "parseTimeOfDay (w_TimeOfDay w) = Some (hh, mm)"
    and cov: "covers_on (\<lambda>_. c) w (hh, mm) now n"
    and base: "0 < w_DurationMin w" "series_start (\<lambda>_. c) w \<le> now" "w_EndsAt w = 0 \<or> now < w_EndsAt w"
    using assms(3) by (auto simp: series_covers_def)
  then have "n = (now + c) div day \<or> n = (now + c) div day - 1"
    using two_days_suffice [OF hm, of "w_DurationMin w" c n now] dur by (auto simp: covers_on_def)
  then have "n = (now + c) div day + 0 \<or> n = (now + c) div day + -1" by linarith
  then obtain k where k: "k = 0 \<or> k = -1" "day_of (\<lambda>_. c) (add_days (\<lambda>_. c) now k) = n"
    unfolding fixed_zone(3) by metis
  then have "span_on_day (\<lambda>_. c) w hh mm (series_start (\<lambda>_. c) w) now k \<noteq> None"
    using cov span_on_day_iff [of "\<lambda>_. c" w hh mm now k] by (force simp: Let_def)
  then show ?thesis
    using k(1) hm base zone
    by (auto simp: recurringSpanAt_def Let_def series_start_def split: option.splits)
qed

section \<open>Rows and windows\<close>

text \<open>Every instant in the table is a whole second, and ids are well formed.\<close>

definition whole_row :: "mw_row \<Rightarrow> bool" where
  "whole_row r \<longleftrightarrow> trunc_sec (mc_starts_at r) = mc_starts_at r
     \<and> (case mc_ends_at r of None \<Rightarrow> True | Some t \<Rightarrow> trunc_sec t = t)"

definition mdb_wf :: "mdb \<Rightarrow> bool" where
  "mdb_wf m \<longleftrightarrow> tbl_wf (m_windows m) \<and> tbl_all whole_row (m_windows m)"

definition stored_window :: "mdb \<Rightarrow> MaintenanceWindow \<Rightarrow> bool" where
  "stored_window m w \<longleftrightarrow>
     (\<exists>i r. tbl_lookup (m_windows m) i = Some r \<and> w = scanMaintenanceWindow [] (i, r))"

lemma mquery_Inr [simp]: "mquery m q x = Inr y \<longleftrightarrow> \<not> m_fails m q \<and> y = x"
  by (auto simp: mquery_def)

lemma scan_simps [simp]:
  "w_ID (scanMaintenanceWindow a ir) = fst ir"
  "w_Ended (scanMaintenanceWindow a ir) = mc_ended (snd ir)"
  "w_Recurring (scanMaintenanceWindow a ir) = mc_recurring (snd ir)"
  "w_HostIDs (scanMaintenanceWindow a ir) = mc_host_ids (snd ir)"
  "w_StartsAt (scanMaintenanceWindow a ir) = mc_starts_at (snd ir)"
  "w_EndsAt (scanMaintenanceWindow a ir) = (case mc_ends_at (snd ir) of None \<Rightarrow> 0 | Some t \<Rightarrow> t)"
  by (simp_all add: scanMaintenanceWindow_def split: prod.splits)

lemma Active_candidate:
  assumes "Active zones (scanMaintenanceWindow a (i, r)) now" and "0 \<le> now" and "whole_row r"
  shows "candidate now (i, r)"
  using assms trunc_sec_le [of now]
  by (auto simp: Active_def ActiveSpan_def candidate_def split: if_splits option.splits)

lemma find_map_filter:
  "(\<And>x. x \<in> set xs \<Longrightarrow> P (f x) \<Longrightarrow> Q x) \<Longrightarrow> find P (map f (filter Q xs)) = find P (map f xs)"
  by (induction xs) auto

lemma mdb_wf_create [inv_intros]:
  "mdb_wf m \<Longrightarrow> mdb_wf (snd (CreateMaintenanceWindow m w now))"
  by (auto simp: mdb_wf_def CreateMaintenanceWindow_def case_prod_unfold formatOptionalTime_def
      whole_row_def tbl_wf_insert)

lemma mdb_wf_update [inv_intros]: "mdb_wf m \<Longrightarrow> mdb_wf (snd (UpdateMaintenanceWindow m i w))"
  by (auto simp: mdb_wf_def UpdateMaintenanceWindow_def formatOptionalTime_def whole_row_def
      intro!: inv_intros)

lemma mdb_wf_end [inv_intros]: "mdb_wf m \<Longrightarrow> mdb_wf (snd (EndMaintenanceWindow m i))"
  by (auto simp: mdb_wf_def EndMaintenanceWindow_def whole_row_def intro!: inv_intros)

lemma mdb_wf_delete [inv_intros]: "mdb_wf m \<Longrightarrow> mdb_wf (snd (DeleteMaintenanceWindow m i))"
  by (auto simp: mdb_wf_def DeleteMaintenanceWindow_def intro!: inv_intros)

lemma Closed_not_Active: "Closed w t \<Longrightarrow> t \<le> now \<Longrightarrow> \<not> Active zones w now"
  by (auto simp: Closed_def Active_def ActiveSpan_def recurringSpanAt_def Let_def split: option.splits)

lemma FindActive_all:
  assumes "mdb_wf m" and "0 \<le> now" and "\<not> m_fails m SelCandidates"
  shows "FindActiveMaintenanceWindow zones d m h p c rl sev now =
    Inr (find (\<lambda>w. Active zones w now \<and> Matches w (NormalizeHostID d h) p c rl sev)
          (map (scanMaintenanceWindow []) (tbl_rows (m_windows m))))"
proof -
  have "candidate now ir" if "ir \<in> set (tbl_rows (m_windows m))"
    "Active zones (scanMaintenanceWindow [] ir) now" for ir
    using that Active_candidate [of zones "[]" "fst ir" "snd ir" now] assms(1,2)
    by (auto simp: mdb_wf_def tbl_all_def list_all_iff)
  then have "find (\<lambda>w. Active zones w now \<and> Matches w (NormalizeHostID d h) p c rl sev)
      (map (scanMaintenanceWindow []) (filter (candidate now) (tbl_rows (m_windows m)))) =
    find (\<lambda>w. Active zones w now \<and> Matches w (NormalizeHostID d h) p c rl sev)
      (map (scanMaintenanceWindow []) (tbl_rows (m_windows m)))"
    by (intro find_map_filter) auto
  with assms(3) show ?thesis
    by (simp add: FindActiveMaintenanceWindow_def activeCandidateMaintenanceWindows_def mquery_def)
qed

section \<open>Properties\<close>

text \<open>Which instants a recurring window covers. In any time zone an occurrence that is reported
  is one of the series and covers the instant. In a zone without offset changes the look at
  today and yesterday is also complete for the durations that may be stored: the window is found
  active exactly when some occurrence of the whole series covers the instant.\<close>

theorem recurring_lookback:
  assumes "window_zone zones w = (\<lambda>_. c)" and "w_DurationMin w \<le> MaxRecurringDurationMin"
  shows "(recurringSpanAt zones w now \<noteq> None \<longleftrightarrow> series_covers (\<lambda>_. c) w now)
    \<and> (\<forall>zones' s e. recurringSpanAt zones' w now = Some (s, e) \<longrightarrow>
         series_covers (window_zone zones' w) w now \<and> s \<le> now \<and> now < e
         \<and> e = s + w_DurationMin w * minute)"
proof -
  have min: "minutes (w_DurationMin w) = w_DurationMin w * minute" if "0 < w_DurationMin w"
    using that assms(2) by (intro minutes_small) (auto simp: MaxRecurringDurationMin_def)
  have "\<forall>zones' s e. recurringSpanAt zones' w now = Some (s, e) \<longrightarrow>
         series_covers (window_zone zones' w) w now \<and> s \<le> now \<and> now < e
         \<and> e = s + w_DurationMin w * minute"
  proof (intro allI impI)
    fix zones' s e assume "recurringSpanAt zones' w now = Some (s, e)"
    note r = recurringSpanAt_Some [OF this]
    then have "0 < w_DurationMin w" by (simp add: series_covers_def)
    with r min show "series_covers (window_zone zones' w) w now \<and> s \<le> now \<and> now < e
         \<and> e = s + w_DurationMin w * minute" by simp
  qed
  moreover have "recurringSpanAt zones w now \<noteq> None \<longleftrightarrow> series_covers (\<lambda>_. c) w now"
    using recurringSpanAt_complete [OF assms, of now] recurringSpanAt_Some [of zones w now] assms(1)
    by auto
  ultimately show ?thesis by blast
qed

text \<open>A nightly window of two hours from 23:00 UTC, on every day from day 738000 on.\<close>

definition night_window :: MaintenanceWindow where
  "night_window = \<lparr>w_ID = 0, w_Name = ''night'', w_Reason = ''backup'', w_AuthorID = 1, w_Author = [],
     w_HostIDs = [], w_Project = [], w_Container = [], w_RuleID = None, w_Severities = [],
     w_Recurring = True, w_StartsAt = 738000 * day + 18 * hour, w_EndsAt = 0,
     w_Weekdays = [0, 1, 2, 3, 4, 5, 6], w_TimeOfDay = ''23:00'', w_DurationMin = 120, w_Timezone = [],
     w_Ended = False, w_CreatedAt = 0\<rparr>"

theorem recurring_lookback_witness:
  "recurringSpanAt (\<lambda>_. None) night_window (738001 * day + 30 * minute) =
     Some (738000 * day + 23 * hour, 738001 * day + hour)
   \<and> series_covers (\<lambda>_. 0) night_window (738001 * day + 30 * minute)"
proof -
  have r: "recurringSpanAt (\<lambda>_. None) night_window (738001 * day + 30 * minute) =
     Some (738000 * day + 23 * hour, 738001 * day + hour)" by code_simp
  have "window_zone (\<lambda>_. None) night_window = (\<lambda>_. 0)"
    by (simp add: window_zone_def utc_def)
  moreover have "w_DurationMin night_window \<le> MaxRecurringDurationMin"
    by (simp add: night_window_def MaxRecurringDurationMin_def)
  ultimately show ?thesis
    using r recurring_lookback [of "\<lambda>_. None" night_window 0 "738001 * day + 30 * minute"]
    by (metis option.distinct(1))
qed

text \<open>C8. The lookup of a silencing window loses nothing to its SQL prefilter: on a table every
  operation keeps well formed, it returns the first of all stored windows that is active at the
  instant and whose scope matches the event, and none exactly when there is no such window. The
  operations of the store keep the table well formed.\<close>

theorem FindActiveMaintenanceWindow_exact:
  assumes "mdb_wf m" and "0 \<le> now" and "\<not> m_fails m SelCandidates"
  shows "(\<exists>wo. FindActiveMaintenanceWindow zones d m h p c rl sev now = Inr wo
      \<and> (wo = None \<longleftrightarrow> \<not> (\<exists>w. stored_window m w \<and> Active zones w now
            \<and> Matches w (NormalizeHostID d h) p c rl sev))
      \<and> (\<forall>w. wo = Some w \<longrightarrow> stored_window m w \<and> Active zones w now
            \<and> Matches w (NormalizeHostID d h) p c rl sev))
    \<and> mdb_wf (snd (CreateMaintenanceWindow m w now)) \<and> mdb_wf (snd (UpdateMaintenanceWindow m i w))
    \<and> mdb_wf (snd (EndMaintenanceWindow m i)) \<and> mdb_wf (snd (DeleteMaintenanceWindow m i))"
proof -
  let ?ws = "map (scanMaintenanceWindow []) (tbl_rows (m_windows m))"
  let ?P = "\<lambda>w. Active zones w now \<and> Matches w (NormalizeHostID d h) p c rl sev"
  have rows: "w \<in> set ?ws \<longleftrightarrow> stored_window m w" for w
    using assms(1) by (force simp: mdb_wf_def set_rows_lookup stored_window_def)
  have "find ?P ?ws = None \<longleftrightarrow> \<not> (\<exists>w. stored_window m w \<and> ?P w)"
    unfolding find_None_iff rows [symmetric] by blast
  moreover have "stored_window m w \<and> ?P w" if "find ?P ?ws = Some w" for w
    using find_SomeD [OF that] rows by blast
  ultimately have "\<exists>wo. FindActiveMaintenanceWindow zones d m h p c rl sev now = Inr wo
      \<and> (wo = None \<longleftrightarrow> \<not> (\<exists>w. stored_window m w \<and> ?P w))
      \<and> (\<forall>w. wo = Some w \<longrightarrow> stored_window m w \<and> ?P w)"
    unfolding FindActive_all [OF assms] by blast
  then show ?thesis using assms(1) by (simp add: inv_intros)
qed

definition empty_mdb :: mdb where
  "empty_mdb = \<lparr>m_windows = tbl_empty, m_fails = (\<lambda>_. False)\<rparr>"

definition quiet_mdb :: mdb where
  "quiet_mdb = snd (CreateMaintenanceWindow empty_mdb night_window (738000 * day + 5))"

lemma quiet_mdb_wf: "mdb_wf quiet_mdb"
  unfolding quiet_mdb_def by (rule mdb_wf_create) (simp add: mdb_wf_def empty_mdb_def)

theorem FindActiveMaintenanceWindow_exact_witness:
  "\<exists>w. FindActiveMaintenanceWindow (\<lambda>_. None) demo_db quiet_mdb 0 ''shop'' ''web'' 4 ''critical''
         (738001 * day + 30 * minute) = Inr (Some w)
     \<and> Active (\<lambda>_. None) w (738001 * day + 30 * minute) \<and> stored_window quiet_mdb w"
proof -
  let ?now = "738001 * day + 30 * minute"
  let ?w = "scanMaintenanceWindow [] (1, snd (hd (tbl_rows (m_windows quiet_mdb))))"
  have "Active (\<lambda>_. None) ?w ?now" "Matches ?w 0 ''shop'' ''web'' 4 ''critical''" by code_simp+
  moreover have "fst (hd (tbl_rows (m_windows quiet_mdb))) = 1" "tbl_rows (m_windows quiet_mdb) \<noteq> []"
    by code_simp+
  then have "stored_window quiet_mdb ?w"
    by (cases "tbl_rows (m_windows quiet_mdb)") (auto simp: stored_window_def tbl_lookup_def)
  moreover have "\<not> m_fails quiet_mdb SelCandidates" "0 \<le> ?now" by code_simp+
  moreover have "NormalizeHostID demo_db 0 = 0" by (simp add: NormalizeHostID_def)
  ultimately show ?thesis
    using FindActiveMaintenanceWindow_exact [OF quiet_mdb_wf, of ?now "\<lambda>_. None" demo_db 0 "''shop''" "''web''" 4 "''critical''"]
    by (metis option.exhaust)
qed

end
