(* ===== verification/AuditLog.thy ===== *)
theory AuditLog
  imports Access RoleSteps
begin

text \<open>
  The audit log: \<open>src/internal/store/audit.go\<close>, \<open>auditOn\<close> and \<open>audit\<close> of
  \<open>src/internal/api/server.go\<close> and the reader \<open>handleAudit\<close> of
  \<open>src/internal/api/docker_handlers.go\<close>. Entries carry the host they are about, and a reader
  is shown only the entries of hosts in reach, filtered in the query so that pages are full.
\<close>

section \<open>Entries\<close>

record AuditEntry =
  a_UserID :: int
  a_Username :: string
  a_Action :: string
  a_Target :: string
  a_Detail :: string
  a_IP :: string
  a_HostID :: int
  a_CreatedAt :: time

text \<open>The id of an entry is the key of its row. Inserting and reading are the two statements
  that may fail.\<close>

record adb =
  a_log :: "AuditEntry tbl"
  a_ins_fails :: bool
  a_sel_fails :: bool

definition AuditHostSeveral :: int where
  "AuditHostSeveral = -1"

definition Audit_entry :: "adb \<Rightarrow> AuditEntry \<Rightarrow> time \<Rightarrow> (db_error + unit) \<times> adb" where
  "Audit_entry a e now =
     (if a_ins_fails a then (Err ErrSQL, a)
      else (Ok (), a\<lparr>a_log := snd (tbl_insert (e\<lparr>a_CreatedAt := trunc_sec now\<rparr>) (a_log a))\<rparr>))"

definition AuditHostOf :: "db \<Rightarrow> int list \<Rightarrow> int" where
  "AuditHostOf d hostIDs =
     (if length hostIDs \<noteq> 1 then AuditHostSeveral
      else if NormalizeHostID d (hostIDs ! 0) \<noteq> 0 then hostIDs ! 0
      else case LocalHostID d of Inr local \<Rightarrow> local | Inl _ \<Rightarrow> AuditHostSeveral)"

definition RecentAudit ::
    "adb \<Rightarrow> int \<Rightarrow> int \<Rightarrow> int set \<Rightarrow> bool \<Rightarrow> db_error + (int \<times> AuditEntry) list" where
  "RecentAudit a limit before hostIDs allHosts =
     (let limit = (if limit \<le> 0 \<or> limit > 1000 then 200 else limit)
      in if \<not> allHosts \<and> hostIDs = {} then Ok []
         else if a_sel_fails a then Err ErrSQL
         else Ok (take (nat limit) (sort_key (\<lambda>(i, e). - i)
                (filter (\<lambda>(i, e). (before > 0 \<longrightarrow> i < before) \<and> (\<not> allHosts \<longrightarrow> a_HostID e \<in> hostIDs))
                   (tbl_rows (a_log a))))))"

section \<open>The server's side\<close>

definition auditOn :: "adb \<Rightarrow> request \<Rightarrow> int \<Rightarrow> string \<Rightarrow> string \<Rightarrow> string \<Rightarrow> time \<Rightarrow> adb" where
  "auditOn a r hostID action target detail now =
     (let (uid, uname) = (case rq_Claims r of Some i \<Rightarrow> (i, rq_Username r) | None \<Rightarrow> (0, []))
      in snd (Audit_entry a \<lparr>a_UserID = uid, a_Username = uname, a_Action = action, a_Target = target,
                a_Detail = detail, a_IP = rq_RemoteAddr r, a_HostID = hostID, a_CreatedAt = 0\<rparr> now))"

text \<open>\<open>audit\<close> takes the host of the Docker client the request used, when it used one, and the
  host parameter otherwise.\<close>

definition audit :: "adb \<Rightarrow> request \<Rightarrow> int option \<Rightarrow> string \<Rightarrow> string \<Rightarrow> string \<Rightarrow> time \<Rightarrow> adb" where
  "audit a r recorded action target detail now =
     (let hostID = (case recorded of Some h \<Rightarrow> h
                    | None \<Rightarrow> (case hostParam r of None \<Rightarrow> 0 | Some h \<Rightarrow> h))
      in auditOn a r hostID action target detail now)"

definition daemonHost :: "db \<Rightarrow> int \<Rightarrow> int" where
  "daemonHost d hostID =
     (if hostID > 0 then hostID else case LocalHostID d of Inl _ \<Rightarrow> 0 | Inr i \<Rightarrow> i)"

text \<open>\<open>handleAudit\<close> with the texts of its query parameters \<open>limit\<close> and \<open>before\<close>.\<close>

definition handleAudit ::
    "db \<Rightarrow> adb \<Rightarrow> request \<Rightarrow> string \<Rightarrow> string \<Rightarrow> db_error + (int \<times> AuditEntry) list" where
  "handleAudit d a r limit_q before_q =
     (let limit = (case parse_int64 limit_q of Some v \<Rightarrow> if v > 0 then v else 50 | None \<Rightarrow> 50);
          before = parse_int64_value before_q;
          (ids, all_hosts) = visibleHostIDs d r
      in bind_res (RecentAudit a limit before ids all_hosts) (\<lambda>entries.
           Ok (filter (\<lambda>(i, e). visibleHosts d r (a_HostID e)) entries)))"

section \<open>Lemmas\<close>

lemma auditOn_seq:
  "a_ins_fails a \<or> tbl_seq (a_log (auditOn a r h act target detail now)) = tbl_seq (a_log a) + 1"
  by (simp add: auditOn_def Audit_entry_def case_prod_unfold Let_def)

lemma RecentAudit_Inr:
  assumes "RecentAudit a limit before ids all_hosts = Inr es" and "(i, e) \<in> set es"
  shows "(i, e) \<in> set (tbl_rows (a_log a)) \<and> (all_hosts \<or> a_HostID e \<in> ids)"
  using assms by (auto simp: RecentAudit_def Let_def split: if_splits dest!: in_set_takeD)

lemma hosts_hidden:
  assumes "db_wf d" and "\<forall>h \<in> set (d_hosts d). h_ID h > 0"
    and "visibleHostIDs d r = (ids, False)" and "h \<in> ids"
  shows "0 \<le> h"
proof -
  have loc: "0 \<le> x" if "x \<in> local_ids d" for x
    using that assms(2)
    by (auto simp: local_ids_def ListHosts_def query_def split: if_splits)
  have reach: "0 \<le> x" if "ReachableHosts d (Some u) = Inr (hs, False)" "x \<in> hs" for u hs x
    using ReachableHosts_rows [OF that] assms(1) by (force simp: db_wf_def)
  show ?thesis
    using assms(3,4) loc reach
    by (auto simp: visibleHostIDs_def split: option.splits sum.splits if_splits)
qed

lemma take_visible:
  assumes "\<And>x. x \<in> set xs \<Longrightarrow> P x"
  shows "filter P (take n xs) = take n xs"
  using assms by (auto simp: filter_id_conv dest: in_set_takeD)

section \<open>Properties\<close>

text \<open>Pages of the audit log are full: an identified reader gets exactly the newest entries, as
  many as asked for (at most 1000), among all the entries older than the cursor whose host is
  visible to that reader. Filtering in the query drops nothing the reader may see, and the
  second filter after it never shortens a page.\<close>

theorem audit_pages_full:
  assumes "rq_Claims r = Some uid" and "UserByID d uid = Inr u"
    and "distinct (map h_ID (d_hosts d))" and "d_fails d = (\<lambda>_. False)" and "\<not> a_sel_fails a"
    and "parse_int64 limit_q = Some n" and "1 \<le> n" and "n \<le> 1000"
  shows "handleAudit d a r limit_q before_q =
    Inr (take (nat n) (sort_key (\<lambda>(i, e). - i)
      (filter (\<lambda>(i, e). (parse_int64_value before_q > 0 \<longrightarrow> i < parse_int64_value before_q)
          \<and> visibleHosts d r (a_HostID e)) (tbl_rows (a_log a)))))"
proof -
  obtain ids al where v: "visibleHostIDs d r = (ids, al)" by (cases "visibleHostIDs d r")
  have vis: "visibleHosts d r h \<longleftrightarrow> al \<or> h \<in> ids" for h
    using visibleHostIDs_visibleHosts [OF assms(1-3), of h] assms(4) v by simp
  have ne: "al \<or> ids \<noteq> {}"
    using v by (auto simp: visibleHostIDs_def local_ids_def split: option.splits sum.splits if_splits)
  have "filter (\<lambda>(i, e). (b > 0 \<longrightarrow> i < b) \<and> (\<not> al \<longrightarrow> a_HostID e \<in> ids)) (tbl_rows (a_log a)) =
      filter (\<lambda>(i, e). (b > 0 \<longrightarrow> i < b) \<and> visibleHosts d r (a_HostID e)) (tbl_rows (a_log a))" for b
    using vis by (intro filter_cong) auto
  then show ?thesis
    using assms(5-8) ne v
    by (auto simp: handleAudit_def RecentAudit_def Let_def intro!: take_visible)
qed

definition demo_log :: adb where
  "demo_log = \<lparr>a_log = snd (tbl_insert \<lparr>a_UserID = 1, a_Username = ''root'', a_Action = ''container.stop'',
       a_Target = ''web'', a_Detail = [], a_IP = ''10.0.0.1'', a_HostID = 3, a_CreatedAt = 0\<rparr>
     (snd (tbl_insert \<lparr>a_UserID = 1, a_Username = ''root'', a_Action = ''maintenance_window.create'',
       a_Target = ''night'', a_Detail = [], a_IP = ''10.0.0.1'', a_HostID = -1, a_CreatedAt = 0\<rparr> tbl_empty))),
     a_ins_fails = False, a_sel_fails = False\<rparr>"

theorem audit_pages_full_witness:
  "handleAudit demo_db demo_log (demo_request ''GET'' ''/api/audit'' []) ''1'' [] =
     Inr (take 1 (sort_key (\<lambda>(i, e). - i)
       (filter (\<lambda>(i, e). visibleHosts demo_db (demo_request ''GET'' ''/api/audit'' []) (a_HostID e))
         (tbl_rows (a_log demo_log)))))"
proof -
  let ?r = "demo_request ''GET'' ''/api/audit'' []"
  have "rq_Claims ?r = Some 7" by (simp add: demo_request_def)
  moreover have "distinct (map h_ID (d_hosts demo_db))" "d_fails demo_db = (\<lambda>_. False)"
    by (simp_all add: demo_db_def demo_host_def)
  moreover have "\<not> a_sel_fails demo_log" by (simp add: demo_log_def)
  moreover have "parse_int64 ''1'' = Some 1" "parse_int64_value [] = 0" by code_simp+
  ultimately show ?thesis
    using audit_pages_full [OF _ demo_UserByID, of ?r demo_log "''1''" 1 "[]"] by simp
qed

text \<open>An entry about several hosts, or about every host, is shown only to a reader whose
  host access is not restricted: its host id is never one of those a restricted reader may
  see.\<close>

theorem several_hosts_need_all:
  assumes "role_reachable d" and "\<forall>h \<in> set (d_hosts d). h_ID h > 0"
    and "handleAudit d a r limit_q before_q = Inr es" and "(i, e) \<in> set es"
    and "a_HostID e = AuditHostSeveral"
  shows "snd (visibleHostIDs d r)"
proof (rule ccontr)
  assume "\<not> snd (visibleHostIDs d r)"
  then obtain ids where v: "visibleHostIDs d r = (ids, False)" by (cases "visibleHostIDs d r") auto
  then have "a_HostID e \<in> ids"
    using assms(3,4) by (auto simp: handleAudit_def Let_def bind_res_Inr_iff dest: RecentAudit_Inr)
  then show False
    using hosts_hidden [OF role_reachable_wf [OF assms(1)] assms(2) v, of "a_HostID e"] assms(5)
    by (simp add: AuditHostSeveral_def)
qed

text \<open>A store with an administrator, who reads such an entry.\<close>

definition admin_user :: User where
  "admin_user = demo_user\<lparr>u_ID := 1, u_Username := ''root'', u_Role := ''admin''\<rparr>"

definition admin_db :: db where
  "admin_db = empty_db (\<lambda>_. False)\<lparr>d_users := [admin_user], d_hosts := [demo_host 1 ''local'' ''local''],
     d_ldap_fallback := Some 0\<rparr>"

definition admin_request :: request where
  "admin_request = demo_request ''GET'' ''/api/audit'' []\<lparr>rq_Claims := Some 1\<rparr>"

lemma admin_db_reachable: "role_reachable admin_db"
  unfolding admin_db_def by (rule role_reachable.step [OF role_reachable.start role_step.others])

theorem several_hosts_need_all_witness:
  "role_reachable admin_db \<and> (\<exists>es i e. handleAudit admin_db demo_log admin_request [] [] = Inr es
     \<and> (i, e) \<in> set es \<and> a_HostID e = AuditHostSeveral) \<and> snd (visibleHostIDs admin_db admin_request)"
proof -
  have "case handleAudit admin_db demo_log admin_request [] [] of Inl _ \<Rightarrow> False
      | Inr es \<Rightarrow> length es = 2 \<and> a_HostID (snd (es ! 1)) = AuditHostSeveral"
    by code_simp
  then obtain es where es: "handleAudit admin_db demo_log admin_request [] [] = Inr es"
    "length es = 2" "a_HostID (snd (es ! 1)) = AuditHostSeveral"
    by (auto split: sum.splits)
  then have mem: "(fst (es ! 1), snd (es ! 1)) \<in> set es" by simp
  have "\<forall>h \<in> set (d_hosts admin_db). h_ID h > 0"
    by (simp add: admin_db_def demo_host_def)
  then have "snd (visibleHostIDs admin_db admin_request)"
    using several_hosts_need_all [OF admin_db_reachable _ es(1) mem es(3)] by blast
  then show ?thesis using admin_db_reachable es mem by blast
qed

end
