(* ===== verification/MaintenanceApi.thy ===== *)
theory MaintenanceApi
  imports Maintenance AuditLog
begin

text \<open>
  The HTTP handlers of maintenance windows, \<open>src/internal/api/maintenance_handlers.go\<close>, and
  the log of windows that start and end, \<open>src/internal/monitor/maintenance_log.go\<close>. A handler
  is a function of the server's state, the request, its decoded body (\<open>None\<close> when it does not
  decode), the text of the id in its path and the clock; it returns the reply and the new state. Go's map
  of known windows is an association list: the code's order over a map is not specified, so the
  statements are about the set of lines and the map.
\<close>

section \<open>State, bodies and replies\<close>

record srv =
  sv_db :: db
  sv_mw :: mdb
  sv_audit :: adb

record maintenanceWindowBody =
  b_Name :: string
  b_Reason :: string
  b_HostIDs :: "int list"
  b_Project :: string
  b_Container :: string
  b_RuleID :: "int option"
  b_Severities :: "string list"
  b_Recurring :: bool
  b_StartsAt :: time
  b_EndsAt :: time
  b_Weekdays :: "int list"
  b_TimeOfDay :: string
  b_DurationMin :: int
  b_Timezone :: string

datatype mw_invalid = NameRequired | ReasonRequired | UnknownSeverity string | NoWeekday
  | WeekdayOutOfRange int | BadTimeOfDay | DurationNotPositive | DurationTooLong | StartRequired
  | EndNotAfterStart | UnknownTimezone string | StartAndEndRequired

datatype mw_reply = InvalidBody | Invalid mw_invalid | ScopeForbidden | NoSuchWindow
  | WindowClosed | WindowRunning | ServerError | CreatedWindow int | WindowOk
  | WindowList "MaintenanceWindow list"

definition toWindow :: "maintenanceWindowBody \<Rightarrow> MaintenanceWindow" where
  "toWindow b = \<lparr>w_ID = 0, w_Name = b_Name b, w_Reason = b_Reason b, w_AuthorID = 0, w_Author = [],
     w_HostIDs = b_HostIDs b, w_Project = b_Project b, w_Container = b_Container b,
     w_RuleID = b_RuleID b, w_Severities = b_Severities b, w_Recurring = b_Recurring b,
     w_StartsAt = b_StartsAt b, w_EndsAt = b_EndsAt b, w_Weekdays = b_Weekdays b,
     w_TimeOfDay = b_TimeOfDay b, w_DurationMin = b_DurationMin b, w_Timezone = b_Timezone b,
     w_Ended = False, w_CreatedAt = 0\<rparr>"

definition validSeverities :: "string list" where
  "validSeverities = [''info'', ''warning'', ''critical'']"

definition validateMaintenanceWindow :: "tzdb \<Rightarrow> maintenanceWindowBody \<Rightarrow> mw_invalid option" where
  "validateMaintenanceWindow zones b =
     (if b_Name b = [] then Some NameRequired
      else if b_Reason b = [] then Some ReasonRequired
      else case find (\<lambda>s. s \<notin> set validSeverities) (b_Severities b) of
        Some s \<Rightarrow> Some (UnknownSeverity s)
      | None \<Rightarrow>
        if b_Recurring b then
          (if b_Weekdays b = [] then Some NoWeekday
           else case find (\<lambda>d. d < 0 \<or> d > 6) (b_Weekdays b) of
             Some d \<Rightarrow> Some (WeekdayOutOfRange d)
           | None \<Rightarrow>
             if parseTimeOfDay (b_TimeOfDay b) = None then Some BadTimeOfDay
             else if b_DurationMin b \<le> 0 then Some DurationNotPositive
             else if b_DurationMin b > MaxRecurringDurationMin then Some DurationTooLong
             else if b_StartsAt b = 0 then Some StartRequired
             else if b_EndsAt b \<noteq> 0 \<and> \<not> b_EndsAt b > b_StartsAt b then Some EndNotAfterStart
             else if b_Timezone b \<noteq> [] \<and> zones (b_Timezone b) = None
               then Some (UnknownTimezone (b_Timezone b))
             else None)
        else if b_StartsAt b = 0 \<or> b_EndsAt b = 0 then Some StartAndEndRequired
        else if \<not> b_EndsAt b > b_StartsAt b then Some EndNotAfterStart
        else None)"

section \<open>Who may scope a window\<close>

record maintenanceWindowGrant =
  mg_admin :: bool
  mg_grant :: Grant

definition resolveMaintenanceWindowGrant :: "db \<Rightarrow> request \<Rightarrow> maintenanceWindowGrant option" where
  "resolveMaintenanceWindowGrant d r =
     (case rq_Claims r of None \<Rightarrow> None
      | Some uid \<Rightarrow>
        (case UserByID d uid of Inl _ \<Rightarrow> None
         | Inr u \<Rightarrow>
           if IsAdmin u then Some \<lparr>mg_admin = True, mg_grant = zero_grant\<rparr>
           else case EffectiveGrants d (Some u) of Inl _ \<Rightarrow> None
             | Inr grants \<Rightarrow> Some \<lparr>mg_admin = False, mg_grant =
                 (case map_of grants ''alerts'' of None \<Rightarrow> zero_grant | Some g \<Rightarrow> g)\<rparr>))"

definition hostsAllowedByGrant :: "db \<Rightarrow> maintenanceWindowGrant option \<Rightarrow> int list \<Rightarrow> bool" where
  "hostsAllowedByGrant d g hostIDs =
     (case g of None \<Rightarrow> False
      | Some g \<Rightarrow>
        if mg_admin g then True
        else if hostIDs = [] then g_AllHosts (mg_grant g)
        else list_all (\<lambda>i. HasHost (mg_grant g) (NormalizeHostID d i)) hostIDs)"

definition maintenanceWindowHostsAllowed :: "db \<Rightarrow> request \<Rightarrow> int list \<Rightarrow> bool" where
  "maintenanceWindowHostsAllowed d r hostIDs =
     hostsAllowedByGrant d (resolveMaintenanceWindowGrant d r) hostIDs"

definition maintenanceWindowInReach :: "srv \<Rightarrow> request \<Rightarrow> int \<Rightarrow> db_error + MaintenanceWindow" where
  "maintenanceWindowInReach sv r i =
     bind_res (MaintenanceWindowByID (sv_mw sv) i) (\<lambda>win.
       if \<not> maintenanceWindowHostsAllowed (sv_db sv) r (w_HostIDs win) then Err ErrNotFound else Ok win)"

definition normalizeHostIDs :: "db \<Rightarrow> int list \<Rightarrow> int list" where
  "normalizeHostIDs d ids = map (NormalizeHostID d) ids"

definition unionHostIDs :: "int list \<Rightarrow> int list \<Rightarrow> int list" where
  "unionHostIDs a b = (if a = [] \<or> b = [] then [] else dedup (\<lambda>_. True) [] (a @ b))"

section \<open>Handlers\<close>

definition audit_window ::
    "srv \<Rightarrow> request \<Rightarrow> int list \<Rightarrow> string \<Rightarrow> string \<Rightarrow> string \<Rightarrow> time \<Rightarrow> srv" where
  "audit_window sv r hosts action target detail now =
     sv\<lparr>sv_audit := auditOn (sv_audit sv) r (AuditHostOf (sv_db sv) hosts) action target detail now\<rparr>"

definition handleListMaintenanceWindows :: "srv \<Rightarrow> request \<Rightarrow> mw_reply" where
  "handleListMaintenanceWindows sv r =
     (case ListMaintenanceWindows (sv_db sv) (sv_mw sv) of Inl _ \<Rightarrow> ServerError
      | Inr ws \<Rightarrow>
        let g = resolveMaintenanceWindowGrant (sv_db sv) r
        in WindowList (filter (\<lambda>w. hostsAllowedByGrant (sv_db sv) g (w_HostIDs w)) ws))"

definition handleCreateMaintenanceWindow ::
    "tzdb \<Rightarrow> srv \<Rightarrow> request \<Rightarrow> maintenanceWindowBody option \<Rightarrow> time \<Rightarrow> mw_reply \<times> srv" where
  "handleCreateMaintenanceWindow zones sv r body now =
     (case body of None \<Rightarrow> (InvalidBody, sv)
      | Some b0 \<Rightarrow>
        let b = b0\<lparr>b_HostIDs := normalizeHostIDs (sv_db sv) (b_HostIDs b0)\<rparr>
        in case validateMaintenanceWindow zones b of Some e \<Rightarrow> (Invalid e, sv)
        | None \<Rightarrow>
          if \<not> maintenanceWindowHostsAllowed (sv_db sv) r (b_HostIDs b) then (ScopeForbidden, sv)
          else let win = (case rq_Claims r of None \<Rightarrow> toWindow b
                          | Some uid \<Rightarrow> toWindow b\<lparr>w_AuthorID := uid\<rparr>)
          in case CreateMaintenanceWindow (sv_mw sv) win now of
               (Inl _, m) \<Rightarrow> (ServerError, sv\<lparr>sv_mw := m\<rparr>)
             | (Inr i, m) \<Rightarrow> (CreatedWindow i,
                 audit_window (sv\<lparr>sv_mw := m\<rparr>) r (w_HostIDs win) ''maintenance_window.create''
                   (b_Name b) (b_Reason b) now))"

definition handleUpdateMaintenanceWindow ::
    "tzdb \<Rightarrow> srv \<Rightarrow> request \<Rightarrow> string \<Rightarrow> maintenanceWindowBody option \<Rightarrow> time \<Rightarrow> mw_reply \<times> srv" where
  "handleUpdateMaintenanceWindow zones sv r id_param body now =
     (case body of None \<Rightarrow> (InvalidBody, sv)
      | Some b0 \<Rightarrow>
        let i = parse_int64_value id_param;
            b = b0\<lparr>b_HostIDs := normalizeHostIDs (sv_db sv) (b_HostIDs b0)\<rparr>
        in case validateMaintenanceWindow zones b of Some e \<Rightarrow> (Invalid e, sv)
        | None \<Rightarrow>
          (case maintenanceWindowInReach sv r i of Inl _ \<Rightarrow> (NoSuchWindow, sv)
           | Inr existing \<Rightarrow>
             if Closed existing now then (WindowClosed, sv)
             else if \<not> maintenanceWindowHostsAllowed (sv_db sv) r (b_HostIDs b) then (ScopeForbidden, sv)
             else case UpdateMaintenanceWindow (sv_mw sv) i (toWindow b) of
               (Inl e, m) \<Rightarrow> (if e = ErrNotFound then NoSuchWindow else ServerError, sv\<lparr>sv_mw := m\<rparr>)
             | (Inr _, m) \<Rightarrow> (WindowOk,
                 audit_window (sv\<lparr>sv_mw := m\<rparr>) r (unionHostIDs (w_HostIDs existing) (b_HostIDs b))
                   ''maintenance_window.update'' (b_Name b) (b_Reason b) now)))"

definition handleEndMaintenanceWindow :: "srv \<Rightarrow> request \<Rightarrow> string \<Rightarrow> time \<Rightarrow> mw_reply \<times> srv" where
  "handleEndMaintenanceWindow sv r id_param now =
     (let i = parse_int64_value id_param in case maintenanceWindowInReach sv r i of Inl _ \<Rightarrow> (NoSuchWindow, sv)
      | Inr win \<Rightarrow>
        (case EndMaintenanceWindow (sv_mw sv) i of
           (Inl _, m) \<Rightarrow> (ServerError, sv\<lparr>sv_mw := m\<rparr>)
         | (Inr _, m) \<Rightarrow> (WindowOk,
             audit_window (sv\<lparr>sv_mw := m\<rparr>) r (w_HostIDs win) ''maintenance_window.end'' id_param [] now)))"

definition handleDeleteMaintenanceWindow :: "srv \<Rightarrow> request \<Rightarrow> string \<Rightarrow> time \<Rightarrow> mw_reply \<times> srv" where
  "handleDeleteMaintenanceWindow sv r id_param now =
     (let i = parse_int64_value id_param in case maintenanceWindowInReach sv r i of Inl _ \<Rightarrow> (NoSuchWindow, sv)
      | Inr win \<Rightarrow>
        if \<not> now < w_StartsAt win \<and> \<not> Closed win now then (WindowRunning, sv)
        else case DeleteMaintenanceWindow (sv_mw sv) i of
           (Inl _, m) \<Rightarrow> (ServerError, sv\<lparr>sv_mw := m\<rparr>)
         | (Inr _, m) \<Rightarrow> (WindowOk,
             audit_window (sv\<lparr>sv_mw := m\<rparr>) r (w_HostIDs win) ''maintenance_window.delete'' id_param [] now))"

text \<open>\<open>autoSilenceForDeploy\<close>, called after a deploy with the configured grace period and the
  project's name, slug and host; a failure is only logged.\<close>

definition autoSilenceForDeploy ::
    "duration \<Rightarrow> srv \<Rightarrow> string \<Rightarrow> string \<Rightarrow> int \<Rightarrow> time \<Rightarrow> srv" where
  "autoSilenceForDeploy grace sv name slug host now =
     (if grace \<le> 0 then sv
      else sv\<lparr>sv_mw := snd (CreateMaintenanceWindow (sv_mw sv)
        \<lparr>w_ID = 0, w_Name = ''auto: '' @ name @ '' deploy'',
         w_Reason = ''automatic grace period after a deploy'', w_AuthorID = 0, w_Author = [],
         w_HostIDs = normalizeHostIDs (sv_db sv) [host], w_Project = slug, w_Container = [],
         w_RuleID = None, w_Severities = [], w_Recurring = False, w_StartsAt = now,
         w_EndsAt = now + grace, w_Weekdays = [], w_TimeOfDay = [], w_DurationMin = 0,
         w_Timezone = [], w_Ended = False, w_CreatedAt = 0\<rparr> now)\<rparr>)"

section \<open>The log of windows\<close>

record activeWindow =
  aw_name :: string
  aw_start :: time
  aw_end :: time

datatype log_line =
    LogActive int string string time time duration
  | LogStarted int string string time duration
  | LogOver string int string duration

definition windowScope :: "MaintenanceWindow \<Rightarrow> string" where
  "windowScope w =
     (let parts =
        (if w_HostIDs w \<noteq> [] then [join '','' (map (\<lambda>h. ''host#'' @ show_int h) (w_HostIDs w))] else [])
        @ (if w_Project w \<noteq> [] then [''project~'' @ w_Project w] else [])
        @ (if w_Container w \<noteq> [] then [''container~'' @ w_Container w] else [])
        @ (case w_RuleID w of None \<Rightarrow> [] | Some i \<Rightarrow> [''rule#'' @ show_int i])
        @ (if w_Severities w \<noteq> [] then [join ''/'' (w_Severities w)] else [])
      in if parts = [] then ''everything'' else join '' '' parts)"

definition same_occurrence :: "activeWindow \<Rightarrow> activeWindow \<Rightarrow> bool" where
  "same_occurrence a b \<longleftrightarrow> aw_start a = aw_start b \<and> aw_end a = aw_end b"

definition active_now :: "tzdb \<Rightarrow> MaintenanceWindow list \<Rightarrow> time \<Rightarrow> (int \<times> activeWindow) list" where
  "active_now zones windows now =
     foldl (\<lambda>cur w. case ActiveSpan zones w now of None \<Rightarrow> cur
             | Some (s, e) \<Rightarrow> AList.update (w_ID w) \<lparr>aw_name = w_Name w, aw_start = s, aw_end = e\<rparr> cur)
       [] windows"

definition window_by_id :: "MaintenanceWindow list \<Rightarrow> int \<Rightarrow> MaintenanceWindow option" where
  "window_by_id windows = map_of (rev (map (\<lambda>w. (w_ID w, w)) windows))"

definition start_lines ::
    "(int \<times> activeWindow) list \<Rightarrow> (int \<times> activeWindow) list \<Rightarrow> MaintenanceWindow list
     \<Rightarrow> time \<Rightarrow> bool \<Rightarrow> log_line list" where
  "start_lines prev cur windows now first =
     map (\<lambda>(i, a).
        let scope = (case window_by_id windows i of None \<Rightarrow> ''everything'' | Some w \<Rightarrow> windowScope w)
        in if first then LogActive i (aw_name a) scope (aw_start a) (aw_end a)
                           (round_second (time_sub (aw_end a) now))
           else LogStarted i (aw_name a) scope (aw_end a) (round_second (time_sub (aw_end a) (aw_start a))))
       (filter (\<lambda>(i, a). case map_of prev i of None \<Rightarrow> True | Some p \<Rightarrow> \<not> same_occurrence p a) cur)"

definition end_lines ::
    "(int \<times> activeWindow) list \<Rightarrow> (int \<times> activeWindow) list \<Rightarrow> MaintenanceWindow list
     \<Rightarrow> time \<Rightarrow> log_line list" where
  "end_lines prev cur windows now =
     map (\<lambda>(i, a).
        LogOver (case window_by_id windows i of None \<Rightarrow> ''removed''
                 | Some w \<Rightarrow> if w_Ended w then ''ended early'' else ''ended'')
          i (aw_name a) (round_second (time_sub now (aw_start a))))
       (filter (\<lambda>(i, a). case map_of cur i of None \<Rightarrow> True | Some c \<Rightarrow> \<not> same_occurrence c a) prev)"

definition logMaintenanceTransitions ::
    "tzdb \<Rightarrow> (int \<times> activeWindow) list \<Rightarrow> MaintenanceWindow list \<Rightarrow> time \<Rightarrow> bool
     \<Rightarrow> log_line list \<times> (int \<times> activeWindow) list" where
  "logMaintenanceTransitions zones prev windows now first =
     (let cur = active_now zones windows now
      in (start_lines prev cur windows now first @ end_lines prev cur windows now, cur))"

text \<open>One round of \<open>maintenanceLogLoop\<close>; it reads the clock before the query and again
  after it. An error of the query leaves what is known as it was.\<close>

record mlog =
  ml_known :: "(int \<times> activeWindow) list"
  ml_first :: bool

definition maintenanceLogPass ::
    "tzdb \<Rightarrow> mdb \<Rightarrow> mlog \<Rightarrow> time \<Rightarrow> time \<Rightarrow> log_line list \<times> mlog" where
  "maintenanceLogPass zones m st now1 now2 =
     (case MaintenanceWindowsForLog m now1 (map fst (ml_known st)) of
        Inl _ \<Rightarrow> ([], st)
      | Inr windows \<Rightarrow>
        (case logMaintenanceTransitions zones (ml_known st) windows now2 (ml_first st) of
           (out, cur) \<Rightarrow> (out, \<lparr>ml_known = cur, ml_first = False\<rparr>)))"

section \<open>Steps\<close>

text \<open>What a request of one caller may do to the windows at an instant.\<close>

inductive mw_step :: "tzdb \<Rightarrow> request \<Rightarrow> time \<Rightarrow> srv \<Rightarrow> srv \<Rightarrow> bool" for zones r now where
  create: "mw_step zones r now sv (snd (handleCreateMaintenanceWindow zones sv r body now))"
| update: "mw_step zones r now sv (snd (handleUpdateMaintenanceWindow zones sv r idp body now))"
| end_early: "mw_step zones r now sv (snd (handleEndMaintenanceWindow sv r idp now))"
| delete: "mw_step zones r now sv (snd (handleDeleteMaintenanceWindow sv r idp now))"

inductive_cases mw_stepE: "mw_step zones r now sv sv'"

lemma NormalizeHostID_idem [simp]: "NormalizeHostID d (NormalizeHostID d i) = NormalizeHostID d i"
  by (auto simp: NormalizeHostID_def split: option.splits)

lemma audit_window_simps [simp]:
  "sv_mw (audit_window sv r hs a t x now) = sv_mw sv"
  "sv_db (audit_window sv r hs a t x now) = sv_db sv"
  by (simp_all add: audit_window_def)

text \<open>The callers who may silence a host: administrators, and accounts whose alerts section
  reaches it (everyone reaches the local daemon).\<close>

definition may_silence :: "db \<Rightarrow> request \<Rightarrow> int \<Rightarrow> bool" where
  "may_silence d r h \<longleftrightarrow> (\<exists>uid u. rq_Claims r = Some uid \<and> UserByID d uid = Inr u
     \<and> (IsAdmin u \<or> h = 0 \<or> may_host d u ''alerts'' h))"

lemma HasHost_alerts:
  assumes "EffectiveGrants d (Some u) = Inr gs"
    and "HasHost (case map_of gs ''alerts'' of None \<Rightarrow> zero_grant | Some g \<Rightarrow> g) h"
  shows "h = 0 \<or> may_host d u ''alerts'' h"
  using EffectiveGrants_correct_aux [OF assms(1), of "''alerts''"] assms(2)
  by (auto simp: HasHost_def zero_grant_def split: option.splits)

lemma hosts_allowed_may_silence:
  assumes "maintenanceWindowHostsAllowed d r (normalizeHostIDs d ids)"
    and "ids = [] \<or> h \<in> set (normalizeHostIDs d ids)"
  shows "may_silence d r h"
proof -
  obtain g where g: "resolveMaintenanceWindowGrant d r = Some g"
    and ok: "hostsAllowedByGrant d (Some g) (normalizeHostIDs d ids)"
    using assms(1)
    by (auto simp: maintenanceWindowHostsAllowed_def hostsAllowedByGrant_def split: option.splits)
  obtain uid u where u: "rq_Claims r = Some uid" "UserByID d uid = Inr u"
    using g by (auto simp: resolveMaintenanceWindowGrant_def split: option.splits sum.splits)
  show ?thesis
  proof (cases "IsAdmin u")
    case False
    then obtain gs where gs: "EffectiveGrants d (Some u) = Inr gs"
      and mg: "g = \<lparr>mg_admin = False, mg_grant =
          (case map_of gs ''alerts'' of None \<Rightarrow> zero_grant | Some g \<Rightarrow> g)\<rparr>"
      using g u by (auto simp: resolveMaintenanceWindowGrant_def split: sum.splits)
    then have "\<not> mg_admin g" by simp
    then have "HasHost (mg_grant g) h"
      using ok assms(2) unfolding hostsAllowedByGrant_def normalizeHostIDs_def
      by (cases "ids = []") (auto simp: list_all_iff HasHost_def)
    then show ?thesis using HasHost_alerts [OF gs] u mg by (auto simp: may_silence_def)
  qed (use u in \<open>auto simp: may_silence_def\<close>)
qed

text \<open>What a successful creation or update leaves in the table.\<close>

lemma update_rows:
  "tbl_lookup (m_windows (snd (UpdateMaintenanceWindow m i w))) j = Some x \<Longrightarrow>
     tbl_lookup (m_windows m) j = Some x \<or> i = j \<and> mc_host_ids x = w_HostIDs w"
  by (auto simp: UpdateMaintenanceWindow_def tbl_lookup_update split: if_splits)

lemma create_rows:
  "tbl_wf (m_windows m) \<Longrightarrow>
   tbl_lookup (m_windows (snd (CreateMaintenanceWindow m w now))) j = Some x \<Longrightarrow>
     tbl_lookup (m_windows m) j = Some x \<or> mc_host_ids x = w_HostIDs w"
  by (auto simp: CreateMaintenanceWindow_def case_prod_unfold tbl_lookup_insert split: if_splits)

lemma end_rows:
  "tbl_lookup (m_windows (snd (EndMaintenanceWindow m i))) j = Some x \<Longrightarrow>
     tbl_lookup (m_windows m) j = Some x \<or> mc_ended x"
  by (auto simp: EndMaintenanceWindow_def tbl_lookup_update split: if_splits)

lemma delete_rows:
  "tbl_lookup (m_windows (snd (DeleteMaintenanceWindow m i))) j = Some x \<Longrightarrow>
     tbl_lookup (m_windows m) j = Some x"
  by (auto simp: DeleteMaintenanceWindow_def tbl_lookup_delete split: if_splits)

text \<open>Each handler's effect on the windows is one operation of the store, or nothing.\<close>

lemma handleCreate_mw:
  "sv_mw (snd (handleCreateMaintenanceWindow zones sv r body now)) = sv_mw sv
   \<or> (\<exists>b w. body = Some b
        \<and> maintenanceWindowHostsAllowed (sv_db sv) r (normalizeHostIDs (sv_db sv) (b_HostIDs b))
        \<and> w_HostIDs w = normalizeHostIDs (sv_db sv) (b_HostIDs b)
        \<and> sv_mw (snd (handleCreateMaintenanceWindow zones sv r body now)) =
            snd (CreateMaintenanceWindow (sv_mw sv) w now))"
  unfolding handleCreateMaintenanceWindow_def Let_def
  by (auto split: option.splits prod.splits sum.splits simp: toWindow_def)
    (metis MaintenanceWindow.select_convs(6) MaintenanceWindow.update_convs(4) snd_conv)+

lemma handleUpdate_mw:
  "sv_mw (snd (handleUpdateMaintenanceWindow zones sv r idp body now)) = sv_mw sv
   \<or> (\<exists>b w i existing. body = Some b
        \<and> maintenanceWindowHostsAllowed (sv_db sv) r (normalizeHostIDs (sv_db sv) (b_HostIDs b))
        \<and> w_HostIDs w = normalizeHostIDs (sv_db sv) (b_HostIDs b)
        \<and> maintenanceWindowInReach sv r i = Inr existing \<and> \<not> Closed existing now
        \<and> sv_mw (snd (handleUpdateMaintenanceWindow zones sv r idp body now)) =
            snd (UpdateMaintenanceWindow (sv_mw sv) i w))"
proof (cases body)
  case (Some b0)
  let ?b = "b0\<lparr>b_HostIDs := normalizeHostIDs (sv_db sv) (b_HostIDs b0)\<rparr>"
  have "w_HostIDs (toWindow ?b) = normalizeHostIDs (sv_db sv) (b_HostIDs b0)"
    by (simp add: toWindow_def)
  with Some show ?thesis
    unfolding handleUpdateMaintenanceWindow_def Let_def
    by (auto split: option.splits prod.splits sum.splits) (metis snd_conv)+
qed (simp add: handleUpdateMaintenanceWindow_def)

lemma handleEnd_mw:
  "sv_mw (snd (handleEndMaintenanceWindow sv r idp now)) = sv_mw sv
   \<or> (\<exists>i. sv_mw (snd (handleEndMaintenanceWindow sv r idp now)) = snd (EndMaintenanceWindow (sv_mw sv) i))"
  unfolding handleEndMaintenanceWindow_def Let_def
  by (auto split: prod.splits sum.splits) (metis snd_conv)+

lemma handleDelete_mw:
  "sv_mw (snd (handleDeleteMaintenanceWindow sv r idp now)) = sv_mw sv
   \<or> (\<exists>i win. maintenanceWindowInReach sv r i = Inr win \<and> (now < w_StartsAt win \<or> Closed win now)
        \<and> sv_mw (snd (handleDeleteMaintenanceWindow sv r idp now)) = snd (DeleteMaintenanceWindow (sv_mw sv) i))"
  unfolding handleDeleteMaintenanceWindow_def Let_def
  by (auto split: prod.splits sum.splits if_splits) (metis snd_conv)+

lemma inReach_row:
  "maintenanceWindowInReach sv r i = Inr win \<Longrightarrow>
     \<exists>x. tbl_lookup (m_windows (sv_mw sv)) i = Some x \<and> win = scanMaintenanceWindow [] (i, x)
       \<and> maintenanceWindowHostsAllowed (sv_db sv) r (w_HostIDs win)"
  by (auto simp: maintenanceWindowInReach_def MaintenanceWindowByID_def bind_res_Inr_iff
      split: if_splits option.splits)

lemma mw_step_wf: "mw_step zones r now sv sv' \<Longrightarrow> mdb_wf (sv_mw sv) \<Longrightarrow> mdb_wf (sv_mw sv')"
proof (induction rule: mw_step.induct)
  case (create sv body)
  then show ?case using handleCreate_mw [of zones sv r body now] by (auto simp: inv_intros)
next
  case (update sv idp body)
  then show ?case using handleUpdate_mw [of zones sv r idp body now] by (auto simp: inv_intros)
next
  case (end_early sv idp)
  then show ?case using handleEnd_mw [of sv r idp now] by (auto simp: inv_intros)
next
  case (delete sv idp)
  then show ?case using handleDelete_mw [of sv r idp now] by (auto simp: inv_intros)
qed

text \<open>The map of active windows, and the windows a pass of the log looks at.\<close>

lemma map_of_active_now:
  "distinct (map w_ID ws) \<Longrightarrow>
   map_of (active_now zones ws now) i =
     (case window_by_id ws i of None \<Rightarrow> None
      | Some w \<Rightarrow> map_option (\<lambda>(s, e). \<lparr>aw_name = w_Name w, aw_start = s, aw_end = e\<rparr>)
                   (ActiveSpan zones w now))"
proof (induction ws rule: rev_induct)
  case Nil
  show ?case by (simp add: active_now_def window_by_id_def)
next
  case (snoc w ws)
  then have "window_by_id ws (w_ID w) = None"
    by (auto simp: window_by_id_def map_of_eq_None_iff)
  with snoc show ?case
    by (auto simp: active_now_def window_by_id_def update_conv split: option.splits)
qed

lemma active_now_keys: "distinct (map fst (active_now zones ws now))"
  by (induction ws rule: rev_induct)
    (auto simp: active_now_def distinct_update split: option.splits)

definition log_reads :: "mdb \<Rightarrow> bool" where
  "log_reads m \<longleftrightarrow> \<not> m_fails m SelCandidates \<and> (\<forall>i. \<not> m_fails m (SelWindow i))"

lemma log_missing_Inr:
  "(\<forall>i. \<not> m_fails m (SelWindow i)) \<Longrightarrow>
   log_missing m seen ids = Inr (map (\<lambda>i. scanMaintenanceWindow [] (i, the (tbl_lookup (m_windows m) i)))
     (filter (\<lambda>i. i \<notin> set seen \<and> tbl_lookup (m_windows m) i \<noteq> None) ids))"
  by (induction ids) (auto simp: MaintenanceWindowByID_def split: option.splits)

lemma windows_for_log:
  assumes "mdb_wf m" and "log_reads m" and "distinct ids" and "0 \<le> now"
  obtains ws where "MaintenanceWindowsForLog m now ids = Inr ws" and "distinct (map w_ID ws)"
    and "set ws \<subseteq> {w. stored_window m w}"
    and "{w. stored_window m w \<and> (w_ID w \<in> set ids \<or> (\<exists>zones. Active zones w now))} \<subseteq> set ws"
proof
  let ?rows = "filter (candidate now) (tbl_rows (m_windows m))"
  let ?miss = "filter (\<lambda>i. i \<notin> set (map fst ?rows) \<and> tbl_lookup (m_windows m) i \<noteq> None) ids"
  let ?ws = "map (scanMaintenanceWindow []) ?rows
    @ map (\<lambda>i. scanMaintenanceWindow [] (i, the (tbl_lookup (m_windows m) i))) ?miss"
  have ids: "map w_ID (map (scanMaintenanceWindow []) rs) = map fst rs" for rs by simp
  show "MaintenanceWindowsForLog m now ids = Inr ?ws"
    using assms(2)
    by (simp add: MaintenanceWindowsForLog_def activeCandidateMaintenanceWindows_def mquery_def
        log_reads_def log_missing_Inr image_image)
  have "distinct (map fst ?rows)"
    using assms(1) by (auto simp: mdb_wf_def tbl_wf_def intro: distinct_map_filter)
  then show "distinct (map w_ID ?ws)"
    using assms(3) by (auto simp: comp_def)
  have rows: "(i, x) \<in> set (tbl_rows (m_windows m)) \<longleftrightarrow> tbl_lookup (m_windows m) i = Some x" for i x
    using assms(1) by (simp add: mdb_wf_def set_rows_lookup)
  show "set ?ws \<subseteq> {w. stored_window m w}"
    by (auto simp: stored_window_def rows) blast+
  show "{w. stored_window m w \<and> (w_ID w \<in> set ids \<or> (\<exists>zones. Active zones w now))} \<subseteq> set ?ws"
  proof clarify
    fix w assume w: "stored_window m w" "w_ID w \<in> set ids \<or> (\<exists>zones. Active zones w now)"
    then obtain i x where x: "tbl_lookup (m_windows m) i = Some x" "w = scanMaintenanceWindow [] (i, x)"
      by (auto simp: stored_window_def)
    have "whole_row x" using assms(1) x by (auto simp: mdb_wf_def intro: tbl_all_lookup)
    then have "candidate now (i, x) \<or> i \<in> set ids"
      using w(2) x Active_candidate [of _ "[]" i x now] assms(4) by auto
    then consider (cand) "(i, x) \<in> set ?rows" | (miss) "i \<in> set ?miss"
      using rows x(1) by force
    then show "w \<in> set ?ws"
    proof cases
      case cand
      then show ?thesis unfolding x(2) set_append set_map by blast
    next
      case miss
      then have "scanMaintenanceWindow [] (i, the (tbl_lookup (m_windows m) i)) \<in> set ?ws"
        unfolding set_append set_map by blast
      then show ?thesis using x by simp
    qed
  qed
qed

text \<open>Which window a line reports as started, and which as over.\<close>

fun started_id :: "log_line \<Rightarrow> int option" where
  "started_id (LogActive i n sc t t' x) = Some i"
| "started_id (LogStarted i n sc t x) = Some i"
| "started_id (LogOver why i n x) = None"

fun over_id :: "log_line \<Rightarrow> int option" where
  "over_id (LogOver why i n x) = Some i"
| "over_id l = None"

lemma start_line_ids:
  "Some i \<in> started_id ` set (start_lines prev cur ws now first) \<longleftrightarrow>
     (\<exists>a. (i, a) \<in> set cur \<and> (case map_of prev i of None \<Rightarrow> True | Some p \<Rightarrow> \<not> same_occurrence p a))"
  "Some i \<notin> over_id ` set (start_lines prev cur ws now first)"
  by (cases first; force simp: start_lines_def Let_def image_image)+

lemma end_line_ids:
  "Some i \<in> over_id ` set (end_lines prev cur ws now) \<longleftrightarrow>
     (\<exists>b. (i, b) \<in> set prev \<and> (case map_of cur i of None \<Rightarrow> True | Some c \<Rightarrow> \<not> same_occurrence c b))"
  "Some i \<notin> started_id ` set (end_lines prev cur ws now)"
  by (force simp: end_lines_def image_image)+

lemma known_exact:
  assumes "distinct (map w_ID ws)" and "set ws \<subseteq> {w. stored_window m w}"
    and "{w. stored_window m w \<and> (w_ID w \<in> K \<or> (\<exists>zones. Active zones w now))} \<subseteq> set ws"
  shows "map_of (active_now zones ws now) i =
    (case tbl_lookup (m_windows m) i of None \<Rightarrow> None
     | Some x \<Rightarrow> map_option (\<lambda>(s, e). \<lparr>aw_name = mc_name x, aw_start = s, aw_end = e\<rparr>)
                  (ActiveSpan zones (scanMaintenanceWindow [] (i, x)) now))"
proof (cases "window_by_id ws i")
  case None
  then have "w_ID w \<noteq> i" if "w \<in> set ws" for w
    using that by (auto simp: window_by_id_def map_of_eq_None_iff image_image)
  then have "\<not> Active zones (scanMaintenanceWindow [] (i, x)) now"
    if "tbl_lookup (m_windows m) i = Some x" for x
    using assms(3) that by (force simp: stored_window_def)
  then have "ActiveSpan zones (scanMaintenanceWindow [] (i, x)) now = None"
    if "tbl_lookup (m_windows m) i = Some x" for x
    using that unfolding Active_def by blast
  then show ?thesis
    using None by (simp add: map_of_active_now [OF assms(1)] split: option.split)
next
  case (Some w)
  then have "w \<in> set ws" "w_ID w = i" by (auto simp: window_by_id_def dest!: map_of_SomeD)
  then obtain x where "tbl_lookup (m_windows m) i = Some x" "w = scanMaintenanceWindow [] (i, x)"
    using assms(2) by (auto simp: stored_window_def)
  then show ?thesis
    using Some by (simp add: map_of_active_now [OF assms(1)] scanMaintenanceWindow_def)
qed

section \<open>Properties\<close>


text \<open>Witnesses run as the account of the example installation, with alerts granted on staging.\<close>

definition alerts_db :: db where
  "alerts_db = demo_db\<lparr>d_role_sections := [(1, ''alerts'', True)]\<rparr>"

definition night_body :: maintenanceWindowBody where
  "night_body = \<lparr>b_Name = ''night'', b_Reason = ''backup'', b_HostIDs = [2], b_Project = [],
     b_Container = [], b_RuleID = None, b_Severities = [], b_Recurring = False,
     b_StartsAt = 738000 * day, b_EndsAt = 738000 * day + hour, b_Weekdays = [], b_TimeOfDay = [],
     b_DurationMin = 0, b_Timezone = []\<rparr>"

definition alerts_srv :: srv where
  "alerts_srv = \<lparr>sv_db = alerts_db, sv_mw = empty_mdb, sv_audit = demo_log\<rparr>"

definition alerts_request :: request where
  "alerts_request = demo_request ''POST'' ''/api/maintenance-windows'' []"

definition night_srv :: srv where
  "night_srv = snd (handleCreateMaintenanceWindow (\<lambda>_. None) alerts_srv alerts_request (Some night_body)
     (738000 * day))"

lemma empty_mdb_wf: "mdb_wf empty_mdb"
  by (simp add: mdb_wf_def empty_mdb_def)

lemma night_srv_wf: "mdb_wf (sv_mw night_srv)"
  unfolding night_srv_def
  by (rule mw_step_wf [OF mw_step.create]) (simp add: alerts_srv_def empty_mdb_wf)

lemma night_row: "\<exists>x. tbl_lookup (m_windows (sv_mw night_srv)) 1 = Some x
    \<and> w_HostIDs (scanMaintenanceWindow [] (1, x)) = [2]
    \<and> Active (\<lambda>_. None) (scanMaintenanceWindow [] (1, x)) (738000 * day)
    \<and> Closed (scanMaintenanceWindow [] (1, x)) (738001 * day)
    \<and> Matches (scanMaintenanceWindow [] (1, x)) 2 [] [] 0 ''info''"
proof -
  have "case tbl_lookup (m_windows (sv_mw night_srv)) 1 of None \<Rightarrow> False
    | Some x \<Rightarrow> w_HostIDs (scanMaintenanceWindow [] (1, x)) = [2]
       \<and> Active (\<lambda>_. None) (scanMaintenanceWindow [] (1, x)) (738000 * day)
       \<and> Closed (scanMaintenanceWindow [] (1, x)) (738001 * day)
       \<and> Matches (scanMaintenanceWindow [] (1, x)) 2 [] [] 0 ''info''"
    by code_simp
  then show ?thesis by (auto split: option.splits)
qed


text \<open>A closed window is history: whatever request arrives, at or after the moment it closed,
  its row is afterwards as it was, or marked as ended, or deleted as a whole; no field of it is
  rewritten.\<close>

theorem closed_window_frozen:
  assumes "mdb_wf (sv_mw sv)" and "mw_step zones r now sv sv'"
    and "tbl_lookup (m_windows (sv_mw sv)) i = Some x" and "Closed (scanMaintenanceWindow [] (i, x)) now"
  shows "tbl_lookup (m_windows (sv_mw sv')) i \<in> {Some x, Some (x\<lparr>mc_ended := True\<rparr>), None}"
  using assms(2)
proof cases
  case (create body)
  have "tbl_lookup (m_windows (snd (CreateMaintenanceWindow (sv_mw sv) w now))) i = Some x" for w
    using assms(1,3) tab.ins_keeps [of "m_windows (sv_mw sv)" i x]
    by (auto simp: CreateMaintenanceWindow_def case_prod_unfold mdb_wf_def)
  with create assms(3) handleCreate_mw [of zones sv r body now] show ?thesis by auto
next
  case (update idp body)
  have "tbl_lookup (m_windows (snd (UpdateMaintenanceWindow (sv_mw sv) j w))) i = Some x"
    if "maintenanceWindowInReach sv r j = Inr e" "\<not> Closed e now" for j w e
  proof -
    have "i \<noteq> j" using inReach_row [OF that(1)] that(2) assms(3,4) by auto
    then show ?thesis
      using assms(3) by (auto simp: UpdateMaintenanceWindow_def tbl_lookup_update)
  qed
  with update assms(3) handleUpdate_mw [of zones sv r idp body now] show ?thesis by auto
next
  case (end_early idp)
  have "tbl_lookup (m_windows (snd (EndMaintenanceWindow (sv_mw sv) j))) i \<in>
      {Some x, Some (x\<lparr>mc_ended := True\<rparr>)}" for j
    using assms(3) by (auto simp: EndMaintenanceWindow_def tbl_lookup_update)
  with end_early assms(3) handleEnd_mw [of sv r idp now] show ?thesis by (metis insert_iff)
next
  case (delete idp)
  have "tbl_lookup (m_windows (snd (DeleteMaintenanceWindow (sv_mw sv) j))) i \<in> {Some x, None}" for j
    using assms(3) by (auto simp: DeleteMaintenanceWindow_def tbl_lookup_delete)
  with delete assms(3) handleDelete_mw [of sv r idp now] show ?thesis by (metis insert_iff)
qed

theorem closed_window_frozen_witness:
  "\<exists>x. Closed (scanMaintenanceWindow [] (1, x)) (738001 * day)
     \<and> tbl_lookup (m_windows (sv_mw (snd (handleUpdateMaintenanceWindow (\<lambda>_. None) night_srv alerts_request
           ''1'' (Some (night_body\<lparr>b_Name := ''other''\<rparr>)) (738001 * day))))) 1
         \<in> {Some x, Some (x\<lparr>mc_ended := True\<rparr>), None}"
  using closed_window_frozen [OF night_srv_wf mw_step.update, of 1] night_row by metis

text \<open>A one-off window that is running is not deleted: when the handler deletes a window that
  is not recurring, the window was not active. Its row is gone afterwards and the audit log has
  one more entry, unless writing that entry failed.\<close>

theorem running_window_not_deleted:
  assumes "handleDeleteMaintenanceWindow sv r idp now = (WindowOk, sv')"
    and "tbl_lookup (m_windows (sv_mw sv)) (parse_int64_value idp) = Some x" and "\<not> mc_recurring x"
  shows "\<not> Active zones (scanMaintenanceWindow [] (parse_int64_value idp, x)) now
    \<and> tbl_lookup (m_windows (sv_mw sv')) (parse_int64_value idp) = None
    \<and> (a_ins_fails (sv_audit sv) \<or> tbl_seq (a_log (sv_audit sv')) = tbl_seq (a_log (sv_audit sv)) + 1)"
proof -
  let ?i = "parse_int64_value idp"
  obtain win m u where win: "maintenanceWindowInReach sv r ?i = Inr win"
    and "\<not> (\<not> now < w_StartsAt win \<and> \<not> Closed win now)"
    and del: "DeleteMaintenanceWindow (sv_mw sv) ?i = (Inr u, m)"
    and sv': "sv' = audit_window (sv\<lparr>sv_mw := m\<rparr>) r (w_HostIDs win) ''maintenance_window.delete'' idp [] now"
    using assms(1) unfolding handleDeleteMaintenanceWindow_def Let_def
    by (auto split: sum.splits if_splits prod.splits)
  then consider "now < w_StartsAt win" | "Closed win now" by blast
  moreover have w: "win = scanMaintenanceWindow [] (?i, x)" using inReach_row [OF win] assms(2) by auto
  then have "\<not> w_Recurring win" using assms(3) by simp
  ultimately have "\<not> Active zones win now"
    by cases (simp add: Active_def ActiveSpan_def, rule Closed_not_Active [OF _ order_refl])
  moreover have "tbl_lookup (m_windows m) ?i = None"
    using del by (auto simp: DeleteMaintenanceWindow_def tbl_lookup_delete split: if_splits)
  ultimately show ?thesis
    using auditOn_seq by (auto simp: w sv' audit_window_def)
qed

theorem running_window_not_deleted_witness:
  "fst (handleDeleteMaintenanceWindow night_srv alerts_request ''1'' (738001 * day)) = WindowOk
   \<and> tbl_lookup (m_windows (sv_mw (snd (handleDeleteMaintenanceWindow night_srv alerts_request ''1''
        (738001 * day))))) 1 = None"
proof -
  let ?del = "handleDeleteMaintenanceWindow night_srv alerts_request ''1'' (738001 * day)"
  have ok: "fst ?del = WindowOk" and i: "parse_int64_value ''1'' = 1" by code_simp+
  then have del: "?del = (WindowOk, snd ?del)" by (simp add: prod_eq_iff)
  obtain x where x: "tbl_lookup (m_windows (sv_mw night_srv)) 1 = Some x" using night_row by blast
  have "case tbl_lookup (m_windows (sv_mw night_srv)) 1 of None \<Rightarrow> False | Some x \<Rightarrow> \<not> mc_recurring x"
    by code_simp
  then have "\<not> mc_recurring x" using x by simp
  then show ?thesis using running_window_not_deleted [OF del] x ok i by simp
qed

definition early_body :: maintenanceWindowBody where
  "early_body = night_body\<lparr>b_Recurring := True, b_StartsAt := 738000 * day + 18 * hour, b_EndsAt := 0,
     b_Weekdays := [0, 1, 2, 3, 4, 5, 6], b_TimeOfDay := ''02:00'', b_DurationMin := 60\<rparr>"

definition early_srv :: srv where
  "early_srv = snd (handleCreateMaintenanceWindow (\<lambda>_. None) alerts_srv alerts_request (Some early_body)
     (738000 * day))"

text \<open>The same guard does not protect a recurring series on the day it begins: its occurrences
  follow the time of day and not the instant \<open>StartsAt\<close>, so an occurrence can be running
  before that instant, and then the handler deletes the window while it silences alerts.\<close>

theorem running_series_deletable:
  "\<exists>w. MaintenanceWindowByID (sv_mw early_srv) 1 = Inr w
     \<and> Active (\<lambda>_. None) w (738000 * day + 2 * hour + 30 * minute)
     \<and> fst (handleDeleteMaintenanceWindow early_srv alerts_request ''1''
            (738000 * day + 2 * hour + 30 * minute)) = WindowOk"
proof -
  have "case MaintenanceWindowByID (sv_mw early_srv) 1 of Inl _ \<Rightarrow> False
      | Inr w \<Rightarrow> Active (\<lambda>_. None) w (738000 * day + 2 * hour + 30 * minute)" by code_simp
  moreover have "fst (handleDeleteMaintenanceWindow early_srv alerts_request ''1''
            (738000 * day + 2 * hour + 30 * minute)) = WindowOk" by code_simp
  ultimately show ?thesis by (auto split: sum.splits)
qed

definition prague :: tzdb where
  "prague tz = (if tz = ''Europe/Prague''
     then Some (\<lambda>t. if t < 738002 * day + hour then hour else 2 * hour) else None)"

definition saturday_body :: maintenanceWindowBody where
  "saturday_body = night_body\<lparr>b_Recurring := True, b_StartsAt := 737900 * day, b_EndsAt := 0,
     b_Weekdays := [6], b_TimeOfDay := ''23:59'', b_DurationMin := 1440, b_Timezone := ''Europe/Prague''\<rparr>"

text \<open>With a change of offset the look at two days is not enough: on the Monday after a Sunday of
  23 hours, a valid window that starts on Saturdays at 23:59 for 24 hours still covers 00:30,
  and the code finds it not active. Alerts are then delivered during the window.\<close>

theorem short_day_occurrence_missed:
  "validateMaintenanceWindow prague saturday_body = None
   \<and> series_covers (window_zone prague (toWindow saturday_body)) (toWindow saturday_body)
        (738003 * day - 90 * minute)
   \<and> \<not> Active prague (toWindow saturday_body) (738003 * day - 90 * minute)"
proof -
  let ?w = "toWindow saturday_body" and ?now = "738003 * day - 90 * minute"
  have "validateMaintenanceWindow prague saturday_body = None" "\<not> Active prague ?w ?now"
    by code_simp+
  moreover have "0 < w_DurationMin ?w" "series_start (window_zone prague ?w) ?w \<le> ?now"
    "w_EndsAt ?w = 0" "parseTimeOfDay (w_TimeOfDay ?w) = Some (23, 59)"
    "covers_on (window_zone prague ?w) ?w (23, 59) ?now 738001"
    by code_simp+
  ultimately show ?thesis unfolding series_covers_def by blast
qed

text \<open>A pass of the maintenance log knows exactly the active windows: afterwards a window is
  known, with its name and the bounds of its occurrence, exactly when it is stored and active.
  A line is written for precisely the windows whose occurrence changed: a start for an
  occurrence that was not known before, an end for a known one that is no longer the current
  one. So a window that stays in the same occurrence is never logged twice.\<close>

theorem log_pass_tracks_windows:
  assumes "mdb_wf m" and "log_reads m" and "0 \<le> now" and "distinct (map fst (ml_known st))"
    and "maintenanceLogPass zones m st now now = (out, st')"
  shows "map_of (ml_known st') i =
      (case tbl_lookup (m_windows m) i of None \<Rightarrow> None
       | Some x \<Rightarrow> map_option (\<lambda>(s, e). \<lparr>aw_name = mc_name x, aw_start = s, aw_end = e\<rparr>)
                    (ActiveSpan zones (scanMaintenanceWindow [] (i, x)) now))
    \<and> distinct (map fst (ml_known st')) \<and> \<not> ml_first st'
    \<and> (Some i \<in> started_id ` set out \<longleftrightarrow>
         (\<exists>a. map_of (ml_known st') i = Some a
            \<and> (\<forall>b. map_of (ml_known st) i = Some b \<longrightarrow> \<not> same_occurrence b a)))
    \<and> (Some i \<in> over_id ` set out \<longleftrightarrow>
         (\<exists>b. map_of (ml_known st) i = Some b
            \<and> (\<forall>a. map_of (ml_known st') i = Some a \<longrightarrow> \<not> same_occurrence a b)))"
proof -
  obtain ws where ws: "MaintenanceWindowsForLog m now (map fst (ml_known st)) = Inr ws"
    "distinct (map w_ID ws)" "set ws \<subseteq> {w. stored_window m w}"
    "{w. stored_window m w \<and> (w_ID w \<in> set (map fst (ml_known st)) \<or> (\<exists>zones. Active zones w now))} \<subseteq> set ws"
    by (rule windows_for_log [OF assms(1,2,4,3)])
  let ?cur = "active_now zones ws now"
  have out: "out = start_lines (ml_known st) ?cur ws now (ml_first st) @ end_lines (ml_known st) ?cur ws now"
    and st': "st' = \<lparr>ml_known = ?cur, ml_first = False\<rparr>"
    using assms(5) ws(1) by (auto simp: maintenanceLogPass_def logMaintenanceTransitions_def Let_def)
  have keys: "distinct (map fst ?cur)" by (rule active_now_keys)
  have mem: "(i, a) \<in> set ?cur \<longleftrightarrow> map_of ?cur i = Some a"
    "(i, b) \<in> set (ml_known st) \<longleftrightarrow> map_of (ml_known st) i = Some b" for a b
    using keys assms(4) by simp_all
  have starts: "Some i \<in> started_id ` set out \<longleftrightarrow> (\<exists>a. (i, a) \<in> set ?cur
      \<and> (case map_of (ml_known st) i of None \<Rightarrow> True | Some p \<Rightarrow> \<not> same_occurrence p a))"
    using start_line_ids(1) end_line_ids(2) unfolding out set_append image_Un by fast
  have ends: "Some i \<in> over_id ` set out \<longleftrightarrow> (\<exists>b. (i, b) \<in> set (ml_known st)
      \<and> (case map_of ?cur i of None \<Rightarrow> True | Some c \<Rightarrow> \<not> same_occurrence c b))"
    using start_line_ids(2) end_line_ids(1) unfolding out set_append image_Un by fast
  have starts': "Some i \<in> started_id ` set out \<longleftrightarrow> (\<exists>a. map_of ?cur i = Some a
      \<and> (\<forall>b. map_of (ml_known st) i = Some b \<longrightarrow> \<not> same_occurrence b a))"
    using starts unfolding mem by (cases "map_of (ml_known st) i") auto
  have ends': "Some i \<in> over_id ` set out \<longleftrightarrow> (\<exists>b. map_of (ml_known st) i = Some b
      \<and> (\<forall>a. map_of ?cur i = Some a \<longrightarrow> \<not> same_occurrence a b))"
    using ends unfolding mem by (cases "map_of ?cur i") auto
  show ?thesis
    unfolding st' mlog.select_convs
    by (intro conjI starts' ends' keys known_exact [OF ws(2-4)]) simp
qed

theorem log_pass_tracks_windows_witness:
  "let (out, st') = maintenanceLogPass (\<lambda>_. None) quiet_mdb \<lparr>ml_known = [], ml_first = True\<rparr>
         (738001 * day + 30 * minute) (738001 * day + 30 * minute)
   in map_of (ml_known st') 1 = Some \<lparr>aw_name = ''night'', aw_start = 738000 * day + 23 * hour,
        aw_end = 738001 * day + hour\<rparr> \<and> Some 1 \<in> started_id ` set out"
proof -
  let ?now = "738001 * day + 30 * minute" and ?st = "\<lparr>ml_known = [], ml_first = True\<rparr> :: mlog"
  have "m_fails quiet_mdb = (\<lambda>_. False)"
    by (simp add: quiet_mdb_def CreateMaintenanceWindow_def case_prod_unfold empty_mdb_def)
  then have reads: "log_reads quiet_mdb" by (simp add: log_reads_def)
  obtain out st' where p: "maintenanceLogPass (\<lambda>_. None) quiet_mdb ?st ?now ?now = (out, st')"
    by fastforce
  have "case tbl_lookup (m_windows quiet_mdb) 1 of None \<Rightarrow> False
     | Some x \<Rightarrow> mc_name x = ''night'' \<and> ActiveSpan (\<lambda>_. None) (scanMaintenanceWindow [] (1, x)) ?now =
         Some (738000 * day + 23 * hour, 738001 * day + hour)"
    by code_simp
  then obtain x where "tbl_lookup (m_windows quiet_mdb) 1 = Some x" "mc_name x = ''night''"
    "ActiveSpan (\<lambda>_. None) (scanMaintenanceWindow [] (1, x)) ?now =
         Some (738000 * day + 23 * hour, 738001 * day + hour)"
    by (auto split: option.splits)
  moreover have "0 \<le> ?now" by code_simp
  ultimately show ?thesis
    using log_pass_tracks_windows [OF quiet_mdb_wf reads _ _ p, of 1] p by simp
qed

end
