(* ===== verification/Accounts.thy ===== *)
theory Accounts
  imports Roles
begin

text \<open>
  Accounts, second factors and sessions: \<open>src/internal/store/users.go\<close>, \<open>factors.go\<close>
  and \<open>sessions.go\<close>. The state is the three tables; whether an account has a second factor is
  not stored but read from the factors, as in the code. A statement of which \<open>ac_fails\<close> holds
  returns an error and changes nothing; the transactions roll back. Texts the database compares
  (instants in RFC 3339) are whole seconds.
\<close>

section \<open>Tables\<close>

record user_row =
  uc_username :: string
  uc_password_hash :: string
  uc_role :: string
  uc_email :: string
  uc_totp_secret :: string
  uc_totp_pending :: string
  uc_totp_pending_stepup :: bool
  uc_passwordless :: bool
  uc_totp_last_counter :: int
  uc_session_epoch :: int
  uc_read_only :: bool
  uc_sections :: "string list"
  uc_auth_source :: string
  uc_created_at :: time
  uc_last_login_at :: time
  uc_ui_prefs :: string
  uc_webauthn_handle :: string

record AuthFactor =
  f_ID :: int
  f_UserID :: int
  f_Kind :: string
  f_Name :: string
  f_Secret :: string
  f_LastCounter :: int
  f_CreatedAt :: time
  f_LastUsedAt :: time
  f_CredentialID :: string
  f_Credential :: string

record Session =
  s_ID :: string
  s_UserID :: int
  s_IP :: string
  s_UserAgent :: string
  s_CreatedAt :: time
  s_LastSeenAt :: time
  s_ExpiresAt :: time

datatype acc_error = AErrNotFound | AErrSQL | ErrSetupTaken | ErrNotFirstFactor | ErrLastFactor
  | ErrCounterNotAdvanced

datatype acc_stmt = CountU | SelUsers | InsUser | DelUser int | UpdUser int | SelUserName string | SelUserID int
  | SelEpoch int | BeginAcc | CommitAcc | InsFactor | SelFactors int | CountF int | DelFactor int
  | BurnFactor int | SelFactor int | SelCredential string | UpdCredential int | DelFactors int
  | InsSession string | SelSession string | TouchS string | SelSessions int | DelSession string
  | DelSessions int | PurgeSessions

text \<open>The id of a factor is the key of its row, so the rows' own \<open>f_ID\<close> is filled on reading.\<close>

record accounts =
  ac_users :: "user_row tbl"
  ac_factors :: "AuthFactor tbl"
  ac_sessions :: "Session list"
  ac_fails :: "acc_stmt \<Rightarrow> bool"

definition FactorKindTOTP :: string where "FactorKindTOTP = ''totp''"
definition FactorKindPasskey :: string where "FactorKindPasskey = ''webauthn''"

definition orDefault :: "string \<Rightarrow> string \<Rightarrow> string" where
  "orDefault v def = (if v = [] then def else v)"

definition factors_of :: "accounts \<Rightarrow> int \<Rightarrow> (int \<times> AuthFactor) list" where
  "factors_of d uid = filter (\<lambda>(i, f). f_UserID f = uid) (tbl_rows (ac_factors d))"

section \<open>users.go\<close>

definition scanUserRow :: "accounts \<Rightarrow> int \<times> user_row \<Rightarrow> User" where
  "scanUserRow d iu =
     (case iu of (i, u) \<Rightarrow>
       \<lparr>u_ID = i, u_Username = uc_username u, u_PasswordHash = uc_password_hash u, u_Role = uc_role u,
        u_Email = uc_email u, u_AuthSource = uc_auth_source u, u_ReadOnly = uc_read_only u,
        u_Sections = uc_sections u, u_TOTPSecret = uc_totp_secret u,
        u_TOTPEnabled = list_ex (\<lambda>(j, f). f_Kind f = FactorKindTOTP) (factors_of d i),
        u_MFAEnabled = (factors_of d i \<noteq> []), u_TOTPPending = uc_totp_pending u,
        u_TOTPPendingStepUp = uc_totp_pending_stepup u, u_Passwordless = uc_passwordless u,
        u_TOTPLastCounter = uc_totp_last_counter u, u_SessionEpoch = uc_session_epoch u,
        u_CreatedAt = uc_created_at u, u_LastLoginAt = uc_last_login_at u\<rparr>)"

definition CountUsers :: "accounts \<Rightarrow> acc_error + int" where
  "CountUsers d = (if ac_fails d CountU then Err AErrSQL else Ok (int (length (tbl_rows (ac_users d)))))"

definition CountAdmins :: "accounts \<Rightarrow> acc_error + int" where
  "CountAdmins d = (if ac_fails d CountU then Err AErrSQL
     else Ok (int (length (filter (\<lambda>(i, u). uc_role u = ''admin'') (tbl_rows (ac_users d))))))"

text \<open>The row both inserts write; columns they do not name take the defaults of the schema.\<close>

definition new_user_row :: "User \<Rightarrow> time \<Rightarrow> user_row" where
  "new_user_row u now =
     \<lparr>uc_username = u_Username u, uc_password_hash = u_PasswordHash u, uc_role = orDefault (u_Role u) ''admin'',
      uc_email = trim_space (u_Email u), uc_totp_secret = u_TOTPSecret u, uc_totp_pending = [],
      uc_totp_pending_stepup = False, uc_passwordless = False, uc_totp_last_counter = 0,
      uc_session_epoch = 0, uc_read_only = u_ReadOnly u, uc_sections = u_Sections u,
      uc_auth_source = orDefault (u_AuthSource u) ''local'', uc_created_at = trunc_sec now,
      uc_last_login_at = 0, uc_ui_prefs = [], uc_webauthn_handle = []\<rparr>"

definition username_taken :: "accounts \<Rightarrow> string \<Rightarrow> bool" where
  "username_taken d n = list_ex (\<lambda>(i, u). uc_username u = n) (tbl_rows (ac_users d))"

definition CreateUser :: "accounts \<Rightarrow> User \<Rightarrow> time \<Rightarrow> (acc_error + int) \<times> accounts" where
  "CreateUser d u now =
     (if ac_fails d InsUser \<or> username_taken d (u_Username u) then (Err AErrSQL, d)
      else let (i, t) = tbl_insert (new_user_row u now) (ac_users d)
           in (Ok i, d\<lparr>ac_users := t\<rparr>))"

definition CreateFirstUser :: "accounts \<Rightarrow> User \<Rightarrow> time \<Rightarrow> (acc_error + int) \<times> accounts" where
  "CreateFirstUser d u now =
     (if ac_fails d InsUser then (Err AErrSQL, d)
      else if tbl_rows (ac_users d) \<noteq> [] then (Err ErrSetupTaken, d)
      else let (i, t) = tbl_insert (new_user_row u now) (ac_users d)
           in (Ok i, d\<lparr>ac_users := t\<rparr>))"

definition UserByUsername :: "accounts \<Rightarrow> string \<Rightarrow> acc_error + User" where
  "UserByUsername d n =
     (if ac_fails d (SelUserName n) then Err AErrSQL
      else case find (\<lambda>(i, u). uc_username u = n) (tbl_rows (ac_users d)) of
        None \<Rightarrow> Err AErrNotFound | Some iu \<Rightarrow> Ok (scanUserRow d iu))"

definition AccountByID :: "accounts \<Rightarrow> int \<Rightarrow> acc_error + User" where
  "AccountByID d i =
     (if ac_fails d (SelUserID i) then Err AErrSQL
      else case tbl_lookup (ac_users d) i of
        None \<Rightarrow> Err AErrNotFound | Some u \<Rightarrow> Ok (scanUserRow d (i, u)))"

text \<open>The single-column updates: a statement that matches no row is not an error.\<close>

definition update_user :: "accounts \<Rightarrow> int \<Rightarrow> (user_row \<Rightarrow> user_row) \<Rightarrow> (acc_error + unit) \<times> accounts" where
  "update_user d i f =
     (if ac_fails d (UpdUser i) then (Err AErrSQL, d)
      else (Ok (), d\<lparr>ac_users := tbl_update i f (ac_users d)\<rparr>))"

definition UpdateUserAccess ::
    "accounts \<Rightarrow> int \<Rightarrow> string \<Rightarrow> bool \<Rightarrow> string list \<Rightarrow> (acc_error + unit) \<times> accounts" where
  "UpdateUserAccess d i role readOnly secs =
     update_user d i (\<lambda>u. u\<lparr>uc_role := orDefault role ''user'', uc_read_only := readOnly, uc_sections := secs\<rparr>)"

definition TouchLogin :: "accounts \<Rightarrow> int \<Rightarrow> time \<Rightarrow> (acc_error + unit) \<times> accounts" where
  "TouchLogin d i now = update_user d i (\<lambda>u. u\<lparr>uc_last_login_at := trunc_sec now\<rparr>)"

definition UpdatePassword :: "accounts \<Rightarrow> int \<Rightarrow> string \<Rightarrow> (acc_error + unit) \<times> accounts" where
  "UpdatePassword d i h = update_user d i (\<lambda>u. u\<lparr>uc_password_hash := h\<rparr>)"

definition SetUserEmail :: "accounts \<Rightarrow> int \<Rightarrow> string \<Rightarrow> (acc_error + unit) \<times> accounts" where
  "SetUserEmail d i email = update_user d i (\<lambda>u. u\<lparr>uc_email := trim_space email\<rparr>)"

definition SetTOTPPending :: "accounts \<Rightarrow> int \<Rightarrow> string \<Rightarrow> bool \<Rightarrow> (acc_error + unit) \<times> accounts" where
  "SetTOTPPending d i secret stepUp =
     update_user d i (\<lambda>u. u\<lparr>uc_totp_pending := secret, uc_totp_pending_stepup := stepUp\<rparr>)"

definition SetPasswordless :: "accounts \<Rightarrow> int \<Rightarrow> bool \<Rightarrow> (acc_error + unit) \<times> accounts" where
  "SetPasswordless d i on = update_user d i (\<lambda>u. u\<lparr>uc_passwordless := on\<rparr>)"

definition SessionEpoch :: "accounts \<Rightarrow> int \<Rightarrow> acc_error + int" where
  "SessionEpoch d i =
     (if ac_fails d (SelEpoch i) then Err AErrSQL
      else case tbl_lookup (ac_users d) i of
        None \<Rightarrow> Err AErrNotFound | Some u \<Rightarrow> Ok (uc_session_epoch u))"

definition BumpSessionEpoch :: "accounts \<Rightarrow> int \<Rightarrow> (acc_error + unit) \<times> accounts" where
  "BumpSessionEpoch d i = update_user d i (\<lambda>u. u\<lparr>uc_session_epoch := uc_session_epoch u + 1\<rparr>)"

definition SetAuthSource :: "accounts \<Rightarrow> int \<Rightarrow> string \<Rightarrow> (acc_error + unit) \<times> accounts" where
  "SetAuthSource d i src = update_user d i (\<lambda>u. u\<lparr>uc_auth_source := src\<rparr>)"

definition SetTOTPLastCounter :: "accounts \<Rightarrow> int \<Rightarrow> int \<Rightarrow> (acc_error + unit) \<times> accounts" where
  "SetTOTPLastCounter d i counter =
     update_user d i (\<lambda>u. if uc_totp_last_counter u < counter then u\<lparr>uc_totp_last_counter := counter\<rparr> else u)"

definition PromoteTOTPPending :: "accounts \<Rightarrow> int \<Rightarrow> (acc_error + unit) \<times> accounts" where
  "PromoteTOTPPending d i =
     update_user d i (\<lambda>u. u\<lparr>uc_totp_secret := uc_totp_pending u, uc_totp_pending := []\<rparr>)"

definition UserPrefs :: "accounts \<Rightarrow> int \<Rightarrow> acc_error + string" where
  "UserPrefs d i =
     (if ac_fails d (SelUserID i) then Err AErrSQL
      else case tbl_lookup (ac_users d) i of
        None \<Rightarrow> Err AErrNotFound | Some u \<Rightarrow> Ok (orDefault (uc_ui_prefs u) ''{}''))"

definition SetUserPrefs :: "accounts \<Rightarrow> int \<Rightarrow> string \<Rightarrow> (acc_error + unit) \<times> accounts" where
  "SetUserPrefs d i prefs = update_user d i (\<lambda>u. u\<lparr>uc_ui_prefs := prefs\<rparr>)"

definition ListUsers :: "accounts \<Rightarrow> acc_error + User list" where
  "ListUsers d =
     (if ac_fails d SelUsers then Err AErrSQL
      else Ok (map (scanUserRow d) (sort_key (\<lambda>(i, u). uc_username u) (tbl_rows (ac_users d)))))"

section \<open>factors.go\<close>

definition factorNameMax :: nat where "factorNameMax = 64"

definition factorName :: "string \<Rightarrow> string" where
  "factorName name =
     (let name = trim_space name
      in if name = [] then ''Authenticator''
         else if length name > factorNameMax then take factorNameMax name else name)"

definition clear_pending :: "user_row \<Rightarrow> user_row" where
  "clear_pending u = u\<lparr>uc_totp_pending := [], uc_totp_pending_stepup := False\<rparr>"

text \<open>A unique index forbids a second factor with the same credential id.\<close>

definition credential_taken :: "accounts \<Rightarrow> string \<Rightarrow> bool" where
  "credential_taken d c \<longleftrightarrow> c \<noteq> [] \<and> list_ex (\<lambda>(i, f). f_CredentialID f = c) (tbl_rows (ac_factors d))"

text \<open>A second partial unique index, on account and secret, makes one authenticator one row.\<close>

definition secret_taken :: "accounts \<Rightarrow> int \<Rightarrow> string \<Rightarrow> bool" where
  "secret_taken d uid sec \<longleftrightarrow> sec \<noteq> [] \<and>
     list_ex (\<lambda>(i, f). f_UserID f = uid \<and> f_Secret f = sec) (tbl_rows (ac_factors d))"

definition CreateFactor ::
    "accounts \<Rightarrow> AuthFactor \<Rightarrow> bool \<Rightarrow> time \<Rightarrow> (acc_error + int) \<times> accounts" where
  "CreateFactor d f authorised now =
     (if ac_fails d BeginAcc then (Err AErrSQL, d)
      else if \<not> (authorised \<or> factors_of d (f_UserID f) = [])
        then (if ac_fails d InsFactor then (Err AErrSQL, d) else (Err ErrNotFirstFactor, d))
      else if ac_fails d InsFactor \<or> credential_taken d (f_CredentialID f)
              \<or> secret_taken d (f_UserID f) (f_Secret f) then (Err AErrSQL, d)
      else let (i, t) = tbl_insert (f\<lparr>f_Kind := orDefault (f_Kind f) FactorKindTOTP, f_Name := factorName (f_Name f),
                f_LastCounter := 0, f_CreatedAt := trunc_sec now, f_LastUsedAt := 0\<rparr>) (ac_factors d)
      in if ac_fails d (UpdUser (f_UserID f)) \<or> ac_fails d CommitAcc then (Err AErrSQL, d)
      else (Ok i, d\<lparr>ac_factors := t, ac_users := tbl_update (f_UserID f) clear_pending (ac_users d)\<rparr>))"

definition ListFactors :: "accounts \<Rightarrow> int \<Rightarrow> acc_error + AuthFactor list" where
  "ListFactors d uid =
     (if ac_fails d (SelFactors uid) then Err AErrSQL
      else Ok (map (\<lambda>(i, f). f\<lparr>f_ID := i\<rparr>) (sort_key fst (factors_of d uid))))"

definition CountFactors :: "accounts \<Rightarrow> int \<Rightarrow> acc_error + int" where
  "CountFactors d uid =
     (if ac_fails d (CountF uid) then Err AErrSQL else Ok (int (length (factors_of d uid))))"

definition FactorByID :: "accounts \<Rightarrow> int \<Rightarrow> int \<Rightarrow> acc_error + AuthFactor" where
  "FactorByID d i uid =
     (if ac_fails d (SelFactor i) then Err AErrSQL
      else case tbl_lookup (ac_factors d) i of
        None \<Rightarrow> Err AErrNotFound
      | Some f \<Rightarrow> if f_UserID f = uid then Ok (f\<lparr>f_ID := i\<rparr>) else Err AErrNotFound)"

definition DeleteFactor :: "accounts \<Rightarrow> int \<Rightarrow> int \<Rightarrow> (acc_error + unit) \<times> accounts" where
  "DeleteFactor d i uid =
     (if ac_fails d (DelFactor i) then (Err AErrSQL, d)
      else if (case tbl_lookup (ac_factors d) i of None \<Rightarrow> False | Some f \<Rightarrow> f_UserID f = uid)
              \<and> length (factors_of d uid) > 1
        then (Ok (), d\<lparr>ac_factors := tbl_delete i (ac_factors d)\<rparr>)
      else case FactorByID d i uid of Inl e \<Rightarrow> (Err e, d) | Inr _ \<Rightarrow> (Err ErrLastFactor, d))"

definition BurnFactorCounter :: "accounts \<Rightarrow> int \<Rightarrow> int \<Rightarrow> time \<Rightarrow> (acc_error + unit) \<times> accounts" where
  "BurnFactorCounter d i counter now =
     (if ac_fails d (BurnFactor i) then (Err AErrSQL, d)
      else case tbl_lookup (ac_factors d) i of
        None \<Rightarrow> (Err ErrCounterNotAdvanced, d)
      | Some f \<Rightarrow>
        if f_LastCounter f < counter
        then (Ok (), d\<lparr>ac_factors := tbl_update i
                (\<lambda>f. f\<lparr>f_LastCounter := counter, f_LastUsedAt := trunc_sec now\<rparr>) (ac_factors d)\<rparr>)
        else (Err ErrCounterNotAdvanced, d))"

definition PairPendingFactor ::
    "accounts \<Rightarrow> int \<Rightarrow> string \<Rightarrow> string \<Rightarrow> time \<Rightarrow> (acc_error + int) \<times> accounts" where
  "PairPendingFactor d uid pending name now =
     (if pending = [] then (Err AErrNotFound, d)
      else if ac_fails d BeginAcc \<or> ac_fails d (UpdUser uid) then (Err AErrSQL, d)
      else if (case tbl_lookup (ac_users d) uid of None \<Rightarrow> True | Some u \<Rightarrow> uc_totp_pending u \<noteq> pending)
        then (Err AErrNotFound, d)
      else if ac_fails d InsFactor \<or> secret_taken d uid pending \<or> ac_fails d CommitAcc then (Err AErrSQL, d)
      else let (i, t) = tbl_insert \<lparr>f_ID = 0, f_UserID = uid, f_Kind = FactorKindTOTP,
                 f_Name = factorName name, f_Secret = pending, f_LastCounter = 0,
                 f_CreatedAt = trunc_sec now, f_LastUsedAt = 0, f_CredentialID = [],
                 f_Credential = []\<rparr> (ac_factors d)
           in (Ok i, d\<lparr>ac_users := tbl_update uid clear_pending (ac_users d), ac_factors := t\<rparr>))"

definition FactorByCredentialID :: "accounts \<Rightarrow> string \<Rightarrow> acc_error + AuthFactor" where
  "FactorByCredentialID d c =
     (if c = [] then Err AErrNotFound
      else if ac_fails d (SelCredential c) then Err AErrSQL
      else case find (\<lambda>(i, f). f_CredentialID f = c) (tbl_rows (ac_factors d)) of
        None \<Rightarrow> Err AErrNotFound | Some (i, f) \<Rightarrow> Ok (f\<lparr>f_ID := i\<rparr>))"

definition UpdateCredential :: "accounts \<Rightarrow> int \<Rightarrow> string \<Rightarrow> time \<Rightarrow> (acc_error + unit) \<times> accounts" where
  "UpdateCredential d i credential now =
     (if ac_fails d (UpdCredential i) then (Err AErrSQL, d)
      else if (case tbl_lookup (ac_factors d) i of None \<Rightarrow> True | Some f \<Rightarrow> f_CredentialID f = [])
        then (Err AErrNotFound, d)
      else (Ok (), d\<lparr>ac_factors := tbl_update i
              (\<lambda>f. f\<lparr>f_Credential := credential, f_LastUsedAt := trunc_sec now\<rparr>) (ac_factors d)\<rparr>))"

text \<open>The handle is 32 random bytes, the argument \<open>fresh\<close> (base64 texts stand for the bytes). The
  guarded update stores it only over an empty one, and the value is read back.\<close>

definition WebAuthnHandle :: "accounts \<Rightarrow> int \<Rightarrow> string \<Rightarrow> (acc_error + string) \<times> accounts" where
  "WebAuthnHandle d uid fresh =
     (if ac_fails d (SelUserID uid) then (Err AErrSQL, d)
      else case tbl_lookup (ac_users d) uid of
        None \<Rightarrow> (Err AErrNotFound, d)
      | Some u \<Rightarrow>
        if uc_webauthn_handle u \<noteq> [] then (Ok (uc_webauthn_handle u), d)
        else case update_user d uid (\<lambda>u. if uc_webauthn_handle u = [] then u\<lparr>uc_webauthn_handle := fresh\<rparr> else u) of
          (Inl e, d1) \<Rightarrow> (Err e, d1)
        | (Inr _, d1) \<Rightarrow> (case tbl_lookup (ac_users d1) uid of
              None \<Rightarrow> (Err AErrNotFound, d1) | Some u1 \<Rightarrow> (Ok (uc_webauthn_handle u1), d1)))"

definition UserByWebAuthnHandle :: "accounts \<Rightarrow> string \<Rightarrow> acc_error + User" where
  "UserByWebAuthnHandle d handle =
     (if handle = [] then Err AErrNotFound
      else if ac_fails d SelUsers then Err AErrSQL
      else case find (\<lambda>(i, u). uc_webauthn_handle u = handle) (tbl_rows (ac_users d)) of
        None \<Rightarrow> Err AErrNotFound | Some (i, u) \<Rightarrow> AccountByID d i)"

definition DeleteUserFactors :: "accounts \<Rightarrow> int \<Rightarrow> (acc_error + unit) \<times> accounts" where
  "DeleteUserFactors d uid =
     (if ac_fails d (DelFactors uid) then (Err AErrSQL, d)
      else (Ok (), d\<lparr>ac_factors := (ac_factors d)
              \<lparr>tbl_rows := filter (\<lambda>(i, f). f_UserID f \<noteq> uid) (tbl_rows (ac_factors d))\<rparr>\<rparr>))"

text \<open>The start-up repair of store.go: rows that share a secret are collapsed into the oldest,
  which keeps the highest watermark among them.\<close>

definition same_authenticator :: "AuthFactor \<Rightarrow> AuthFactor \<Rightarrow> bool" where
  "same_authenticator f g \<longleftrightarrow> f_UserID g = f_UserID f \<and> f_Secret g = f_Secret f"

definition raise_watermarks :: "(int \<times> AuthFactor) list \<Rightarrow> (int \<times> AuthFactor) list" where
  "raise_watermarks rows =
     map (\<lambda>(i, f). (i, if f_Secret f = [] then f
        else f\<lparr>f_LastCounter := Max (set (map (f_LastCounter \<circ> snd) (filter (same_authenticator f \<circ> snd) rows)))\<rparr>)) rows"

definition drop_duplicates :: "(int \<times> AuthFactor) list \<Rightarrow> (int \<times> AuthFactor) list" where
  "drop_duplicates rows =
     filter (\<lambda>(i, f). f_Secret f = [] \<or> list_all (\<lambda>(j, g). same_authenticator f g \<longrightarrow> i \<le> j) rows) rows"

definition enforceOneFactorPerSecret :: "AuthFactor tbl \<Rightarrow> AuthFactor tbl" where
  "enforceOneFactorPerSecret t = t\<lparr>tbl_rows := drop_duplicates (raise_watermarks (tbl_rows t))\<rparr>"

section \<open>sessions.go\<close>

definition truncateUA :: "string \<Rightarrow> string" where
  "truncateUA ua = (if length ua > 256 then take 256 ua else ua)"

definition CreateSession :: "accounts \<Rightarrow> Session \<Rightarrow> time \<Rightarrow> (acc_error + unit) \<times> accounts" where
  "CreateSession d s now =
     (if ac_fails d (InsSession (s_ID s)) \<or> list_ex (\<lambda>x. s_ID x = s_ID s) (ac_sessions d) then (Err AErrSQL, d)
      else (Ok (), d\<lparr>ac_sessions := ac_sessions d @ [s\<lparr>s_UserAgent := truncateUA (s_UserAgent s),
              s_CreatedAt := trunc_sec now, s_LastSeenAt := trunc_sec now,
              s_ExpiresAt := trunc_sec (s_ExpiresAt s)\<rparr>]\<rparr>))"

definition SessionExists :: "accounts \<Rightarrow> string \<Rightarrow> int \<Rightarrow> acc_error + bool" where
  "SessionExists d i uid =
     (if ac_fails d (SelSession i) then Err AErrSQL
      else Ok (list_ex (\<lambda>s. s_ID s = i \<and> s_UserID s = uid) (ac_sessions d)))"

definition TouchSession :: "accounts \<Rightarrow> string \<Rightarrow> time \<Rightarrow> (acc_error + unit) \<times> accounts" where
  "TouchSession d i now =
     (if ac_fails d (TouchS i) then (Err AErrSQL, d)
      else (Ok (), d\<lparr>ac_sessions := map (\<lambda>s. if s_ID s = i \<and> s_LastSeenAt s < trunc_sec (now - minute)
              then s\<lparr>s_LastSeenAt := trunc_sec now\<rparr> else s) (ac_sessions d)\<rparr>))"

definition ListSessions :: "accounts \<Rightarrow> int \<Rightarrow> time \<Rightarrow> acc_error + Session list" where
  "ListSessions d uid now =
     (if ac_fails d (SelSessions uid) then Err AErrSQL
      else Ok (sort_key (\<lambda>s. - s_LastSeenAt s)
             (filter (\<lambda>s. s_UserID s = uid \<and> s_ExpiresAt s > trunc_sec now) (ac_sessions d))))"

definition DeleteSession :: "accounts \<Rightarrow> string \<Rightarrow> int \<Rightarrow> (acc_error + unit) \<times> accounts" where
  "DeleteSession d i uid =
     (if ac_fails d (DelSession i) then (Err AErrSQL, d)
      else if list_ex (\<lambda>s. s_ID s = i \<and> s_UserID s = uid) (ac_sessions d)
        then (Ok (), d\<lparr>ac_sessions := filter (\<lambda>s. \<not> (s_ID s = i \<and> s_UserID s = uid)) (ac_sessions d)\<rparr>)
      else (Err AErrNotFound, d))"

definition DeleteUserSessions :: "accounts \<Rightarrow> int \<Rightarrow> (acc_error + unit) \<times> accounts" where
  "DeleteUserSessions d uid =
     (if ac_fails d (DelSessions uid) then (Err AErrSQL, d)
      else (Ok (), d\<lparr>ac_sessions := filter (\<lambda>s. s_UserID s \<noteq> uid) (ac_sessions d)\<rparr>))"

definition PurgeExpiredSessions :: "accounts \<Rightarrow> time \<Rightarrow> (acc_error + unit) \<times> accounts" where
  "PurgeExpiredSessions d now =
     (if ac_fails d PurgeSessions then (Err AErrSQL, d)
      else (Ok (), d\<lparr>ac_sessions := filter (\<lambda>s. \<not> s_ExpiresAt s \<le> trunc_sec now) (ac_sessions d)\<rparr>))"

text \<open>\<open>DeleteUser\<close> of users.go, which removes factors and sessions too.\<close>

definition DeleteUser :: "accounts \<Rightarrow> int \<Rightarrow> (acc_error + unit) \<times> accounts" where
  "DeleteUser d i =
     (if ac_fails d (DelUser i) then (Err AErrSQL, d)
      else case DeleteUserFactors (d\<lparr>ac_users := tbl_delete i (ac_users d)\<rparr>) i of
        (Inl e, d1) \<Rightarrow> (Err e, d1)
      | (Inr _, d1) \<Rightarrow> DeleteUserSessions d1 i)"

section \<open>Runs of the store\<close>

text \<open>Every operation that changes the three tables, and a change of what fails, as data: a run of
  the store is a list of them.\<close>

datatype acc_op =
    OpCreateUser User time | OpCreateFirstUser User time | OpDeleteUser int
  | OpAccess int string bool "string list" | OpTouchLogin int time | OpPassword int string
  | OpEmail int string | OpPending int string bool | OpPasswordless int bool | OpBump int
  | OpAuthSource int string | OpLastCounter int int | OpPromote int | OpPrefs int string | OpHandle int string
  | OpCreateFactor AuthFactor bool time | OpDeleteFactor int int | OpBurn int int time
  | OpPair int string string time | OpCredential int string time
  | OpCreateSession Session time | OpTouchSession string time | OpDeleteSession string int
  | OpDeleteSessions int | OpPurge time | OpFaults "acc_stmt \<Rightarrow> bool"

fun apply_op :: "accounts \<Rightarrow> acc_op \<Rightarrow> accounts" where
  "apply_op d (OpCreateUser u t) = snd (CreateUser d u t)"
| "apply_op d (OpCreateFirstUser u t) = snd (CreateFirstUser d u t)"
| "apply_op d (OpDeleteUser i) = snd (DeleteUser d i)"
| "apply_op d (OpAccess i r ro secs) = snd (UpdateUserAccess d i r ro secs)"
| "apply_op d (OpTouchLogin i t) = snd (TouchLogin d i t)"
| "apply_op d (OpPassword i h) = snd (UpdatePassword d i h)"
| "apply_op d (OpEmail i e) = snd (SetUserEmail d i e)"
| "apply_op d (OpPending i s su) = snd (SetTOTPPending d i s su)"
| "apply_op d (OpPasswordless i on) = snd (SetPasswordless d i on)"
| "apply_op d (OpBump i) = snd (BumpSessionEpoch d i)"
| "apply_op d (OpAuthSource i s) = snd (SetAuthSource d i s)"
| "apply_op d (OpLastCounter i c) = snd (SetTOTPLastCounter d i c)"
| "apply_op d (OpPromote i) = snd (PromoteTOTPPending d i)"
| "apply_op d (OpPrefs i p) = snd (SetUserPrefs d i p)"
| "apply_op d (OpHandle i h) = snd (WebAuthnHandle d i h)"
| "apply_op d (OpCreateFactor f a t) = snd (CreateFactor d f a t)"
| "apply_op d (OpDeleteFactor i uid) = snd (DeleteFactor d i uid)"
| "apply_op d (OpBurn i c t) = snd (BurnFactorCounter d i c t)"
| "apply_op d (OpPair uid p n t) = snd (PairPendingFactor d uid p n t)"
| "apply_op d (OpCredential i c t) = snd (UpdateCredential d i c t)"
| "apply_op d (OpCreateSession s t) = snd (CreateSession d s t)"
| "apply_op d (OpTouchSession i t) = snd (TouchSession d i t)"
| "apply_op d (OpDeleteSession i uid) = snd (DeleteSession d i uid)"
| "apply_op d (OpDeleteSessions uid) = snd (DeleteUserSessions d uid)"
| "apply_op d (OpPurge t) = snd (PurgeExpiredSessions d t)"
| "apply_op d (OpFaults f) = d\<lparr>ac_fails := f\<rparr>"

abbreviation run_ops :: "accounts \<Rightarrow> acc_op list \<Rightarrow> accounts" where
  "run_ops \<equiv> foldl apply_op"

definition one_row_per_secret :: "(int \<times> AuthFactor) list \<Rightarrow> bool" where
  "one_row_per_secret rows \<longleftrightarrow>
     distinct (map (\<lambda>r. (f_UserID (snd r), f_Secret (snd r))) (filter (\<lambda>r. f_Secret (snd r) \<noteq> []) rows))"

definition acc_wf :: "accounts \<Rightarrow> bool" where
  "acc_wf d \<longleftrightarrow> tbl_wf (ac_users d) \<and> tbl_wf (ac_factors d)
     \<and> distinct (map (uc_username \<circ> snd) (tbl_rows (ac_users d)))
     \<and> distinct (map s_ID (ac_sessions d)) \<and> one_row_per_secret (tbl_rows (ac_factors d))"

text \<open>How the two tables may change: what is gone stays gone, ids are not reused, and of a row
  that stays a measure never goes down.\<close>

definition rows_grow :: "('r \<Rightarrow> 'r \<Rightarrow> bool) \<Rightarrow> 'r tbl \<Rightarrow> 'r tbl \<Rightarrow> bool" where
  "rows_grow le t t' \<longleftrightarrow> tbl_seq t \<le> tbl_seq t' \<and>
     (\<forall>i r'. i \<le> tbl_seq t \<longrightarrow> tbl_lookup t' i = Some r' \<longrightarrow> (\<exists>r. tbl_lookup t i = Some r \<and> le r r'))"

definition user_le :: "user_row \<Rightarrow> user_row \<Rightarrow> bool" where
  "user_le u u' \<longleftrightarrow> uc_username u' = uc_username u \<and> uc_session_epoch u \<le> uc_session_epoch u'"

definition factor_le :: "AuthFactor \<Rightarrow> AuthFactor \<Rightarrow> bool" where
  "factor_le f f' \<longleftrightarrow> f_UserID f' = f_UserID f \<and> f_Secret f' = f_Secret f \<and> f_Kind f' = f_Kind f
     \<and> f_LastCounter f \<le> f_LastCounter f'"

lemma rows_grow_refl [simp]: "(\<And>r. le r r) \<Longrightarrow> rows_grow le t t"
  by (simp add: rows_grow_def)

lemma rows_grow_trans:
  assumes "rows_grow le t t'" and "rows_grow le t' t''" and "\<And>a b c. le a b \<Longrightarrow> le b c \<Longrightarrow> le a c"
  shows "rows_grow le t t''"
  using assms unfolding rows_grow_def by (meson order_trans)

lemma rows_grow_insert: "tbl_wf t \<Longrightarrow> (\<And>r. le r r) \<Longrightarrow> rows_grow le t (snd (tbl_insert x t))"
  by (auto simp: rows_grow_def tbl_lookup_insert)

lemma rows_grow_update: "(\<And>r. le r r) \<Longrightarrow> (\<And>r. le r (f r)) \<Longrightarrow> rows_grow le t (tbl_update i f t)"
  by (auto simp: rows_grow_def tbl_lookup_update)

lemma rows_grow_delete: "(\<And>r. le r r) \<Longrightarrow> rows_grow le t (tbl_delete i t)"
  by (auto simp: rows_grow_def tbl_lookup_delete split: if_splits)

lemma user_le_refl [simp]: "user_le u u" and factor_le_refl [simp]: "factor_le f f"
  by (simp_all add: user_le_def factor_le_def)

lemma map_of_filter_subset:
  "distinct (map fst xs) \<Longrightarrow> map_of (filter P xs) i = Some r \<Longrightarrow> map_of xs i = Some r"
  by (metis distinct_map_filter filter_is_subset map_of_SomeD map_of_is_SomeI subset_iff)

lemmas grow_intros = rows_grow_insert rows_grow_update rows_grow_delete

lemmas user_update_defs = UpdateUserAccess_def TouchLogin_def UpdatePassword_def SetUserEmail_def
  SetTOTPPending_def SetPasswordless_def BumpSessionEpoch_def SetAuthSource_def SetTOTPLastCounter_def
  PromoteTOTPPending_def SetUserPrefs_def WebAuthnHandle_def

lemma update_user_grow:
  "(\<And>u. user_le u (f u)) \<Longrightarrow> rows_grow user_le (ac_users d) (ac_users (snd (update_user d i f)))"
  by (simp add: update_user_def rows_grow_update)

lemma update_user_frame [simp]:
  "ac_factors (snd (update_user d i f)) = ac_factors d"
  "ac_sessions (snd (update_user d i f)) = ac_sessions d"
  by (simp_all add: update_user_def)

lemma DeleteUser_parts:
  "ac_users (snd (DeleteUser d i)) = ac_users d \<or> ac_users (snd (DeleteUser d i)) = tbl_delete i (ac_users d)"
  "ac_factors (snd (DeleteUser d i)) = ac_factors d \<or> ac_factors (snd (DeleteUser d i)) = (ac_factors d)
     \<lparr>tbl_rows := filter (\<lambda>(j, f). f_UserID f \<noteq> i) (tbl_rows (ac_factors d))\<rparr>"
  "ac_sessions (snd (DeleteUser d i)) = ac_sessions d
     \<or> ac_sessions (snd (DeleteUser d i)) = filter (\<lambda>s. s_UserID s \<noteq> i) (ac_sessions d)"
  by (simp_all add: DeleteUser_def DeleteUserFactors_def DeleteUserSessions_def)

lemma users_grow_op:
  assumes "acc_wf d"
  shows "rows_grow user_le (ac_users d) (ac_users (apply_op d op))"
proof (cases op)
  case (OpDeleteUser i)
  then show ?thesis using DeleteUser_parts(1) [of d i] by (auto simp: rows_grow_delete)
qed (use assms in \<open>auto simp: user_update_defs acc_wf_def user_le_def clear_pending_def
    CreateUser_def CreateFirstUser_def CreateFactor_def DeleteFactor_def BurnFactorCounter_def
    PairPendingFactor_def UpdateCredential_def CreateSession_def TouchSession_def DeleteSession_def
    DeleteUserSessions_def PurgeExpiredSessions_def case_prod_unfold Let_def
    intro!: update_user_grow grow_intros split: option.splits sum.splits\<close>)

lemma rows_grow_filter:
  "tbl_wf t \<Longrightarrow> (\<And>r. le r r) \<Longrightarrow> rows_grow le t (t\<lparr>tbl_rows := filter P (tbl_rows t)\<rparr>)"
  using map_of_filter_subset [of "tbl_rows t" P] by (fastforce simp: rows_grow_def tbl_lookup_def tbl_wf_def)

lemmas op_defs = CreateUser_def CreateFirstUser_def CreateFactor_def DeleteFactor_def
  BurnFactorCounter_def PairPendingFactor_def UpdateCredential_def CreateSession_def TouchSession_def
  DeleteSession_def DeleteUserSessions_def PurgeExpiredSessions_def

lemma factors_grow_op:
  assumes "acc_wf d"
  shows "rows_grow factor_le (ac_factors d) (ac_factors (apply_op d op))"
proof (cases op)
  case (OpDeleteUser i)
  then show ?thesis
    using DeleteUser_parts(2) [of d i] assms by (auto simp: acc_wf_def rows_grow_filter)
next
  case (OpBurn i c t)
  have "rows_grow factor_le (ac_factors d) (tbl_update i (\<lambda>f. f\<lparr>f_LastCounter := c, f_LastUsedAt := x\<rparr>) (ac_factors d))"
    if "tbl_lookup (ac_factors d) i = Some f" "f_LastCounter f < c" for f x
    using that by (auto simp: rows_grow_def tbl_lookup_update factor_le_def)
  then show ?thesis
    by (auto simp: OpBurn BurnFactorCounter_def split: option.splits)
qed (use assms in \<open>auto simp: user_update_defs acc_wf_def factor_le_def op_defs case_prod_unfold Let_def
    rows_grow_insert rows_grow_update rows_grow_delete split: option.splits sum.splits\<close>)

lemma tbl_wf_filter [inv_intros]: "tbl_wf t \<Longrightarrow> tbl_wf (t\<lparr>tbl_rows := filter P (tbl_rows t)\<rparr>)"
  by (auto simp: tbl_wf_def list_all_iff distinct_map_filter)

lemma map_username_update:
  "(\<And>u. uc_username (f u) = uc_username u) \<Longrightarrow>
     map (uc_username \<circ> snd) (tbl_rows (tbl_update i f t)) = map (uc_username \<circ> snd) (tbl_rows t)"
  by (auto simp: tbl_update_def)

lemma users_wf_op:
  assumes "acc_wf d"
  shows "tbl_wf (ac_users (apply_op d op)) \<and> distinct (map (uc_username \<circ> snd) (tbl_rows (ac_users (apply_op d op))))"
proof (cases op)
  case (OpDeleteUser i)
  have "distinct (map (uc_username \<circ> snd) (tbl_rows (tbl_delete i (ac_users d))))"
    using assms by (auto simp: acc_wf_def tbl_delete_def intro: distinct_map_filter)
  then show ?thesis
    using DeleteUser_parts(1) [of d i] assms OpDeleteUser by (auto simp: acc_wf_def tbl_wf_delete)
next
  case (OpCreateUser u t)
  then show ?thesis
    using assms
    by (auto simp: acc_wf_def CreateUser_def case_prod_unfold tbl_wf_insert)
      (auto simp: tbl_insert_def Let_def username_taken_def list_ex_iff new_user_row_def)
next
  case (OpCreateFirstUser u t)
  then show ?thesis
    using assms
    by (auto simp: acc_wf_def CreateFirstUser_def case_prod_unfold tbl_wf_insert)
      (auto simp: tbl_insert_def Let_def)
qed (use assms in \<open>auto simp: user_update_defs update_user_def acc_wf_def op_defs case_prod_unfold Let_def
    clear_pending_def map_username_update tbl_wf_update split: option.splits sum.splits\<close>)

lemma one_row_filter [inv_intros]: "one_row_per_secret rows \<Longrightarrow> one_row_per_secret (filter P rows)"
  by (induction rows) (force simp: one_row_per_secret_def)+

lemma one_row_delete [inv_intros]:
  "one_row_per_secret (tbl_rows t) \<Longrightarrow> one_row_per_secret (tbl_rows (tbl_delete i t))"
  by (simp add: tbl_delete_def one_row_filter)

lemma one_row_update [inv_intros]:
  assumes "one_row_per_secret (tbl_rows t)" and "\<And>f. f_UserID (g f) = f_UserID f \<and> f_Secret (g f) = f_Secret f"
  shows "one_row_per_secret (tbl_rows (tbl_update i g t))"
proof -
  have "map (\<lambda>r. (f_UserID (snd r), f_Secret (snd r)))
      (filter (\<lambda>r. f_Secret (snd r) \<noteq> []) (map (\<lambda>(k, x). (k, if k = i then g x else x)) rows))
    = map (\<lambda>r. (f_UserID (snd r), f_Secret (snd r))) (filter (\<lambda>r. f_Secret (snd r) \<noteq> []) rows)" for rows
    using assms(2) by (induction rows) (auto split: if_splits)
  then show ?thesis using assms(1) by (simp add: one_row_per_secret_def tbl_update_def)
qed

lemma one_row_insert:
  assumes "one_row_per_secret (tbl_rows (ac_factors d))" and "\<not> secret_taken d (f_UserID f) (f_Secret f)"
  shows "one_row_per_secret (tbl_rows (snd (tbl_insert f (ac_factors d))))"
  using assms by (auto simp: one_row_per_secret_def tbl_insert_def secret_taken_def Let_def list_ex_iff)

lemma one_row_update_parts:
  "one_row_per_secret (tbl_rows t) \<Longrightarrow> one_row_per_secret (tbl_rows (tbl_update i (\<lambda>f. f\<lparr>f_LastCounter := c, f_LastUsedAt := x\<rparr>) t))"
  "one_row_per_secret (tbl_rows t) \<Longrightarrow> one_row_per_secret (tbl_rows (tbl_update i (\<lambda>f. f\<lparr>f_Credential := cr, f_LastUsedAt := x\<rparr>) t))"
  by (auto intro: one_row_update)

lemma factors_wf_op:
  assumes "acc_wf d"
  shows "tbl_wf (ac_factors (apply_op d op)) \<and> one_row_per_secret (tbl_rows (ac_factors (apply_op d op)))"
proof (cases op)
  case (OpDeleteUser i)
  then show ?thesis
    using DeleteUser_parts(2) [of d i] assms by (auto simp: acc_wf_def tbl_wf_filter one_row_filter)
qed (use assms in \<open>auto simp: user_update_defs acc_wf_def op_defs case_prod_unfold Let_def
    tbl_wf_insert tbl_wf_update tbl_wf_delete one_row_insert one_row_delete one_row_update_parts
    split: option.splits sum.splits\<close>)

lemma distinct_map_filter_id: "distinct (map g xs) \<Longrightarrow> distinct (map g (filter P xs))"
  by (rule distinct_map_filter)

lemma map_session_touch:
  "map s_ID (map (\<lambda>s. if P s then s\<lparr>s_LastSeenAt := t\<rparr> else s) xs) = map s_ID xs"
  by (induction xs) auto

lemma sessions_wf_op:
  assumes "acc_wf d"
  shows "distinct (map s_ID (ac_sessions (apply_op d op)))"
proof (cases op)
  case (OpDeleteUser i)
  then show ?thesis
    using DeleteUser_parts(3) [of d i] assms by (auto simp: acc_wf_def distinct_map_filter_id)
next
  case (OpTouchSession i t)
  then show ?thesis
    using assms by (simp add: acc_wf_def TouchSession_def map_session_touch del: map_map)
qed (use assms in \<open>auto simp: user_update_defs acc_wf_def op_defs case_prod_unfold Let_def
    distinct_map_filter_id list_ex_iff split: option.splits sum.splits\<close>)

lemma acc_wf_op [inv_intros]: "acc_wf d \<Longrightarrow> acc_wf (apply_op d op)"
  using users_wf_op factors_wf_op sessions_wf_op by (simp add: acc_wf_def)

lemma acc_wf_run: "acc_wf d \<Longrightarrow> acc_wf (run_ops d ops)"
  by (induction ops arbitrary: d) (simp_all add: acc_wf_op)

lemma factors_grow_run:
  "acc_wf d \<Longrightarrow> rows_grow factor_le (ac_factors d) (ac_factors (run_ops d ops))"
proof (induction ops arbitrary: d)
  case (Cons op ops)
  have "factor_le a b \<Longrightarrow> factor_le b c \<Longrightarrow> factor_le a c" for a b c by (auto simp: factor_le_def)
  then show ?case
    using rows_grow_trans [OF factors_grow_op Cons.IH [OF acc_wf_op]] Cons.prems by simp
qed simp

lemma users_grow_run:
  "acc_wf d \<Longrightarrow> rows_grow user_le (ac_users d) (ac_users (run_ops d ops))"
proof (induction ops arbitrary: d)
  case (Cons op ops)
  have "user_le a b \<Longrightarrow> user_le b c \<Longrightarrow> user_le a c" for a b c by (auto simp: user_le_def)
  then show ?case
    using rows_grow_trans [OF users_grow_op Cons.IH [OF acc_wf_op]] Cons.prems by simp
qed simp

lemma one_row_unique:
  assumes "one_row_per_secret (tbl_rows t)" "tbl_wf t" "tbl_lookup t i = Some f" "tbl_lookup t j = Some g"
    and "f_UserID f = f_UserID g" "f_Secret f = f_Secret g" "f_Secret f \<noteq> []"
  shows "i = j"
proof -
  let ?key = "\<lambda>r. (f_UserID (snd r), f_Secret (snd r))"
  let ?xs = "filter (\<lambda>r. f_Secret (snd r) \<noteq> []) (tbl_rows t)"
  have "(i, f) \<in> set ?xs" "(j, g) \<in> set ?xs"
    using assms by (auto simp: tbl_lookup_def dest!: map_of_SomeD)
  moreover have "inj_on ?key (set ?xs)"
    using assms(1) by (simp add: one_row_per_secret_def distinct_map)
  moreover have "?key (i, f) = ?key (j, g)" using assms(5,6) by simp
  ultimately have "(i, f) = (j, g)" by (rule inj_onD [rotated 2])
  then show ?thesis by simp
qed

lemma tbl_lookup_le_seq: "tbl_wf t \<Longrightarrow> tbl_lookup t i = Some r \<Longrightarrow> i \<le> tbl_seq t"
  by (auto simp: tbl_wf_def tbl_lookup_def list_all_iff dest!: map_of_SomeD)

lemma burned_watermark:
  assumes "acc_wf d" "fst (BurnFactorCounter d i c now) = Ok ()"
    and "tbl_lookup (ac_factors (run_ops (snd (BurnFactorCounter d i c now)) ops)) i = Some f"
  shows "c \<le> f_LastCounter f"
proof -
  let ?d = "snd (BurnFactorCounter d i c now)"
  obtain f0 where 0: "tbl_lookup (ac_factors ?d) i = Some f0" "f_LastCounter f0 = c"
    using assms(2) by (auto simp: BurnFactorCounter_def tbl_lookup_update split: if_splits option.splits)
  have wf: "acc_wf ?d"
    using acc_wf_op [OF assms(1), of "OpBurn i c now"] by simp
  then have "i \<le> tbl_seq (ac_factors ?d)"
    using 0 by (auto simp: acc_wf_def intro: tbl_lookup_le_seq)
  then obtain f1 where "tbl_lookup (ac_factors ?d) i = Some f1" "factor_le f1 f"
    using factors_grow_run [OF wf, of ops] assms(3) by (auto simp: rows_grow_def)
  then show ?thesis using 0 by (auto simp: factor_le_def)
qed

text \<open>C27. A one-time code is spent once. When a code's counter has been burned on an authenticator, no
  later state of the tables, whatever operations ran, accepts that counter or an older one: neither
  for the same factor, nor for any other factor of the account that holds the same secret.
\<close>

theorem totp_code_spent_once:
  assumes "acc_wf d" and "fst (BurnFactorCounter d i c now) = Ok ()" and "c' \<le> c"
    and "D = run_ops (snd (BurnFactorCounter d i c now)) ops"
    and "tbl_lookup (ac_factors D) i = Some f" and "f_Secret f \<noteq> []"
    and "tbl_lookup (ac_factors D) j = Some g" and "same_authenticator f g"
  shows "fst (BurnFactorCounter D j c' now') \<noteq> Ok ()"
proof -
  have "acc_wf D"
    using acc_wf_run [OF acc_wf_op [OF assms(1)], of "OpBurn i c now" ops] assms(4) by simp
  then have "i = j"
    using one_row_unique [of "ac_factors D" i f j g] assms(5-8)
    by (simp add: acc_wf_def same_authenticator_def)
  moreover have "c \<le> f_LastCounter f"
    using burned_watermark [OF assms(1,2)] assms(4,5) by simp
  ultimately show ?thesis
    using assms(3,5) by (simp add: BurnFactorCounter_def)
qed

definition demo_accounts :: accounts where
  "demo_accounts =
     \<lparr>ac_users = \<lparr>tbl_rows = [(1, (new_user_row \<lparr>u_ID = 0, u_Username = ''ann'', u_PasswordHash = ''h1'', u_Role = ''admin'',
         u_Email = [], u_AuthSource = ''local'', u_ReadOnly = False, u_Sections = [], u_TOTPSecret = [],
         u_TOTPEnabled = False, u_MFAEnabled = False, u_TOTPPending = [], u_TOTPPendingStepUp = False,
         u_Passwordless = False, u_TOTPLastCounter = 0, u_SessionEpoch = 0, u_CreatedAt = 0,
         u_LastLoginAt = 0\<rparr> 0)\<lparr>uc_totp_pending := ''S2''\<rparr>)], tbl_seq = 1\<rparr>,
      ac_factors = \<lparr>tbl_rows = [(1, \<lparr>f_ID = 0, f_UserID = 1, f_Kind = ''totp'', f_Name = ''phone'',
         f_Secret = ''S1'', f_LastCounter = 7, f_CreatedAt = 0, f_LastUsedAt = 0, f_CredentialID = [],
         f_Credential = []\<rparr>)], tbl_seq = 1\<rparr>,
      ac_sessions = [], ac_fails = (\<lambda>_. False)\<rparr>"

lemma demo_accounts_wf: "acc_wf demo_accounts"
  by code_simp

theorem totp_code_spent_once_witness:
  "fst (BurnFactorCounter (run_ops (snd (BurnFactorCounter demo_accounts 1 9 0)) [OpPair 1 ''S2'' ''tab'' 0]) 1 9 60) \<noteq> Ok ()"
  by (rule totp_code_spent_once [OF demo_accounts_wf, of 1 9 0 9 _ "[OpPair 1 ''S2'' ''tab'' 0]"
        "the (tbl_lookup (ac_factors (run_ops (snd (BurnFactorCounter demo_accounts 1 9 0)) [OpPair 1 ''S2'' ''tab'' 0])) 1)"])
    (rule refl | code_simp)+

section \<open>A second factor stays\<close>

lemma factors_of_frame [simp]:
  "factors_of (d\<lparr>ac_users := x\<rparr>) uid = factors_of d uid"
  "factors_of (d\<lparr>ac_sessions := y\<rparr>) uid = factors_of d uid"
  "factors_of (d\<lparr>ac_fails := z\<rparr>) uid = factors_of d uid"
  "factors_of (d\<lparr>ac_users := x, ac_factors := t\<rparr>) uid = factors_of (d\<lparr>ac_factors := t\<rparr>) uid"
  by (simp_all add: factors_of_def)

lemma factors_of_insert:
  "factors_of d uid \<noteq> [] \<Longrightarrow> factors_of (d\<lparr>ac_factors := snd (tbl_insert f (ac_factors d))\<rparr>) uid \<noteq> []"
  by (auto simp: factors_of_def tbl_insert_def Let_def)

lemma factors_of_update:
  assumes "\<And>f. f_UserID (g f) = f_UserID f"
  shows "factors_of d uid \<noteq> [] \<Longrightarrow> factors_of (d\<lparr>ac_factors := tbl_update i g (ac_factors d)\<rparr>) uid \<noteq> []"
  by (force simp: assms factors_of_def tbl_update_def filter_empty_conv)

lemma factors_of_delete:
  assumes "tbl_wf (ac_factors d)" and "1 < length (factors_of d uid)"
  shows "factors_of (d\<lparr>ac_factors := tbl_delete i (ac_factors d)\<rparr>) uid \<noteq> []"
proof
  assume "factors_of (d\<lparr>ac_factors := tbl_delete i (ac_factors d)\<rparr>) uid = []"
  then have "\<forall>x \<in> set (factors_of d uid). fst x = i"
    by (auto simp: factors_of_def tbl_delete_def filter_empty_conv)
  then have "set (map fst (factors_of d uid)) \<subseteq> {i}" by auto
  moreover have "distinct (map fst (factors_of d uid))"
    using assms(1) by (simp add: factors_of_def tbl_wf_def distinct_map_filter)
  ultimately have "length (map fst (factors_of d uid)) \<le> 1"
    using card_mono [of "{i}" "set (map fst (factors_of d uid))"] distinct_card by fastforce
  then show False using assms(2) by simp
qed

lemma factors_of_other:
  "uid \<noteq> i \<Longrightarrow> filter (\<lambda>(k, f). f_UserID f = uid) (filter (\<lambda>(j, f). f_UserID f \<noteq> i) rows)
     = filter (\<lambda>(k, f). f_UserID f = uid) rows"
  by (induction rows) auto

lemma second_factor_op:
  assumes "acc_wf d" "factors_of d uid \<noteq> []" "op \<noteq> OpDeleteUser uid"
  shows "factors_of (apply_op d op) uid \<noteq> []"
proof (cases op)
  case (OpDeleteUser i)
  then show ?thesis
    using DeleteUser_parts(2) [of d i] assms(2,3)
    by (auto simp: factors_of_def factors_of_other simp del: filter_filter)
next
  case (OpDeleteFactor i u)
  show ?thesis
  proof (cases "u = uid")
    case True
    then show ?thesis using assms(1,2) OpDeleteFactor factors_of_delete [of d uid i]
      by (auto simp: DeleteFactor_def acc_wf_def split: sum.splits)
  next
    case False
    have "factors_of (d\<lparr>ac_factors := tbl_delete i (ac_factors d)\<rparr>) uid = factors_of d uid"
      if "tbl_lookup (ac_factors d) i = Some f" "f_UserID f = u" for f
      using that False assms(1)
      by (auto simp: factors_of_def tbl_delete_def tbl_lookup_def acc_wf_def tbl_wf_def intro!: filter_cong
          dest: eq_key_imp_eq_value)
    then show ?thesis using assms(2) OpDeleteFactor
      by (auto simp: DeleteFactor_def split: sum.splits option.splits)
  qed
qed (use assms in \<open>auto simp: user_update_defs update_user_def op_defs case_prod_unfold Let_def
    factors_of_insert factors_of_update split: option.splits sum.splits\<close>)

text \<open>C6. Two-factor protection cannot be taken off an account piece by piece: once an account has a
  second factor, then after any run of the store in which the account itself is not deleted it
  still has one, and so a login still asks for it.
\<close>

theorem second_factor_stays:
  assumes "acc_wf d" and "factors_of d uid \<noteq> []" and "OpDeleteUser uid \<notin> set ops"
    and "tbl_lookup (ac_users (run_ops d ops)) uid = Some u"
  shows "u_MFAEnabled (scanUserRow (run_ops d ops) (uid, u))"
proof -
  have "factors_of (run_ops d ops) uid \<noteq> []"
    using assms(1-3)
    by (induction ops arbitrary: d) (auto simp: second_factor_op acc_wf_op)
  then show ?thesis by (simp add: scanUserRow_def)
qed

theorem second_factor_stays_witness:
  "u_MFAEnabled (scanUserRow (run_ops demo_accounts [OpDeleteFactor 1 1, OpPair 1 ''S2'' ''tab'' 0, OpDeleteFactor 1 1])
     (1, the (tbl_lookup (ac_users (run_ops demo_accounts [OpDeleteFactor 1 1, OpPair 1 ''S2'' ''tab'' 0, OpDeleteFactor 1 1])) 1)))"
  by (rule second_factor_stays [OF demo_accounts_wf]) (simp_all, code_simp+)

section \<open>One enrolment, one factor\<close>

definition nothing_pending :: "accounts \<Rightarrow> int \<Rightarrow> bool" where
  "nothing_pending d uid \<longleftrightarrow> uid \<le> tbl_seq (ac_users d) \<and>
     (case tbl_lookup (ac_users d) uid of None \<Rightarrow> True | Some u \<Rightarrow> uc_totp_pending u = [])"

lemma nothing_pending_grow:
  assumes "rows_grow (\<lambda>u u'. uc_totp_pending u = [] \<longrightarrow> uc_totp_pending u' = []) (ac_users d) (ac_users d')"
    and "nothing_pending d uid"
  shows "nothing_pending d' uid"
  using assms by (fastforce simp: nothing_pending_def rows_grow_def split: option.splits)

lemma nothing_pending_op:
  assumes "acc_wf d" "nothing_pending d uid" "\<And>s su. op \<noteq> OpPending uid s su"
  shows "nothing_pending (apply_op d op) uid"
proof (cases op)
  case (OpDeleteUser i)
  then show ?thesis
    using DeleteUser_parts(1) [of d i] assms
    by (auto intro!: nothing_pending_grow [OF _ assms(2)] simp: rows_grow_delete)
next
  case (OpPending i s su)
  then show ?thesis
    using assms by (auto simp: SetTOTPPending_def update_user_def nothing_pending_def tbl_lookup_update)
qed (use assms in \<open>auto simp: user_update_defs update_user_def acc_wf_def clear_pending_def op_defs
    case_prod_unfold Let_def intro!: nothing_pending_grow [OF _ assms(2)] grow_intros
    split: option.splits sum.splits\<close>)

text \<open>One enrolment becomes one factor. After a pairing has claimed the pending secret of an
  account, a second pairing with the same secret fails in every later state, as long as no new
  enrolment is begun for the account; the table of factors is then left as it was.
\<close>

theorem pairing_claims_once:
  assumes "acc_wf d" and "fst (PairPendingFactor d uid pending name now) = Ok i"
    and "\<And>s su. OpPending uid s su \<notin> set ops"
    and "D = run_ops (snd (PairPendingFactor d uid pending name now)) ops"
  shows "\<exists>e. PairPendingFactor D uid pending name' now' = (Err e, D)"
proof -
  let ?d = "snd (PairPendingFactor d uid pending name now)"
  obtain u where u: "tbl_lookup (ac_users d) uid = Some u" and ne: "pending \<noteq> []"
    and d: "ac_users ?d = tbl_update uid clear_pending (ac_users d)"
    using assms(2) by (auto simp: PairPendingFactor_def Let_def case_prod_unfold split: if_splits option.splits)
  have "uid \<le> tbl_seq (ac_users d)"
    using assms(1) u by (auto simp: acc_wf_def intro: tbl_lookup_le_seq)
  then have np: "nothing_pending ?d uid"
    using u by (simp add: nothing_pending_def d tbl_lookup_update clear_pending_def)
  have "acc_wf ?d"
    using acc_wf_op [OF assms(1), of "OpPair uid pending name now"] by simp
  then have "nothing_pending D uid"
    unfolding assms(4) using np assms(3)
    by (induction ops rule: rev_induct) (auto intro!: nothing_pending_op acc_wf_run)
  then show ?thesis
    using ne by (auto simp: PairPendingFactor_def nothing_pending_def split: option.splits)
qed

theorem pairing_claims_once_witness:
  "\<exists>e. PairPendingFactor (run_ops (snd (PairPendingFactor demo_accounts 1 ''S2'' ''tab'' 0)) [OpBump 1]) 1 ''S2'' ''again'' 5
     = (Err e, run_ops (snd (PairPendingFactor demo_accounts 1 ''S2'' ''tab'' 0)) [OpBump 1])"
proof (rule pairing_claims_once [OF demo_accounts_wf, where ops = "[OpBump 1]"])
  show "fst (PairPendingFactor demo_accounts 1 ''S2'' ''tab'' 0) = Ok 2" by code_simp
qed simp_all

text \<open>Every operation keeps the shape of the three tables: ids are unique, positive and not above
  the sequence, no two accounts share a user name, no two sessions share an id, and within an
  account no two factors share a secret.
\<close>

theorem accounts_invariant:
  assumes "acc_wf d"
  shows "acc_wf (run_ops d ops)"
  using assms by (rule acc_wf_run)

theorem accounts_invariant_witness:
  "acc_wf (run_ops demo_accounts [OpCreateUser (scanUserRow demo_accounts (1, snd (hd (tbl_rows (ac_users demo_accounts))))) 5,
     OpPair 1 ''S2'' ''tab'' 0, OpDeleteUser 1])"
  by (rule accounts_invariant [OF demo_accounts_wf])

section \<open>The start-up repair\<close>

lemma raise_watermarks_fst: "map fst (raise_watermarks rows) = map fst rows"
  by (auto simp: raise_watermarks_def)

lemma drop_duplicatesD:
  assumes "(i, f) \<in> set (drop_duplicates rows)" "(j, g) \<in> set rows" "f_Secret f \<noteq> []" "same_authenticator f g"
  shows "(i, f) \<in> set rows \<and> i \<le> j"
  using assms by (auto simp: drop_duplicates_def list_all_iff)

lemma drop_duplicates_one_row:
  assumes "distinct (map fst rows)"
  shows "one_row_per_secret (drop_duplicates rows)"
proof -
  let ?key = "\<lambda>r. (f_UserID (snd r), f_Secret (snd r))"
  let ?xs = "filter (\<lambda>r. f_Secret (snd r) \<noteq> []) (drop_duplicates rows)"
  have sub: "set (drop_duplicates rows) \<subseteq> set rows" by (auto simp: drop_duplicates_def)
  have "inj_on ?key (set ?xs)"
  proof (rule inj_onI)
    fix x y assume xy: "x \<in> set ?xs" "y \<in> set ?xs" "?key x = ?key y"
    obtain i f j g where p: "x = (i, f)" "y = (j, g)" by (cases x, cases y) auto
    have "same_authenticator f g" "same_authenticator g f"
      using xy(3) by (auto simp: p same_authenticator_def)
    then have "i = j"
      using drop_duplicatesD [of i f rows j g] drop_duplicatesD [of j g rows i f] xy sub
      by (auto simp: p)
    then show "x = y" using assms xy sub by (auto simp: p dest: eq_key_imp_eq_value)
  qed
  moreover have "distinct ?xs"
    using assms by (auto simp: drop_duplicates_def distinct_map)
  ultimately show ?thesis by (simp add: one_row_per_secret_def distinct_map)
qed

lemma oldest_survives:
  assumes "(i, f) \<in> set rows"
  shows "\<exists>j g. (j, g) \<in> set (drop_duplicates rows) \<and> same_authenticator f g"
proof (cases "f_Secret f = []")
  case True
  then show ?thesis
    using assms by (auto simp: drop_duplicates_def same_authenticator_def intro!: exI [of _ i] exI [of _ f])
next
  case False
  let ?S = "fst ` set (filter (same_authenticator f \<circ> snd) rows)"
  have "Min ?S \<in> ?S"
    using assms by (intro Min_in) (auto simp: same_authenticator_def)
  then obtain g where g: "(Min ?S, g) \<in> set rows" "same_authenticator f g" by auto
  have "Min ?S \<le> k" if "(k, h) \<in> set rows" "same_authenticator g h" for k h
    using that g(2) by (intro Min_le) (force simp: same_authenticator_def)+
  then have "(Min ?S, g) \<in> set (drop_duplicates rows)"
    using g by (auto simp: drop_duplicates_def list_all_iff)
  then show ?thesis using g(2) by blast
qed

lemma raised_watermark:
  assumes "(j, g) \<in> set (raise_watermarks rows)" "(i, f) \<in> set rows" "same_authenticator f g" "f_Secret f \<noteq> []"
  shows "f_LastCounter f \<le> f_LastCounter g"
proof -
  obtain g0 where g0: "(j, g0) \<in> set rows"
    and g: "g = (if f_Secret g0 = [] then g0 else g0\<lparr>f_LastCounter := Max (set (map (f_LastCounter \<circ> snd) (filter (same_authenticator g0 \<circ> snd) rows)))\<rparr>)"
    using assms(1) by (auto simp: raise_watermarks_def)
  have ne: "f_Secret g0 \<noteq> []" using assms(3,4) by (auto simp: g same_authenticator_def split: if_splits)
  moreover have "same_authenticator g0 f" using assms(3) ne by (auto simp: g same_authenticator_def)
  ultimately show ?thesis
    using assms(2) by (auto simp: g intro!: Max_ge image_eqI [where x = "(i, f)"])
qed

text \<open>The start-up repair makes one authenticator one row and opens no replay: afterwards no two
  factors of an account share a secret, every authenticator that was registered still is, and the
  row that represents it has burned at least every counter any of its duplicates had burned.
\<close>

theorem factor_repair:
  assumes "tbl_wf t" and "(i, f) \<in> set (tbl_rows t)" and "f_Secret f \<noteq> []"
  shows "one_row_per_secret (tbl_rows (enforceOneFactorPerSecret t))
    \<and> (\<exists>j g. (j, g) \<in> set (tbl_rows (enforceOneFactorPerSecret t)) \<and> same_authenticator f g
         \<and> f_LastCounter f \<le> f_LastCounter g)"
proof
  show "one_row_per_secret (tbl_rows (enforceOneFactorPerSecret t))"
    using assms(1) by (simp add: enforceOneFactorPerSecret_def drop_duplicates_one_row raise_watermarks_fst tbl_wf_def)
  let ?r = "raise_watermarks (tbl_rows t)"
  obtain f' where f': "(i, f') \<in> set ?r" "same_authenticator f f'"
    using assms(2) by (force simp: raise_watermarks_def same_authenticator_def)
  then obtain j g where g: "(j, g) \<in> set (drop_duplicates ?r)" "same_authenticator f' g"
    using oldest_survives by blast
  then have "(j, g) \<in> set ?r" "same_authenticator f g"
    using f'(2) by (auto simp: drop_duplicates_def same_authenticator_def)
  then show "\<exists>j g. (j, g) \<in> set (tbl_rows (enforceOneFactorPerSecret t)) \<and> same_authenticator f g
      \<and> f_LastCounter f \<le> f_LastCounter g"
    using g(1) raised_watermark [OF _ assms(2)] assms(3) by (auto simp: enforceOneFactorPerSecret_def)
qed

definition twin_factors :: "AuthFactor tbl" where
  "twin_factors = (let f = snd (hd (tbl_rows (ac_factors demo_accounts)))
     in \<lparr>tbl_rows = [(1, f), (2, f\<lparr>f_LastCounter := 9\<rparr>)], tbl_seq = 2\<rparr>)"

theorem factor_repair_witness:
  "one_row_per_secret (tbl_rows (enforceOneFactorPerSecret twin_factors))
    \<and> (\<exists>j g. (j, g) \<in> set (tbl_rows (enforceOneFactorPerSecret twin_factors))
         \<and> same_authenticator (snd (tbl_rows twin_factors ! 1)) g
         \<and> f_LastCounter (snd (tbl_rows twin_factors ! 1)) \<le> f_LastCounter g)"
  by (rule factor_repair [where i = 2]) code_simp+

end
