(* ===== verification/Ldap.thy ===== *)
theory Ldap
  imports Accounts RoleSteps
begin

text \<open>
  Directory settings and what a directory login may grant: \<open>src/internal/store/ldap.go\<close>, the
  mapping functions of \<open>src/internal/auth/ldap.go\<close> and the synchronisation of roles and
  sections of \<open>src/internal/auth/service.go\<close>. The connection to the directory is not modelled:
  the outcome of \<open>LDAPAuthenticate\<close> is an argument where a login uses it. The cipher that
  protects the bind password is a pair of functions; the settings text is the record itself, or
  nothing when it does not parse.
\<close>

record LDAPGroupMapping =
  gm_GroupDN :: string
  gm_Sections :: "string list"
  gm_RoleIDs :: "int list"

record LDAPConfig =
  lc_Enabled :: bool
  lc_URL :: string
  lc_StartTLS :: bool
  lc_BindDN :: string
  lc_BindPassword :: string
  lc_UserBaseDN :: string
  lc_UserFilter :: string
  lc_AdminGroupDN :: string
  lc_GroupMappings :: "LDAPGroupMapping list"
  lc_FallbackRoleID :: int

record LDAPResult =
  lr_Username :: string
  lr_IsAdmin :: bool
  lr_Groups :: "string list"
  lr_Email :: string

record cipher =
  cph_Encrypt :: "string \<Rightarrow> string option"
  cph_Decrypt :: "string \<Rightarrow> string option"

definition empty_config :: LDAPConfig where
  "empty_config = \<lparr>lc_Enabled = False, lc_URL = [], lc_StartTLS = False, lc_BindDN = [], lc_BindPassword = [],
     lc_UserBaseDN = [], lc_UserFilter = [], lc_AdminGroupDN = [], lc_GroupMappings = [], lc_FallbackRoleID = 0\<rparr>"

section \<open>store/ldap.go\<close>

definition cleanMapping :: "LDAPGroupMapping \<Rightarrow> LDAPGroupMapping" where
  "cleanMapping m = \<lparr>gm_GroupDN = trim_space (gm_GroupDN m), gm_Sections = dedup ValidSection [] (gm_Sections m),
     gm_RoleIDs = dedup (\<lambda>i. i > 0) [] (gm_RoleIDs m)\<rparr>"

definition cleanGroupMappings :: "LDAPGroupMapping list \<Rightarrow> LDAPGroupMapping list" where
  "cleanGroupMappings ms = map cleanMapping (filter (\<lambda>m. trim_space (gm_GroupDN m) \<noteq> []) ms)"

definition Configured :: "LDAPConfig \<Rightarrow> bool" where
  "Configured c \<longleftrightarrow> lc_Enabled c \<and> lc_URL c \<noteq> [] \<and> lc_UserBaseDN c \<noteq> [] \<and> lc_UserFilter c \<noteq> []"

text \<open>The settings row: \<open>None\<close> when it cannot be read or parsed, \<open>Some None\<close> when it is
  absent. \<open>ls_write_fails\<close> says whether the next write fails.\<close>

record ldap_store =
  ls_row :: "LDAPConfig option option"
  ls_write_fails :: bool
  ls_cipher :: "cipher option"

definition GetLDAP :: "ldap_store \<Rightarrow> LDAPConfig option" where
  "GetLDAP l =
     (case ls_row l of None \<Rightarrow> None | Some None \<Rightarrow> Some empty_config
      | Some (Some c) \<Rightarrow> Some (case ls_cipher l of
           None \<Rightarrow> c
         | Some k \<Rightarrow> if lc_BindPassword c = [] then c
             else case cph_Decrypt k (lc_BindPassword c) of None \<Rightarrow> c | Some pw \<Rightarrow> c\<lparr>lc_BindPassword := pw\<rparr>))"

definition SetLDAP :: "ldap_store \<Rightarrow> LDAPConfig \<Rightarrow> bool \<times> ldap_store" where
  "SetLDAP l c =
     (let c1 = c\<lparr>lc_GroupMappings := cleanGroupMappings (lc_GroupMappings c),
                 lc_FallbackRoleID := max 0 (lc_FallbackRoleID c)\<rparr>;
          c2 = (if lc_BindPassword c1 = []
                then (case GetLDAP l of None \<Rightarrow> c1 | Some prev \<Rightarrow> c1\<lparr>lc_BindPassword := lc_BindPassword prev\<rparr>)
                else c1);
          enc = (case ls_cipher l of
                   None \<Rightarrow> Some c2
                 | Some k \<Rightarrow> if lc_BindPassword c2 = [] then Some c2
                     else map_option (\<lambda>e. c2\<lparr>lc_BindPassword := e\<rparr>) (cph_Encrypt k (lc_BindPassword c2)))
      in case enc of None \<Rightarrow> (False, l)
         | Some c3 \<Rightarrow> if ls_write_fails l then (False, l) else (True, l\<lparr>ls_row := Some (Some c3)\<rparr>))"

section \<open>auth/ldap.go\<close>

definition group_key :: "string \<Rightarrow> string" where
  "group_key g = to_lower (trim_space g)"

definition matched_mappings :: "LDAPConfig \<Rightarrow> string list \<Rightarrow> LDAPGroupMapping list" where
  "matched_mappings cfg groups =
     filter (\<lambda>m. group_key (gm_GroupDN m) \<in> set (map group_key groups)) (lc_GroupMappings cfg)"

definition SectionsForGroups :: "LDAPConfig \<Rightarrow> string list \<Rightarrow> string list" where
  "SectionsForGroups cfg groups =
     (if lc_GroupMappings cfg = [] \<or> groups = [] then []
      else dedup ValidSection [] (concat (map gm_Sections (matched_mappings cfg groups))))"

definition RolesForGroups :: "LDAPConfig \<Rightarrow> string list \<Rightarrow> int list" where
  "RolesForGroups cfg groups =
     (if lc_GroupMappings cfg = [] \<or> groups = [] then []
      else dedup (\<lambda>i. i > 0) [] (concat (map gm_RoleIDs (matched_mappings cfg groups))))"

definition MapsRoles :: "LDAPConfig \<Rightarrow> bool" where
  "MapsRoles cfg \<longleftrightarrow> list_ex (\<lambda>m. gm_RoleIDs m \<noteq> []) (lc_GroupMappings cfg)"

section \<open>Synchronisation on a directory login\<close>

definition containsID :: "int list \<Rightarrow> int \<Rightarrow> bool" where
  "containsID ids i \<longleftrightarrow> list_ex (\<lambda>x. x = i) ids"

definition sameSections :: "string list \<Rightarrow> string list \<Rightarrow> bool" where
  "sameSections a b \<longleftrightarrow> length a = length b \<and> list_all (\<lambda>s. s \<in> set a) b"

definition sameIDs :: "int list \<Rightarrow> int list \<Rightarrow> bool" where
  "sameIDs a b \<longleftrightarrow> length a = length b \<and> list_all (\<lambda>s. s \<in> set a) b"

definition with_fallback :: "db \<Rightarrow> int list \<Rightarrow> int list \<Rightarrow> int \<Rightarrow> db_error + int list" where
  "with_fallback d want valid fallback =
     (if length valid < length want \<and> fallback > 0
      then bind_res (ExistingRoleIDs d [fallback]) (\<lambda>fb.
             Ok (if length fb = 1 \<and> \<not> containsID valid fallback then valid @ [fallback] else valid))
      else Ok valid)"

definition syncRoles :: "db \<Rightarrow> int \<Rightarrow> int list \<Rightarrow> int \<Rightarrow> (db_error + unit) \<times> db" where
  "syncRoles d uid want fallback =
     (case bind_res (ExistingRoleIDs d want) (\<lambda>valid. with_fallback d want valid fallback) of
        Inl e \<Rightarrow> (Err e, d)
      | Inr valid \<Rightarrow> (case RoleIDsForUser d uid of
          Inl e \<Rightarrow> (Err e, d)
        | Inr have' \<Rightarrow> if sameIDs have' valid then (Ok (), d) else SetUserRoles d uid valid))"

section \<open>Settings\<close>

text \<open>Directory settings read back as they were saved. With a cipher that decrypts what it
  encrypted, a successful save is read back with the mappings cleaned, a negative fallback role as
  none, and the bind password given, or the one stored before when the field was left empty.
\<close>

theorem ldap_settings_roundtrip:
  assumes "ls_cipher l = Some k" and "\<And>p e. cph_Encrypt k p = Some e \<Longrightarrow> e \<noteq> [] \<and> cph_Decrypt k e = Some p"
    and "GetLDAP l = Some prev" and "fst (SetLDAP l c)"
  shows "GetLDAP (snd (SetLDAP l c)) = Some (c\<lparr>lc_GroupMappings := cleanGroupMappings (lc_GroupMappings c),
      lc_FallbackRoleID := max 0 (lc_FallbackRoleID c),
      lc_BindPassword := (if lc_BindPassword c = [] then lc_BindPassword prev else lc_BindPassword c)\<rparr>)"
proof -
  define pw where "pw = (if lc_BindPassword c = [] then lc_BindPassword prev else lc_BindPassword c)"
  let ?c = "c\<lparr>lc_GroupMappings := cleanGroupMappings (lc_GroupMappings c),
      lc_FallbackRoleID := max 0 (lc_FallbackRoleID c)\<rparr>"
  have set: "SetLDAP l c = (case (if pw = [] then Some (?c\<lparr>lc_BindPassword := pw\<rparr>)
        else map_option (\<lambda>e. ?c\<lparr>lc_BindPassword := e\<rparr>) (cph_Encrypt k pw)) of
      None \<Rightarrow> (False, l) | Some c3 \<Rightarrow> if ls_write_fails l then (False, l) else (True, l\<lparr>ls_row := Some (Some c3)\<rparr>))"
    by (simp add: SetLDAP_def assms(1,3) pw_def Let_def cong: if_cong)
  show ?thesis
  proof (cases "pw = []")
    case True
    then show ?thesis
      using assms(1,4) unfolding set pw_def [symmetric] by (simp add: GetLDAP_def split: if_splits)
  next
    case False
    then obtain e where e: "cph_Encrypt k pw = Some e"
      using assms(4) unfolding set by (cases "cph_Encrypt k pw") auto
    show ?thesis
      using assms(1,4) assms(2) [OF e] False unfolding set pw_def [symmetric]
      by (simp add: e GetLDAP_def split: if_splits)
  qed
qed

definition rev_cipher :: cipher where
  "rev_cipher = \<lparr>cph_Encrypt = (\<lambda>p. Some (CHR ''k'' # rev p)), cph_Decrypt = (\<lambda>e. Some (rev (tl e)))\<rparr>"

theorem ldap_settings_roundtrip_witness:
  "GetLDAP (snd (SetLDAP \<lparr>ls_row = Some (Some (empty_config\<lparr>lc_BindPassword := ''kwp''\<rparr>)), ls_write_fails = False, ls_cipher = Some rev_cipher\<rparr>
       (empty_config\<lparr>lc_FallbackRoleID := -4\<rparr>)))
     = Some ((empty_config\<lparr>lc_FallbackRoleID := -4\<rparr>)\<lparr>lc_GroupMappings := cleanGroupMappings (lc_GroupMappings (empty_config\<lparr>lc_FallbackRoleID := -4\<rparr>)),
         lc_FallbackRoleID := max 0 (lc_FallbackRoleID (empty_config\<lparr>lc_FallbackRoleID := -4\<rparr>)),
         lc_BindPassword := (if lc_BindPassword (empty_config\<lparr>lc_FallbackRoleID := -4\<rparr>) = []
           then lc_BindPassword (empty_config\<lparr>lc_BindPassword := ''pw''\<rparr>)
           else lc_BindPassword (empty_config\<lparr>lc_FallbackRoleID := -4\<rparr>))\<rparr>)"
  by (rule ldap_settings_roundtrip [where k = rev_cipher])
    (auto simp: rev_cipher_def GetLDAP_def SetLDAP_def empty_config_def Let_def cleanGroupMappings_def)

section \<open>Roles\<close>

definition known_role :: "db \<Rightarrow> int \<Rightarrow> bool" where
  "known_role d i \<longleftrightarrow> 0 < i \<and> tbl_lookup (d_roles d) i \<noteq> None"

lemma known_role_assign [simp]: "known_role (d\<lparr>d_user_roles := ur\<rparr>) = known_role d"
  by (simp add: known_role_def fun_eq_iff)

lemma ExistingRoleIDs_ok:
  assumes "\<And>q. \<not> d_fails d q"
  shows "ExistingRoleIDs d ids = Ok (filter (known_role d) ids)"
  using assms by (induction ids) (auto simp: known_role_def)

lemma RoleByID_exists:
  assumes "\<And>q. \<not> d_fails d q" "tbl_lookup (d_roles d) i \<noteq> None"
  shows "is_ok (RoleByID d i)"
  using assms by (auto simp: RoleByID_def fill_role_def roleSections_def roleHosts_def query_def split: option.splits)

lemma ins_user_roles_ok:
  assumes "\<And>q. \<not> d_fails d q"
  shows "ins_user_roles d uid seen ids
    = (Ok (), d\<lparr>d_user_roles := d_user_roles d @ map (Pair uid) (dedup (known_role d) seen ids)\<rparr>)"
  using assms
proof (induction ids arbitrary: d seen)
  case (Cons i rest)
  consider "i \<le> 0 \<or> i \<in> set seen" | "0 < i" "i \<notin> set seen" "\<not> known_role d i"
    | "0 < i" "i \<notin> set seen" "known_role d i" by fastforce
  then show ?case
  proof cases
    case 1
    then have "\<not> known_role d i \<or> i \<in> set seen" by (auto simp: known_role_def)
    with 1 show ?thesis using Cons.IH [of d seen] Cons.prems by simp
  next
    case 2
    then have "RoleByID d i = Err ErrNotFound" using Cons.prems by (simp add: RoleByID_def known_role_def)
    then show ?thesis using Cons.IH [of d "i # seen"] Cons.prems 2 by (simp add: dedup_irrelevant)
  next
    case 3
    then obtain r where "RoleByID d i = Inr r"
      using RoleByID_exists [of d i] Cons.prems by (auto simp: is_ok_iff known_role_def)
    then show ?thesis
      using Cons.IH [of "d\<lparr>d_user_roles := d_user_roles d @ [(uid, i)]\<rparr>" "i # seen"] Cons.prems 3 by simp
  qed
qed simp

lemma same_ids_set:
  assumes "distinct a" "distinct b"
  shows "sameIDs a b \<longleftrightarrow> set a = set b"
proof
  assume "sameIDs a b"
  then have "set b \<subseteq> set a" "card (set b) = card (set a)"
    using assms by (auto simp: sameIDs_def list_all_iff distinct_card)
  then show "set a = set b" using card_subset_eq [of "set a" "set b"] by simp
next
  assume "set a = set b"
  then show "sameIDs a b" using distinct_card [OF assms(1)] distinct_card [OF assms(2)]
    by (simp add: sameIDs_def list_all_iff)
qed

definition roles_held :: "db \<Rightarrow> int \<Rightarrow> int set" where
  "roles_held d uid = {i. (uid, i) \<in> set (d_user_roles d)}"

definition entitled :: "db \<Rightarrow> int list \<Rightarrow> int \<Rightarrow> int set" where
  "entitled d want fallback = {i \<in> set want. known_role d i}
     \<union> (if (\<exists>i \<in> set want. \<not> known_role d i) \<and> known_role d fallback then {fallback} else {})"

lemma with_fallback_ok:
  assumes "\<And>q. \<not> d_fails d q" and "distinct want"
  shows "\<exists>valid. with_fallback d want (filter (known_role d) want) fallback = Ok valid
     \<and> distinct valid \<and> set valid = entitled d want fallback"
proof -
  have "length (filter (known_role d) want) < length want \<longleftrightarrow> (\<exists>i \<in> set want. \<not> known_role d i)"
    using length_filter_less [of _ want "known_role d"] filter_True [of want "known_role d"] by fastforce
  moreover have "0 < fallback" if "known_role d fallback" using that by (simp add: known_role_def)
  ultimately show ?thesis
    using assms by (auto simp: with_fallback_def ExistingRoleIDs_ok entitled_def containsID_def list_ex_iff
        simp del: ExistingRoleIDs.simps)
qed

lemma SetUserRoles_ok:
  assumes "\<And>q. \<not> d_fails d q"
  shows "SetUserRoles d uid ids = (Ok (), d\<lparr>d_user_roles := filter (\<lambda>(u, _). u \<noteq> uid) (d_user_roles d)
     @ map (Pair uid) (dedup (known_role d) [] ids)\<rparr>)"
  using assms by (simp add: SetUserRoles_def ins_user_roles_ok)

text \<open>A directory login leaves an account with exactly the roles its groups grant. On a working
  database, synchronising an account with the role ids its groups map to succeeds; afterwards the
  account holds those of them that exist, plus the fallback role if one of them no longer exists,
  and nothing else. An account whose groups map to no role gets no fallback, and no other account
  changes.
\<close>

theorem syncRoles_exact:
  assumes "db_wf d" and "\<And>q. \<not> d_fails d q" and "distinct want"
  shows "fst (syncRoles d uid want fallback) = Ok ()
    \<and> roles_held (snd (syncRoles d uid want fallback)) uid = entitled d want fallback
    \<and> roles_held (snd (syncRoles d uid [] fallback)) uid = {}
    \<and> (u = uid \<or> roles_held (snd (syncRoles d uid want fallback)) u = roles_held d u)"
proof -
  have main: "fst (syncRoles d uid w fallback) = Ok ()
      \<and> roles_held (snd (syncRoles d uid w fallback)) uid = entitled d w fallback
      \<and> (u = uid \<or> roles_held (snd (syncRoles d uid w fallback)) u = roles_held d u)" if w: "distinct w" for w
  proof -
    obtain valid where v: "with_fallback d w (filter (known_role d) w) fallback = Ok valid"
      "distinct valid" "set valid = entitled d w fallback"
      using with_fallback_ok [OF assms(2) w] by blast
    let ?held = "sort (map snd (filter (\<lambda>(u, _). u = uid) (d_user_roles d)))"
    have inj: "inj_on snd (set (filter (\<lambda>(u, _). u = uid) (d_user_roles d)))" by (auto simp: inj_on_def)
    have "distinct (d_user_roles d)" using assms(1) by (simp add: db_wf_def)
    then have held: "distinct ?held" using inj by (simp add: distinct_map)
    have held2: "set ?held = roles_held d uid" by (force simp: roles_held_def)
    have known: "\<forall>i \<in> set valid. known_role d i" using v(3) by (auto simp: entitled_def split: if_splits)
    have sync: "syncRoles d uid w fallback = (if set ?held = set valid then (Ok (), d) else SetUserRoles d uid valid)"
      using same_ids_set [OF held v(2)]
      by (simp add: syncRoles_def ExistingRoleIDs_ok [OF assms(2)] v(1) RoleIDsForUser_def query_def assms(2))
    show ?thesis
    proof (cases "set ?held = set valid")
      case True
      then show ?thesis using sync held2 v(3) by simp
    next
      case False
      have "roles_held (snd (SetUserRoles d uid valid)) uid = set valid"
        using known by (auto simp: SetUserRoles_ok [OF assms(2)] roles_held_def set_dedup)
      moreover have "u = uid \<or> roles_held (snd (SetUserRoles d uid valid)) u = roles_held d u"
        by (auto simp: SetUserRoles_ok [OF assms(2)] roles_held_def)
      ultimately show ?thesis
        using False sync v(3) by (simp add: SetUserRoles_ok [OF assms(2)])
    qed
  qed
  have "entitled d [] fallback = {}" by (simp add: entitled_def)
  then show ?thesis using main [OF assms(3)] main [of "[]"] by simp
qed

theorem syncRoles_exact_witness:
  "fst (syncRoles demo_db 7 [1, 9] 2) = Ok ()
    \<and> roles_held (snd (syncRoles demo_db 7 [1, 9] 2)) 7 = entitled demo_db [1, 9] 2
    \<and> roles_held (snd (syncRoles demo_db 7 [] 2)) 7 = {}
    \<and> (8 = (7 :: int) \<or> roles_held (snd (syncRoles demo_db 7 [1, 9] 2)) 8 = roles_held demo_db 8)"
  by (rule syncRoles_exact) (simp_all add: demo_db_def db_wf_def tbl_wf_def tbl_lookup_def ValidSection_def Sections_def)

section \<open>Sections\<close>

text \<open>The sections a directory login grants are exactly those some matching mapping names, and
  only real ones; a group DN matches up to letter case and surrounding blanks. No section is
  listed twice.
\<close>

theorem SectionsForGroups_exact:
  "set (SectionsForGroups cfg groups) = {sec. ValidSection sec \<and> (\<exists>m g. m \<in> set (lc_GroupMappings cfg) \<and> g \<in> set groups
       \<and> equal_fold (trim_space (gm_GroupDN m)) (trim_space g) \<and> sec \<in> set (gm_Sections m))}
   \<and> distinct (SectionsForGroups cfg groups)"
  by (auto simp: SectionsForGroups_def set_dedup distinct_dedup matched_mappings_def group_key_def equal_fold_def)

end
