(* ===== verification/Passwords.thy ===== *)
theory Passwords
  imports Prelude
begin

text \<open>
  The stored form of a password: \<open>src/internal/auth/password.go\<close>. The key derivation
  \<open>argon2.IDKey\<close> is a third-party function and an argument \<open>idkey\<close> of the definitions
  (password, salt, time, memory, threads, key length); what they rely on is that the derived key
  has the length asked for. The standard library's raw base64 and the part of \<open>fmt.Sscanf\<close> the
  code uses are modelled here.
\<close>

type_synonym idkey = "string \<Rightarrow> string \<Rightarrow> int \<Rightarrow> int \<Rightarrow> int \<Rightarrow> nat \<Rightarrow> string"

section \<open>Base64 without padding\<close>

definition b64_alphabet :: string where
  "b64_alphabet = ''ABCDEFGHIJKLMNOPQRSTUVWXYZabcdefghijklmnopqrstuvwxyz0123456789+/''"

fun b64_sextets :: "nat list \<Rightarrow> nat list" where
  "b64_sextets [] = []"
| "b64_sextets [a] = [a div 4, a mod 4 * 16]"
| "b64_sextets [a, b] = [a div 4, a mod 4 * 16 + b div 16, b mod 16 * 4]"
| "b64_sextets (a # b # c # r) =
     [a div 4, a mod 4 * 16 + b div 16, b mod 16 * 4 + c div 64, c mod 64] @ b64_sextets r"

definition b64_encode :: "string \<Rightarrow> string" where
  "b64_encode s = map (\<lambda>n. b64_alphabet ! n) (b64_sextets (map of_char s))"

definition b64_value :: "char \<Rightarrow> nat option" where
  "b64_value c = find (\<lambda>n. b64_alphabet ! n = c) [0..<64]"

text \<open>A single left-over digit is an error; bits beyond the last byte are ignored, as the standard
  library does unless asked to be strict.\<close>

fun b64_bytes :: "nat list \<Rightarrow> nat list option" where
  "b64_bytes [] = Some []"
| "b64_bytes [x] = None"
| "b64_bytes [x, y] = Some [(x * 4 + y div 16) mod 256]"
| "b64_bytes [x, y, z] = Some [(x * 4 + y div 16) mod 256, (y mod 16 * 16 + z div 4) mod 256]"
| "b64_bytes (x # y # z # w # r) =
     map_option (\<lambda>bs. [(x * 4 + y div 16) mod 256, (y mod 16 * 16 + z div 4) mod 256,
        (z mod 4 * 64 + w) mod 256] @ bs) (b64_bytes r)"

fun b64_values :: "string \<Rightarrow> nat list option" where
  "b64_values [] = Some []"
| "b64_values (c # cs) = (case b64_value c of None \<Rightarrow> None | Some n \<Rightarrow> map_option ((#) n) (b64_values cs))"

text \<open>The decoder skips line breaks.\<close>

definition b64_decode :: "string \<Rightarrow> string option" where
  "b64_decode s =
     (case b64_values (filter (\<lambda>c. c \<noteq> CHR 0x0A \<and> c \<noteq> CHR 0x0D) s) of
        None \<Rightarrow> None | Some vs \<Rightarrow> map_option (map char_of) (b64_bytes vs))"

section \<open>Sscanf with \%d\<close>

text \<open>A verb skips blanks (a line break is an error) and reads a maximal run of digits, which must
  fit the variable; literal characters must match; what is left of the input is not looked at.\<close>

definition skip_blanks :: "string \<Rightarrow> string option" where
  "skip_blanks s = (case dropWhile (\<lambda>c. is_space c \<and> c \<noteq> CHR 0x0A) s of
     [] \<Rightarrow> None | c # r \<Rightarrow> if c = CHR 0x0A then None else Some (c # r))"

definition scan_uint :: "int \<Rightarrow> string \<Rightarrow> (int \<times> string) option" where
  "scan_uint bound s =
     (case skip_blanks s of None \<Rightarrow> None
      | Some t \<Rightarrow> let ds = takeWhile is_digit t
        in if ds = [] \<or> digits_val ds \<ge> bound then None
           else Some (digits_val ds, dropWhile is_digit t))"

definition scan_int :: "string \<Rightarrow> (int \<times> string) option" where
  "scan_int s =
     (case skip_blanks s of None \<Rightarrow> None
      | Some t \<Rightarrow>
        let neg = (hd t = CHR ''-''); u = (if hd t \<in> {CHR ''-'', CHR ''+''} then tl t else t);
            ds = takeWhile is_digit u; v = (if neg then - digits_val ds else digits_val ds)
        in if ds = [] \<or> v < min_int64 \<or> v > max_int64 then None else Some (v, dropWhile is_digit u))"

definition scan_lit :: "string \<Rightarrow> string \<Rightarrow> string option" where
  "scan_lit p s = (if has_prefix p s then Some (drop (length p) s) else None)"

definition scan_version :: "string \<Rightarrow> int option" where
  "scan_version s = (case scan_lit ''v='' s of None \<Rightarrow> None | Some t \<Rightarrow> map_option fst (scan_int t))"

definition scan_params :: "string \<Rightarrow> (int \<times> int \<times> int) option" where
  "scan_params s =
     (case scan_lit ''m='' s of None \<Rightarrow> None | Some s1 \<Rightarrow>
      case scan_uint (2 ^ 32) s1 of None \<Rightarrow> None | Some (m, s2) \<Rightarrow>
      case scan_lit '',t='' s2 of None \<Rightarrow> None | Some s3 \<Rightarrow>
      case scan_uint (2 ^ 32) s3 of None \<Rightarrow> None | Some (t, s4) \<Rightarrow>
      case scan_lit '',p='' s4 of None \<Rightarrow> None | Some s5 \<Rightarrow>
      case scan_uint (2 ^ 8) s5 of None \<Rightarrow> None | Some (p, _) \<Rightarrow> Some (m, t, p))"

section \<open>password.go\<close>

definition argonTime :: int where "argonTime = 3"
definition argonMemory :: int where "argonMemory = 64 * 1024"
definition argonThreads :: int where "argonThreads = 2"
definition argonKeyLen :: nat where "argonKeyLen = 32"
definition argonSaltLen :: nat where "argonSaltLen = 16"
definition argonVersion :: int where "argonVersion = 19"

definition HashPassword :: "idkey \<Rightarrow> string option \<Rightarrow> string \<Rightarrow> string option" where
  "HashPassword idkey salt password =
     (case salt of None \<Rightarrow> None
      | Some salt \<Rightarrow>
        let hash = idkey password salt argonTime argonMemory argonThreads argonKeyLen
        in Some (''$argon2id$v='' @ show_int argonVersion @ ''$m='' @ show_int argonMemory @ '',t=''
             @ show_int argonTime @ '',p='' @ show_int argonThreads @ ''$'' @ b64_encode salt
             @ ''$'' @ b64_encode hash))"

definition VerifyPassword :: "idkey \<Rightarrow> string \<Rightarrow> string \<Rightarrow> bool option" where
  "VerifyPassword idkey password encoded =
     (case split_on (CHR ''$'') encoded of
        [_, alg, ver, params, salt, hash] \<Rightarrow>
          if alg \<noteq> ''argon2id'' then None
          else if scan_version ver = None then None
          else (case scan_params params of None \<Rightarrow> None
            | Some (m, t, p) \<Rightarrow>
              (case (b64_decode salt, b64_decode hash) of
                 (Some salt, Some want) \<Rightarrow> Some (idkey password salt t m p (length want) = want)
               | _ \<Rightarrow> None))
      | _ \<Rightarrow> None)"

section \<open>The encoding is read back\<close>

lemma div_mod_join: "r < n \<Longrightarrow> (k * n + r) div n = (k :: nat) \<and> (k * n + r) mod n = r"
  by simp

lemma b64_parts:
  fixes a b c :: nat
  assumes "a < 256" "b < 256"
  shows "(a mod 4 * 16 + b div 16) div 16 = a mod 4" "(a mod 4 * 16 + b div 16) mod 16 = b div 16"
    "c < 256 \<Longrightarrow> (b mod 16 * 4 + c div 64) div 4 = b mod 16"
    "c < 256 \<Longrightarrow> (b mod 16 * 4 + c div 64) mod 4 = c div 64"
  using assms div_mod_join [of "b div 16" 16 "a mod 4"] div_mod_join [of "c div 64" 4 "b mod 16"]
  by (simp_all add: less_mult_imp_div_less)

lemma b64_roundtrip_bytes: "\<forall>b \<in> set bs. b < 256 \<Longrightarrow> b64_bytes (b64_sextets bs) = Some bs"
proof (induction bs rule: b64_sextets.induct)
  case (3 a b)
  then show ?case using b64_parts(1,2) [of a b] by simp
next
  case (4 a b c r)
  then show ?case using b64_parts(1,2) [of a b] b64_parts(3,4) [of a b c] by simp
qed simp_all

lemma b64_sextets_range: "\<forall>b \<in> set bs. b < 256 \<Longrightarrow> n \<in> set (b64_sextets bs) \<Longrightarrow> n < 64"
proof (induction bs rule: b64_sextets.induct)
  case (4 a b c r)
  then show ?case by (auto simp: less_mult_imp_div_less) presburger?
qed (auto simp: less_mult_imp_div_less)

lemma b64_alphabet_ok:
  "list_all (\<lambda>n. b64_value (b64_alphabet ! n) = Some n \<and> b64_alphabet ! n \<noteq> CHR ''$''
     \<and> b64_alphabet ! n \<noteq> CHR 0x0A \<and> b64_alphabet ! n \<noteq> CHR 0x0D) [0..<64]"
  by code_simp

lemma b64_alphabetD:
  assumes "n < 64"
  shows "b64_value (b64_alphabet ! n) = Some n" "b64_alphabet ! n \<noteq> CHR ''$''"
    "b64_alphabet ! n \<noteq> CHR 0x0A" "b64_alphabet ! n \<noteq> CHR 0x0D"
  using b64_alphabet_ok assms by (auto simp: list_all_iff)

lemma b64_values_alphabet:
  "\<forall>n \<in> set ns. n < 64 \<Longrightarrow> b64_values (map (\<lambda>n. b64_alphabet ! n) ns) = Some ns"
  by (induction ns) (auto simp: b64_alphabetD)

lemma b64_roundtrip: "b64_decode (b64_encode s) = Some s"
proof -
  let ?ns = "b64_sextets (map of_char s :: nat list)"
  have bytes: "\<forall>b \<in> set (map of_char s :: nat list). b < 256" by simp
  then have ns: "\<forall>n \<in> set ?ns. n < 64" using b64_sextets_range by blast
  then have "filter (\<lambda>c. c \<noteq> CHR 0x0A \<and> c \<noteq> CHR 0x0D) (b64_encode s) = b64_encode s"
    by (auto simp: b64_encode_def filter_id_conv b64_alphabetD)
  then show ?thesis
    using b64_values_alphabet [OF ns] b64_roundtrip_bytes [OF bytes]
    by (simp add: b64_decode_def b64_encode_def comp_def)
qed

lemma b64_encode_no_dollar: "CHR ''$'' \<notin> set (b64_encode s)"
proof -
  have "\<forall>b \<in> set (map of_char s :: nat list). b < 256" by simp
  then have "\<forall>n \<in> set (b64_sextets (map of_char s)). b64_alphabet ! n \<noteq> CHR ''$''"
    using b64_sextets_range b64_alphabetD(2) by blast
  then show ?thesis by (auto simp: b64_encode_def)
qed

lemma split_on_step: "sep \<notin> set a \<Longrightarrow> split_on sep (a @ sep # b) = a # split_on sep b"
  by (induction a) auto

lemma split_on_last: "sep \<notin> set a \<Longrightarrow> split_on sep a = [a]"
  by (induction a) auto

lemma split_on_phc:
  assumes "CHR ''$'' \<notin> set a" "CHR ''$'' \<notin> set b"
  shows "split_on (CHR ''$'') (CHR ''$'' # ''argon2id'' @ CHR ''$'' # ''v=19'' @ CHR ''$'' # ''m=65536,t=3,p=2''
      @ CHR ''$'' # a @ CHR ''$'' # b) = [[], ''argon2id'', ''v=19'', ''m=65536,t=3,p=2'', a, b]"
proof -
  have first: "split_on (CHR ''$'') (CHR ''$'' # x) = [] # split_on (CHR ''$'') x" for x by simp
  have "CHR ''$'' \<notin> set ''argon2id''" "CHR ''$'' \<notin> set ''v=19''" "CHR ''$'' \<notin> set ''m=65536,t=3,p=2''"
    by code_simp+
  then show ?thesis
    using assms by (simp only: first split_on_step split_on_last not_False_eq_True)
qed

lemma argon_texts:
  "show_int 19 = ''19''" "show_int 65536 = ''65536''" "show_int 3 = ''3''" "show_int 2 = ''2''"
  by code_simp+

lemma VerifyPassword_encoded:
  assumes "HashPassword idkey (Some salt) p = Some h"
  shows "VerifyPassword idkey q h
    = Some (idkey q salt argonTime argonMemory argonThreads (length (idkey p salt argonTime argonMemory argonThreads argonKeyLen))
        = idkey p salt argonTime argonMemory argonThreads argonKeyLen)"
proof -
  let ?hash = "idkey p salt argonTime argonMemory argonThreads argonKeyLen"
  have h: "h = CHR ''$'' # ''argon2id'' @ CHR ''$'' # ''v=19'' @ CHR ''$'' # ''m=65536,t=3,p=2''
      @ CHR ''$'' # b64_encode salt @ CHR ''$'' # b64_encode ?hash"
    using assms unfolding HashPassword_def Let_def argonVersion_def argonMemory_def argonTime_def
      argonThreads_def by (simp only: argon_texts mult_numeral_1 option.case option.inject) (simp add: argon_texts)
  have split: "split_on (CHR ''$'') h
      = [[], ''argon2id'', ''v=19'', ''m=65536,t=3,p=2'', b64_encode salt, b64_encode ?hash]"
    unfolding h by (rule split_on_phc) (rule b64_encode_no_dollar)+
  have v: "scan_version ''v=19'' \<noteq> None" by code_simp
  have ps: "scan_params ''m=65536,t=3,p=2'' = Some (65536, 3, 2)" by code_simp
  show ?thesis
    unfolding VerifyPassword_def split
    by (simp add: v ps b64_roundtrip argonMemory_def argonTime_def argonThreads_def)
qed

text \<open>C38. A stored password verifies. Whatever salt was drawn, the text \<open>HashPassword\<close> produces
  is read back by \<open>VerifyPassword\<close> with the same salt, parameters and key length: the right
  password is accepted, and another password is accepted exactly when it derives the same key.
\<close>

theorem password_roundtrip:
  assumes keylen: "\<And>q s t m th n. length (idkey q s t m th n) = n"
    and hashed: "HashPassword idkey (Some salt) p = Some h"
  shows "VerifyPassword idkey p h = Some True
    \<and> VerifyPassword idkey q h = Some (idkey q salt argonTime argonMemory argonThreads argonKeyLen
        = idkey p salt argonTime argonMemory argonThreads argonKeyLen)"
  using VerifyPassword_encoded [OF hashed] by (simp add: keylen)

definition toy_idkey :: idkey where
  "toy_idkey p s t m th n = take n (p @ s @ replicate n (CHR ''x''))"

theorem password_roundtrip_witness:
  "VerifyPassword toy_idkey ''correct horse'' (the (HashPassword toy_idkey (Some ''NaCl'') ''correct horse'')) = Some True
    \<and> VerifyPassword toy_idkey ''battery staple'' (the (HashPassword toy_idkey (Some ''NaCl'') ''correct horse''))
      = Some (toy_idkey ''battery staple'' ''NaCl'' argonTime argonMemory argonThreads argonKeyLen
        = toy_idkey ''correct horse'' ''NaCl'' argonTime argonMemory argonThreads argonKeyLen)"
  by (rule password_roundtrip) (simp add: toy_idkey_def, simp add: HashPassword_def Let_def del: show_nat.simps)

end
