(* ===== verification/Throttle.thy ===== *)
theory Throttle
  imports Complex_Main Prelude
begin

text \<open>
  What bounds guessing and runaway changes: the login limiter of
  \<open>src/internal/auth/ratelimit.go\<close>, the one-shot MFA challenges of
  \<open>src/internal/auth/challenge.go\<close> and the token bucket of \<open>src/internal/mcp/ratelimit.go\<close>.
  A Go map is a partial function. Where the code ranges over a map and stops after 128 entries,
  the order is the runtime's: it is an argument (\<open>order\<close>, the keys in the order they are
  visited), and the theorems hold for every order. Each call is one atomic step, as the code
  holds the mutex throughout. The bucket's level is a rational number; the rounding of Go's
  \<open>float64\<close> is not modelled.
\<close>

section \<open>Maps whose entries expire\<close>

definition maxScan :: nat where
  "maxScan = 128"

fun sweep_keys :: "('v \<Rightarrow> bool) \<Rightarrow> 'k list \<Rightarrow> ('k \<rightharpoonup> 'v) \<Rightarrow> ('k \<rightharpoonup> 'v)" where
  "sweep_keys expired [] m = m"
| "sweep_keys expired (k # ks) m =
     sweep_keys expired ks
       (case m k of None \<Rightarrow> m | Some v \<Rightarrow> if expired v then m(k := None) else m)"

text \<open>What the limiter and the challenges rely on of their sweep: whatever keys it visits, an
  entry that has not expired stays as it is, and nothing else appears.\<close>

locale expiring_map =
  fixes sweep :: "'k list \<Rightarrow> time \<Rightarrow> ('k \<rightharpoonup> 'v) \<Rightarrow> ('k \<rightharpoonup> 'v)"
    and expiry :: "'v \<Rightarrow> time"
  assumes sweep_live: "m k = Some v \<Longrightarrow> now \<le> expiry v \<Longrightarrow> sweep order now m k = Some v"
    and sweep_sub: "sweep order now m k = Some v \<Longrightarrow> m k = Some v"
begin

lemma sweep_None: "m k = None \<Longrightarrow> sweep order now m k = None"
  using sweep_sub [of order now m k] by (cases "sweep order now m k") auto

lemma sweep_cases:
  "sweep order now m k = m k \<or> sweep order now m k = None \<and> (\<exists>v. m k = Some v \<and> expiry v < now)"
  using sweep_live [of m k _ now order] sweep_sub [of order now m k] sweep_None [of m k order now]
  by (cases "m k"; cases "sweep order now m k") force+

end

lemma sweep_keys_sub: "sweep_keys expired ks m k = Some v \<Longrightarrow> m k = Some v"
  by (induction expired ks m rule: sweep_keys.induct) (auto split: option.splits if_splits)

lemma sweep_keys_live: "m k = Some v \<Longrightarrow> \<not> expired v \<Longrightarrow> sweep_keys expired ks m k = Some v"
proof (induction ks arbitrary: m)
  case (Cons a ks)
  then show ?case by (cases "m a"; cases "a = k") auto
qed simp

section \<open>The login limiter\<close>

record attemptWindow =
  aw_count :: nat
  aw_reset :: time

record LoginLimiter =
  l_attempts :: "string \<rightharpoonup> attemptWindow"
  l_max :: nat
  l_dur :: duration

definition NewLoginLimiter :: "nat \<Rightarrow> duration \<Rightarrow> LoginLimiter" where
  "NewLoginLimiter mx window = \<lparr>l_attempts = Map.empty, l_max = mx, l_dur = window\<rparr>"

definition limiter_sweep ::
    "string list \<Rightarrow> time \<Rightarrow> (string \<rightharpoonup> attemptWindow) \<Rightarrow> (string \<rightharpoonup> attemptWindow)" where
  "limiter_sweep order now m = sweep_keys (\<lambda>w. now > aw_reset w) (take maxScan order) m"

definition Allow :: "LoginLimiter \<Rightarrow> string \<Rightarrow> time \<Rightarrow> bool" where
  "Allow l key now =
     (case l_attempts l key of
        None \<Rightarrow> True
      | Some w \<Rightarrow> if now > aw_reset w then True else aw_count w < l_max l)"

definition Fail :: "string list \<Rightarrow> LoginLimiter \<Rightarrow> string \<Rightarrow> time \<Rightarrow> LoginLimiter" where
  "Fail order l key now =
     (let m = limiter_sweep order now (l_attempts l);
          fresh = l\<lparr>l_attempts := m(key \<mapsto> \<lparr>aw_count = 1, aw_reset = now + l_dur l\<rparr>)\<rparr>
      in case m key of
           None \<Rightarrow> fresh
         | Some w \<Rightarrow> if now > aw_reset w then fresh
             else l\<lparr>l_attempts := m(key \<mapsto> w\<lparr>aw_count := aw_count w + 1\<rparr>)\<rparr>)"

definition Reset :: "LoginLimiter \<Rightarrow> string \<Rightarrow> LoginLimiter" where
  "Reset l key = l\<lparr>l_attempts := (l_attempts l)(key := None)\<rparr>"

interpretation lim: expiring_map limiter_sweep aw_reset
  by unfold_locales (auto simp: limiter_sweep_def sweep_keys_live dest: sweep_keys_sub)

section \<open>Spent challenges\<close>

type_synonym usedChallenges = "string \<rightharpoonup> time"

definition challenge_sweep :: "string list \<Rightarrow> time \<Rightarrow> usedChallenges \<Rightarrow> usedChallenges" where
  "challenge_sweep order now seen = sweep_keys (\<lambda>e. now > e) (take maxScan order) seen"

definition spend :: "string list \<Rightarrow> usedChallenges \<Rightarrow> string \<Rightarrow> time \<Rightarrow> time \<Rightarrow> bool \<times> usedChallenges" where
  "spend order u i expiry now =
     (if i = [] then (False, u)
      else let seen = challenge_sweep order now u
           in case seen i of
                Some e \<Rightarrow> if now < e then (False, seen) else (True, seen(i \<mapsto> expiry))
              | None \<Rightarrow> (True, seen(i \<mapsto> expiry)))"

interpretation chal: expiring_map challenge_sweep "\<lambda>e. e"
  by unfold_locales (auto simp: challenge_sweep_def sweep_keys_live dest: sweep_keys_sub)

section \<open>The control limiter\<close>

definition controlBurst :: rat where "controlBurst = 30"
definition controlRefill :: duration where "controlRefill = minute div 30"

record controlBucket =
  cb_tokens :: rat
  cb_last :: time
  cb_tripped :: bool

record controlLimiter =
  cl_buckets :: "int \<rightharpoonup> controlBucket"
  cl_burst :: rat
  cl_refill :: duration

definition newControlLimiter :: controlLimiter where
  "newControlLimiter = \<lparr>cl_buckets = Map.empty, cl_burst = controlBurst, cl_refill = controlRefill\<rparr>"

text \<open>The bucket after the refill at the head of \<open>reserve\<close>.\<close>

definition refilled :: "controlLimiter \<Rightarrow> int \<Rightarrow> time \<Rightarrow> controlBucket" where
  "refilled l uid now =
     (case cl_buckets l uid of
        None \<Rightarrow> \<lparr>cb_tokens = cl_burst l, cb_last = now, cb_tripped = False\<rparr>
      | Some b \<Rightarrow>
        let elapsed = time_sub now (cb_last b)
        in if elapsed > 0
           then b\<lparr>cb_tokens := min (cl_burst l) (cb_tokens b + of_int elapsed / of_int (cl_refill l)),
                  cb_last := now\<rparr>
           else b)"

text \<open>The results are \<open>ok\<close> and \<open>firstTrip\<close>.\<close>

definition reserve :: "controlLimiter \<Rightarrow> int \<Rightarrow> int \<Rightarrow> time \<Rightarrow> (bool \<times> bool) \<times> controlLimiter" where
  "reserve l uid n now =
     (let n = (if n < 1 then 1 else n); b = refilled l uid now
      in if cb_tokens b < of_int n
         then ((False, \<not> cb_tripped b), l\<lparr>cl_buckets := (cl_buckets l)(uid \<mapsto> b\<lparr>cb_tripped := True\<rparr>)\<rparr>)
         else ((True, False), l\<lparr>cl_buckets := (cl_buckets l)(uid \<mapsto>
                 b\<lparr>cb_tokens := cb_tokens b - of_int n, cb_tripped := False\<rparr>)\<rparr>))"

definition allow :: "controlLimiter \<Rightarrow> int \<Rightarrow> time \<Rightarrow> (bool \<times> bool) \<times> controlLimiter" where
  "allow l uid now = reserve l uid 1 now"

section \<open>Runs\<close>

text \<open>A run of wrong guesses: each asks \<open>Allow\<close> and, when allowed, is recorded by
  \<open>Fail\<close>. The number of guesses for one key that were let through:\<close>

fun permitted :: "string \<Rightarrow> LoginLimiter \<Rightarrow> (string \<times> time \<times> string list) list \<Rightarrow> nat" where
  "permitted k l [] = 0"
| "permitted k l ((key, now, order) # rest) =
     (if Allow l key now
      then (if key = k then 1 else 0) + permitted k (Fail order l key now) rest
      else permitted k l rest)"

text \<open>What a key can still spend on guesses up to an instant \<open>e\<close>, if a window that opens
  before lasts until \<open>e\<close>.\<close>

definition budget :: "LoginLimiter \<Rightarrow> string \<Rightarrow> time \<Rightarrow> nat" where
  "budget l k e =
     (case l_attempts l k of None \<Rightarrow> l_max l
      | Some w \<Rightarrow> (l_max l - aw_count w) + (if aw_reset w < e then l_max l else 0))"

lemma Fail_simps [simp]: "l_max (Fail order l k t) = l_max l" "l_dur (Fail order l k t) = l_dur l"
  by (simp_all add: Fail_def Let_def split: option.splits)

lemma budget_other:
  assumes "key \<noteq> k" and "t \<le> e"
  shows "budget (Fail order l key t) k e \<le> budget l k e"
proof -
  have "l_attempts (Fail order l key t) k = limiter_sweep order t (l_attempts l) k"
    using assms(1) by (auto simp: Fail_def Let_def split: option.splits)
  then show ?thesis
    using lim.sweep_cases [of order t "l_attempts l" k] assms(2)
    by (auto simp: budget_def split: option.splits)
qed

lemma budget_spent:
  assumes "Allow l k t" and "t \<le> e" and "e \<le> t + l_dur l" and "1 \<le> l_max l"
  shows "budget (Fail order l k t) k e + 1 \<le> budget l k e"
proof (cases "l_attempts l k")
  case None
  then show ?thesis
    using assms(3,4) lim.sweep_None [of "l_attempts l" k order t]
    by (auto simp: Fail_def Let_def budget_def)
next
  case (Some w)
  show ?thesis
  proof (cases "t > aw_reset w")
    case True
    then have "l_attempts (Fail order l k t) k = Some \<lparr>aw_count = 1, aw_reset = t + l_dur l\<rparr>"
      using lim.sweep_cases [of order t "l_attempts l" k] Some
      by (auto simp: Fail_def Let_def split: option.splits)
    then show ?thesis using True Some assms(2-4) by (auto simp: budget_def)
  next
    case False
    then have "limiter_sweep order t (l_attempts l) k = Some w"
      using lim.sweep_live [of "l_attempts l" k w t order] Some by simp
    then have "l_attempts (Fail order l k t) k = Some (w\<lparr>aw_count := aw_count w + 1\<rparr>)"
      using False by (simp add: Fail_def Let_def)
    moreover have "aw_count w < l_max l" using assms(1) Some False by (simp add: Allow_def)
    ultimately show ?thesis using Some by (simp add: budget_def) arith
  qed
qed

lemma permitted_budget:
  assumes "1 \<le> l_max l" and "\<forall>(key, t, order) \<in> set as. t \<le> e \<and> e \<le> t + l_dur l"
  shows "permitted k l as \<le> budget l k e"
  using assms
proof (induction as arbitrary: l)
  case (Cons a as)
  obtain key t order where a: "a = (key, t, order)" by (cases a)
  then have t: "t \<le> e" "e \<le> t + l_dur l" using Cons.prems(2) by auto
  show ?case
  proof (cases "Allow l key t")
    case True
    let ?l' = "Fail order l key t"
    have "permitted k ?l' as \<le> budget ?l' k e" using Cons by (auto simp: a)
    moreover have "(if key = k then 1 else 0) + budget ?l' k e \<le> budget l k e"
      using budget_other [of key k t e order l] budget_spent [of l k t e order] t True Cons.prems(1)
      by auto
    ultimately show ?thesis using True a by simp
  next
    case False
    then show ?thesis using Cons by (simp add: a)
  qed
qed simp

text \<open>A run of spent challenges.\<close>

fun run_spends :: "usedChallenges \<Rightarrow> (string \<times> time \<times> time \<times> string list) list \<Rightarrow> usedChallenges" where
  "run_spends u [] = u"
| "run_spends u ((i, expiry, now, order) # rest) = run_spends (snd (spend order u i expiry now)) rest"

lemma spend_keeps:
  assumes "u i = Some e" and "now < e"
  shows "snd (spend order u j expiry now) i = Some e"
proof -
  have "challenge_sweep order now u i = Some e"
    using chal.sweep_live [of u i e now order] assms by simp
  then show ?thesis using assms by (auto simp: spend_def Let_def split: option.splits)
qed

lemma run_spends_keeps:
  "u i = Some e \<Longrightarrow> \<forall>(j, x, t, order) \<in> set xs. t < e \<Longrightarrow> run_spends u xs i = Some e"
  by (induction u xs rule: run_spends.induct) (auto simp: spend_keeps)

text \<open>Calls of the control limiter: user, units, instant.\<close>

fun run_reserves :: "controlLimiter \<Rightarrow> (int \<times> int \<times> time) list \<Rightarrow> controlLimiter" where
  "run_reserves l [] = l"
| "run_reserves l ((uid, n, now) # rest) = run_reserves (snd (reserve l uid n now)) rest"

fun granted :: "int \<Rightarrow> controlLimiter \<Rightarrow> (int \<times> int \<times> time) list \<Rightarrow> rat" where
  "granted u l [] = 0"
| "granted u l ((uid, n, now) # rest) =
     (if uid = u \<and> fst (fst (reserve l uid n now)) then of_int (max 1 n) else 0)
     + granted u (snd (reserve l uid n now)) rest"

definition calls_within :: "time \<Rightarrow> time \<Rightarrow> (int \<times> int \<times> time) list \<Rightarrow> bool" where
  "calls_within s e xs \<longleftrightarrow> (\<forall>x \<in> set xs. s \<le> snd (snd x) \<and> snd (snd x) \<le> e)"

definition level :: "controlLimiter \<Rightarrow> int \<Rightarrow> time \<Rightarrow> rat" where
  "level l uid now = cb_tokens (refilled l uid now)"

text \<open>Every bucket is between empty and the burst, and none was used later than \<open>t\<close>.\<close>

definition limiter_wf :: "controlLimiter \<Rightarrow> time \<Rightarrow> bool" where
  "limiter_wf l t \<longleftrightarrow> 0 < cl_refill l \<and> 0 \<le> cl_burst l
     \<and> (\<forall>uid b. cl_buckets l uid = Some b \<longrightarrow>
          0 \<le> cb_tokens b \<and> cb_tokens b \<le> cl_burst l \<and> cb_last b \<le> t)"

lemma reserve_simps [simp]:
  "cl_burst (snd (reserve l uid n t)) = cl_burst l" "cl_refill (snd (reserve l uid n t)) = cl_refill l"
  by (simp_all add: reserve_def Let_def)

lemma refilled_facts:
  assumes "limiter_wf l t"
  shows "cb_tokens (refilled l uid t) \<le> cl_burst l" and "cb_last (refilled l uid t) = t"
    and "0 \<le> cb_tokens (refilled l uid t)"
proof -
  have "cb_tokens (refilled l uid t) \<le> cl_burst l \<and> cb_last (refilled l uid t) = t
    \<and> 0 \<le> cb_tokens (refilled l uid t)"
  proof (cases "cl_buckets l uid")
    case None
    then show ?thesis using assms by (simp add: refilled_def limiter_wf_def)
  next
    case (Some b)
    then have "0 \<le> cb_tokens b" "cb_tokens b \<le> cl_burst l" "cb_last b \<le> t" "0 \<le> cl_burst l"
      "0 < cl_refill l"
      using assms by (auto simp: limiter_wf_def)
    moreover have "0 \<le> time_sub t (cb_last b)" if "cb_last b < t"
      using that by (simp add: order_less_imp_le)
    ultimately show ?thesis using Some by (simp add: refilled_def Let_def)
  qed
  then show "cb_tokens (refilled l uid t) \<le> cl_burst l" "cb_last (refilled l uid t) = t"
    "0 \<le> cb_tokens (refilled l uid t)" by blast+
qed

lemma limiter_wf_reserve:
  assumes "limiter_wf l t"
  shows "limiter_wf (snd (reserve l uid n t)) t"
  using assms refilled_facts [OF assms, of uid]
  by (auto simp: limiter_wf_def reserve_def Let_def split: if_splits)

lemma limiter_wf_mono: "limiter_wf l s \<Longrightarrow> s \<le> t \<Longrightarrow> limiter_wf l t"
  by (force simp: limiter_wf_def)

lemma level_Some:
  assumes "limiter_wf l s" and "cl_buckets l uid = Some b"
  shows "level l uid s =
    min (cl_burst l) (cb_tokens b + of_int (time_sub s (cb_last b)) / of_int (cl_refill l))"
proof (cases "cb_last b < s")
  case False
  then have "cb_last b = s" "cb_tokens b \<le> cl_burst l" using assms by (force simp: limiter_wf_def)+
  then show ?thesis using assms(2) by (simp add: level_def refilled_def Let_def)
qed (use assms in \<open>simp add: level_def refilled_def Let_def\<close>)

lemma level_grows:
  assumes "limiter_wf l s" and "s \<le> t"
  shows "level l uid t \<le> level l uid s + of_int (t - s) / of_int (cl_refill l)"
proof (cases "cl_buckets l uid")
  case None
  then show ?thesis using assms by (simp add: level_def refilled_def limiter_wf_def)
next
  case (Some b)
  let ?r = "of_int (cl_refill l) :: rat"
  have r: "0 < ?r" using assms(1) by (simp add: limiter_wf_def)
  have "(of_int (time_sub t (cb_last b)) :: rat) \<le> of_int (time_sub s (cb_last b) + (t - s))"
    using time_sub_step [OF assms(2)] unfolding of_int_le_iff by blast
  then have "of_int (time_sub t (cb_last b)) / ?r \<le> (of_int (time_sub s (cb_last b)) + of_int (t - s)) / ?r"
    using r by (simp add: divide_right_mono)
  then have "of_int (time_sub t (cb_last b)) / ?r \<le> of_int (time_sub s (cb_last b)) / ?r + of_int (t - s) / ?r"
    by (simp add: add_divide_distrib)
  moreover have "0 \<le> of_int (t - s) / ?r" using r assms(2) by simp
  moreover have "level l uid t =
      min (cl_burst l) (cb_tokens b + of_int (time_sub t (cb_last b)) / ?r)"
    using level_Some [OF limiter_wf_mono [OF assms] Some] .
  ultimately show ?thesis
    unfolding level_Some [OF assms(1) Some] by (auto simp: min_def)
qed

lemma refilled_upd [simp]:
  "u \<noteq> uid \<Longrightarrow> refilled (l\<lparr>cl_buckets := (cl_buckets l)(uid \<mapsto> b)\<rparr>) u t = refilled l u t"
  "cb_last b = t \<Longrightarrow> refilled (l\<lparr>cl_buckets := (cl_buckets l)(uid \<mapsto> b)\<rparr>) uid t = b"
  by (simp_all add: refilled_def Let_def split: option.splits)

lemma level_after:
  assumes "limiter_wf l t"
  shows "level (snd (reserve l uid n t)) u t =
    level l u t - (if uid = u \<and> fst (fst (reserve l uid n t)) then of_int (max 1 n) else 0)"
  using refilled_facts(2) [OF assms, of uid]
  by (cases "u = uid") (auto simp: level_def reserve_def Let_def max_def)

lemma granted_level:
  assumes "limiter_wf l s" and "sorted (map (snd \<circ> snd) xs)"
    and "calls_within s e xs" and "s \<le> e"
  shows "granted u l xs \<le> level l u s + of_int (e - s) / of_int (cl_refill l)"
  using assms
proof (induction xs arbitrary: l s)
  case Nil
  then have "0 \<le> level l u s" "0 < cl_refill l"
    using refilled_facts(3) by (auto simp: level_def limiter_wf_def)
  with Nil show ?case by simp
next
  case (Cons x xs)
  obtain uid n t where x: "x = (uid, n, t)" by (cases x)
  let ?l = "snd (reserve l uid n t)" and ?r = "of_int (cl_refill l) :: rat"
  have t: "s \<le> t" "t \<le> e" using Cons.prems(3) by (auto simp: x calls_within_def)
  have wf: "limiter_wf l t" using limiter_wf_mono [OF Cons.prems(1) t(1)] .
  have "granted u ?l xs \<le> level ?l u t + of_int (e - t) / of_int (cl_refill ?l)"
    using Cons.prems t limiter_wf_reserve [OF wf] by (intro Cons.IH) (auto simp: x calls_within_def)
  then have "granted u l (x # xs) \<le> level l u t + of_int (e - t) / ?r"
    by (simp add: x level_after [OF wf])
  also have "\<dots> \<le> level l u s + of_int (t - s) / ?r + of_int (e - t) / ?r"
    using level_grows [OF Cons.prems(1) t(1), of u] by simp
  also have "\<dots> = level l u s + of_int (e - s) / ?r"
    by (simp add: add_divide_distrib [symmetric] del: of_int_diff add: of_int_add [symmetric])
  finally show ?case .
qed

lemma run_reserves_wf:
  "limiter_wf l s \<Longrightarrow> sorted (map (snd \<circ> snd) xs) \<Longrightarrow> calls_within s e xs \<Longrightarrow>
     s \<le> e \<Longrightarrow> limiter_wf (run_reserves l xs) e \<and> cl_refill (run_reserves l xs) = cl_refill l
       \<and> cl_burst (run_reserves l xs) = cl_burst l"
proof (induction xs arbitrary: l s)
  case Nil
  then show ?case using limiter_wf_mono by simp
next
  case (Cons x xs)
  obtain uid n t where x: "x = (uid, n, t)" by (cases x)
  then have "limiter_wf l t" "t \<le> e" "calls_within t e xs" "sorted (map (snd \<circ> snd) xs)"
    using limiter_wf_mono [OF Cons.prems(1)] Cons.prems(2,3) by (auto simp: calls_within_def comp_def)
  then show ?case
    using Cons.IH [OF limiter_wf_reserve, of l t uid n] by (simp add: x comp_def)
qed

section \<open>Properties\<close>



text \<open>A challenge buys one attempt: once it was accepted, it is refused at every instant before
  it expires, whatever challenges were presented in between and whatever was swept. A
  challenge without an id is never accepted.\<close>

theorem challenge_spent_once:
  assumes "spend order u i e t = (True, u')" and "\<forall>(j, x, t', order') \<in> set xs. t' < e" and "t'' < e"
  shows "\<not> fst (spend order'' (run_spends u' xs) i e'' t'') \<and> \<not> fst (spend order u [] e t)"
proof -
  have "u' i = Some e"
    using assms(1) by (auto simp: spend_def Let_def split: if_splits option.splits)
  then have "run_spends u' xs i = Some e" using run_spends_keeps assms(2) by blast
  then have "challenge_sweep order'' t'' (run_spends u' xs) i = Some e"
    using chal.sweep_live assms(3) by simp
  then show ?thesis using assms(3) by (simp add: spend_def Let_def)
qed

theorem challenge_spent_once_witness:
  "fst (spend [] Map.empty ''abc'' (5 * minute) 0)
   \<and> \<not> fst (spend [] (run_spends (snd (spend [] Map.empty ''abc'' (5 * minute) 0))
          [(''xyz'', 6 * minute, minute, [''abc''])]) ''abc'' (5 * minute) (2 * minute))"
proof -
  have ok: "spend [] Map.empty ''abc'' (5 * minute) 0 =
      (True, snd (spend [] Map.empty ''abc'' (5 * minute) 0))"
    by (simp add: spend_def challenge_sweep_def Let_def)
  then have "fst (spend [] Map.empty ''abc'' (5 * minute) 0)" by (metis fst_conv)
  then show ?thesis
    using challenge_spent_once [OF ok, of "[(''xyz'', 6 * minute, minute, [''abc''])]" "2 * minute"
        "[]" "5 * minute"] by (simp add: time_units)
qed

text \<open>The blast radius of one identity: after any earlier calls of anyone, the units granted to
  a user between two instants are at most the burst plus the time between them at the refill
  rate, one change every two seconds.\<close>

theorem control_rate_bounded:
  assumes "sorted (map (snd \<circ> snd) (pre @ xs))" and "calls_within s e xs"
    and "\<forall>x \<in> set pre. snd (snd x) \<le> s" and "s \<le> e"
  shows "granted u (run_reserves newControlLimiter pre) xs \<le> 30 + of_int (e - s) / of_int (2 * second)"
proof -
  let ?b = "Min (insert s ((snd \<circ> snd) ` set pre))" and ?l = "run_reserves newControlLimiter pre"
  have pre: "calls_within ?b s pre" "?b \<le> s" "sorted (map (snd \<circ> snd) pre)"
    using assms(1,3) by (auto simp: calls_within_def sorted_append intro: Min_le)
  have new: "cl_refill newControlLimiter = 2 * second" "cl_burst newControlLimiter = 30"
    by (simp_all add: newControlLimiter_def controlRefill_def controlBurst_def time_units)
  have "limiter_wf newControlLimiter ?b"
    unfolding limiter_wf_def new by (simp add: newControlLimiter_def second_def)
  then have wf: "limiter_wf ?l s" "cl_refill ?l = 2 * second" "cl_burst ?l = 30"
    using run_reserves_wf [OF _ pre(3,1,2)] new by auto
  have "granted u ?l xs \<le> level ?l u s + of_int (e - s) / of_int (cl_refill ?l)"
    using assms by (intro granted_level [OF wf(1)]) (auto simp: sorted_append)
  also have "level ?l u s \<le> 30" using refilled_facts(1) [OF wf(1)] wf(3) by (simp add: level_def)
  finally show ?thesis using wf(2) by simp
qed

theorem control_rate_bounded_witness:
  "granted 1 (run_reserves newControlLimiter [(1, 20, 0)]) [(1, 10, second), (1, 1, second), (2, 30, 2 * second)]
     \<le> 30 + of_int (2 * second) / of_int (2 * second)
   \<and> granted 1 (run_reserves newControlLimiter [(1, 20, 0)]) [(1, 10, second), (1, 1, second), (2, 30, 2 * second)] = 10"
proof -
  let ?xs = "[(1, 10, second), (1, 1, second), (2, 30, 2 * second)]"
  have "granted 1 (run_reserves newControlLimiter [(1, 20, 0)]) ?xs = 10" by code_simp
  moreover have "calls_within 0 (2 * second) ?xs" by code_simp
  ultimately show ?thesis
    using control_rate_bounded [of "[(1, 20, 0)]" ?xs 0 "2 * second" 1] by (simp add: second_def)
qed

end
