(* ===== verification/AuthService.thy ===== *)
theory AuthService
  imports Ldap Passwords Throttle
begin

text \<open>
  Authentication: tokens (\<open>src/internal/auth/jwt.go\<close>), the session middleware
  (\<open>middleware.go\<close>), one-time codes (\<open>totp.go\<close>) and the login flows
  (\<open>service.go\<close>). What comes from outside one call is a record \<open>world\<close>: the clock, the
  random bytes drawn, the order in which Go iterates a map, and the third-party functions: the key
  derivation, signing and verifying of tokens, the code of a secret at an instant, the library's
  yes/no validation of a code, a newly generated secret, and the directory's answer. A state of the
  service is the accounts, the role tables, the directory settings, the limiter and the spent
  challenges. The passkey ceremonies of \<open>webauthn.go\<close> are not part of it.
\<close>

section \<open>jwt.go\<close>

definition KindSession :: string where "KindSession = ''session''"
definition KindMFAChallenge :: string where "KindMFAChallenge = ''mfa''"

record Claims =
  c_UserID :: int
  c_Username :: string
  c_Role :: string
  c_Kind :: string
  c_Epoch :: int
  c_ID :: string
  c_IssuedAt :: time
  c_ExpiresAt :: "time option"

record TokenManager =
  tm_sessionTTL :: duration
  tm_challengeTTL :: duration

record Issued =
  iss_Token :: string
  iss_ID :: string
  iss_ExpiresAt :: time

record world =
  w_now :: time
  w_order :: "string list"
  w_salt :: "string option"
  w_id :: "string option"
  w_idkey :: idkey
  w_sign :: "Claims \<Rightarrow> string option"
  w_parse :: "string \<Rightarrow> Claims option"
  w_code :: "string \<Rightarrow> time \<Rightarrow> string option"
  w_valid :: "string \<Rightarrow> string \<Rightarrow> bool"
  w_secret :: "string option"
  w_directory :: "LDAPConfig \<Rightarrow> string \<Rightarrow> string \<Rightarrow> LDAPResult option"

definition NewTokenManager :: "duration \<Rightarrow> TokenManager" where
  "NewTokenManager ttl = \<lparr>tm_sessionTTL = ttl, tm_challengeTTL = 5 * minute\<rparr>"

text \<open>The expiry in the claims is a numeric date, in whole seconds.\<close>

definition Issue :: "world \<Rightarrow> TokenManager \<Rightarrow> int \<Rightarrow> string \<Rightarrow> string \<Rightarrow> string \<Rightarrow> int \<Rightarrow> Issued option" where
  "Issue w m uid username role kind epoch =
     (let ttl = (if kind = KindMFAChallenge then tm_challengeTTL m else tm_sessionTTL m); ex = w_now w + ttl
      in case w_id w of None \<Rightarrow> None
         | Some i \<Rightarrow>
           (case w_sign w \<lparr>c_UserID = uid, c_Username = username, c_Role = role, c_Kind = kind, c_Epoch = epoch,
                c_ID = i, c_IssuedAt = trunc_sec (w_now w), c_ExpiresAt = Some (trunc_sec ex)\<rparr> of
              None \<Rightarrow> None
            | Some t \<Rightarrow> Some \<lparr>iss_Token = t, iss_ID = i, iss_ExpiresAt = ex\<rparr>))"

section \<open>middleware.go\<close>

record http_auth =
  ha_cookie :: "string option"
  ha_authorization :: string
  ha_query_token :: string
  ha_upgrade :: string
  ha_connection :: string

definition isWebSocketUpgrade :: "http_auth \<Rightarrow> bool" where
  "isWebSocketUpgrade r \<longleftrightarrow> equal_fold (ha_upgrade r) ''websocket''
     \<and> list_ex (\<lambda>tok. equal_fold (trim_space tok) ''upgrade'') (split_on (CHR '','') (ha_connection r))"

definition raw_token :: "http_auth \<Rightarrow> string" where
  "raw_token r =
     (case ha_cookie r of
        Some v \<Rightarrow> v
      | None \<Rightarrow>
        if has_prefix ''Bearer '' (ha_authorization r) then trim_prefix ''Bearer '' (ha_authorization r)
        else if ha_query_token r \<noteq> [] \<and> isWebSocketUpgrade r then ha_query_token r
        else [])"

definition extract_claims :: "world \<Rightarrow> http_auth \<Rightarrow> Claims option" where
  "extract_claims w r = (if raw_token r = [] then None else w_parse w (raw_token r))"

text \<open>The claims the handler sees, or \<open>None\<close> for the 401 answer.\<close>

definition RequireSession :: "world \<Rightarrow> accounts \<Rightarrow> http_auth \<Rightarrow> Claims option \<times> accounts" where
  "RequireSession w d r =
     (case extract_claims w r of
        None \<Rightarrow> (None, d)
      | Some c \<Rightarrow>
        if c_Kind c \<noteq> KindSession \<or> c_ID c = [] then (None, d)
        else if SessionEpoch d (c_UserID c) \<noteq> Ok (c_Epoch c) then (None, d)
        else if SessionExists d (c_ID c) (c_UserID c) \<noteq> Ok True then (None, d)
        else (Some c, snd (TouchSession d (c_ID c) (w_now w))))"

definition ParseSessionToken :: "world \<Rightarrow> string \<Rightarrow> Claims option" where
  "ParseSessionToken w raw =
     (case w_parse w raw of None \<Rightarrow> None | Some c \<Rightarrow> if c_Kind c = KindSession then Some c else None)"

section \<open>totp.go\<close>

definition totpPeriod :: int where "totpPeriod = 30"
definition totpSkew :: int where "totpSkew = 1"

text \<open>\<open>at.Unix()\<close> counts from 1970; times here count from the year 1.\<close>

definition unix_offset :: int where "unix_offset = 62135596800"

definition unix_seconds :: "time \<Rightarrow> int" where
  "unix_seconds t = t div second - unix_offset"

fun match_steps :: "world \<Rightarrow> string \<Rightarrow> string \<Rightarrow> int list \<Rightarrow> int option" where
  "match_steps w code secret [] = None"
| "match_steps w code secret (delta # rest) =
     (let t = w_now w + delta * totpPeriod * second
      in case w_code w secret t of
           None \<Rightarrow> match_steps w code secret rest
         | Some want \<Rightarrow> if want = code then Some (unix_seconds t div totpPeriod)
             else match_steps w code secret rest)"

definition MatchTOTP :: "world \<Rightarrow> string \<Rightarrow> string \<Rightarrow> int option" where
  "MatchTOTP w code secret = match_steps w code secret [- totpSkew .. totpSkew]"

section \<open>service.go\<close>

datatype auth_error = ErrSetupDone | ErrInvalidCreds | ErrRateLimited | ErrInvalidMFACode | ErrWeakPassword
  | ErrInvalidUsername | ErrUsernameTaken | ErrDirectoryPassword | ErrNoPendingEnrollment | ErrTooManyFactors
  | ErrEnrollmentStale | ErrRandom | ErrSigning | ErrStore acc_error | ErrRoleStore db_error

record service =
  sv_acc :: accounts
  sv_db :: db
  sv_ldap :: ldap_store
  sv_tokens :: TokenManager
  sv_limiter :: LoginLimiter
  sv_challenges :: usedChallenges

record SessionInfo =
  si_IP :: string
  si_UserAgent :: string

record LoginResult =
  res_MFARequired :: bool
  res_Token :: string
  res_ExpiresAt :: time
  res_User :: User

definition MinPasswordLength :: nat where "MinPasswordLength = 10"
definition maxFactorsPerAccount :: int where "maxFactorsPerAccount = 10"

definition limiter_fail :: "world \<Rightarrow> service \<Rightarrow> string \<Rightarrow> service" where
  "limiter_fail w s key = s\<lparr>sv_limiter := Fail (w_order w) (sv_limiter s) key (w_now w)\<rparr>"

definition limiter_reset :: "service \<Rightarrow> string \<Rightarrow> service" where
  "limiter_reset s key = s\<lparr>sv_limiter := Reset (sv_limiter s) key\<rparr>"

definition mfaKey :: "int \<Rightarrow> string" where "mfaKey uid = ''mfa:'' @ show_int uid"

definition StepUpKey :: "int \<Rightarrow> string \<Rightarrow> string" where
  "StepUpKey uid sid = ''stepup:'' @ show_int uid @ '':'' @ sid"

definition validateUsername :: "string \<Rightarrow> bool" where
  "validateUsername u \<longleftrightarrow> (let n = length (trim_space u) in \<not> (n < 3 \<or> n > 32))"

definition new_user :: "string \<Rightarrow> string \<Rightarrow> string \<Rightarrow> User" where
  "new_user name hash role = \<lparr>u_ID = 0, u_Username = name, u_PasswordHash = hash, u_Role = role, u_Email = [],
     u_AuthSource = [], u_ReadOnly = False, u_Sections = [], u_TOTPSecret = [], u_TOTPEnabled = False,
     u_MFAEnabled = False, u_TOTPPending = [], u_TOTPPendingStepUp = False, u_Passwordless = False,
     u_TOTPLastCounter = 0, u_SessionEpoch = 0, u_CreatedAt = 0, u_LastLoginAt = 0\<rparr>"

definition NeedsSetup :: "service \<Rightarrow> auth_error + bool" where
  "NeedsSetup s = (case CountUsers (sv_acc s) of Inl e \<Rightarrow> Err (ErrStore e) | Inr n \<Rightarrow> Ok (n = 0))"

definition Setup :: "world \<Rightarrow> service \<Rightarrow> string \<Rightarrow> string \<Rightarrow> (auth_error + User) \<times> service" where
  "Setup w s username password =
     (case NeedsSetup s of
        Inl e \<Rightarrow> (Err e, s)
      | Inr needs \<Rightarrow>
        if \<not> needs then (Err ErrSetupDone, s)
        else if \<not> validateUsername username then (Err ErrInvalidUsername, s)
        else if length password < MinPasswordLength then (Err ErrWeakPassword, s)
        else case HashPassword (w_idkey w) (w_salt w) password of
          None \<Rightarrow> (Err ErrRandom, s)
        | Some hash \<Rightarrow>
          let u = new_user username hash ''admin''
          in case CreateFirstUser (sv_acc s) u (w_now w) of
            (Inl e, d) \<Rightarrow> (Err (if e = ErrSetupTaken then ErrSetupDone else ErrStore e), s\<lparr>sv_acc := d\<rparr>)
          | (Inr i, d) \<Rightarrow> (Ok (u\<lparr>u_ID := i\<rparr>), s\<lparr>sv_acc := d\<rparr>))"

definition CreateAccount ::
    "world \<Rightarrow> service \<Rightarrow> string \<Rightarrow> string \<Rightarrow> string \<Rightarrow> bool \<Rightarrow> string list \<Rightarrow> (auth_error + User) \<times> service" where
  "CreateAccount w s username password role readOnly secs =
     (if \<not> validateUsername username then (Err ErrInvalidUsername, s)
      else if length password < MinPasswordLength then (Err ErrWeakPassword, s)
      else if is_ok (UserByUsername (sv_acc s) username) then (Err ErrUsernameTaken, s)
      else case HashPassword (w_idkey w) (w_salt w) password of
        None \<Rightarrow> (Err ErrRandom, s)
      | Some hash \<Rightarrow>
        let u = (new_user username hash (if role = ''admin'' then ''admin'' else ''user''))
              \<lparr>u_ReadOnly := readOnly, u_Sections := secs\<rparr>
        in case CreateUser (sv_acc s) u (w_now w) of
          (Inl e, d) \<Rightarrow> (Err (ErrStore e), s\<lparr>sv_acc := d\<rparr>)
        | (Inr i, d) \<Rightarrow> (Ok (u\<lparr>u_ID := i\<rparr>), s\<lparr>sv_acc := d\<rparr>))"

definition SetPassword :: "world \<Rightarrow> service \<Rightarrow> int \<Rightarrow> string \<Rightarrow> (auth_error + unit) \<times> service" where
  "SetPassword w s uid password =
     (if length password < MinPasswordLength then (Err ErrWeakPassword, s)
      else case HashPassword (w_idkey w) (w_salt w) password of
        None \<Rightarrow> (Err ErrRandom, s)
      | Some hash \<Rightarrow>
        (case UpdatePassword (sv_acc s) uid hash of
           (Inl e, d) \<Rightarrow> (Err (ErrStore e), s\<lparr>sv_acc := d\<rparr>)
         | (Inr _, d) \<Rightarrow>
           (case DeleteUserSessions d uid of
              (Inl e, d1) \<Rightarrow> (Err (ErrStore e), s\<lparr>sv_acc := d1\<rparr>)
            | (Inr _, d1) \<Rightarrow>
              (case BumpSessionEpoch d1 uid of
                 (Inl e, d2) \<Rightarrow> (Err (ErrStore e), s\<lparr>sv_acc := d2\<rparr>)
               | (Inr _, d2) \<Rightarrow> (Ok (), s\<lparr>sv_acc := d2\<rparr>)))))"

definition issueSession :: "world \<Rightarrow> service \<Rightarrow> User \<Rightarrow> SessionInfo \<Rightarrow> (auth_error + LoginResult) \<times> service" where
  "issueSession w s u info =
     (case Issue w (sv_tokens s) (u_ID u) (u_Username u) (u_Role u) KindSession (u_SessionEpoch u) of
        None \<Rightarrow> (Err ErrSigning, s)
      | Some iss \<Rightarrow>
        let d = snd (PurgeExpiredSessions (sv_acc s) (w_now w))
        in case CreateSession d \<lparr>s_ID = iss_ID iss, s_UserID = u_ID u, s_IP = si_IP info,
               s_UserAgent = si_UserAgent info, s_CreatedAt = 0, s_LastSeenAt = 0, s_ExpiresAt = iss_ExpiresAt iss\<rparr> (w_now w) of
          (Inl e, d1) \<Rightarrow> (Err (ErrStore e), s\<lparr>sv_acc := d1\<rparr>)
        | (Inr _, d1) \<Rightarrow>
          (Ok \<lparr>res_MFARequired = False, res_Token = iss_Token iss, res_ExpiresAt = iss_ExpiresAt iss, res_User = u\<rparr>,
           s\<lparr>sv_acc := snd (TouchLogin d1 (u_ID u) (w_now w))\<rparr>))"

text \<open>An account read from the store, when the code ignores the error.\<close>

definition found :: "'e + 'a \<Rightarrow> 'a option" where
  "found r = (case r of Inl _ \<Rightarrow> None | Inr x \<Rightarrow> Some x)"

definition sync_sections :: "service \<Rightarrow> User \<Rightarrow> LDAPConfig \<Rightarrow> string list \<Rightarrow> (auth_error + User) \<times> service" where
  "sync_sections s u cfg secs =
     (if lc_GroupMappings cfg \<noteq> [] \<and> \<not> sameSections (u_Sections u) secs
      then (case UpdateUserAccess (sv_acc s) (u_ID u) (u_Role u) (u_ReadOnly u) secs of
              (Inl e, d) \<Rightarrow> (Err (ErrStore e), s\<lparr>sv_acc := d\<rparr>)
            | (Inr _, d) \<Rightarrow> (Ok (u\<lparr>u_Sections := secs\<rparr>), s\<lparr>sv_acc := d\<rparr>))
      else (Ok u, s))"

definition sync_roles_if :: "service \<Rightarrow> User \<Rightarrow> LDAPConfig \<Rightarrow> int list \<Rightarrow> (auth_error + User) \<times> service" where
  "sync_roles_if s u cfg roles =
     (if MapsRoles cfg
      then (case syncRoles (sv_db s) (u_ID u) roles (lc_FallbackRoleID cfg) of
              (Inl e, d) \<Rightarrow> (Err (ErrRoleStore e), s\<lparr>sv_db := d\<rparr>)
            | (Inr _, d) \<Rightarrow> (Ok u, s\<lparr>sv_db := d\<rparr>))
      else (Ok u, s))"

definition sync_email :: "service \<Rightarrow> User \<Rightarrow> string \<Rightarrow> (auth_error + User) \<times> service" where
  "sync_email s u email =
     (if email \<noteq> [] \<and> email \<noteq> u_Email u
      then (case SetUserEmail (sv_acc s) (u_ID u) email of
              (Inl e, d) \<Rightarrow> (Err (ErrStore e), s\<lparr>sv_acc := d\<rparr>)
            | (Inr _, d) \<Rightarrow> (Ok (u\<lparr>u_Email := email\<rparr>), s\<lparr>sv_acc := d\<rparr>))
      else (Ok u, s))"

definition ldapLogin ::
    "world \<Rightarrow> service \<Rightarrow> User option \<Rightarrow> string \<Rightarrow> string \<Rightarrow> (auth_error + User) \<times> service" where
  "ldapLogin w s existing username password =
     (case GetLDAP (sv_ldap s) of
        None \<Rightarrow> (Err ErrInvalidCreds, s)
      | Some cfg \<Rightarrow>
        if \<not> Configured cfg then (Err ErrInvalidCreds, s)
        else case w_directory w cfg username password of
          None \<Rightarrow> (Err ErrInvalidCreds, s)
        | Some res \<Rightarrow>
          let secs = SectionsForGroups cfg (lr_Groups res); roles = RolesForGroups cfg (lr_Groups res)
          in case existing of
            Some u \<Rightarrow>
              (case sync_sections s u cfg secs of
                 (Inl e, s1) \<Rightarrow> (Err e, s1)
               | (Inr u1, s1) \<Rightarrow>
                 (case sync_roles_if s1 u1 cfg roles of
                    (Inl e, s2) \<Rightarrow> (Err e, s2)
                  | (Inr u2, s2) \<Rightarrow> sync_email s2 u2 (lr_Email res)))
          | None \<Rightarrow>
              (let u = (new_user (lr_Username res) [] (if lr_IsAdmin res then ''admin'' else ''user''))
                     \<lparr>u_AuthSource := ''ldap'', u_Sections := secs, u_Email := lr_Email res\<rparr>
               in case CreateUser (sv_acc s) u (w_now w) of
                 (Inl e, d) \<Rightarrow> (Err (ErrStore e), s\<lparr>sv_acc := d\<rparr>)
               | (Inr i, d) \<Rightarrow> sync_roles_if (s\<lparr>sv_acc := d\<rparr>) (u\<lparr>u_ID := i\<rparr>) cfg roles))"

definition VerifyUserPassword ::
    "world \<Rightarrow> service \<Rightarrow> string \<Rightarrow> User \<Rightarrow> string \<Rightarrow> (auth_error + unit) \<times> service" where
  "VerifyUserPassword w s rlKey u password =
     (if \<not> Allow (sv_limiter s) rlKey (w_now w) then (Err ErrRateLimited, s)
      else let (ok, s1) = (if u_AuthSource u = ''ldap''
             then (case ldapLogin w s (Some u) (u_Username u) password of (r, s1) \<Rightarrow> (is_ok r, s1))
             else (VerifyPassword (w_idkey w) password (u_PasswordHash u) = Some True, s))
      in if ok then (Ok (), limiter_reset s1 rlKey) else (Err ErrInvalidCreds, limiter_fail w s1 rlKey))"

definition ChangeOwnPassword ::
    "world \<Rightarrow> service \<Rightarrow> string \<Rightarrow> User \<Rightarrow> string \<Rightarrow> string \<Rightarrow> SessionInfo \<Rightarrow> (auth_error + LoginResult) \<times> service" where
  "ChangeOwnPassword w s rlKey u current password info =
     (if u_AuthSource u \<noteq> [] \<and> u_AuthSource u \<noteq> ''local'' then (Err ErrDirectoryPassword, s)
      else if length password < MinPasswordLength then (Err ErrWeakPassword, s)
      else case VerifyUserPassword w s rlKey u current of
        (Inl e, s1) \<Rightarrow> (Err e, s1)
      | (Inr _, s1) \<Rightarrow>
        (case SetPassword w s1 (u_ID u) password of
           (Inl e, s2) \<Rightarrow> (Err e, s2)
         | (Inr _, s2) \<Rightarrow>
           (case AccountByID (sv_acc s2) (u_ID u) of
              Inl e \<Rightarrow> (Err (ErrStore e), s2)
            | Inr fresh \<Rightarrow> issueSession w s2 fresh info)))"

definition Login ::
    "world \<Rightarrow> service \<Rightarrow> string \<Rightarrow> string \<Rightarrow> string \<Rightarrow> bool \<Rightarrow> SessionInfo \<Rightarrow> (auth_error + LoginResult) \<times> service" where
  "Login w s rlKey username password exemptMFA info =
     (if \<not> Allow (sv_limiter s) rlKey (w_now w) then (Err ErrRateLimited, s)
      else let existing = found (UserByUsername (sv_acc s) username);
               local = (case existing of None \<Rightarrow> False | Some u \<Rightarrow> u_AuthSource u \<noteq> ''ldap'');
               (auth, s1) = (if local
                 then (if VerifyPassword (w_idkey w) password (u_PasswordHash (the existing)) = Some True
                       then Ok (the existing) else Err ErrInvalidCreds, s)
                 else ldapLogin w s existing username password)
      in case auth of
           Inl _ \<Rightarrow> (Err ErrInvalidCreds, limiter_fail w s1 rlKey)
         | Inr u \<Rightarrow>
           if u_MFAEnabled u \<and> \<not> exemptMFA
           then (case Issue w (sv_tokens s1) (u_ID u) (u_Username u) (u_Role u) KindMFAChallenge (u_SessionEpoch u) of
                   None \<Rightarrow> (Err ErrSigning, s1)
                 | Some iss \<Rightarrow> (Ok \<lparr>res_MFARequired = True, res_Token = iss_Token iss,
                     res_ExpiresAt = iss_ExpiresAt iss, res_User = u\<rparr>, s1))
           else issueSession w (limiter_reset s1 rlKey) u info)"

text \<open>The first paired authenticator, oldest first, whose matching step is newer than the last one
  it accepted.\<close>

definition usable_factor :: "world \<Rightarrow> string \<Rightarrow> AuthFactor \<Rightarrow> bool" where
  "usable_factor w code f \<longleftrightarrow> f_Kind f = FactorKindTOTP
     \<and> (case MatchTOTP w code (f_Secret f) of None \<Rightarrow> False | Some n \<Rightarrow> n > f_LastCounter f)"

definition consumeTOTP :: "world \<Rightarrow> service \<Rightarrow> User \<Rightarrow> string \<Rightarrow> bool \<times> service" where
  "consumeTOTP w s u code =
     (case ListFactors (sv_acc s) (u_ID u) of
        Inl _ \<Rightarrow> (False, s)
      | Inr fs \<Rightarrow>
        (case find (usable_factor w (trim_space code)) fs of
           None \<Rightarrow> (False, s)
         | Some f \<Rightarrow>
           (case BurnFactorCounter (sv_acc s) (f_ID f) (the (MatchTOTP w (trim_space code) (f_Secret f))) (w_now w) of
              (r, d) \<Rightarrow> (is_ok r, s\<lparr>sv_acc := d\<rparr>))))"

definition VerifyMFA ::
    "world \<Rightarrow> service \<Rightarrow> string \<Rightarrow> string \<Rightarrow> string \<Rightarrow> SessionInfo \<Rightarrow> (auth_error + LoginResult) \<times> service" where
  "VerifyMFA w s rlKey challengeToken code info =
     (if \<not> Allow (sv_limiter s) rlKey (w_now w) then (Err ErrRateLimited, s)
      else case w_parse w challengeToken of
        None \<Rightarrow> (Err ErrInvalidCreds, limiter_fail w s rlKey)
      | Some c \<Rightarrow>
        (case (c_Kind c = KindMFAChallenge, c_ExpiresAt c) of
           (True, Some ex) \<Rightarrow>
             (let userKey = mfaKey (c_UserID c)
              in if \<not> Allow (sv_limiter s) userKey (w_now w) then (Err ErrRateLimited, s)
                 else let (fresh, seen) = spend (w_order w) (sv_challenges s) (c_ID c) ex (w_now w);
                          s1 = s\<lparr>sv_challenges := seen\<rparr>;
                          failed = limiter_fail w (limiter_fail w s1 rlKey) userKey
                 in if \<not> fresh then (Err ErrInvalidCreds, failed)
                    else case AccountByID (sv_acc s1) (c_UserID c) of
                      Inl _ \<Rightarrow> (Err ErrInvalidCreds, failed)
                    | Inr u \<Rightarrow>
                      if \<not> u_TOTPEnabled u then (Err ErrInvalidMFACode, failed)
                      else (case consumeTOTP w s1 u code of
                          (False, s2) \<Rightarrow> (Err ErrInvalidMFACode, limiter_fail w (limiter_fail w s2 rlKey) userKey)
                        | (True, s2) \<Rightarrow> issueSession w (limiter_reset (limiter_reset s2 rlKey) userKey) u info))
         | _ \<Rightarrow> (Err ErrInvalidCreds, limiter_fail w s rlKey)))"

definition RemoveFactor :: "service \<Rightarrow> int \<Rightarrow> int \<Rightarrow> (auth_error + unit) \<times> service" where
  "RemoveFactor s uid fid =
     (case DeleteFactor (sv_acc s) fid uid of
        (Inl e, d) \<Rightarrow> (Err (ErrStore e), s\<lparr>sv_acc := d\<rparr>) | (Inr _, d) \<Rightarrow> (Ok (), s\<lparr>sv_acc := d\<rparr>))"

definition ChallengeUsername :: "world \<Rightarrow> string \<Rightarrow> string" where
  "ChallengeUsername w t =
     (case w_parse w t of None \<Rightarrow> [] | Some c \<Rightarrow> if c_Kind c = KindMFAChallenge then c_Username c else [])"

definition BeginTOTPEnrollment :: "world \<Rightarrow> service \<Rightarrow> int \<Rightarrow> bool \<Rightarrow> (auth_error + string) \<times> service" where
  "BeginTOTPEnrollment w s uid stepUp =
     (case AccountByID (sv_acc s) uid of
        Inl e \<Rightarrow> (Err (ErrStore e), s)
      | Inr u \<Rightarrow>
        (case w_secret w of
           None \<Rightarrow> (Err ErrRandom, s)
         | Some secret \<Rightarrow>
           (case SetTOTPPending (sv_acc s) uid secret stepUp of
              (Inl e, d) \<Rightarrow> (Err (ErrStore e), s\<lparr>sv_acc := d\<rparr>)
            | (Inr _, d) \<Rightarrow> (Ok secret, s\<lparr>sv_acc := d\<rparr>))))"

definition ConfirmTOTPEnrollment ::
    "world \<Rightarrow> service \<Rightarrow> int \<Rightarrow> string \<Rightarrow> string \<Rightarrow> (auth_error + unit) \<times> service" where
  "ConfirmTOTPEnrollment w s uid code name =
     (case AccountByID (sv_acc s) uid of
        Inl e \<Rightarrow> (Err (ErrStore e), s)
      | Inr u \<Rightarrow>
        if u_TOTPPending u = [] then (Err ErrNoPendingEnrollment, s)
        else if u_MFAEnabled u \<and> \<not> u_TOTPPendingStepUp u then (Err ErrEnrollmentStale, s)
        else if \<not> w_valid w (trim_space code) (u_TOTPPending u) then (Err ErrInvalidMFACode, s)
        else case CountFactors (sv_acc s) uid of
          Inl e \<Rightarrow> (Err (ErrStore e), s)
        | Inr n \<Rightarrow>
          if n \<ge> maxFactorsPerAccount then (Err ErrTooManyFactors, s)
          else case PairPendingFactor (sv_acc s) uid (u_TOTPPending u) name (w_now w) of
            (Inl e, d) \<Rightarrow> (Err (if e = AErrNotFound then ErrInvalidMFACode else ErrStore e), s\<lparr>sv_acc := d\<rparr>)
          | (Inr _, d) \<Rightarrow> (Ok (), s\<lparr>sv_acc := d\<rparr>))"

section \<open>Session generations\<close>

text \<open>What the middleware relies on in its \<open>SessionEpochSource\<close>: the generation of a known
  account never goes back, whatever the store does.\<close>

locale epoch_source =
  fixes gen :: "'d \<Rightarrow> int \<Rightarrow> int option" and known :: "'d \<Rightarrow> int \<Rightarrow> bool"
    and step :: "'d \<Rightarrow> 'o \<Rightarrow> 'd" and wf :: "'d \<Rightarrow> bool"
  assumes wf_step: "wf d \<Longrightarrow> wf (step d x)"
    and known_step: "wf d \<Longrightarrow> known d u \<Longrightarrow> known (step d x) u"
    and gen_step: "wf d \<Longrightarrow> known d u \<Longrightarrow> gen (step d x) u = Some n' \<Longrightarrow> \<exists>n. gen d u = Some n \<and> n \<le> n'"
begin

lemma gen_run:
  "wf d \<Longrightarrow> known d u \<Longrightarrow> gen (foldl step d xs) u = Some n' \<Longrightarrow> \<exists>n. gen d u = Some n \<and> n \<le> n'"
proof (induction xs arbitrary: d)
  case (Cons x xs)
  then obtain m where "gen (step d x) u = Some m" "m \<le> n'"
    using wf_step known_step by fastforce
  then show ?case using gen_step [OF Cons.prems(1,2)] by fastforce
qed simp

lemma revoked:
  "wf d \<Longrightarrow> known d u \<Longrightarrow> gen d u = Some n \<Longrightarrow> e < n \<Longrightarrow> gen (foldl step d xs) u \<noteq> Some e"
  using gen_run [of d u xs e] by fastforce

end

definition generation :: "accounts \<Rightarrow> int \<Rightarrow> int option" where
  "generation d uid = map_option uc_session_epoch (tbl_lookup (ac_users d) uid)"

interpretation store_epochs: epoch_source generation "\<lambda>d u. u \<le> tbl_seq (ac_users d)" apply_op acc_wf
proof
  fix d x u n'
  assume wf: "acc_wf d"
  then show "acc_wf (apply_op d x)" by (rule acc_wf_op)
  note grow = users_grow_op [OF wf, of x]
  show "u \<le> tbl_seq (ac_users (apply_op d x))" if "u \<le> tbl_seq (ac_users d)"
    using grow that by (simp add: rows_grow_def)
  show "\<exists>n. generation d u = Some n \<and> n \<le> n'"
    if "u \<le> tbl_seq (ac_users d)" "generation (apply_op d x) u = Some n'"
    using grow that by (fastforce simp: rows_grow_def generation_def user_le_def)
qed

lemma RequireSession_generation:
  "fst (RequireSession w d r) = Some c \<Longrightarrow> generation d (c_UserID c) = Some (c_Epoch c)"
  by (auto simp: RequireSession_def SessionEpoch_def generation_def split: option.splits if_splits)

lemma SetPassword_ok:
  assumes "fst (SetPassword w s uid pw) = Ok ()"
  shows "\<exists>h. sv_acc (snd (SetPassword w s uid pw)) = run_ops (sv_acc s) [OpPassword uid h, OpDeleteSessions uid, OpBump uid]
     \<and> \<not> ac_fails (sv_acc s) (UpdUser uid)"
  using assms
  by (auto simp: SetPassword_def UpdatePassword_def DeleteUserSessions_def BumpSessionEpoch_def update_user_def
      split: if_splits option.splits)

lemma SetPassword_generation:
  assumes "fst (SetPassword w s uid pw) = Ok ()" and "tbl_lookup (ac_users (sv_acc s)) uid = Some u"
  shows "generation (sv_acc (snd (SetPassword w s uid pw))) uid = Some (uc_session_epoch u + 1)"
  using SetPassword_ok [OF assms(1)] assms(2) assms(1)
  by (auto simp: generation_def UpdatePassword_def DeleteUserSessions_def BumpSessionEpoch_def update_user_def
      tbl_lookup_update)

text \<open>C4. A password change ends every session of the account for good. After a successful password
  change no token that carries the account's earlier generation, or an older one, is accepted by
  the session middleware: not then and not in any state the store can reach afterwards.
\<close>

theorem password_change_revokes:
  assumes "acc_wf (sv_acc s)" and "tbl_lookup (ac_users (sv_acc s)) uid = Some u"
    and "fst (SetPassword w s uid pw) = Ok ()"
    and "c_UserID c = uid" and "c_Epoch c \<le> uc_session_epoch u"
  shows "fst (RequireSession w' (run_ops (sv_acc (snd (SetPassword w s uid pw))) ops) r) \<noteq> Some c"
proof
  let ?d = "sv_acc (snd (SetPassword w s uid pw))"
  assume "fst (RequireSession w' (run_ops ?d ops) r) = Some c"
  then have "generation (run_ops ?d ops) uid = Some (c_Epoch c)"
    using RequireSession_generation assms(4) by blast
  moreover obtain h where d: "?d = run_ops (sv_acc s) [OpPassword uid h, OpDeleteSessions uid, OpBump uid]"
    using SetPassword_ok [OF assms(3)] by blast
  have "acc_wf ?d" unfolding d using assms(1) by (rule acc_wf_run)
  moreover have "generation ?d uid = Some (uc_session_epoch u + 1)"
    by (rule SetPassword_generation [OF assms(3,2)])
  moreover from this \<open>acc_wf ?d\<close> have "uid \<le> tbl_seq (ac_users ?d)"
    by (auto simp: generation_def acc_wf_def intro: tbl_lookup_le_seq)
  ultimately show False using store_epochs.revoked [of ?d uid "uc_session_epoch u + 1" "c_Epoch c" ops] assms(5) by simp
qed

section \<open>A concrete installation\<close>

text \<open>One account with an authenticator, a token table standing for the signing key, and codes that
  are the secret followed by the time step.\<close>

definition t0 :: time where "t0 = (unix_offset + 600) * second"

definition demo_claims :: "string \<Rightarrow> string \<Rightarrow> int \<Rightarrow> time \<Rightarrow> time \<Rightarrow> Claims" where
  "demo_claims kind i ep issued ex = \<lparr>c_UserID = 1, c_Username = ''ann'', c_Role = ''admin'', c_Kind = kind,
     c_Epoch = ep, c_ID = i, c_IssuedAt = issued, c_ExpiresAt = Some ex\<rparr>"

definition demo_tokens :: "(string \<times> Claims) list" where
  "demo_tokens = [(''t1'', demo_claims ''mfa'' ''c1'' 0 t0 (t0 + 5 * minute)),
     (''t2'', demo_claims ''session'' ''c2'' 1 (t0 + minute) (t0 + minute + 12 * hour)),
     (''t3'', demo_claims ''session'' ''c3'' 0 t0 (t0 + 12 * hour))]"

definition demo_sign :: "Claims \<Rightarrow> string option" where
  "demo_sign c = map_option fst (find (\<lambda>(t, c'). c' = c) demo_tokens)"

definition demo_world :: "time \<Rightarrow> string \<Rightarrow> world" where
  "demo_world now i = \<lparr>w_now = now, w_order = [], w_salt = Some ''salt'', w_id = Some i, w_idkey = toy_idkey,
     w_sign = demo_sign,
     w_parse = (\<lambda>t. case map_of demo_tokens t of None \<Rightarrow> None
       | Some c \<Rightarrow> if now < the (c_ExpiresAt c) then Some c else None),
     w_code = (\<lambda>s t. Some (s @ show_int (unix_seconds t div 30))),
     w_valid = (\<lambda>code s. code = s @ show_int (unix_seconds now div 30)), w_secret = Some ''S3'',
     w_directory = (\<lambda>_ _ _. None)\<rparr>"

definition demo_hash :: string where
  "demo_hash = ''$argon2id$v=19$m=8,t=1,p=1$'' @ b64_encode ''salt'' @ ''$'' @ b64_encode ''old password''"

definition demo_service :: service where
  "demo_service = \<lparr>sv_acc = snd (UpdatePassword demo_accounts 1 demo_hash), sv_db = demo_db,
     sv_ldap = \<lparr>ls_row = Some None, ls_write_fails = False, ls_cipher = None\<rparr>,
     sv_tokens = NewTokenManager (12 * hour), sv_limiter = NewLoginLimiter 5 (15 * minute), sv_challenges = Map.empty\<rparr>"

lemma demo_service_wf: "acc_wf (sv_acc demo_service)"
  by code_simp

definition demo_info :: SessionInfo where
  "demo_info = \<lparr>si_IP = ''10.0.0.9'', si_UserAgent = ''curl''\<rparr>"

definition with_cookie :: "string \<Rightarrow> http_auth" where
  "with_cookie t = \<lparr>ha_cookie = Some t, ha_authorization = [], ha_query_token = [], ha_upgrade = [], ha_connection = []\<rparr>"

theorem password_change_revokes_witness:
  "fst (RequireSession (demo_world (t0 + minute) ''y'')
     (run_ops (sv_acc (snd (SetPassword (demo_world t0 ''x'') demo_service 1 ''new password''))) [OpBump 1, OpTouchLogin 1 5])
     (with_cookie ''t3'')) \<noteq> Some (demo_claims ''session'' ''c3'' 0 t0 (t0 + 12 * hour))"
  by (rule password_change_revokes [OF demo_service_wf,
        where u = "the (tbl_lookup (ac_users (sv_acc demo_service)) 1)"]) code_simp+

section \<open>A challenge and a password change\<close>

definition first_step :: "(auth_error + LoginResult) \<times> service" where
  "first_step = Login (demo_world t0 ''c1'') demo_service ''10.0.0.9'' ''ann'' ''old password'' False demo_info"

definition change_step :: "(auth_error + unit) \<times> service" where
  "change_step = SetPassword (demo_world (t0 + second) ''x'') (snd first_step) 1 ''new password''"

definition second_step :: "(auth_error + LoginResult) \<times> service" where
  "second_step = VerifyMFA (demo_world (t0 + minute) ''c2'') (snd change_step) ''10.0.0.9'' ''t1'' ''S122'' demo_info"

text \<open>A login challenge outlives a password change. The password is checked and a challenge handed
  out, the password is then changed, which ends every session of the account, and afterwards the
  old challenge together with a code is accepted and yields a session of the new generation that
  the middleware accepts. The second step never compares the generation the challenge carries with
  the account's.
\<close>

theorem challenge_survives_password_change:
  "(case fst first_step of Inl _ \<Rightarrow> False | Inr r \<Rightarrow> res_MFARequired r \<and> res_Token r = ''t1'')
   \<and> fst change_step = Ok ()
   \<and> (case fst second_step of Inl _ \<Rightarrow> False | Inr r \<Rightarrow> \<not> res_MFARequired r
        \<and> fst (RequireSession (demo_world (t0 + 2 * minute) ''z'') (sv_acc (snd second_step)) (with_cookie (res_Token r))) \<noteq> None)"
proof (intro conjI)
  show "case fst first_step of Inl _ \<Rightarrow> False | Inr r \<Rightarrow> res_MFARequired r \<and> res_Token r = ''t1''" by code_simp
  show "fst change_step = Ok ()" by code_simp
  show "case fst second_step of Inl _ \<Rightarrow> False | Inr r \<Rightarrow> \<not> res_MFARequired r
        \<and> fst (RequireSession (demo_world (t0 + 2 * minute) ''z'') (sv_acc (snd second_step)) (with_cookie (res_Token r))) \<noteq> None"
    by code_simp
qed

section \<open>Revoking one session\<close>

definition recorded :: "accounts \<Rightarrow> string \<Rightarrow> int \<Rightarrow> bool" where
  "recorded d i uid \<longleftrightarrow> list_ex (\<lambda>s. s_ID s = i \<and> s_UserID s = uid) (ac_sessions d)"

definition reissued :: "string \<Rightarrow> acc_op \<Rightarrow> bool" where
  "reissued i op \<longleftrightarrow> (case op of OpCreateSession s t \<Rightarrow> s_ID s = i | _ \<Rightarrow> False)"

lemma not_recorded_op:
  assumes "\<not> recorded d i uid" "\<not> reissued i op"
  shows "\<not> recorded (apply_op d op) i uid"
proof (cases op)
  case (OpDeleteUser j)
  then show ?thesis
    using DeleteUser_parts(3) [of d j] assms by (auto simp: recorded_def list_ex_iff)
next
  case (OpTouchSession j t)
  then show ?thesis using assms by (auto simp: TouchSession_def recorded_def list_ex_iff)
qed (use assms in \<open>auto simp: user_update_defs update_user_def op_defs recorded_def reissued_def list_ex_iff
    case_prod_unfold Let_def split: option.splits sum.splits\<close>)

lemma not_recorded_run:
  "\<not> recorded d i uid \<Longrightarrow> list_all (\<lambda>op. \<not> reissued i op) ops \<Longrightarrow> \<not> recorded (run_ops d ops) i uid"
  by (induction ops arbitrary: d) (auto simp: not_recorded_op)

lemma RequireSession_recorded:
  "fst (RequireSession w d r) = Some c \<Longrightarrow> recorded d (c_ID c) (c_UserID c)"
  by (auto simp: RequireSession_def SessionExists_def recorded_def split: option.splits if_splits)

text \<open>Revoking a session stops its token. Once a session has been deleted by its owner, the
  middleware refuses every token with that session's id for the account in every later state, as
  long as no session with the same id is recorded again.
\<close>

theorem revoked_session_refused:
  assumes "fst (DeleteSession d i uid) = Ok ()" and "list_all (\<lambda>op. \<not> reissued i op) ops"
    and "c_ID c = i" and "c_UserID c = uid"
  shows "fst (RequireSession w (run_ops (snd (DeleteSession d i uid)) ops) r) \<noteq> Some c"
proof
  have "\<not> recorded (snd (DeleteSession d i uid)) i uid"
    using assms(1) by (auto simp: DeleteSession_def recorded_def list_ex_iff split: if_splits)
  then have "\<not> recorded (run_ops (snd (DeleteSession d i uid)) ops) i uid"
    using assms(2) by (rule not_recorded_run)
  moreover assume "fst (RequireSession w (run_ops (snd (DeleteSession d i uid)) ops) r) = Some c"
  ultimately show False using RequireSession_recorded assms(3,4) by blast
qed

theorem revoked_session_refused_witness:
  "fst (RequireSession (demo_world (t0 + 3 * minute) ''z'')
     (run_ops (snd (DeleteSession (sv_acc (snd second_step)) ''c2'' 1)) [OpTouchSession ''c2'' t0, OpBurn 1 99 t0])
     (with_cookie ''t2'')) \<noteq> Some (demo_claims ''session'' ''c2'' 1 (t0 + minute) (t0 + minute + 12 * hour))"
  by (rule revoked_session_refused) code_simp+

section \<open>What a login proves\<close>

definition password_proved :: "world \<Rightarrow> service \<Rightarrow> string \<Rightarrow> string \<Rightarrow> bool" where
  "password_proved w s username password \<longleftrightarrow>
     (case found (UserByUsername (sv_acc s) username) of
        Some u \<Rightarrow> if u_AuthSource u = ''ldap''
          then (\<exists>cfg. GetLDAP (sv_ldap s) = Some cfg \<and> Configured cfg \<and> w_directory w cfg username password \<noteq> None)
          else VerifyPassword (w_idkey w) password (u_PasswordHash u) = Some True
      | None \<Rightarrow> (\<exists>cfg. GetLDAP (sv_ldap s) = Some cfg \<and> Configured cfg \<and> w_directory w cfg username password \<noteq> None))"

lemma ldapLogin_proved:
  "is_ok (fst (ldapLogin w s e username password)) \<Longrightarrow>
     \<exists>cfg. GetLDAP (sv_ldap s) = Some cfg \<and> Configured cfg \<and> w_directory w cfg username password \<noteq> None"
  by (auto simp: ldapLogin_def split: option.splits if_splits)

lemma ldapLogin_existing:
  assumes "fst (ldapLogin w s (Some u) username password) = Ok v"
  shows "u_ID v = u_ID u \<and> u_MFAEnabled v = u_MFAEnabled u \<and> u_SessionEpoch v = u_SessionEpoch u"
  using assms
  by (auto simp: ldapLogin_def Let_def sync_sections_def sync_roles_if_def sync_email_def
      split: option.splits if_splits prod.splits sum.splits)

lemma issueSession_recorded:
  assumes "fst (issueSession w s u info) = Ok r"
  shows "\<not> res_MFARequired r \<and> res_User r = u \<and> (\<exists>i. w_id w = Some i \<and> recorded (sv_acc (snd (issueSession w s u info))) i (u_ID u))"
  using assms
  by (auto simp: issueSession_def Issue_def Let_def CreateSession_def TouchLogin_def update_user_def recorded_def
      split: option.splits if_splits prod.splits sum.splits)

lemma issueSession_fresh: "fst (issueSession w s u info) = Ok r \<Longrightarrow> \<not> res_MFARequired r"
  using issueSession_recorded by blast

lemma CreateUser_sessions [simp]: "ac_sessions (snd (CreateUser d u t)) = ac_sessions d"
  by (simp add: CreateUser_def case_prod_unfold Let_def)

lemma sync_sessions [simp]:
  "ac_sessions (sv_acc (snd (sync_sections s u cfg secs))) = ac_sessions (sv_acc s)"
  "ac_sessions (sv_acc (snd (sync_roles_if s u cfg roles))) = ac_sessions (sv_acc s)"
  "ac_sessions (sv_acc (snd (sync_email s u email))) = ac_sessions (sv_acc s)"
  by (simp_all add: sync_sections_def sync_roles_if_def sync_email_def UpdateUserAccess_def SetUserEmail_def
      case_prod_unfold sum.case_eq_if)

lemma ldapLogin_sessions:
  "ac_sessions (sv_acc (snd (ldapLogin w s e username password))) = ac_sessions (sv_acc s)"
  by (simp add: ldapLogin_def Let_def case_prod_unfold sum.case_eq_if split: option.split)

lemma limiter_frame [simp]:
  "sv_acc (limiter_fail w s k) = sv_acc s" "sv_acc (limiter_reset s k) = sv_acc s"
  "sv_tokens (limiter_reset s k) = sv_tokens s"
  by (simp_all add: limiter_fail_def limiter_reset_def)

text \<open>The authentication step of \<open>Login\<close>.\<close>

definition login_auth :: "world \<Rightarrow> service \<Rightarrow> string \<Rightarrow> string \<Rightarrow> (auth_error + User) \<times> service" where
  "login_auth w s username password =
     (let existing = found (UserByUsername (sv_acc s) username)
      in if (case existing of None \<Rightarrow> False | Some u \<Rightarrow> u_AuthSource u \<noteq> ''ldap'')
         then (if VerifyPassword (w_idkey w) password (u_PasswordHash (the existing)) = Some True
               then Ok (the existing) else Err ErrInvalidCreds, s)
         else ldapLogin w s existing username password)"

lemma Login_split:
  "Login w s rlKey username password exemptMFA info =
     (if \<not> Allow (sv_limiter s) rlKey (w_now w) then (Err ErrRateLimited, s)
      else case login_auth w s username password of
        (Inl _, s1) \<Rightarrow> (Err ErrInvalidCreds, limiter_fail w s1 rlKey)
      | (Inr u, s1) \<Rightarrow>
        if u_MFAEnabled u \<and> \<not> exemptMFA
        then (case Issue w (sv_tokens s1) (u_ID u) (u_Username u) (u_Role u) KindMFAChallenge (u_SessionEpoch u) of
                None \<Rightarrow> (Err ErrSigning, s1)
              | Some iss \<Rightarrow> (Ok \<lparr>res_MFARequired = True, res_Token = iss_Token iss,
                  res_ExpiresAt = iss_ExpiresAt iss, res_User = u\<rparr>, s1))
        else issueSession w (limiter_reset s1 rlKey) u info)"
  unfolding Login_def login_auth_def Let_def by (auto split: prod.splits sum.splits)

lemma login_auth_proved:
  assumes "login_auth w s username password = (Inr u, s1)"
  shows "password_proved w s username password \<and> ac_sessions (sv_acc s1) = ac_sessions (sv_acc s)"
  using assms ldapLogin_proved [of w s "found (UserByUsername (sv_acc s) username)" username password]
    ldapLogin_sessions [of w s "found (UserByUsername (sv_acc s) username)" username password]
  by (auto simp: login_auth_def password_proved_def Let_def split: option.splits if_splits)

text \<open>C3. What a login answer proves. If a login succeeds then the address had budget left and the
  password was right: it verifies against the stored hash of a local account, or the configured
  directory accepted it. If the answer is a session, the account has no second factor or the
  exemption applies, and a session row for it was recorded; if it is a challenge, no session row
  was added at all.
\<close>

theorem login_proves:
  assumes "fst (Login w s rlKey username password exemptMFA info) = Ok r"
  shows "Allow (sv_limiter s) rlKey (w_now w) \<and> password_proved w s username password
    \<and> (if res_MFARequired r
        then u_MFAEnabled (res_User r) \<and> \<not> exemptMFA
          \<and> ac_sessions (sv_acc (snd (Login w s rlKey username password exemptMFA info))) = ac_sessions (sv_acc s)
        else (\<not> u_MFAEnabled (res_User r) \<or> exemptMFA)
          \<and> (\<exists>i. w_id w = Some i \<and> recorded (sv_acc (snd (Login w s rlKey username password exemptMFA info))) i (u_ID (res_User r))))"
proof -
  have allow: "Allow (sv_limiter s) rlKey (w_now w)"
    using assms by (auto simp: Login_split split: if_splits)
  obtain u s1 where auth: "login_auth w s username password = (Inr u, s1)"
    using assms allow by (auto simp: Login_split split: prod.splits sum.splits)
  note proved = login_auth_proved [OF auth]
  show ?thesis
  proof (cases "u_MFAEnabled u \<and> \<not> exemptMFA")
    case True
    then show ?thesis using assms allow auth proved by (auto simp: Login_split split: option.splits)
  next
    case False
    then have log: "Login w s rlKey username password exemptMFA info = issueSession w (limiter_reset s1 rlKey) u info"
      using allow auth by (auto simp: Login_split)
    show ?thesis
      using False proved allow issueSession_recorded [of w "limiter_reset s1 rlKey" u info r] assms unfolding log by auto
  qed
qed

theorem login_proves_witness:
  "Allow (sv_limiter demo_service) ''10.0.0.9'' t0 \<and> password_proved (demo_world t0 ''c1'') demo_service ''ann'' ''old password''"
proof -
  have "fst first_step = Ok (projr (fst first_step))" by code_simp
  then have "fst (Login (demo_world t0 ''c1'') demo_service ''10.0.0.9'' ''ann'' ''old password'' False demo_info) = Ok (projr (fst first_step))"
    unfolding first_step_def .
  from login_proves [OF this] show ?thesis by (simp add: demo_world_def)
qed

end
