(* ===== verification/Alerts.thy ===== *)
theory Alerts
  imports Complex_Main Roles
begin

text \<open>
  The alert tables: \<open>src/internal/store/alerts.go\<close> (webhooks, rules, the event feed, delivery
  records, firing conditions) and \<open>delivery_retry.go\<close> (queued retries). A statement of which
  \<open>al_fails\<close> holds returns an error and changes nothing. A rule's configuration, a JSON text in
  the table, is the decoded object, or nothing when the text does not decode; measured values are
  rational numbers. Instants are stored as texts in whole seconds.
\<close>

section \<open>Tables\<close>

record Webhook =
  wh_ID :: int
  wh_Name :: string
  wh_URL :: string
  wh_Method :: string
  wh_Headers :: "(string \<times> string) list"
  wh_BodyTemplate :: string
  wh_CreatedAt :: time

record json_config =
  jc_metric :: string
  jc_op :: string
  jc_threshold :: rat
  jc_durationSec :: int
  jc_events :: "string list"
  jc_windowSec :: int
  jc_count :: int
  jc_pattern :: string
  jc_isRegex :: bool

record AlertRule =
  ar_ID :: int
  ar_Name :: string
  ar_Enabled :: bool
  ar_Type :: string
  ar_Target :: string
  ar_Config :: "json_config option"
  ar_Severity :: string
  ar_WebhookID :: "int option"
  ar_Email :: bool
  ar_Emails :: "string list"
  ar_CooldownSec :: int
  ar_CreatedAt :: time

record AlertEvent =
  ev_ID :: int
  ev_RuleID :: int
  ev_RuleName :: string
  ev_Type :: string
  ev_Severity :: string
  ev_HostID :: int
  ev_HostName :: string
  ev_ContainerID :: string
  ev_ContainerName :: string
  ev_Project :: string
  ev_Message :: string
  ev_Value :: "rat option"
  ev_Acknowledged :: bool
  ev_CreatedAt :: time
  ev_Kind :: string
  ev_DurationSec :: int
  ev_AcknowledgedBy :: string
  ev_AcknowledgedAt :: "time option"
  ev_Suppressed :: bool
  ev_SuppressedBy :: int
  ev_Repeats :: int
  ev_LastRepeatAt :: "time option"
  ev_Ongoing :: bool

record AlertDelivery =
  dl_ID :: int
  dl_EventID :: int
  dl_Channel :: string
  dl_Target :: string
  dl_OK :: bool
  dl_Status :: int
  dl_Detail :: string
  dl_Attempted :: time

record AlertQuery =
  q_Severity :: string
  q_Severities :: "string list"
  q_Kind :: string
  q_HideRepeats :: bool
  q_HostID :: "int option"
  q_Container :: string
  q_Rule :: string
  q_Text :: string
  q_Unacked :: bool
  q_HostIDs :: "int list option"
  q_Limit :: int
  q_Offset :: int
  q_Sort :: string
  q_Desc :: bool

record AlertState =
  as_HostID :: int
  as_HostName :: string
  as_ContainerID :: string
  as_ContainerName :: string
  as_Metric :: string
  as_RuleID :: int
  as_RuleName :: string
  as_Severity :: string
  as_LastValue :: "rat option"
  as_StartedAt :: time
  as_NotifiedAt :: time

record AlertDeliveryRetry =
  rt_ID :: int
  rt_EventID :: int
  rt_Channel :: string
  rt_WebhookID :: "int option"
  rt_RuleEmails :: "string list"
  rt_Attempt :: int
  rt_NextAttemptAt :: time
  rt_LastError :: string
  rt_CreatedAt :: time

datatype al_stmt = SelWebhooks | SelWebhook int | InsWebhook | DelWebhook int | SelRules | InsRule
  | UpdRule int | DelAlertRule int | InsEvent | CountEvents | SelEvents | SelEvent int | SelNext int
  | SelRepeats int | SelResolved int | UpdEvents | UpdEvent int | CountUnacked | InsDelivery | SelDeliveries
  | SelStates | UpsState | DelState | InsRetry | SelDue | UpdRetry int | DelRetry int

record alerts =
  al_webhooks :: "Webhook tbl"
  al_rules :: "AlertRule tbl"
  al_events :: "AlertEvent tbl"
  al_deliveries :: "AlertDelivery tbl"
  al_states :: "AlertState list"
  al_retries :: "AlertDeliveryRetry tbl"
  al_fails :: "al_stmt \<Rightarrow> bool"

definition KindFiring :: string where "KindFiring = ''firing''"
definition KindEscalated :: string where "KindEscalated = ''escalated''"
definition KindEased :: string where "KindEased = ''eased''"
definition KindRepeat :: string where "KindRepeat = ''repeat''"
definition KindResolved :: string where "KindResolved = ''resolved''"

lemmas kind_defs = KindFiring_def KindEscalated_def KindEased_def KindRepeat_def KindResolved_def

definition or_default :: "string \<Rightarrow> string \<Rightarrow> string" where
  "or_default v d = (if v = [] then d else v)"

definition defaultInt :: "int \<Rightarrow> int \<Rightarrow> int" where
  "defaultInt v d = (if v = 0 then d else v)"

section \<open>Webhooks\<close>

definition ListWebhooks :: "alerts \<Rightarrow> db_error + Webhook list" where
  "ListWebhooks d = (if al_fails d SelWebhooks then Err ErrSQL
     else Ok (sort_key wh_Name (map (\<lambda>(i, w). w\<lparr>wh_ID := i\<rparr>) (tbl_rows (al_webhooks d)))))"

definition WebhookByID :: "alerts \<Rightarrow> int \<Rightarrow> db_error + Webhook" where
  "WebhookByID d i = (if al_fails d (SelWebhook i) then Err ErrSQL
     else case tbl_lookup (al_webhooks d) i of None \<Rightarrow> Err ErrNotFound | Some w \<Rightarrow> Ok (w\<lparr>wh_ID := i\<rparr>))"

definition CreateWebhook :: "alerts \<Rightarrow> Webhook \<Rightarrow> time \<Rightarrow> (db_error + int) \<times> alerts" where
  "CreateWebhook d w now = (if al_fails d InsWebhook then (Err ErrSQL, d)
     else let (i, t) = tbl_insert (w\<lparr>wh_Method := or_default (wh_Method w) ''POST'', wh_CreatedAt := trunc_sec now\<rparr>)
                         (al_webhooks d)
          in (Ok i, d\<lparr>al_webhooks := t\<rparr>))"

definition DeleteWebhook :: "alerts \<Rightarrow> int \<Rightarrow> (db_error + unit) \<times> alerts" where
  "DeleteWebhook d i = (if al_fails d (DelWebhook i) then (Err ErrSQL, d)
     else (Ok (), d\<lparr>al_webhooks := tbl_delete i (al_webhooks d)\<rparr>))"

section \<open>Rules\<close>

text \<open>The recipients a rule stores: trimmed, without blanks and without repetitions up to letter
  case.\<close>

fun clean_emails :: "string list \<Rightarrow> string list \<Rightarrow> string list" where
  "clean_emails seen [] = []"
| "clean_emails seen (e # es) =
     (let t = trim_space e
      in if t = [] \<or> to_lower t \<in> set seen then clean_emails seen es
         else t # clean_emails (to_lower t # seen) es)"

definition marshalEmails :: "string list \<Rightarrow> string list" where
  "marshalEmails es = clean_emails [] es"

definition ListAlertRules :: "alerts \<Rightarrow> db_error + AlertRule list" where
  "ListAlertRules d = (if al_fails d SelRules then Err ErrSQL
     else Ok (map (\<lambda>(i, r). r\<lparr>ar_ID := i\<rparr>) (sort_key fst (tbl_rows (al_rules d)))))"

definition rule_columns :: "AlertRule \<Rightarrow> AlertRule" where
  "rule_columns r = r\<lparr>ar_Severity := or_default (ar_Severity r) ''warning'',
     ar_CooldownSec := defaultInt (ar_CooldownSec r) 60, ar_Emails := marshalEmails (ar_Emails r)\<rparr>"

definition CreateAlertRule :: "alerts \<Rightarrow> AlertRule \<Rightarrow> time \<Rightarrow> (db_error + int) \<times> alerts" where
  "CreateAlertRule d r now = (if al_fails d InsRule then (Err ErrSQL, d)
     else let (i, t) = tbl_insert ((rule_columns r)\<lparr>ar_CreatedAt := trunc_sec now\<rparr>) (al_rules d)
          in (Ok i, d\<lparr>al_rules := t\<rparr>))"

definition SetAlertRuleEnabled :: "alerts \<Rightarrow> int \<Rightarrow> bool \<Rightarrow> (db_error + unit) \<times> alerts" where
  "SetAlertRuleEnabled d i on = (if al_fails d (UpdRule i) then (Err ErrSQL, d)
     else (Ok (), d\<lparr>al_rules := tbl_update i (\<lambda>r. r\<lparr>ar_Enabled := on\<rparr>) (al_rules d)\<rparr>))"

definition UpdateAlertRule :: "alerts \<Rightarrow> int \<Rightarrow> AlertRule \<Rightarrow> (db_error + unit) \<times> alerts" where
  "UpdateAlertRule d i r = (if al_fails d (UpdRule i) then (Err ErrSQL, d)
     else (Ok (), d\<lparr>al_rules := tbl_update i (\<lambda>old. (rule_columns r)\<lparr>ar_ID := ar_ID old,
             ar_Enabled := ar_Enabled old, ar_CreatedAt := ar_CreatedAt old\<rparr>) (al_rules d)\<rparr>))"

definition DeleteAlertRule :: "alerts \<Rightarrow> int \<Rightarrow> (db_error + unit) \<times> alerts" where
  "DeleteAlertRule d i = (if al_fails d (DelAlertRule i) then (Err ErrSQL, d)
     else (Ok (), d\<lparr>al_rules := tbl_delete i (al_rules d)\<rparr>))"

section \<open>Events\<close>

definition InsertAlertEvent :: "alerts \<Rightarrow> AlertEvent \<Rightarrow> time \<Rightarrow> (db_error + int) \<times> alerts" where
  "InsertAlertEvent d e now =
     (if al_fails d InsEvent then (Err ErrSQL, d)
      else let kind = or_default (ev_Kind e) KindFiring;
               (i, t) = tbl_insert (e\<lparr>ev_Kind := kind, ev_Acknowledged := (ev_Acknowledged e \<or> kind = KindResolved),
                  ev_AcknowledgedBy := [], ev_AcknowledgedAt := None, ev_CreatedAt := trunc_sec now,
                  ev_Repeats := 0, ev_LastRepeatAt := None, ev_Ongoing := False\<rparr>) (al_events d)
           in (Ok i, d\<lparr>al_events := t\<rparr>))"

text \<open>\<open>LIKE\<close> with an escape character, as SQLite evaluates it: a percent sign matches any run,
  an underscore any one character, an escaped character itself; letters match in either case. A
  pattern that ends in the escape character matches nothing.\<close>

fun like :: "string \<Rightarrow> string \<Rightarrow> bool" where
  "like [] s \<longleftrightarrow> s = []"
| "like (p # ps) s \<longleftrightarrow>
     (if p = CHR ''%'' then like ps s \<or> (case s of [] \<Rightarrow> False | _ # cs \<Rightarrow> like (p # ps) cs)
      else if p = CHR 0x5C then
        (case ps of [] \<Rightarrow> False
         | q # qs \<Rightarrow> (case s of [] \<Rightarrow> False | c # cs \<Rightarrow> to_lower_char q = to_lower_char c \<and> like qs cs))
      else if p = CHR ''_'' then (case s of [] \<Rightarrow> False | _ # cs \<Rightarrow> like ps cs)
      else (case s of [] \<Rightarrow> False | c # cs \<Rightarrow> to_lower_char p = to_lower_char c \<and> like ps cs))"

definition escapeLike :: "string \<Rightarrow> string" where
  "escapeLike s = concat (map (\<lambda>c. if c \<in> {CHR 0x5C, CHR ''%'', CHR ''_''} then [CHR 0x5C, c] else [c]) s)"

definition like_any :: "string \<Rightarrow> string \<Rightarrow> bool" where
  "like_any s col = like (CHR ''%'' # escapeLike s @ ''%'') col"

definition query_where :: "AlertQuery \<Rightarrow> AlertEvent \<Rightarrow> bool" where
  "query_where q e \<longleftrightarrow>
     (q_Severity q = [] \<or> ev_Severity e = q_Severity q)
     \<and> (q_Severities q = [] \<or> ev_Severity e \<in> set (q_Severities q))
     \<and> (q_Kind q = [] \<or> ev_Kind e = q_Kind q)
     \<and> (\<not> q_HideRepeats q \<or> ev_Kind e \<noteq> KindRepeat)
     \<and> (case q_HostID q of None \<Rightarrow> True | Some h \<Rightarrow> ev_HostID e = h)
     \<and> (q_Container q = [] \<or> like_any (q_Container q) (ev_ContainerName e))
     \<and> (q_Rule q = [] \<or> like_any (q_Rule q) (ev_RuleName e))
     \<and> (q_Text q = [] \<or> like_any (q_Text q) (ev_Message e))
     \<and> (\<not> q_Unacked q \<or> \<not> ev_Acknowledged e)
     \<and> (case q_HostIDs q of None \<Rightarrow> True | Some hs \<Rightarrow> ev_HostID e \<in> set hs)"

definition severity_weight :: "string \<Rightarrow> int" where
  "severity_weight s = (if s = ''critical'' then 3 else if s = ''warning'' then 2 else if s = ''info'' then 1 else 0)"

text \<open>The whitelist of sort keys. A descending order on a column keeps newest first within equal
  values, like an ascending one.\<close>

definition ordered_by :: "(AlertEvent \<Rightarrow> 'k :: linorder) \<Rightarrow> bool \<Rightarrow> AlertEvent list \<Rightarrow> AlertEvent list" where
  "ordered_by k desc es = (if desc then rev (sort_key (\<lambda>e. (k e, ev_ID e)) es) else sort_key (\<lambda>e. (k e, - ev_ID e)) es)"

definition orderBy :: "AlertQuery \<Rightarrow> AlertEvent list \<Rightarrow> AlertEvent list" where
  "orderBy q es =
     (if q_Sort q = ''time'' then (if q_Desc q then rev (sort_key ev_ID es) else sort_key ev_ID es)
      else if q_Sort q = ''severity'' then ordered_by (severity_weight \<circ> ev_Severity) (q_Desc q) es
      else if q_Sort q = ''rule'' then ordered_by (to_lower \<circ> ev_RuleName) (q_Desc q) es
      else if q_Sort q = ''host'' then ordered_by (to_lower \<circ> ev_HostName) (q_Desc q) es
      else if q_Sort q = ''container'' then ordered_by (to_lower \<circ> ev_ContainerName) (q_Desc q) es
      else rev (sort_key ev_ID es))"

definition event_rows :: "alerts \<Rightarrow> AlertEvent list" where
  "event_rows d = map (\<lambda>(i, e). e\<lparr>ev_ID := i\<rparr>) (tbl_rows (al_events d))"

definition same_stretch :: "AlertEvent \<Rightarrow> AlertEvent \<Rightarrow> bool" where
  "same_stretch e x \<longleftrightarrow> ev_ContainerID x = ev_ContainerID e \<and> ev_HostID x = ev_HostID e \<and> ev_RuleID x = ev_RuleID e
     \<and> ev_ID x > ev_ID e"

definition max_time :: "time list \<Rightarrow> time option" where
  "max_time ts = (if ts = [] then None else Some (Max (set ts)))"

definition annotate_one :: "alerts \<Rightarrow> AlertEvent \<Rightarrow> AlertEvent" where
  "annotate_one d e =
     (if ev_Kind e \<notin> {KindFiring, KindEscalated, KindEased} \<or> ev_Type e \<noteq> ''resource'' \<or> al_fails d (SelNext (ev_ID e)) then e
      else let later = filter (same_stretch e) (event_rows d);
               ends = map ev_ID (filter (\<lambda>x. ev_Kind x \<noteq> KindRepeat) later);
               reps = filter (\<lambda>x. ev_Kind x = KindRepeat \<and> list_all (\<lambda>n. ev_ID x < n) ends) later
      in if al_fails d (SelRepeats (ev_ID e)) then e
      else let e1 = e\<lparr>ev_Repeats := int (length reps), ev_LastRepeatAt := max_time (map ev_CreatedAt reps)\<rparr>
      in if ends \<noteq> [] \<or> al_fails d (SelResolved (ev_ID e)) then e1
      else let start = ev_CreatedAt e div second - ev_DurationSec e
      in e1\<lparr>ev_Ongoing := \<not> list_ex (\<lambda>x. ev_ContainerID x = ev_ContainerID e \<and> ev_HostID x = ev_HostID e
             \<and> ev_Kind x = KindResolved \<and> ev_ID x > ev_ID e
             \<and> \<bar>ev_CreatedAt x div second - ev_DurationSec x - start\<bar> \<le> 2) (event_rows d)\<rparr>)"

definition annotateConditionSummary :: "alerts \<Rightarrow> AlertEvent list \<Rightarrow> AlertEvent list" where
  "annotateConditionSummary d es = map (annotate_one d) es"

definition ListAlertEvents :: "alerts \<Rightarrow> AlertQuery \<Rightarrow> db_error + (AlertEvent list \<times> int)" where
  "ListAlertEvents d q =
     (let limit = (if q_Limit q \<le> 0 \<or> q_Limit q > 500 then 50 else q_Limit q);
          offset = (if q_Offset q < 0 then 0 else q_Offset q);
          hits = filter (query_where q) (event_rows d)
      in if al_fails d CountEvents \<or> al_fails d SelEvents then Err ErrSQL
         else Ok (annotateConditionSummary d (take (nat limit) (drop (nat offset) (orderBy q hits))), int (length hits)))"

definition AlertEventByID :: "alerts \<Rightarrow> int \<Rightarrow> db_error + AlertEvent" where
  "AlertEventByID d i = (if al_fails d (SelEvent i) then Err ErrSQL
     else case tbl_lookup (al_events d) i of None \<Rightarrow> Err ErrNotFound | Some e \<Rightarrow> Ok (e\<lparr>ev_ID := i\<rparr>))"

definition AlertEventHost :: "alerts \<Rightarrow> int \<Rightarrow> db_error + int" where
  "AlertEventHost d i = (if al_fails d (SelEvent i) then Err ErrSQL
     else case tbl_lookup (al_events d) i of None \<Rightarrow> Err ErrNotFound | Some e \<Rightarrow> Ok (ev_HostID e))"

definition ack :: "string \<Rightarrow> time \<Rightarrow> AlertEvent \<Rightarrow> AlertEvent" where
  "ack who now e = e\<lparr>ev_Acknowledged := True, ev_AcknowledgedBy := who, ev_AcknowledgedAt := Some (trunc_sec now)\<rparr>"

definition AckMatchingAlertEvents :: "alerts \<Rightarrow> AlertQuery \<Rightarrow> string \<Rightarrow> time \<Rightarrow> (db_error + int) \<times> alerts" where
  "AckMatchingAlertEvents d q who now =
     (let q1 = q\<lparr>q_Unacked := True\<rparr>; hit = (\<lambda>(i, e). query_where q1 (e\<lparr>ev_ID := i\<rparr>))
      in if al_fails d UpdEvents then (Err ErrSQL, d)
         else (Ok (int (length (filter hit (tbl_rows (al_events d))))),
               d\<lparr>al_events := (al_events d)\<lparr>tbl_rows :=
                 map (\<lambda>x. if hit x then (fst x, ack who now (snd x)) else x) (tbl_rows (al_events d))\<rparr>\<rparr>))"

definition AckAlertEvent :: "alerts \<Rightarrow> int \<Rightarrow> string \<Rightarrow> time \<Rightarrow> (db_error + unit) \<times> alerts" where
  "AckAlertEvent d i who now = (if al_fails d (UpdEvent i) then (Err ErrSQL, d)
     else (Ok (), d\<lparr>al_events := tbl_update i (ack who now) (al_events d)\<rparr>))"

definition CountUnacknowledged :: "alerts \<Rightarrow> db_error + int" where
  "CountUnacknowledged d = (if al_fails d CountUnacked then Err ErrSQL
     else Ok (int (length (filter (\<lambda>(i, e). \<not> ev_Acknowledged e) (tbl_rows (al_events d))))))"

section \<open>Deliveries\<close>

definition ellipsis :: string where "ellipsis = [CHR 0xE2, CHR 0x80, CHR 0xA6]"

definition truncateDetail :: "string \<Rightarrow> string" where
  "truncateDetail s = (let t = trim_space s in if length t > 500 then take 500 t @ ellipsis else t)"

definition RecordAlertDelivery :: "alerts \<Rightarrow> AlertDelivery \<Rightarrow> time \<Rightarrow> (db_error + unit) \<times> alerts" where
  "RecordAlertDelivery d x now = (if al_fails d InsDelivery then (Err ErrSQL, d)
     else (Ok (), d\<lparr>al_deliveries := snd (tbl_insert (x\<lparr>dl_Detail := truncateDetail (dl_Detail x),
             dl_Attempted := trunc_sec now\<rparr>) (al_deliveries d))\<rparr>))"

definition AlertDeliveriesFor :: "alerts \<Rightarrow> int list \<Rightarrow> db_error + (int \<Rightarrow> AlertDelivery list)" where
  "AlertDeliveriesFor d ids =
     (if ids = [] then Ok (\<lambda>_. [])
      else if al_fails d SelDeliveries then Err ErrSQL
      else Ok (\<lambda>i. if i \<in> set ids
        then map (\<lambda>(k, x). x\<lparr>dl_ID := k\<rparr>) (filter (\<lambda>(k, x). dl_EventID x = i) (sort_key fst (tbl_rows (al_deliveries d))))
        else []))"

section \<open>Conditions\<close>

definition same_condition :: "AlertState \<Rightarrow> AlertState \<Rightarrow> bool" where
  "same_condition a b \<longleftrightarrow> as_HostID a = as_HostID b \<and> as_ContainerID a = as_ContainerID b \<and> as_Metric a = as_Metric b"

definition state_columns :: "AlertState \<Rightarrow> AlertState" where
  "state_columns a = a\<lparr>as_StartedAt := trunc_sec (as_StartedAt a), as_NotifiedAt := trunc_sec (as_NotifiedAt a)\<rparr>"

definition ListAlertStates :: "alerts \<Rightarrow> db_error + AlertState list" where
  "ListAlertStates d = (if al_fails d SelStates then Err ErrSQL else Ok (al_states d))"

definition UpsertAlertState :: "alerts \<Rightarrow> AlertState \<Rightarrow> (db_error + unit) \<times> alerts" where
  "UpsertAlertState d a =
     (if al_fails d UpsState then (Err ErrSQL, d)
      else (Ok (), d\<lparr>al_states := (if list_ex (same_condition a) (al_states d)
        then map (\<lambda>b. if same_condition a b then (state_columns a)\<lparr>as_StartedAt := as_StartedAt b\<rparr> else b) (al_states d)
        else al_states d @ [state_columns a])\<rparr>))"

definition DeleteAlertState :: "alerts \<Rightarrow> int \<Rightarrow> string \<Rightarrow> string \<Rightarrow> (db_error + unit) \<times> alerts" where
  "DeleteAlertState d h c metric = (if al_fails d DelState then (Err ErrSQL, d)
     else (Ok (), d\<lparr>al_states := filter (\<lambda>a. \<not> (as_HostID a = h \<and> as_ContainerID a = c \<and> as_Metric a = metric)) (al_states d)\<rparr>))"

section \<open>Queued retries\<close>

definition EnqueueAlertDeliveryRetry :: "alerts \<Rightarrow> AlertDeliveryRetry \<Rightarrow> time \<Rightarrow> (db_error + unit) \<times> alerts" where
  "EnqueueAlertDeliveryRetry d r now = (if al_fails d InsRetry then (Err ErrSQL, d)
     else (Ok (), d\<lparr>al_retries := snd (tbl_insert (r\<lparr>rt_Attempt := 0, rt_RuleEmails := marshalEmails (rt_RuleEmails r),
             rt_NextAttemptAt := trunc_sec (rt_NextAttemptAt r), rt_CreatedAt := trunc_sec now\<rparr>) (al_retries d))\<rparr>))"

definition DueAlertDeliveryRetries :: "alerts \<Rightarrow> time \<Rightarrow> nat \<Rightarrow> db_error + AlertDeliveryRetry list" where
  "DueAlertDeliveryRetries d now limit = (if al_fails d SelDue then Err ErrSQL
     else Ok (take limit (sort_key rt_NextAttemptAt
       (map (\<lambda>(i, r). r\<lparr>rt_ID := i\<rparr>) (filter (\<lambda>(i, r). rt_NextAttemptAt r \<le> trunc_sec now) (tbl_rows (al_retries d)))))))"

definition RescheduleAlertDeliveryRetry ::
    "alerts \<Rightarrow> int \<Rightarrow> bool \<Rightarrow> time \<Rightarrow> string \<Rightarrow> (db_error + unit) \<times> alerts" where
  "RescheduleAlertDeliveryRetry d i incrementAttempt nextAt lastError = (if al_fails d (UpdRetry i) then (Err ErrSQL, d)
     else (Ok (), d\<lparr>al_retries := tbl_update i (\<lambda>r. r\<lparr>rt_NextAttemptAt := trunc_sec nextAt, rt_LastError := lastError,
             rt_Attempt := (if incrementAttempt then rt_Attempt r + 1 else rt_Attempt r)\<rparr>) (al_retries d)\<rparr>))"

definition DeleteAlertDeliveryRetry :: "alerts \<Rightarrow> int \<Rightarrow> (db_error + unit) \<times> alerts" where
  "DeleteAlertDeliveryRetry d i = (if al_fails d (DelRetry i) then (Err ErrSQL, d)
     else (Ok (), d\<lparr>al_retries := tbl_delete i (al_retries d)\<rparr>))"

section \<open>Searching\<close>

lemma like_percent: "like (CHR ''%'' # ps) s \<longleftrightarrow> (\<exists>a b. s = a @ b \<and> like ps b)"
proof (induction s)
  case (Cons c cs)
  have "(\<exists>a b. c # cs = a @ b \<and> like ps b) \<longleftrightarrow> like ps (c # cs) \<or> (\<exists>a b. cs = a @ b \<and> like ps b)"
    by (metis append_Cons append_Nil list.exhaust list.inject)
  then show ?case using Cons by simp
qed simp

lemma like_escaped:
  "like (escapeLike s @ ''%'') col \<longleftrightarrow> has_prefix (to_lower s) (to_lower col)"
proof (induction s arbitrary: col)
  case Nil
  show ?case using like_percent [of "[]" col] by (simp add: escapeLike_def to_lower_def)
next
  case (Cons c s)
  show ?case
    by (cases col) (use Cons in \<open>auto simp: escapeLike_def to_lower_def\<close>)
qed

text \<open>Searching the feed is plain substring search. A text the user types matches a column exactly
  when the column contains that text, letter case aside: percent signs, underscores and backslashes
  in it stand for themselves.
\<close>

theorem like_any_exact: "like_any s col \<longleftrightarrow> contains (to_lower col) (to_lower s)"
proof -
  have "like_any s col \<longleftrightarrow> (\<exists>a b. col = a @ b \<and> has_prefix (to_lower s) (to_lower b))"
    unfolding like_any_def by (simp only: like_percent like_escaped)
  also have "\<dots> \<longleftrightarrow> (\<exists>a b. to_lower col = a @ b \<and> has_prefix (to_lower s) b)"
    by (metis to_lower_def map_append map_eq_append_conv)
  also have "\<dots> \<longleftrightarrow> contains (to_lower col) (to_lower s)"
    by (auto simp: contains_iff has_prefix_iff)
  finally show ?thesis .
qed

section \<open>Acknowledging\<close>

definition outside_scope :: "AlertQuery \<Rightarrow> AlertEvent \<Rightarrow> bool" where
  "outside_scope q e \<longleftrightarrow> (case q_HostIDs q of None \<Rightarrow> False | Some hs \<Rightarrow> ev_HostID e \<notin> set hs)"

lemma filter_map_id: "(\<And>x. P (f x) = P x) \<Longrightarrow> (\<And>x. P x \<Longrightarrow> f x = x) \<Longrightarrow> filter P (map f xs) = filter P xs"
  by (induction xs) auto

lemma query_unacked: "query_where (q\<lparr>q_Unacked := True\<rparr>) e \<longleftrightarrow> query_where q e \<and> \<not> ev_Acknowledged e"
  by (auto simp: query_where_def)

text \<open>Acknowledging everything in view touches exactly that. Of every event that the caller's
  filter, host scope included, shows and nobody has acknowledged, the name and the time are
  recorded; every other event, in particular one on a host outside the scope or one acknowledged
  before, stays as it was; and the number returned is the number of events changed.
\<close>

theorem ack_exact:
  assumes "\<not> al_fails d UpdEvents"
  shows "let (r, d') = AckMatchingAlertEvents d q who now;
             hit = (\<lambda>e. query_where q e \<and> \<not> ev_Acknowledged e)
    in event_rows d' = map (\<lambda>e. if hit e then ack who now e else e) (event_rows d)
       \<and> r = Ok (int (length (filter hit (event_rows d))))
       \<and> filter (outside_scope q) (event_rows d') = filter (outside_scope q) (event_rows d)
       \<and> al_rules d' = al_rules d \<and> al_states d' = al_states d \<and> al_retries d' = al_retries d"
proof -
  let ?out = "outside_scope q"
  have rows: "event_rows (snd (AckMatchingAlertEvents d q who now))
      = map (\<lambda>e. if query_where q e \<and> \<not> ev_Acknowledged e then ack who now e else e) (event_rows d)"
    using assms(1) by (simp add: AckMatchingAlertEvents_def Let_def event_rows_def query_unacked ack_def case_prod_unfold)
  have "length (filter (\<lambda>x. query_where q ((snd x)\<lparr>ev_ID := fst x\<rparr>) \<and> \<not> ev_Acknowledged (snd x)) xs)
      = length (filter (\<lambda>e. query_where q e \<and> \<not> ev_Acknowledged e) (map (\<lambda>x. (snd x)\<lparr>ev_ID := fst x\<rparr>) xs))" for xs
    by (induction xs) auto
  then have n: "fst (AckMatchingAlertEvents d q who now)
      = Ok (int (length (filter (\<lambda>e. query_where q e \<and> \<not> ev_Acknowledged e) (event_rows d))))"
    using assms(1) by (simp add: AckMatchingAlertEvents_def Let_def event_rows_def query_unacked case_prod_unfold)
  have "filter ?out (map (\<lambda>e. if query_where q e \<and> \<not> ev_Acknowledged e then ack who now e else e) es) = filter ?out es" for es
  proof (rule filter_map_id)
    show "?out (if query_where q e \<and> \<not> ev_Acknowledged e then ack who now e else e) = ?out e" for e
      by (simp add: outside_scope_def ack_def split: option.split)
    show "(if query_where q e \<and> \<not> ev_Acknowledged e then ack who now e else e) = e" if "?out e" for e
      using that by (auto simp: outside_scope_def query_where_def split: option.splits)
  qed
  then have "filter ?out (event_rows (snd (AckMatchingAlertEvents d q who now))) = filter ?out (event_rows d)"
    unfolding rows .
  moreover have "al_rules (snd (AckMatchingAlertEvents d q who now)) = al_rules d
      \<and> al_states (snd (AckMatchingAlertEvents d q who now)) = al_states d
      \<and> al_retries (snd (AckMatchingAlertEvents d q who now)) = al_retries d"
    by (simp add: AckMatchingAlertEvents_def Let_def)
  ultimately show ?thesis using rows n by (auto simp: case_prod_unfold Let_def)
qed

definition no_alerts :: alerts where
  "no_alerts = \<lparr>al_webhooks = tbl_empty, al_rules = tbl_empty, al_events = tbl_empty, al_deliveries = tbl_empty,
     al_states = [], al_retries = tbl_empty, al_fails = (\<lambda>_. False)\<rparr>"

definition demo_event :: "int \<Rightarrow> string \<Rightarrow> AlertEvent" where
  "demo_event h sev = \<lparr>ev_ID = 0, ev_RuleID = 1, ev_RuleName = ''cpu'', ev_Type = ''resource'', ev_Severity = sev, ev_HostID = h,
     ev_HostName = ''h'', ev_ContainerID = ''abc'', ev_ContainerName = ''web'', ev_Project = [], ev_Message = ''CPU 100%'',
     ev_Value = None, ev_Acknowledged = False, ev_CreatedAt = 0, ev_Kind = [], ev_DurationSec = 0, ev_AcknowledgedBy = [],
     ev_AcknowledgedAt = None, ev_Suppressed = False, ev_SuppressedBy = 0, ev_Repeats = 0, ev_LastRepeatAt = None, ev_Ongoing = False\<rparr>"

definition demo_feed :: alerts where
  "demo_feed = snd (InsertAlertEvent (snd (InsertAlertEvent no_alerts (demo_event 1 ''critical'') 0)) (demo_event 2 ''info'') 0)"

definition demo_query :: AlertQuery where
  "demo_query = \<lparr>q_Severity = [], q_Severities = [], q_Kind = [], q_HideRepeats = False, q_HostID = None, q_Container = [],
     q_Rule = [], q_Text = ''0%'', q_Unacked = False, q_HostIDs = Some [2], q_Limit = 50, q_Offset = 0, q_Sort = [], q_Desc = False\<rparr>"

theorem ack_exact_witness:
  "let (r, d') = AckMatchingAlertEvents demo_feed demo_query ''ann'' minute;
       hit = (\<lambda>e. query_where demo_query e \<and> \<not> ev_Acknowledged e)
   in event_rows d' = map (\<lambda>e. if hit e then ack ''ann'' minute e else e) (event_rows demo_feed)
      \<and> r = Ok (int (length (filter hit (event_rows demo_feed))))
      \<and> filter (outside_scope demo_query) (event_rows d') = filter (outside_scope demo_query) (event_rows demo_feed)
      \<and> al_rules d' = al_rules demo_feed \<and> al_states d' = al_states demo_feed \<and> al_retries d' = al_retries demo_feed"
  by (rule ack_exact) code_simp

end
