(* ===== verification/Delivery.thy ===== *)
theory Delivery
  imports Alerts Maintenance
begin

text \<open>
  Getting an alert out: webhooks (\<open>src/internal/monitor/webhook.go\<close>), mail
  (\<open>email.go\<close>) and the retry of failed deliveries (\<open>delivery_retry.go\<close>). What a call
  meets outside the alert tables is a record \<open>outside\<close>: the clock and its text, the maintenance
  windows and hosts, the mail settings, and the network: the outcome of an HTTP request, whether the
  mail server offers an encrypted upgrade and how it answers a command after those before it. The
  URL parser, the JSON encoder and the template engine of the standard library are functions of it
  too. The timeouts of the contexts are part of the outcomes. Deliveries that the code runs in goroutines of their
  own are functions of the tables here.
\<close>

section \<open>The outside\<close>

record SMTPConfig =
  sm_Host :: string
  sm_Port :: int
  sm_Username :: string
  sm_Password :: string
  sm_From :: string
  sm_To :: string
  sm_TLS :: bool

text \<open>Errors of the HTTP client: the wrapper around a cause that names operation and URL, or any
  other error.\<close>

datatype go_error = UrlError string string "string option" | OtherError string

datatype post_outcome = BadRequest go_error | Unreachable go_error | Response int string

record payload =
  p_RuleName :: string
  p_Type :: string
  p_Severity :: string
  p_Container :: string
  p_ContainerID :: string
  p_Message :: string
  p_Value :: "rat option"
  p_Time :: string

text \<open>A request with the \<open>Set\<close> calls on its header in the order they are made.\<close>

record http_request =
  hr_method :: string
  hr_url :: string
  hr_body :: string
  hr_headers :: "(string \<times> string) list"

datatype smtp_command = Dial string int bool | SetDeadline | Greeting string | StartTLS string
  | PlainAuth string string string | MailFrom string | Rcpt string | DataStart | DataWrite string | DataClose | Quit

record outside =
  o_now :: time
  o_nowtext :: string
  o_zones :: tzdb
  o_db :: db
  o_windows :: mdb
  o_smtp :: "SMTPConfig option"
  o_errtext :: "db_error \<Rightarrow> string"
  o_urlhost :: "string \<Rightarrow> string option"
  o_http :: "http_request \<Rightarrow> post_outcome"
  o_marshal :: "payload \<Rightarrow> string"
  o_template :: "string \<Rightarrow> payload \<Rightarrow> string option"
  o_jsonvalid :: "string \<Rightarrow> bool"
  o_starttls :: bool
  o_reply :: "smtp_command list \<Rightarrow> smtp_command \<Rightarrow> string option"

section \<open>Webhooks\<close>

definition hostOf :: "outside \<Rightarrow> string \<Rightarrow> string" where
  "hostOf out raw = (case o_urlhost out raw of None \<Rightarrow> ''unknown host'' | Some h \<Rightarrow> if h = [] then ''unknown host'' else h)"

record outcome =
  oc_ok :: bool
  oc_status :: int
  oc_target :: string
  oc_detail :: string
  oc_retriable :: bool

definition renderBody :: "outside \<Rightarrow> string \<Rightarrow> payload \<Rightarrow> string \<times> string" where
  "renderBody out tmpl p =
     (if tmpl = [] then (o_marshal out p, ''application/json'')
      else case o_template out tmpl p of
        None \<Rightarrow> (o_marshal out p, ''application/json'')
      | Some b \<Rightarrow> (b, if o_jsonvalid out b then ''application/json'' else ''text/plain''))"

text \<open>The text of an error, and the text that leaves the URL out.\<close>

fun error_text :: "go_error \<Rightarrow> string" where
  "error_text (UrlError oper url cause) = oper @ '' '' @ [CHR 0x22] @ url @ [CHR 0x22] @ '': '' @ (case cause of None \<Rightarrow> ''<nil>'' | Some c \<Rightarrow> c)"
| "error_text (OtherError t) = t"

definition redactURL :: "go_error \<Rightarrow> string" where
  "redactURL e = (case e of UrlError _ _ (Some c) \<Rightarrow> c | _ \<Rightarrow> error_text e)"

definition webhook_request :: "outside \<Rightarrow> Webhook \<Rightarrow> AlertEvent \<Rightarrow> http_request" where
  "webhook_request out wh ev =
     (let p = \<lparr>p_RuleName = ev_RuleName ev, p_Type = ev_Type ev, p_Severity = ev_Severity ev, p_Container = ev_ContainerName ev,
            p_ContainerID = ev_ContainerID ev, p_Message = ev_Message ev, p_Value = ev_Value ev, p_Time = o_nowtext out\<rparr>;
          (body, contentType) = renderBody out (wh_BodyTemplate wh) p
      in \<lparr>hr_method = (if wh_Method wh = [] then ''POST'' else wh_Method wh), hr_url = wh_URL wh, hr_body = body,
           hr_headers = (''Content-Type'', contentType) # wh_Headers wh\<rparr>)"

definition attempt :: "outside \<Rightarrow> alerts \<Rightarrow> int \<Rightarrow> AlertEvent \<Rightarrow> outcome" where
  "attempt out d webhookID ev =
     (case WebhookByID d webhookID of
        Inl e \<Rightarrow> \<lparr>oc_ok = False, oc_status = 0, oc_target = ''webhook #'' @ show_int webhookID,
          oc_detail = ''webhook not found: '' @ o_errtext out e, oc_retriable = False\<rparr>
      | Inr wh \<Rightarrow>
        let target = wh_Name wh @ '' ('' @ hostOf out (wh_URL wh) @ '')''
        in case o_http out (webhook_request out wh ev) of
             BadRequest e \<Rightarrow> \<lparr>oc_ok = False, oc_status = 0, oc_target = target, oc_detail = ''bad request: '' @ redactURL e,
               oc_retriable = False\<rparr>
           | Unreachable e \<Rightarrow> \<lparr>oc_ok = False, oc_status = 0, oc_target = target, oc_detail = redactURL e, oc_retriable = True\<rparr>
           | Response code body \<Rightarrow> \<lparr>oc_ok = (code < 300), oc_status = code, oc_target = target, oc_detail = take 1024 body,
               oc_retriable = (code = 429 \<or> code \<ge> 500)\<rparr>)"

definition record_webhook :: "outside \<Rightarrow> alerts \<Rightarrow> int \<Rightarrow> outcome \<Rightarrow> alerts" where
  "record_webhook out d eventID r =
     (if eventID = 0 then d
      else snd (RecordAlertDelivery d \<lparr>dl_ID = 0, dl_EventID = eventID, dl_Channel = ''webhook'', dl_Target = oc_target r,
             dl_OK = oc_ok r, dl_Status = oc_status r, dl_Detail = oc_detail r, dl_Attempted = 0\<rparr> (o_now out)))"

section \<open>Mail\<close>

definition to_upper_char :: "char \<Rightarrow> char" where
  "to_upper_char c = (let n = of_char c :: nat in if 97 \<le> n \<and> n \<le> 122 then char_of (n - 32) else c)"

definition to_upper :: "string \<Rightarrow> string" where "to_upper s = map to_upper_char s"

definition crlf :: string where "crlf = [CHR 0x0D, CHR 0x0A]"

definition headerValue :: "string \<Rightarrow> string" where
  "headerValue v = map (\<lambda>c. if c = CHR 0x0D \<or> c = CHR 0x0A then CHR '' '' else c) v"

definition buildMessage :: "string \<Rightarrow> string \<Rightarrow> string \<Rightarrow> string \<Rightarrow> string" where
  "buildMessage sender to subject body =
     ''From: '' @ headerValue sender @ crlf @ ''To: '' @ headerValue to @ crlf
     @ ''Subject: '' @ headerValue subject @ crlf @ ''MIME-Version: 1.0'' @ crlf
     @ ''Content-Type: text/plain; charset=UTF-8'' @ crlf @ crlf @ body"

definition splitRecipients :: "string \<Rightarrow> string list" where
  "splitRecipients to = filter (\<lambda>r. r \<noteq> []) (map trim_space (split_on (CHR '','') to))"

definition shortID :: "string \<Rightarrow> string" where
  "shortID i = (if length i > 12 then take 12 i else i)"

text \<open>The commands of a mail session in their order, up to the first that fails: its error text, or
  \<open>None\<close> when the message went out.\<close>

fun run_session :: "outside \<Rightarrow> smtp_command list \<Rightarrow> smtp_command list \<Rightarrow> string option" where
  "run_session out past [] = None"
| "run_session out past (c # cs) =
     (case o_reply out past c of Some e \<Rightarrow> Some e | None \<Rightarrow> run_session out (past @ [c]) cs)"

definition mail_session :: "outside \<Rightarrow> SMTPConfig \<Rightarrow> string list \<Rightarrow> string \<Rightarrow> smtp_command list" where
  "mail_session out cfg recipients msg =
     [Dial (sm_Host cfg) (sm_Port cfg) (sm_TLS cfg), SetDeadline, Greeting (sm_Host cfg)]
     @ (if \<not> sm_TLS cfg \<and> o_starttls out then [StartTLS (sm_Host cfg)] else [])
     @ (if sm_Username cfg \<noteq> [] then [PlainAuth (sm_Username cfg) (sm_Password cfg) (sm_Host cfg)] else [])
     @ [MailFrom (sm_From cfg)] @ map Rcpt recipients @ [DataStart, DataWrite msg, DataClose, Quit]"

definition SendMail :: "outside \<Rightarrow> SMTPConfig \<Rightarrow> string \<Rightarrow> string \<Rightarrow> string option" where
  "SendMail out cfg subject body =
     (let recipients = splitRecipients (sm_To cfg)
      in if recipients = [] then Some ''no recipients configured''
         else run_session out [] (mail_session out cfg recipients (buildMessage (sm_From cfg) (sm_To cfg) subject body)))"

definition HostByID :: "db \<Rightarrow> int \<Rightarrow> db_error + Host" where
  "HostByID d i = (if d_fails d (SelHost i) then Err ErrSQL
     else case find (\<lambda>h. h_ID h = i) (d_hosts d) of None \<Rightarrow> Err ErrNotFound | Some h \<Rightarrow> Ok h)"

definition recipients_for :: "outside \<Rightarrow> SMTPConfig \<Rightarrow> AlertEvent \<Rightarrow> string list \<Rightarrow> string" where
  "recipients_for out cfg ev ruleEmails =
     (if ruleEmails \<noteq> [] then join '', '' ruleEmails
      else if ev_HostID ev \<noteq> 0 then
        (case HostByID (o_db out) (ev_HostID ev) of
           Inl _ \<Rightarrow> sm_To cfg | Inr h \<Rightarrow> if h_AlertEmail h \<noteq> [] then h_AlertEmail h else sm_To cfg)
      else sm_To cfg)"

definition em_dash :: string where "em_dash = [CHR 0xE2, CHR 0x80, CHR 0x94]"

definition attemptEmail :: "outside \<Rightarrow> AlertEvent \<Rightarrow> string list \<Rightarrow> outcome" where
  "attemptEmail out ev ruleEmails =
     (let failed = (\<lambda>to detail retry. \<lparr>oc_ok = False, oc_status = 0, oc_target = to, oc_detail = detail, oc_retriable = retry\<rparr>)
      in case o_smtp out of
        None \<Rightarrow> failed [] ''SMTP is not configured, so this alert was not e-mailed'' False
      | Some cfg0 \<Rightarrow>
        if sm_Host cfg0 = [] \<or> sm_From cfg0 = []
        then failed [] ''SMTP is not configured, so this alert was not e-mailed'' False
        else let cfg = cfg0\<lparr>sm_To := recipients_for out cfg0 ev ruleEmails\<rparr>
        in if sm_To cfg = []
           then failed [] ''no recipient: the rule, the host and the SMTP settings all leave it empty'' False
           else let subject = ''['' @ to_upper (ev_Severity ev) @ ''] '' @ ev_RuleName ev @ '' '' @ em_dash @ '' '' @ ev_ContainerName ev;
                    nl = [CHR 0x0A];
                    body = ''Rule: '' @ ev_RuleName ev @ nl @ ''Type: '' @ ev_Type ev @ nl @ ''Severity: '' @ ev_Severity ev @ nl
                      @ ''Container: '' @ ev_ContainerName ev @ '' ('' @ shortID (ev_ContainerID ev) @ '')'' @ nl
                      @ ''Message: '' @ ev_Message ev @ nl @ ''Time: '' @ o_nowtext out @ nl
                in case SendMail out cfg subject body of
                     Some e \<Rightarrow> failed (sm_To cfg) e True
                   | None \<Rightarrow> \<lparr>oc_ok = True, oc_status = 0, oc_target = sm_To cfg, oc_detail = [], oc_retriable = False\<rparr>)"

definition recordDelivery :: "outside \<Rightarrow> alerts \<Rightarrow> int \<Rightarrow> outcome \<Rightarrow> alerts" where
  "recordDelivery out d eventID r =
     (if eventID = 0 then d
      else snd (RecordAlertDelivery d \<lparr>dl_ID = 0, dl_EventID = eventID, dl_Channel = ''email'',
             dl_Target = (if oc_target r = [] then ''(no recipient)'' else oc_target r), dl_OK = oc_ok r, dl_Status = 0,
             dl_Detail = oc_detail r, dl_Attempted = 0\<rparr> (o_now out)))"

section \<open>Retries\<close>

definition maxDeliveryRetries :: int where "maxDeliveryRetries = 5"
definition deliveryRetryBase :: duration where "deliveryRetryBase = minute"
definition deliveryRetryMaxGap :: duration where "deliveryRetryMaxGap = 30 * minute"
definition retrySweepBatch :: nat where "retrySweepBatch = 20"

definition backoffFor :: "int \<Rightarrow> duration" where
  "backoffFor n =
     (if n < 0 \<or> n > 20 then deliveryRetryMaxGap
      else let d = wrap64 (deliveryRetryBase * 2 ^ nat n)
           in if d \<le> 0 \<or> d > deliveryRetryMaxGap then deliveryRetryMaxGap else d)"

definition enqueueRetry :: "outside \<Rightarrow> alerts \<Rightarrow> int \<Rightarrow> int \<Rightarrow> string \<Rightarrow> alerts" where
  "enqueueRetry out d eventID webhookID lastError =
     snd (EnqueueAlertDeliveryRetry d \<lparr>rt_ID = 0, rt_EventID = eventID, rt_Channel = ''webhook'', rt_WebhookID = Some webhookID,
       rt_RuleEmails = [], rt_Attempt = 0, rt_NextAttemptAt = o_now out + backoffFor 0, rt_LastError = lastError,
       rt_CreatedAt = 0\<rparr> (o_now out))"

definition enqueueEmailRetry :: "outside \<Rightarrow> alerts \<Rightarrow> int \<Rightarrow> string list \<Rightarrow> string \<Rightarrow> alerts" where
  "enqueueEmailRetry out d eventID ruleEmails lastError =
     snd (EnqueueAlertDeliveryRetry d \<lparr>rt_ID = 0, rt_EventID = eventID, rt_Channel = ''email'', rt_WebhookID = None,
       rt_RuleEmails = ruleEmails, rt_Attempt = 0, rt_NextAttemptAt = o_now out + backoffFor 0, rt_LastError = lastError,
       rt_CreatedAt = 0\<rparr> (o_now out))"

definition dispatch :: "outside \<Rightarrow> alerts \<Rightarrow> int \<Rightarrow> AlertEvent \<Rightarrow> alerts" where
  "dispatch out d webhookID ev =
     (let r = attempt out d webhookID ev; d1 = record_webhook out d (ev_ID ev) r
      in if \<not> oc_ok r \<and> oc_retriable r then enqueueRetry out d1 (ev_ID ev) webhookID (oc_detail r) else d1)"

definition emailNotify :: "outside \<Rightarrow> alerts \<Rightarrow> AlertEvent \<Rightarrow> string list \<Rightarrow> alerts" where
  "emailNotify out d ev ruleEmails =
     (let r = attemptEmail out ev ruleEmails; d1 = recordDelivery out d (ev_ID ev) r
      in if \<not> oc_ok r \<and> oc_retriable r then enqueueEmailRetry out d1 (ev_ID ev) ruleEmails (oc_detail r) else d1)"

definition window_for :: "outside \<Rightarrow> AlertEvent \<Rightarrow> db_error + MaintenanceWindow option" where
  "window_for out ev = FindActiveMaintenanceWindow (o_zones out) (o_db out) (o_windows out) (ev_HostID ev) (ev_Project ev)
     (ev_ContainerName ev) (ev_RuleID ev) (ev_Severity ev) (o_now out)"

text \<open>Which send a row asks for: its outcome and the tables with the delivery recorded, or
  nothing for a malformed row.\<close>

definition send_again :: "outside \<Rightarrow> alerts \<Rightarrow> AlertDeliveryRetry \<Rightarrow> AlertEvent \<Rightarrow> (outcome \<times> alerts) option" where
  "send_again out d r ev =
     (if rt_Channel r = ''webhook'' \<and> rt_WebhookID r \<noteq> None
      then let x = attempt out d (the (rt_WebhookID r)) ev in Some (x, record_webhook out d (ev_ID ev) x)
      else if rt_Channel r = ''email''
      then let x = attemptEmail out ev (rt_RuleEmails r) in Some (x, recordDelivery out d (ev_ID ev) x)
      else None)"

definition settle :: "outside \<Rightarrow> alerts \<Rightarrow> AlertDeliveryRetry \<Rightarrow> outcome \<Rightarrow> alerts" where
  "settle out d r x =
     (if oc_ok x then snd (DeleteAlertDeliveryRetry d (rt_ID r))
      else if \<not> oc_retriable x \<or> rt_Attempt r + 1 \<ge> maxDeliveryRetries then snd (DeleteAlertDeliveryRetry d (rt_ID r))
      else snd (RescheduleAlertDeliveryRetry d (rt_ID r) True (o_now out + backoffFor (rt_Attempt r + 1)) (oc_detail x)))"

definition retryOne :: "outside \<Rightarrow> alerts \<Rightarrow> AlertDeliveryRetry \<Rightarrow> alerts" where
  "retryOne out d r =
     (case AlertEventByID d (rt_EventID r) of
        Inl _ \<Rightarrow> snd (DeleteAlertDeliveryRetry d (rt_ID r))
      | Inr ev \<Rightarrow>
        (case window_for out ev of
           Inr (Some _) \<Rightarrow>
             snd (RescheduleAlertDeliveryRetry d (rt_ID r) False (o_now out + backoffFor (rt_Attempt r)) (rt_LastError r))
         | _ \<Rightarrow>
           (case send_again out d r ev of
              None \<Rightarrow> snd (DeleteAlertDeliveryRetry d (rt_ID r))
            | Some (x, d1) \<Rightarrow> settle out d1 r x)))"

definition sweepDeliveryRetries :: "outside \<Rightarrow> alerts \<Rightarrow> alerts" where
  "sweepDeliveryRetries out d =
     (case DueAlertDeliveryRetries d (o_now out) retrySweepBatch of
        Inl _ \<Rightarrow> d
      | Inr due \<Rightarrow> foldl (retryOne out) d due)"

section \<open>Backoff\<close>

lemma backoffFor_eq:
  "backoffFor n = (if 0 \<le> n \<and> n \<le> 20 then min (30 * minute) (minute * 2 ^ nat n) else 30 * minute)"
proof (cases "0 \<le> n \<and> n \<le> 20")
  case True
  then have hi: "(2 :: int) ^ nat n \<le> 2 ^ 20" by (intro power_increasing) auto
  have lo: "(1 :: int) \<le> 2 ^ nat n" by simp
  have "min_int64 \<le> minute * 2 ^ nat n"
    by (rule order_trans [of _ 0]) (simp_all add: min_int64_def time_units)
  moreover have "minute * 2 ^ nat n \<le> max_int64"
    using hi by (simp add: max_int64_def time_units)
  ultimately have "wrap64 (deliveryRetryBase * 2 ^ nat n) = minute * 2 ^ nat n"
    unfolding deliveryRetryBase_def by (rule wrap64_id)
  then show ?thesis
    using True lo by (auto simp: backoffFor_def deliveryRetryMaxGap_def Let_def time_units)
next
  case False
  then show ?thesis by (auto simp: backoffFor_def deliveryRetryMaxGap_def time_units)
qed

lemma backoffFor_range: "minute \<le> backoffFor n \<and> backoffFor n \<le> 30 * minute"
proof -
  have "(1 :: int) \<le> 2 ^ nat n" by simp
  then show ?thesis by (auto simp: backoffFor_eq time_units)
qed

text \<open>The wait between attempts stays between one and thirty minutes. Up to twenty attempts the
  shift does not overflow 64 bits: the wait is one minute doubled per attempt, cut off at thirty
  minutes; for every other count, negative ones included, it is thirty minutes.
\<close>

theorem backoff_bounds:
  "minute \<le> backoffFor n \<and> backoffFor n \<le> 30 * minute
   \<and> backoffFor n = (if 0 \<le> n \<and> n \<le> 20 then min (30 * minute) (minute * 2 ^ nat n) else 30 * minute)"
  using backoffFor_range backoffFor_eq by blast

section \<open>The retry budget\<close>

definition retries_wf :: "alerts \<Rightarrow> bool" where
  "retries_wf d \<longleftrightarrow> tbl_wf (al_retries d)
     \<and> list_all (\<lambda>r. 0 \<le> rt_Attempt (snd r) \<and> rt_Attempt (snd r) < maxDeliveryRetries) (tbl_rows (al_retries d))"

lemma RecordAlertDelivery_frame [simp]:
  "al_retries (snd (RecordAlertDelivery d x t)) = al_retries d"
  "al_fails (snd (RecordAlertDelivery d x t)) = al_fails d"
  "al_events (snd (RecordAlertDelivery d x t)) = al_events d"
  by (simp_all add: RecordAlertDelivery_def)

lemma record_frame [simp]:
  "al_retries (record_webhook out d i x) = al_retries d" "al_retries (recordDelivery out d i x) = al_retries d"
  "al_fails (record_webhook out d i x) = al_fails d" "al_fails (recordDelivery out d i x) = al_fails d"
  "al_events (record_webhook out d i x) = al_events d" "al_events (recordDelivery out d i x) = al_events d"
  by (simp_all add: record_webhook_def recordDelivery_def)

lemma send_again_frame:
  assumes "send_again out d r ev = Some (x, d1)"
  shows "al_retries d1 = al_retries d \<and> al_fails d1 = al_fails d \<and> al_events d1 = al_events d"
  using assms by (auto simp: send_again_def Let_def split: if_splits)

text \<open>What a step does to its own row: it is deleted, waits unchanged, or has one attempt more.\<close>

definition row_after :: "AlertDeliveryRetry \<Rightarrow> alerts \<Rightarrow> alerts \<Rightarrow> bool" where
  "row_after r d d' \<longleftrightarrow> al_retries d' = tbl_delete (rt_ID r) (al_retries d)
     \<or> (rt_Attempt r + 1 < maxDeliveryRetries \<and> (\<exists>t e. al_retries d' = tbl_update (rt_ID r)
          (\<lambda>x. x\<lparr>rt_NextAttemptAt := t, rt_LastError := e, rt_Attempt := rt_Attempt x + 1\<rparr>) (al_retries d)))"

lemma settle_row:
  assumes "\<And>q. \<not> al_fails d1 q" "al_retries d1 = al_retries d"
  shows "row_after r d (settle out d1 r x)"
  using assms by (cases "rt_Attempt r + 1 \<ge> maxDeliveryRetries")
    (auto simp: row_after_def settle_def DeleteAlertDeliveryRetry_def RescheduleAlertDeliveryRetry_def)

lemma send_row:
  assumes "\<And>q. \<not> al_fails d q"
  shows "row_after r d (case send_again out d r ev of
      None \<Rightarrow> snd (DeleteAlertDeliveryRetry d (rt_ID r)) | Some (x, d1) \<Rightarrow> settle out d1 r x)"
proof (cases "send_again out d r ev")
  case None
  then show ?thesis using assms by (simp add: row_after_def DeleteAlertDeliveryRetry_def)
next
  case (Some xd)
  then obtain x d1 where x: "send_again out d r ev = Some (x, d1)" by (cases xd) auto
  note f = send_again_frame [OF x]
  have "row_after r d (settle out d1 r x)" by (rule settle_row) (use f assms in auto)
  then show ?thesis by (simp add: x)
qed

lemma retryOne_row:
  assumes "\<And>q. \<not> al_fails d q"
  shows "row_after r d (retryOne out d r)
    \<or> (\<exists>ev w t. AlertEventByID d (rt_EventID r) = Ok ev \<and> window_for out ev = Ok (Some w)
        \<and> retryOne out d r = d\<lparr>al_retries := tbl_update (rt_ID r)
             (\<lambda>x. x\<lparr>rt_NextAttemptAt := t, rt_LastError := rt_LastError r\<rparr>) (al_retries d)\<rparr>)"
proof (cases "AlertEventByID d (rt_EventID r)")
  case (Inl e)
  then show ?thesis using assms by (simp add: row_after_def retryOne_def DeleteAlertDeliveryRetry_def)
next
  case ev: (Inr ev)
  show ?thesis
  proof (cases "\<exists>w. window_for out ev = Ok (Some w)")
    case True
    then show ?thesis using ev assms by (auto simp: retryOne_def RescheduleAlertDeliveryRetry_def)
  next
    case False
    then have "retryOne out d r = (case send_again out d r ev of
        None \<Rightarrow> snd (DeleteAlertDeliveryRetry d (rt_ID r)) | Some (x, d1) \<Rightarrow> settle out d1 r x)"
      using ev by (cases "window_for out ev") (auto simp: retryOne_def split: option.splits)
    then show ?thesis using send_row [OF assms] by simp
  qed
qed

lemma retryOne_fails [simp]: "al_fails (retryOne out d r) = al_fails d"
  using send_again_frame
  by (auto simp: retryOne_def settle_def DeleteAlertDeliveryRetry_def RescheduleAlertDeliveryRetry_def
      split: sum.split option.split)

lemma retryOne_events [simp]: "al_events (retryOne out d r) = al_events d"
  using send_again_frame
  by (auto simp: retryOne_def settle_def DeleteAlertDeliveryRetry_def RescheduleAlertDeliveryRetry_def
      split: sum.split option.split)

lemma retryOne_other:
  assumes "j \<noteq> rt_ID r"
  shows "tbl_lookup (al_retries (retryOne out d r)) j = tbl_lookup (al_retries d) j"
  using send_again_frame assms
  by (auto simp: retryOne_def settle_def DeleteAlertDeliveryRetry_def RescheduleAlertDeliveryRetry_def
      tbl_lookup_update tbl_lookup_delete split: sum.split option.split)

text \<open>One queued row taken up, as a step of its own; and the rows a step leaves alone.\<close>

definition take_up :: "outside \<Rightarrow> alerts \<Rightarrow> int \<Rightarrow> alerts" where
  "take_up out d i = (case tbl_lookup (al_retries d) i of None \<Rightarrow> d | Some r \<Rightarrow> retryOne out d (r\<lparr>rt_ID := i\<rparr>))"

lemma take_up_frame [simp]: "al_fails (take_up out d i) = al_fails d" "al_events (take_up out d i) = al_events d"
  by (auto simp: take_up_def split: option.split)

lemma take_up_other: "j \<noteq> i \<Longrightarrow> tbl_lookup (al_retries (take_up out d i)) j = tbl_lookup (al_retries d) j"
  by (auto simp: take_up_def retryOne_other split: option.split)

lemma sweep_steps:
  assumes "distinct (map rt_ID due)"
    and "\<And>r. r \<in> set due \<Longrightarrow> \<exists>x. tbl_lookup (al_retries d) (rt_ID r) = Some x \<and> r = x\<lparr>rt_ID := rt_ID r\<rparr>"
  shows "foldl (retryOne out) d due = foldl (take_up out) d (map rt_ID due)"
  using assms
proof (induction due arbitrary: d)
  case (Cons r due)
  obtain x where x: "tbl_lookup (al_retries d) (rt_ID r) = Some x" "r = x\<lparr>rt_ID := rt_ID r\<rparr>"
    using Cons.prems(2) [of r] by auto
  then have step: "take_up out d (rt_ID r) = retryOne out d r" by (simp add: take_up_def)
  have "foldl (retryOne out) (retryOne out d r) due = foldl (take_up out) (retryOne out d r) (map rt_ID due)"
  proof (rule Cons.IH)
    show "distinct (map rt_ID due)" using Cons.prems(1) by simp
    fix r' assume r': "r' \<in> set due"
    then have "rt_ID r' \<noteq> rt_ID r"
      using Cons.prems(1) by (metis distinct.simps(2) image_eqI list.map(2) set_map)
    then show "\<exists>x. tbl_lookup (al_retries (retryOne out d r)) (rt_ID r') = Some x \<and> r' = x\<lparr>rt_ID := rt_ID r'\<rparr>"
      using Cons.prems(2) [of r'] r' by (simp add: retryOne_other)
  qed
  then show ?case by (simp add: step)
qed simp

definition due_ids :: "outside \<Rightarrow> alerts \<Rightarrow> int list" where
  "due_ids out d = (case DueAlertDeliveryRetries d (o_now out) retrySweepBatch of Inl _ \<Rightarrow> [] | Inr due \<Rightarrow> map rt_ID due)"

lemma map_snd_keep: "map rt_ID (map (\<lambda>(i, r). r\<lparr>rt_ID := i\<rparr>) xs) = map fst xs"
  by (induction xs) auto


text \<open>A retry row is silenced when a window covers its event.\<close>

definition silenced :: "outside \<Rightarrow> alerts \<Rightarrow> int \<Rightarrow> bool" where
  "silenced out d eventID \<longleftrightarrow> (case AlertEventByID d eventID of Inl _ \<Rightarrow> False
     | Inr ev \<Rightarrow> (case window_for out ev of Inr (Some _) \<Rightarrow> True | _ \<Rightarrow> False))"

lemma silenced_frame [simp]: "silenced out (take_up out' d i) e = silenced out d e"
  by (simp add: silenced_def AlertEventByID_def)

lemma take_up_progress:
  assumes "\<And>q. \<not> al_fails d q" "tbl_lookup (al_retries d) i = Some r" "\<not> silenced out d (rt_EventID r)"
  shows "tbl_lookup (al_retries (take_up out d i)) i = None
    \<or> (\<exists>r'. tbl_lookup (al_retries (take_up out d i)) i = Some r' \<and> rt_EventID r' = rt_EventID r
        \<and> rt_Attempt r' = rt_Attempt r + 1 \<and> rt_Attempt r' < maxDeliveryRetries)"
proof -
  have "row_after (r\<lparr>rt_ID := i\<rparr>) d (take_up out d i)"
    using retryOne_row [OF assms(1), of "r\<lparr>rt_ID := i\<rparr>" out] assms(2,3)
    by (auto simp: take_up_def silenced_def)
  then show ?thesis
    using assms(2) by (auto simp: row_after_def tbl_lookup_delete tbl_lookup_update)
qed

abbreviation run_steps :: "alerts \<Rightarrow> (outside \<times> int) list \<Rightarrow> alerts" where
  "run_steps \<equiv> foldl (\<lambda>d (out, i). take_up out d i)"

lemma run_steps_gone:
  "tbl_lookup (al_retries d) i = None \<Longrightarrow> tbl_lookup (al_retries (run_steps d steps)) i = None"
proof (induction steps arbitrary: d)
  case (Cons s steps)
  obtain out j where s: "s = (out, j)" by (cases s)
  have "tbl_lookup (al_retries (take_up out d j)) i = None"
    using Cons.prems take_up_other [of i j out d] by (cases "j = i") (simp_all add: take_up_def)
  then show ?case using Cons.IH s by simp
qed simp

lemma run_steps_progress:
  assumes "\<And>q. \<not> al_fails d q" "tbl_lookup (al_retries d) i = Some r" "rt_Attempt r < maxDeliveryRetries"
    and "list_all (\<lambda>(out, j). j = i \<longrightarrow> \<not> silenced out d (rt_EventID r)) steps"
    and "tbl_lookup (al_retries (run_steps d steps)) i = Some r'"
  shows "rt_Attempt r' = rt_Attempt r + int (length (filter (\<lambda>s. snd s = i) steps)) \<and> rt_Attempt r' < maxDeliveryRetries"
  using assms
proof (induction steps arbitrary: d r)
  case (Cons s steps)
  obtain out j where s: "s = (out, j)" by (cases s)
  show ?case
  proof (cases "j = i")
    case True
    then obtain r1 where r1: "tbl_lookup (al_retries (take_up out d i)) i = Some r1" "rt_EventID r1 = rt_EventID r"
        "rt_Attempt r1 = rt_Attempt r + 1" "rt_Attempt r1 < maxDeliveryRetries"
      using take_up_progress [OF Cons.prems(1,2), of out] Cons.prems(4,5) run_steps_gone [of "take_up out d i" i steps]
      by (auto simp: s)
    then show ?thesis
      using Cons.IH [of "take_up out d i" r1] Cons.prems True by (auto simp: s)
  next
    case False
    then show ?thesis
      using Cons.IH [of "take_up out d j" r] Cons.prems by (auto simp: s take_up_other)
  qed
qed simp

lemma retries_wf_attempt:
  "retries_wf d \<Longrightarrow> tbl_lookup (al_retries d) i = Some r \<Longrightarrow> 0 \<le> rt_Attempt r \<and> rt_Attempt r < maxDeliveryRetries"
  by (force simp: retries_wf_def list_all_iff tbl_lookup_def dest: map_of_SomeD)

lemma retries_wf_update:
  assumes "retries_wf d" "al_retries d' = tbl_update i f (al_retries d)"
    and "\<And>r. tbl_lookup (al_retries d) i = Some r \<Longrightarrow> 0 \<le> rt_Attempt (f r) \<and> rt_Attempt (f r) < maxDeliveryRetries"
  shows "retries_wf d'"
proof -
  have "0 \<le> rt_Attempt (snd x) \<and> rt_Attempt (snd x) < maxDeliveryRetries"
    if x: "x \<in> set (tbl_rows (tbl_update i f (al_retries d)))" for x
  proof -
    obtain j r where jr: "(j, r) \<in> set (tbl_rows (al_retries d))" "x = (j, if j = i then f r else r)"
      using x by (auto simp: tbl_update_def)
    then have "tbl_lookup (al_retries d) j = Some r"
      using assms(1) by (auto simp: retries_wf_def tbl_wf_def tbl_lookup_def)
    then show ?thesis using assms(3) [of r] retries_wf_attempt [OF assms(1)] jr(2) by auto
  qed
  then show ?thesis using assms(1,2) by (auto simp: retries_wf_def list_all_iff tbl_wf_update)
qed

lemma retries_wf_delete: "retries_wf d \<Longrightarrow> al_retries d' = tbl_delete i (al_retries d) \<Longrightarrow> retries_wf d'"
proof -
  assume wf: "retries_wf d" and d': "al_retries d' = tbl_delete i (al_retries d)"
  have "tbl_wf (al_retries d')" unfolding d' using wf by (simp add: retries_wf_def tbl_wf_delete)
  moreover have "set (tbl_rows (al_retries d')) \<subseteq> set (tbl_rows (al_retries d))" unfolding d' by (auto simp: tbl_delete_def)
  ultimately show ?thesis using wf by (auto simp: retries_wf_def list_all_iff)
qed

lemma retries_wf_take_up:
  assumes "\<And>q. \<not> al_fails d q" "retries_wf d"
  shows "retries_wf (take_up out d i)"
proof (cases "tbl_lookup (al_retries d) i")
  case None
  then show ?thesis using assms(2) by (simp add: take_up_def)
next
  case (Some r)
  note bound = retries_wf_attempt [OF assms(2) Some]
  have up: "take_up out d i = retryOne out d (r\<lparr>rt_ID := i\<rparr>)" using Some by (simp add: take_up_def)
  from retryOne_row [OF assms(1), of "r\<lparr>rt_ID := i\<rparr>" out] show ?thesis
  proof
    assume "row_after (r\<lparr>rt_ID := i\<rparr>) d (retryOne out d (r\<lparr>rt_ID := i\<rparr>))"
    then consider "al_retries (take_up out d i) = tbl_delete i (al_retries d)"
      | t e where "rt_Attempt r + 1 < maxDeliveryRetries" "al_retries (take_up out d i) = tbl_update i
          (\<lambda>x. x\<lparr>rt_NextAttemptAt := t, rt_LastError := e, rt_Attempt := rt_Attempt x + 1\<rparr>) (al_retries d)"
      unfolding up row_after_def by auto
    then show ?thesis
    proof cases
      case 1
      then show ?thesis using retries_wf_delete [OF assms(2)] by blast
    next
      case (2 t e)
      show ?thesis by (rule retries_wf_update [OF assms(2) 2(2)]) (use 2(1) bound Some in simp)
    qed
  next
    assume "\<exists>ev w t. AlertEventByID d (rt_EventID (r\<lparr>rt_ID := i\<rparr>)) = Ok ev \<and> window_for out ev = Ok (Some w)
        \<and> retryOne out d (r\<lparr>rt_ID := i\<rparr>) = d\<lparr>al_retries := tbl_update (rt_ID (r\<lparr>rt_ID := i\<rparr>))
             (\<lambda>x. x\<lparr>rt_NextAttemptAt := t, rt_LastError := rt_LastError (r\<lparr>rt_ID := i\<rparr>)\<rparr>) (al_retries d)\<rparr>"
    then obtain t where "al_retries (take_up out d i) = tbl_update i
        (\<lambda>x. x\<lparr>rt_NextAttemptAt := t, rt_LastError := rt_LastError r\<rparr>) (al_retries d)"
      unfolding up by auto
    then show ?thesis by (rule retries_wf_update [OF assms(2)]) (use bound Some in simp)
  qed
qed

lemma retries_wf_run: "(\<And>q. \<not> al_fails d q) \<Longrightarrow> retries_wf d \<Longrightarrow> retries_wf (run_steps d steps)"
  by (induction steps arbitrary: d) (auto simp: retries_wf_take_up)


definition quiet :: outside where
  "quiet = \<lparr>o_now = 0, o_nowtext = [], o_zones = (\<lambda>_. None), o_db = demo_db,
     o_windows = \<lparr>m_windows = tbl_empty, m_fails = (\<lambda>_. False)\<rparr>, o_smtp = None, o_errtext = (\<lambda>_. []), o_urlhost = (\<lambda>_. None),
     o_http = (\<lambda>_. Response 503 ''later''),
     o_marshal = (\<lambda>_. ''{}''), o_template = (\<lambda>_ _. None), o_jsonvalid = (\<lambda>_. True), o_starttls = False, o_reply = (\<lambda>_ _. None)\<rparr>"

definition demo_hook :: Webhook where
  "demo_hook = \<lparr>wh_ID = 0, wh_Name = ''chat'', wh_URL = ''https://chat/x'', wh_Method = [], wh_Headers = [], wh_BodyTemplate = [],
     wh_CreatedAt = 0\<rparr>"

definition demo_queue :: alerts where
  "demo_queue = dispatch quiet (snd (CreateWebhook demo_feed demo_hook 0)) 1 ((demo_event 1 ''critical'')\<lparr>ev_ID := 1\<rparr>)"

lemma insert_fails [simp]:
  "al_fails (snd (InsertAlertEvent d ev t)) = al_fails d" "al_fails (snd (CreateWebhook d w t)) = al_fails d"
  "al_fails (snd (EnqueueAlertDeliveryRetry d r t)) = al_fails d"
  by (simp_all add: InsertAlertEvent_def CreateWebhook_def EnqueueAlertDeliveryRetry_def Let_def split: prod.split)

lemma deliver_fails [simp]:
  "al_fails (dispatch out d w ev) = al_fails d" "al_fails (emailNotify out d ev es) = al_fails d"
  by (simp_all add: dispatch_def emailNotify_def enqueueRetry_def enqueueEmailRetry_def Let_def)

lemma demo_queue_fails [simp]: "\<not> al_fails demo_queue q"
  by (simp add: demo_queue_def demo_feed_def no_alerts_def)



section \<open>Silence\<close>

text \<open>A window holds a retry back without spending it. While a window covers the event, taking up
  the row sends nothing and records no delivery; of the row only the time of the next attempt
  changes, by a wait of one to thirty minutes, so its budget is as before.
\<close>

theorem silenced_retry_waits:
  assumes "silenced out d (rt_EventID r)" and "\<not> al_fails d (UpdRetry i)" and "tbl_lookup (al_retries d) i = Some r"
  shows "\<exists>wait. minute \<le> wait \<and> wait \<le> 30 * minute
    \<and> tbl_lookup (al_retries (take_up out d i)) i = Some (r\<lparr>rt_NextAttemptAt := trunc_sec (o_now out + wait)\<rparr>)
    \<and> al_deliveries (take_up out d i) = al_deliveries d \<and> al_events (take_up out d i) = al_events d"
proof -
  obtain ev w where ev: "AlertEventByID d (rt_EventID r) = Ok ev" "window_for out ev = Ok (Some w)"
    using assms(1) by (auto simp: silenced_def split: sum.splits option.splits)
  have up: "take_up out d i = d\<lparr>al_retries := tbl_update i (\<lambda>x. x\<lparr>rt_NextAttemptAt := trunc_sec (o_now out + backoffFor (rt_Attempt r)),
      rt_LastError := rt_LastError r\<rparr>) (al_retries d)\<rparr>"
    using ev assms(2,3) by (simp add: take_up_def retryOne_def RescheduleAlertDeliveryRetry_def)
  have "minute \<le> backoffFor (rt_Attempt r) \<and> backoffFor (rt_Attempt r) \<le> 30 * minute" using backoffFor_range .
  then show ?thesis using assms(3) by (intro exI [of _ "backoffFor (rt_Attempt r)"]) (simp add: up tbl_lookup_update)
qed

definition night :: outside where
  "night = quiet\<lparr>o_now := 738001 * day + 30 * minute, o_windows := quiet_mdb\<rparr>"

theorem silenced_retry_waits_witness:
  "\<exists>wait. minute \<le> wait \<and> wait \<le> 30 * minute
    \<and> tbl_lookup (al_retries (take_up night demo_queue 1)) 1
      = Some ((the (tbl_lookup (al_retries demo_queue) 1))\<lparr>rt_NextAttemptAt := trunc_sec (o_now night + wait)\<rparr>)
    \<and> al_deliveries (take_up night demo_queue 1) = al_deliveries demo_queue
    \<and> al_events (take_up night demo_queue 1) = al_events demo_queue"
proof (rule silenced_retry_waits)
  show "silenced night demo_queue (rt_EventID (the (tbl_lookup (al_retries demo_queue) 1)))" by code_simp
  show "\<not> al_fails demo_queue (UpdRetry 1)" by simp
  show "tbl_lookup (al_retries demo_queue) 1 = Some (the (tbl_lookup (al_retries demo_queue) 1))" by code_simp
qed

section \<open>Secrets in URLs\<close>

fun at_url :: "string \<Rightarrow> go_error \<Rightarrow> go_error" where
  "at_url u (UrlError oper _ (Some c)) = UrlError oper u (Some c)"
| "at_url u e = e"

fun answer_at :: "string \<Rightarrow> post_outcome \<Rightarrow> post_outcome" where
  "answer_at u (BadRequest e) = BadRequest (at_url u e)"
| "answer_at u (Unreachable e) = Unreachable (at_url u e)"
| "answer_at u (Response code body) = Response code body"

lemma redactURL_at [simp]: "redactURL (at_url u e) = redactURL e"
  by (cases "(u, e)" rule: at_url.cases) (simp_all add: redactURL_def)

definition move_webhook :: "int \<Rightarrow> string \<Rightarrow> alerts \<Rightarrow> alerts" where
  "move_webhook i u d = d\<lparr>al_webhooks := tbl_update i (\<lambda>w. w\<lparr>wh_URL := u\<rparr>) (al_webhooks d)\<rparr>"


definition refusing :: outside where
  "refusing = quiet\<lparr>o_urlhost := (\<lambda>_. Some ''chat''), o_http := (\<lambda>r. Unreachable (UrlError ''Post'' (hr_url r) (Some ''connection refused'')))\<rparr>"


section \<open>Headers\<close>

definition no_break :: "string \<Rightarrow> bool" where
  "no_break v \<longleftrightarrow> CHR 0x0D \<notin> set v \<and> CHR 0x0A \<notin> set v"

text \<open>No alert text can forge a mail header. The message is five header lines, an empty line and
  the body; the three lines that carry texts from the settings and the alert rule contain no line
  break whatever these texts are, and a text without line breaks is carried as it is.
\<close>

theorem headers_not_forged:
  "\<exists>f t s. buildMessage sender to subject body = concat (map (\<lambda>l. l @ crlf)
       [''From: '' @ f, ''To: '' @ t, ''Subject: '' @ s, ''MIME-Version: 1.0'', ''Content-Type: text/plain; charset=UTF-8'']) @ crlf @ body
     \<and> no_break f \<and> no_break t \<and> no_break s
     \<and> length f = length sender \<and> length t = length to \<and> length s = length subject
     \<and> (if no_break subject then s = subject else s \<noteq> subject)"
proof (intro exI conjI)
  show "buildMessage sender to subject body = concat (map (\<lambda>l. l @ crlf)
       [''From: '' @ headerValue sender, ''To: '' @ headerValue to, ''Subject: '' @ headerValue subject, ''MIME-Version: 1.0'',
        ''Content-Type: text/plain; charset=UTF-8'']) @ crlf @ body"
    by (simp add: buildMessage_def)
  show nb: "no_break (headerValue sender)" "no_break (headerValue to)" "no_break (headerValue subject)"
    by (auto simp: no_break_def headerValue_def)
  show "length (headerValue sender) = length sender" "length (headerValue to) = length to"
    "length (headerValue subject) = length subject" by (simp_all add: headerValue_def)
  have "headerValue v = v" if "no_break v" for v
    using that by (auto simp: no_break_def headerValue_def intro!: map_idI)
  then show "if no_break subject then headerValue subject = subject else headerValue subject \<noteq> subject"
    using nb(3) by metis
qed

end
