(* ===== verification/History.thy ===== *)
theory History
  imports Complex_Main "HOL-Library.AList" Prelude
begin

text \<open>
  Metric history: the samples and points of \<open>src/internal/history/history.go\<close>, the in-memory
  backend \<open>memory.go\<close> and the reading of counters in \<open>rate.go\<close>. The two Go maps of the
  backend are association lists with distinct keys; readings are rational numbers. The interface
  both backends implement is the locale \<open>history_store\<close>, interpreted on the in-memory one; the
  Redis backend is a client of a service and not modelled.
\<close>

section \<open>history.go\<close>

record Sample =
  sa_ContainerID :: string
  sa_HostID :: int
  sa_Time :: time
  sa_CPU :: rat
  sa_MemPercent :: rat
  sa_MemBytes :: rat
  sa_NetRx :: rat
  sa_NetTx :: rat
  sa_NetDrops :: rat
  sa_NetErrors :: rat

record Point =
  pt_T :: int
  pt_V :: rat

definition MetricCPU :: string where "MetricCPU = ''cpu''"
definition MetricMem :: string where "MetricMem = ''mem''"
definition MetricMemBytes :: string where "MetricMemBytes = ''membytes''"
definition MetricNetRx :: string where "MetricNetRx = ''netrx''"
definition MetricNetTx :: string where "MetricNetTx = ''nettx''"
definition MetricNetDrops :: string where "MetricNetDrops = ''netdrops''"
definition MetricNetErrors :: string where "MetricNetErrors = ''neterrors''"

lemmas metric_defs = MetricCPU_def MetricMem_def MetricMemBytes_def MetricNetRx_def MetricNetTx_def
  MetricNetDrops_def MetricNetErrors_def

definition metricValue :: "Sample \<Rightarrow> string \<Rightarrow> rat \<times> bool" where
  "metricValue s metric =
     (if metric = MetricCPU then (sa_CPU s, True)
      else if metric = MetricMem then (sa_MemPercent s, True)
      else if metric = MetricMemBytes then (sa_MemBytes s, True)
      else if metric = MetricNetRx then (sa_NetRx s, True)
      else if metric = MetricNetTx then (sa_NetTx s, True)
      else if metric = MetricNetDrops then (sa_NetDrops s, True)
      else if metric = MetricNetErrors then (sa_NetErrors s, True)
      else (0, False))"

definition allMetrics :: "string list" where
  "allMetrics = [MetricCPU, MetricMem, MetricMemBytes, MetricNetRx, MetricNetTx, MetricNetDrops, MetricNetErrors]"

section \<open>memory.go\<close>

type_synonym series = "(string \<times> Point list) list"

record memoryStore =
  ms_series :: "(string \<times> series) list"
  ms_hosts :: "(string \<times> int) list"
  ms_retention :: duration

definition newMemoryStore :: "duration \<Rightarrow> memoryStore" where
  "newMemoryStore r = \<lparr>ms_series = [], ms_hosts = [], ms_retention = r\<rparr>"

text \<open>Milliseconds since 1970, from an instant counted in nanoseconds since the year 1.\<close>

definition unix_milli :: "time \<Rightarrow> int" where
  "unix_milli t = t div 1000000 - 62135596800000"

definition points_of :: "series \<Rightarrow> string \<Rightarrow> Point list" where
  "points_of bm metric = (case map_of bm metric of None \<Rightarrow> [] | Some pts \<Rightarrow> pts)"

definition newest :: "series \<Rightarrow> int" where
  "newest bm = foldl (\<lambda>n (_, pts). if pts \<noteq> [] \<and> pt_T (last pts) > n then pt_T (last pts) else n) 0 bm"

definition forgetStale :: "memoryStore \<Rightarrow> int \<Rightarrow> memoryStore" where
  "forgetStale m cutoff =
     (let stale = map fst (filter (\<lambda>(cid, bm). newest bm < cutoff) (ms_series m))
      in m\<lparr>ms_series := filter (\<lambda>(cid, _). cid \<notin> set stale) (ms_series m),
            ms_hosts := filter (\<lambda>(cid, _). cid \<notin> set stale) (ms_hosts m)\<rparr>)"

definition trim :: "int \<Rightarrow> Point list \<Rightarrow> Point list" where
  "trim cutoff pts = dropWhile (\<lambda>p. pt_T p < cutoff) pts"

definition record_metric :: "int \<Rightarrow> Sample \<Rightarrow> series \<Rightarrow> string \<Rightarrow> series" where
  "record_metric cutoff s bm metric =
     AList.update metric (trim cutoff (points_of bm metric
       @ [\<lparr>pt_T = unix_milli (sa_Time s), pt_V = fst (metricValue s metric)\<rparr>])) bm"

definition record_sample :: "int \<Rightarrow> memoryStore \<Rightarrow> Sample \<Rightarrow> memoryStore" where
  "record_sample cutoff m s =
     (let bm = (case map_of (ms_series m) (sa_ContainerID s) of None \<Rightarrow> [] | Some bm \<Rightarrow> bm)
      in m\<lparr>ms_hosts := AList.update (sa_ContainerID s) (sa_HostID s) (ms_hosts m),
           ms_series := AList.update (sa_ContainerID s) (foldl (record_metric cutoff s) bm allMetrics) (ms_series m)\<rparr>)"

definition Record :: "memoryStore \<Rightarrow> Sample list \<Rightarrow> time \<Rightarrow> memoryStore" where
  "Record m samples now =
     (let cutoff = unix_milli (now - ms_retention m)
      in foldl (record_sample cutoff) (forgetStale m cutoff) samples)"

definition series_of :: "memoryStore \<Rightarrow> string \<Rightarrow> string \<Rightarrow> Point list" where
  "series_of m cid metric = (case map_of (ms_series m) cid of None \<Rightarrow> [] | Some bm \<Rightarrow> points_of bm metric)"

text \<open>Points of equal time may come out of Go's sort in either order; here they keep theirs.\<close>

definition Query :: "memoryStore \<Rightarrow> string \<Rightarrow> string \<Rightarrow> time \<Rightarrow> Point list" where
  "Query m cid metric since = sort_key pt_T (filter (\<lambda>p. pt_T p \<ge> unix_milli since) (series_of m cid metric))"

definition QueryAll :: "memoryStore \<Rightarrow> string \<Rightarrow> time \<Rightarrow> string list \<Rightarrow> string \<rightharpoonup> Point list" where
  "QueryAll m metric since ids =
     foldl (\<lambda>out cid.
       let pts = series_of m cid metric; filtered = filter (\<lambda>p. pt_T p \<ge> unix_milli since) pts
       in if pts = [] then out else if filtered = [] then out else out(cid \<mapsto> sort_key pt_T filtered)) Map.empty ids"

definition HostFor :: "memoryStore \<Rightarrow> string \<Rightarrow> int option" where
  "HostFor m cid = map_of (ms_hosts m) cid"

section \<open>rate.go\<close>

fun deltas :: "Point list \<Rightarrow> rat" where
  "deltas (p # q # ps) = (let d = pt_V q - pt_V p in (if d > 0 then d else 0) + deltas (q # ps))"
| "deltas _ = 0"

definition Increase :: "Point list \<Rightarrow> rat option" where
  "Increase points = (if length points < 2 then None else Some (deltas points))"

definition RateOverWindow :: "Point list \<Rightarrow> rat option" where
  "RateOverWindow points =
     (case Increase points of None \<Rightarrow> None
      | Some delta \<Rightarrow>
        let elapsed = of_int (pt_T (last points) - pt_T (hd points)) / 1000
        in if elapsed \<le> 0 then None else Some (delta / elapsed))"

section \<open>The shape of the store\<close>

definition series_wf :: "series \<Rightarrow> bool" where
  "series_wf bm \<longleftrightarrow> map fst bm = allMetrics
     \<and> list_all (\<lambda>(_, pts). map pt_T pts = map pt_T (points_of bm MetricCPU)) bm"

definition store_wf :: "memoryStore \<Rightarrow> bool" where
  "store_wf m \<longleftrightarrow> distinct (map fst (ms_series m)) \<and> distinct (map fst (ms_hosts m))
     \<and> set (map fst (ms_hosts m)) = set (map fst (ms_series m))
     \<and> list_all (\<lambda>(_, bm). series_wf bm) (ms_series m)"

lemma allMetrics_distinct [simp]: "distinct allMetrics" by (simp add: allMetrics_def metric_defs)

lemma points_of_Nil [simp]: "points_of [] x = []" by (simp add: points_of_def)

lemma points_of_map: "x \<in> set xs \<Longrightarrow> points_of (map (\<lambda>y. (y, f y)) xs) x = f x"
  by (induction xs) (auto simp: points_of_def)

text \<open>Recording a sample writes one point to each of the seven series.\<close>

lemma update_all:
  assumes "distinct xs" "bm = [] \<and> f = (\<lambda>_. []) \<or> bm = map (\<lambda>x. (x, f x)) xs"
  shows "foldl (record_metric c s) bm xs
    = map (\<lambda>x. (x, trim c (f x @ [\<lparr>pt_T = unix_milli (sa_Time s), pt_V = fst (metricValue s x)\<rparr>]))) xs"
proof -
  let ?g = "\<lambda>x. trim c (f x @ [\<lparr>pt_T = unix_milli (sa_Time s), pt_V = fst (metricValue s x)\<rparr>])"
  have upd_new: "AList.update x v (map (\<lambda>y. (y, h y)) ys) = map (\<lambda>y. (y, h y)) ys @ [(x, v)]" if "x \<notin> set ys" for x v h ys
    using that by (induction ys) auto
  have upd_old: "AList.update x v (map (\<lambda>y. (y, h y)) ys @ (x, w) # zs) = map (\<lambda>y. (y, h y)) ys @ (x, v) # zs" if "x \<notin> set ys" for x v w h ys zs
    using that by (induction ys) auto
  have pts_old: "points_of (map (\<lambda>y. (y, h y)) ys @ (x, w) # zs) x = w" if "x \<notin> set ys" for x w h ys zs
    using that by (induction ys) (auto simp: points_of_def)
  have pts_new: "points_of (map (\<lambda>y. (y, h y)) ys) x = []" if "x \<notin> set ys" for x h ys
    using that by (induction ys) (auto simp: points_of_def)
  have new: "foldl (record_metric c s) (map (\<lambda>x. (x, trim c [\<lparr>pt_T = unix_milli (sa_Time s), pt_V = fst (metricValue s x)\<rparr>])) ys) zs
      = map (\<lambda>x. (x, trim c [\<lparr>pt_T = unix_milli (sa_Time s), pt_V = fst (metricValue s x)\<rparr>])) (ys @ zs)" if "distinct (ys @ zs)" for ys zs
    using that
  proof (induction zs arbitrary: ys)
    case (Cons z zs)
    then show ?case using Cons.IH [of "ys @ [z]"] by (simp add: record_metric_def upd_new pts_new)
  qed simp
  have old: "foldl (record_metric c s) (map (\<lambda>x. (x, ?g x)) ys @ map (\<lambda>x. (x, f x)) zs) zs = map (\<lambda>x. (x, ?g x)) (ys @ zs)"
    if "distinct (ys @ zs)" for ys zs
    using that
  proof (induction zs arbitrary: ys)
    case (Cons z zs)
    then show ?case using Cons.IH [of "ys @ [z]"] by (simp add: record_metric_def upd_old pts_old)
  qed simp
  from assms(2) show ?thesis
  proof
    assume bm: "bm = [] \<and> f = (\<lambda>_. [])"
    then show ?thesis using new [of "[]" xs] assms(1) by simp
  next
    assume "bm = map (\<lambda>x. (x, f x)) xs"
    then show ?thesis using old [of "[]" xs] assms(1) by simp
  qed
qed

lemma series_as_map:
  assumes "map fst bm = xs" "distinct xs"
  shows "bm = map (\<lambda>x. (x, points_of bm x)) xs"
  using assms
proof (induction bm arbitrary: xs)
  case (Cons b bm)
  then obtain x p where b: "b = (x, p)" by (cases b)
  then obtain ys where xs: "xs = x # ys" "map fst bm = ys" "distinct ys" "x \<notin> set ys" using Cons.prems by auto
  have "bm = map (\<lambda>y. (y, points_of bm y)) ys" using Cons.IH xs by blast
  moreover have "points_of (b # bm) y = points_of bm y" if "y \<in> set ys" for y using that xs(4) b by (auto simp: points_of_def)
  ultimately have "bm = map (\<lambda>y. (y, points_of (b # bm) y)) ys" by (metis (no_types, lifting) map_cong)
  moreover have "points_of (b # bm) x = p" using b by (simp add: points_of_def)
  ultimately show ?case using xs(1) b by simp
qed simp

definition with_sample :: "int \<Rightarrow> Sample \<Rightarrow> series \<Rightarrow> series" where
  "with_sample c s bm = map (\<lambda>x. (x, trim c (points_of bm x @ [\<lparr>pt_T = unix_milli (sa_Time s), pt_V = fst (metricValue s x)\<rparr>]))) allMetrics"

lemma record_series:
  assumes "bm = [] \<or> map fst bm = allMetrics"
  shows "foldl (record_metric c s) bm allMetrics = with_sample c s bm"
proof -
  have "bm = [] \<and> points_of bm = (\<lambda>_. []) \<or> bm = map (\<lambda>x. (x, points_of bm x)) allMetrics"
    using assms series_as_map [OF _ allMetrics_distinct] by auto
  then show ?thesis unfolding with_sample_def by (rule update_all [OF allMetrics_distinct])
qed

lemma trim_times: "map pt_T ps = map pt_T qs \<Longrightarrow> map pt_T (trim c ps) = map pt_T (trim c qs)"
proof (induction ps arbitrary: qs)
  case (Cons p ps)
  then show ?case by (cases qs) (auto simp: trim_def)
qed (simp add: trim_def)

lemma MetricCPU_in [simp]: "MetricCPU \<in> set allMetrics" by (simp add: allMetrics_def)

lemma series_times: "series_wf bm \<Longrightarrow> x \<in> set allMetrics \<Longrightarrow> map pt_T (points_of bm x) = map pt_T (points_of bm MetricCPU)"
proof -
  assume wf: "series_wf bm" and x: "x \<in> set allMetrics"
  have "bm = map (\<lambda>x. (x, points_of bm x)) allMetrics" using wf series_as_map [OF _ allMetrics_distinct] by (auto simp: series_wf_def)
  then have "(x, points_of bm x) \<in> set bm" using x by (metis (mono_tags, lifting) image_eqI list.set_map)
  then show ?thesis using wf by (auto simp: series_wf_def list_all_iff)
qed

lemma with_sample_wf: "bm = [] \<or> series_wf bm \<Longrightarrow> series_wf (with_sample c s bm)"
proof -
  assume bm: "bm = [] \<or> series_wf bm"
  have same: "map pt_T (trim c (points_of bm x @ [\<lparr>pt_T = t, pt_V = v\<rparr>])) = map pt_T (trim c (points_of bm MetricCPU @ [\<lparr>pt_T = t, pt_V = w\<rparr>]))"
    if "x \<in> set allMetrics" for x t v w
    using bm series_times [OF _ that] by (intro trim_times) auto
  have cpu: "points_of (with_sample c s bm) MetricCPU
      = trim c (points_of bm MetricCPU @ [\<lparr>pt_T = unix_milli (sa_Time s), pt_V = fst (metricValue s MetricCPU)\<rparr>])"
    unfolding with_sample_def by (rule points_of_map) simp
  have "map pt_T pts = map pt_T (points_of (with_sample c s bm) MetricCPU)" if "(x, pts) \<in> set (with_sample c s bm)" for x pts
  proof -
    have "x \<in> set allMetrics \<and> pts = trim c (points_of bm x @ [\<lparr>pt_T = unix_milli (sa_Time s), pt_V = fst (metricValue s x)\<rparr>])"
      using that unfolding with_sample_def by auto
    then show ?thesis unfolding cpu using same by blast
  qed
  moreover have "map fst (with_sample c s bm) = allMetrics" by (simp add: with_sample_def comp_def)
  ultimately show ?thesis by (auto simp: series_wf_def list_all_iff)
qed

lemma map_of_wf: "store_wf m \<Longrightarrow> map_of (ms_series m) cid = Some bm \<Longrightarrow> series_wf bm"
  by (auto simp: store_wf_def list_all_iff dest: map_of_SomeD)

lemma record_sample_eq:
  assumes "store_wf m"
  shows "record_sample c m s = m\<lparr>ms_hosts := AList.update (sa_ContainerID s) (sa_HostID s) (ms_hosts m),
    ms_series := AList.update (sa_ContainerID s)
      (with_sample c s (case map_of (ms_series m) (sa_ContainerID s) of None \<Rightarrow> [] | Some bm \<Rightarrow> bm)) (ms_series m)\<rparr>"
proof -
  have "(case map_of (ms_series m) (sa_ContainerID s) of None \<Rightarrow> [] | Some bm \<Rightarrow> bm) = []
      \<or> map fst (case map_of (ms_series m) (sa_ContainerID s) of None \<Rightarrow> [] | Some bm \<Rightarrow> bm) = allMetrics"
    using map_of_wf [OF assms] by (auto simp: series_wf_def split: option.split)
  then show ?thesis by (simp add: record_sample_def Let_def record_series)
qed

lemma set_update: "set (AList.update k v al) \<subseteq> insert (k, v) (set al)"
  by (induction al) auto

lemma record_sample_wf: "store_wf m \<Longrightarrow> store_wf (record_sample c m s)"
proof -
  assume wf: "store_wf m"
  have "series_wf (with_sample c s (case map_of (ms_series m) (sa_ContainerID s) of None \<Rightarrow> [] | Some bm \<Rightarrow> bm))"
    using map_of_wf [OF wf] by (intro with_sample_wf) (auto split: option.split)
  then have "list_all (\<lambda>(_, bm). series_wf bm) (ms_series (record_sample c m s))"
    using wf subsetD [OF set_update] by (fastforce simp: record_sample_eq [OF wf] store_wf_def list_all_iff)
  moreover have "fst ` set (ms_hosts (record_sample c m s)) = fst ` set (ms_series (record_sample c m s))"
    using wf by (simp add: record_sample_eq store_wf_def dom_update)
  moreover have "distinct (map fst (ms_series (record_sample c m s)))" "distinct (map fst (ms_hosts (record_sample c m s)))"
    using wf by (simp_all add: record_sample_eq store_wf_def distinct_update)
  ultimately show ?thesis by (simp add: store_wf_def)
qed

lemma forgetStale_wf: "store_wf m \<Longrightarrow> store_wf (forgetStale m c)"
proof -
  assume wf: "store_wf m"
  let ?S = "set (map fst (filter (\<lambda>(cid, bm). newest bm < c) (ms_series m)))"
  have "fst ` set (filter (\<lambda>(k, _). k \<notin> S) (ms_hosts m)) = fst ` set (ms_hosts m) - S"
    "fst ` set (filter (\<lambda>(k, _). k \<notin> S) (ms_series m)) = fst ` set (ms_series m) - S" for S by force+
  note keys = this [of ?S]
  have m: "forgetStale m c = m\<lparr>ms_series := filter (\<lambda>(k, _). k \<notin> ?S) (ms_series m), ms_hosts := filter (\<lambda>(k, _). k \<notin> ?S) (ms_hosts m)\<rparr>"
    by (simp add: forgetStale_def Let_def)
  have eq: "fst ` set (ms_hosts m) = fst ` set (ms_series m)" using wf by (simp add: store_wf_def)
  have "list_all (\<lambda>(_, bm). series_wf bm) (filter P (ms_series m))" for P using wf by (auto simp: store_wf_def list_all_iff)
  moreover have "distinct (map fst (filter P (ms_series m)))" "distinct (map fst (filter Q (ms_hosts m)))" for P Q
    using wf by (simp_all add: store_wf_def distinct_map_filter)
  moreover have "fst ` set (filter (\<lambda>(k, _). k \<notin> ?S) (ms_hosts m)) = fst ` set (filter (\<lambda>(k, _). k \<notin> ?S) (ms_series m))"
    unfolding keys eq ..
  ultimately show ?thesis unfolding m store_wf_def by (simp del: set_filter)
qed

lemma Record_wf: "store_wf m \<Longrightarrow> store_wf (Record m ss now)"
proof -
  assume wf: "store_wf m"
  have "store_wf (foldl (record_sample c) m' ss)" if "store_wf m'" for c m'
    using that by (induction ss arbitrary: m') (auto intro: record_sample_wf)
  then show ?thesis using forgetStale_wf [OF wf] by (simp add: Record_def Let_def)
qed

text \<open>C36. The in-memory history keeps its shape. Whatever batches are recorded at whatever instants, the
  same containers have series and a known host, each once; each has exactly the seven metrics, and
  the seven series of a container have their points at the same instants.
\<close>

theorem history_shape:
  "store_wf (foldl (\<lambda>m (samples, now). Record m samples now) (newMemoryStore retention) batches)"
proof -
  have "store_wf (foldl (\<lambda>m (samples, now). Record m samples now) m batches)" if "store_wf m" for m
    using that by (induction batches arbitrary: m) (auto intro: Record_wf)
  moreover have "store_wf (newMemoryStore retention)" by (simp add: store_wf_def newMemoryStore_def)
  ultimately show ?thesis .
qed

section \<open>What a recorded sample reads back as\<close>

lemma series_of_record:
  assumes "store_wf m" "x \<in> set allMetrics"
  shows "series_of (record_sample c m s) cid x = (if cid = sa_ContainerID s
    then trim c (series_of m cid x @ [\<lparr>pt_T = unix_milli (sa_Time s), pt_V = fst (metricValue s x)\<rparr>]) else series_of m cid x)"
  using assms(2) by (auto simp: series_of_def record_sample_eq [OF assms(1)] update_conv with_sample_def points_of_map
      split: option.split)

lemma series_of_records:
  assumes "store_wf m" "x \<in> set allMetrics" "cid \<notin> sa_ContainerID ` set ss"
  shows "series_of (foldl (record_sample c) m ss) cid x = series_of m cid x"
  using assms by (induction ss arbitrary: m) (auto simp: series_of_record record_sample_wf)

lemma series_of_batch:
  assumes "store_wf m" "x \<in> set allMetrics" "distinct (map sa_ContainerID ss)" "s \<in> set ss"
  shows "series_of (foldl (record_sample c) m ss) (sa_ContainerID s) x
    = trim c (series_of m (sa_ContainerID s) x @ [\<lparr>pt_T = unix_milli (sa_Time s), pt_V = fst (metricValue s x)\<rparr>])"
  using assms
proof (induction ss arbitrary: m)
  case (Cons s' ss)
  show ?case
  proof (cases "s' = s")
    case True
    then have "sa_ContainerID s \<notin> sa_ContainerID ` set ss" using Cons.prems(3) by auto
    then show ?thesis using True Cons.prems(1,2) by (simp add: series_of_records record_sample_wf series_of_record)
  next
    case False
    then have s: "s \<in> set ss" "sa_ContainerID s \<noteq> sa_ContainerID s'"
      using Cons.prems(3,4) by (auto simp: image_iff)
    then show ?thesis
      using Cons.IH [OF record_sample_wf [OF Cons.prems(1)] Cons.prems(2)] Cons.prems(1-3) by (simp add: series_of_record)
  qed
qed simp

lemma map_of_kept: "map_of (filter (\<lambda>(k, _). P k) xs) k = (if P k then map_of xs k else None)"
  by (induction xs) auto

lemma series_of_forget: "series_of (forgetStale m c) cid x = series_of m cid x \<or> series_of (forgetStale m c) cid x = []"
  by (simp add: series_of_def forgetStale_def Let_def map_of_kept)

lemma hosts_of_records:
  "cid \<notin> sa_ContainerID ` set ss \<Longrightarrow> map_of (ms_hosts (foldl (record_sample c) m ss)) cid = map_of (ms_hosts m) cid"
  by (induction ss arbitrary: m) (auto simp: record_sample_def Let_def update_conv)

lemma hosts_of_batch:
  "distinct (map sa_ContainerID ss) \<Longrightarrow> s \<in> set ss
    \<Longrightarrow> map_of (ms_hosts (foldl (record_sample c) m ss)) (sa_ContainerID s) = Some (sa_HostID s)"
  by (induction ss arbitrary: m) (auto simp: hosts_of_records record_sample_def Let_def update_conv)

lemma insort_below: "f x \<le> f p \<Longrightarrow> insort_key f x (ys @ [p]) = insort_key f x ys @ [p]"
  by (induction ys) auto

lemma sort_key_snoc: "(\<And>x. x \<in> set xs \<Longrightarrow> f x \<le> f p) \<Longrightarrow> sort_key f (xs @ [p]) = sort_key f xs @ [p]"
  by (induction xs) (simp_all add: insort_below)

lemma trim_snoc: "\<not> pt_T p < c \<Longrightarrow> \<exists>qs. trim c (ps @ [p]) = qs @ [p] \<and> set qs \<subseteq> set ps"
  unfolding trim_def by (induction ps) auto

lemma unix_milli_mono: "t \<le> u \<Longrightarrow> unix_milli t \<le> unix_milli u"
  by (simp add: unix_milli_def zdiv_mono1)

text \<open>A recorded sample is what the next reading ends with. For a batch with one sample per
  container, taken within the retention and not before earlier samples, each of the seven queries
  of the container returns, as its last point, the sample's instant and value, whatever the batch
  dropped or trimmed; the container's host is the sample's.
\<close>

theorem history_roundtrip:
  assumes "store_wf m" and "distinct (map sa_ContainerID ss)" and "s \<in> set ss" and "metric \<in> set allMetrics"
    and "now - ms_retention m \<le> sa_Time s" and "since \<le> sa_Time s"
    and "list_all (\<lambda>p. pt_T p \<le> unix_milli (sa_Time s)) (series_of m (sa_ContainerID s) metric)"
  shows "\<exists>before. Query (Record m ss now) (sa_ContainerID s) metric since
      = before @ [\<lparr>pt_T = unix_milli (sa_Time s), pt_V = fst (metricValue s metric)\<rparr>]
    \<and> HostFor (Record m ss now) (sa_ContainerID s) = Some (sa_HostID s)"
proof -
  let ?c = "unix_milli (now - ms_retention m)" and ?p = "\<lparr>pt_T = unix_milli (sa_Time s), pt_V = fst (metricValue s metric)\<rparr>"
  let ?old = "series_of (forgetStale m ?c) (sa_ContainerID s) metric"
  have series: "series_of (Record m ss now) (sa_ContainerID s) metric = trim ?c (?old @ [?p])"
    unfolding Record_def Let_def by (rule series_of_batch [OF forgetStale_wf [OF assms(1)] assms(4,2,3)])
  obtain qs where qs: "trim ?c (?old @ [?p]) = qs @ [?p]" "set qs \<subseteq> set ?old"
    using trim_snoc [of ?p ?c ?old] unix_milli_mono [OF assms(5)] by auto
  have "pt_T q \<le> pt_T ?p" if "q \<in> set qs" for q
    using that qs(2) assms(7) series_of_forget [of m ?c "sa_ContainerID s" metric] by (auto simp: list_all_iff)
  then have "sort_key pt_T (filter (\<lambda>p. pt_T p \<ge> unix_milli since) qs @ [?p])
      = sort_key pt_T (filter (\<lambda>p. pt_T p \<ge> unix_milli since) qs) @ [?p]"
    by (intro sort_key_snoc) simp
  then have "Query (Record m ss now) (sa_ContainerID s) metric since
      = sort_key pt_T (filter (\<lambda>p. pt_T p \<ge> unix_milli since) qs) @ [?p]"
    using unix_milli_mono [OF assms(6)] by (simp add: Query_def series qs(1))
  moreover have "HostFor (Record m ss now) (sa_ContainerID s) = Some (sa_HostID s)"
    unfolding HostFor_def Record_def Let_def by (rule hosts_of_batch [OF assms(2,3)])
  ultimately show ?thesis by blast
qed

definition demo_sample :: "string \<Rightarrow> time \<Rightarrow> Sample" where
  "demo_sample cid t = \<lparr>sa_ContainerID = cid, sa_HostID = 1, sa_Time = t, sa_CPU = 3, sa_MemPercent = 1, sa_MemBytes = 1,
     sa_NetRx = 0, sa_NetTx = 0, sa_NetDrops = 5, sa_NetErrors = 0\<rparr>"

theorem history_roundtrip_witness:
  "\<exists>before. Query (Record (newMemoryStore hour) [demo_sample ''a'' 0, demo_sample ''b'' 0] 0) ''b'' ''netdrops'' 0
      = before @ [\<lparr>pt_T = unix_milli 0, pt_V = 5\<rparr>]
    \<and> HostFor (Record (newMemoryStore hour) [demo_sample ''a'' 0, demo_sample ''b'' 0] 0) ''b'' = Some 1"
  using history_roundtrip [of "newMemoryStore hour" "[demo_sample ''a'' 0, demo_sample ''b'' 0]" "demo_sample ''b'' 0" "''netdrops''" 0 0]
  by (simp add: demo_sample_def store_wf_def newMemoryStore_def series_of_def allMetrics_def metric_defs metricValue_def time_units)

section \<open>Reading counters\<close>

lemma deltas_sum: "deltas ps = sum_list (map (\<lambda>(p, q). max 0 (pt_V q - pt_V p)) (zip ps (tl ps)))"
  by (induction ps rule: deltas.induct) (auto simp: Let_def max_def)

lemma deltas_nonneg: "0 \<le> deltas ps"
  by (induction ps rule: deltas.induct) (auto simp: Let_def)

lemma deltas_net: "ps \<noteq> [] \<Longrightarrow> pt_V (last ps) - pt_V (hd ps) \<le> deltas ps"
  by (induction ps rule: deltas.induct) (auto simp: Let_def)

lemma deltas_monotone: "ps \<noteq> [] \<Longrightarrow> sorted (map pt_V ps) \<Longrightarrow> deltas ps = pt_V (last ps) - pt_V (hd ps)"
  by (induction ps rule: deltas.induct) (auto simp: Let_def)

lemma Increase_Some: "Increase ps = Some x \<Longrightarrow> ps \<noteq> [] \<and> x = deltas ps \<and> 2 \<le> length ps"
  by (auto simp: Increase_def split: if_splits)

section \<open>The interface of the backends\<close>

text \<open>What the alert engine and the charts rely on, whichever backend is configured: readings are
  in order and within the window, and reading many containers at once is the same as reading each.\<close>

locale history_store =
  fixes query :: "'h \<Rightarrow> string \<Rightarrow> string \<Rightarrow> time \<Rightarrow> Point list"
    and query_all :: "'h \<Rightarrow> string \<Rightarrow> time \<Rightarrow> string list \<Rightarrow> string \<rightharpoonup> Point list"
  assumes query_sorted: "sorted (map pt_T (query h cid metric since))"
    and query_since: "p \<in> set (query h cid metric since) \<Longrightarrow> unix_milli since \<le> pt_T p"
    and query_all_query: "query_all h metric since ids cid
          = (if cid \<in> set ids \<and> query h cid metric since \<noteq> [] then Some (query h cid metric since) else None)"
begin

definition batched :: "'h \<Rightarrow> string \<Rightarrow> time \<Rightarrow> string list \<Rightarrow> string \<Rightarrow> Point list" where
  "batched h metric since ids cid = (case query_all h metric since ids cid of None \<Rightarrow> [] | Some pts \<Rightarrow> pts)"

lemma batched_increase:
  "Increase (batched h metric since ids cid) = (if cid \<in> set ids then Increase (query h cid metric since) else None)"
  by (simp add: batched_def query_all_query Increase_def)

lemma sorted_ends: "sorted (map f ps) \<Longrightarrow> ps \<noteq> [] \<Longrightarrow> f (hd ps) \<le> f (last ps)"
  by (cases ps) auto

lemma rate_defined:
  assumes "RateOverWindow (query h cid metric since) = Some r"
  shows "0 \<le> r \<and> pt_T (hd (query h cid metric since)) < pt_T (last (query h cid metric since))"
proof -
  obtain x where x: "Increase (query h cid metric since) = Some x"
    using assms by (auto simp: RateOverWindow_def split: option.splits)
  then have "r = x / (of_int (pt_T (last (query h cid metric since)) - pt_T (hd (query h cid metric since))) / 1000)"
    "pt_T (hd (query h cid metric since)) < pt_T (last (query h cid metric since))"
    using assms by (auto simp: RateOverWindow_def Let_def divide_le_0_iff split: if_splits)
  then show ?thesis using Increase_Some [OF x] deltas_nonneg by (simp add: divide_nonneg_pos)
qed

lemma rate_undefined:
  assumes "RateOverWindow (query h cid metric since) = None"
  shows "length (query h cid metric since) < 2
    \<or> pt_T (hd (query h cid metric since)) = pt_T (last (query h cid metric since))"
proof (cases "Increase (query h cid metric since)")
  case None
  then show ?thesis by (auto simp: Increase_def split: if_splits)
next
  case (Some x)
  then have "pt_T (last (query h cid metric since)) \<le> pt_T (hd (query h cid metric since))"
    using assms by (auto simp: RateOverWindow_def Let_def divide_le_0_iff split: if_splits)
  then show ?thesis using sorted_ends [OF query_sorted] Increase_Some [OF Some] by fastforce
qed

end

lemma sort_key_empty: "sort_key f xs = [] \<longleftrightarrow> xs = []"
  by (metis length_0_conv length_sort)

lemma QueryAll_Query:
  "QueryAll m metric since ids cid
    = (if cid \<in> set ids \<and> Query m cid metric since \<noteq> [] then Some (Query m cid metric since) else None)"
proof -
  let ?step = "\<lambda>out cid. let pts = series_of m cid metric; filtered = filter (\<lambda>p. pt_T p \<ge> unix_milli since) pts
       in if pts = [] then out else if filtered = [] then out else out(cid \<mapsto> sort_key pt_T filtered)"
  have "foldl ?step out ids cid = (if cid \<in> set ids \<and> Query m cid metric since \<noteq> [] then Some (Query m cid metric since) else out cid)" for out
  proof (induction ids arbitrary: out)
    case (Cons i ids)
    have "?step out i = (if Query m i metric since = [] then out else out(i \<mapsto> Query m i metric since))"
      using sort_key_empty by (auto simp: Query_def Let_def)
    then show ?case using Cons.IH [of "?step out i"] by auto
  qed simp
  then show ?thesis by (simp add: QueryAll_def)
qed

interpretation memory: history_store Query QueryAll
proof
  fix h :: memoryStore and cid metric since ids p
  show "sorted (map pt_T (Query h cid metric since))" by (simp add: Query_def)
  show "p \<in> set (Query h cid metric since) \<Longrightarrow> unix_milli since \<le> pt_T p" by (auto simp: Query_def)
  show "QueryAll h metric since ids cid
      = (if cid \<in> set ids \<and> Query h cid metric since \<noteq> [] then Some (Query h cid metric since) else None)"
    by (rule QueryAll_Query)
qed

text \<open>A counter's increase is the sum of its rises. The increase over two or more points is the sum
  of the positive steps, so a counter reset adds nothing and never subtracts; it is at least the
  difference between the ends, and a rate is defined exactly when the window has two instants.
\<close>

theorem counter_increase:
  "(case Increase pts of None \<Rightarrow> length pts < 2
    | Some x \<Rightarrow> x = sum_list (map (\<lambda>(p, q). max 0 (pt_V q - pt_V p)) (zip pts (tl pts)))
        \<and> 0 \<le> x \<and> pt_V (last pts) - pt_V (hd pts) \<le> x)
   \<and> (case RateOverWindow (Query m cid metric since) of
        None \<Rightarrow> length (Query m cid metric since) < 2
          \<or> pt_T (hd (Query m cid metric since)) = pt_T (last (Query m cid metric since))
      | Some r \<Rightarrow> 0 \<le> r)"
proof
  show "case Increase pts of None \<Rightarrow> length pts < 2
    | Some x \<Rightarrow> x = sum_list (map (\<lambda>(p, q). max 0 (pt_V q - pt_V p)) (zip pts (tl pts)))
        \<and> 0 \<le> x \<and> pt_V (last pts) - pt_V (hd pts) \<le> x"
    using deltas_nonneg [of pts] deltas_net [of pts] by (cases "pts = []") (auto simp: Increase_def deltas_sum)
  show "case RateOverWindow (Query m cid metric since) of
        None \<Rightarrow> length (Query m cid metric since) < 2
          \<or> pt_T (hd (Query m cid metric since)) = pt_T (last (Query m cid metric since))
      | Some r \<Rightarrow> 0 \<le> r"
    using memory.rate_undefined [of m cid metric since] memory.rate_defined [of m cid metric since] by (auto split: option.split)
qed

end
