(* ===== verification/Monitor.thy ===== *)
theory Monitor
  imports Delivery History
begin

text \<open>
  The alert engine, first part: rule configurations (\<open>src/internal/monitor/config.go\<close>) and, of
  \<open>monitor.go\<close>, sampling, the edge-triggered rules (container events, restarts, log lines,
  network counters), firing with its cooldown, and host reachability. The conditions of resource
  rules are in the theory \<open>Conditions\<close>.

  A state is the record \<open>Monitor\<close>: the alert tables and the engine's maps. The clock is read
  once per call. What the daemon, the history backend and the formatting of the standard library
  answer is the record \<open>engine\<close>. A Go map that the code iterates is an association list, its
  order standing for the order of the iteration; the process log is left out. Uint64 counters are
  64-bit words, floating-point numbers are rationals.
\<close>

section \<open>config.go\<close>

record resourceConfig =
  rc_Metric :: string
  rc_Op :: string
  rc_Threshold :: rat
  rc_DurationSec :: int

definition metricKey :: "resourceConfig \<Rightarrow> string" where
  "metricKey c = (if rc_Metric c = ''cpu_total'' then ''cpu'' else rc_Metric c)"

definition exceeds :: "resourceConfig \<Rightarrow> rat \<Rightarrow> bool" where
  "exceeds c v \<longleftrightarrow> (if rc_Op c = ''<'' then v < rc_Threshold c else v > rc_Threshold c)"

definition parseResource :: "json_config option \<Rightarrow> resourceConfig option" where
  "parseResource s = (case s of None \<Rightarrow> None
     | Some j \<Rightarrow> Some \<lparr>rc_Metric = or_default (jc_metric j) ''cpu'', rc_Op = or_default (jc_op j) ''>'',
         rc_Threshold = jc_threshold j, rc_DurationSec = (if jc_durationSec j \<le> 0 then 30 else jc_durationSec j)\<rparr>)"

definition parseState :: "json_config option \<Rightarrow> string list option" where
  "parseState s = (case s of None \<Rightarrow> None | Some j \<Rightarrow> Some (jc_events j))"

definition state_matches :: "string list \<Rightarrow> string \<Rightarrow> bool" where
  "state_matches events action \<longleftrightarrow> list_ex (\<lambda>e. e = action) events"

record restartConfig =
  re_WindowSec :: int
  re_Count :: int

definition parseRestart :: "json_config option \<Rightarrow> restartConfig option" where
  "parseRestart s = (case s of None \<Rightarrow> None
     | Some j \<Rightarrow> Some \<lparr>re_WindowSec = (if jc_windowSec j \<le> 0 then 60 else jc_windowSec j),
         re_Count = (if jc_count j \<le> 0 then 3 else jc_count j)\<rparr>)"

record networkConfig =
  nc_Metric :: string
  nc_Threshold :: rat
  nc_WindowSec :: int

definition parseNetwork :: "json_config option \<Rightarrow> networkConfig option" where
  "parseNetwork s = (case s of None \<Rightarrow> None
     | Some j \<Rightarrow> Some \<lparr>nc_Metric = or_default (jc_metric j) ''netdrops'',
         nc_Threshold = (if jc_threshold j \<le> 0 then 1 else jc_threshold j),
         nc_WindowSec = (if jc_windowSec j \<le> 0 then 300 else jc_windowSec j)\<rparr>)"

datatype logMatcher = MatchSubstr string | MatchRegexp "string \<Rightarrow> bool"

definition parseLog :: "(string \<Rightarrow> (string \<Rightarrow> bool) option) \<Rightarrow> json_config option \<Rightarrow> logMatcher option" where
  "parseLog compile s =
     (case s of None \<Rightarrow> None
      | Some j \<Rightarrow>
        if jc_pattern j = [] then None
        else if jc_isRegex j then (case compile (jc_pattern j) of None \<Rightarrow> None | Some re \<Rightarrow> Some (MatchRegexp re))
        else Some (MatchSubstr (jc_pattern j)))"

fun log_match :: "logMatcher \<Rightarrow> string \<Rightarrow> bool" where
  "log_match (MatchRegexp re) s = re s"
| "log_match (MatchSubstr sub) s = contains (to_lower s) (to_lower sub)"

section \<open>The engine's state\<close>

record ContainerStat =
  cs_HostID :: int
  cs_HostName :: string
  cs_ID :: string
  cs_Name :: string
  cs_State :: string
  cs_Project :: string
  cs_CPUPercent :: rat
  cs_CPUCores :: rat
  cs_MemBytes :: "64 word"
  cs_MemLimit :: "64 word"
  cs_MemPercent :: rat
  cs_NetRx :: "64 word"
  cs_NetTx :: "64 word"
  cs_NetDrops :: "64 word"
  cs_NetErrors :: "64 word"
  cs_NetRxRate :: rat
  cs_NetTxRate :: rat
  cs_NetRxRateOK :: bool
  cs_NetTxRateOK :: bool
  cs_Sampled :: bool

record HostHealth =
  hh_Reachable :: bool
  hh_Since :: time
  hh_LastCheck :: time
  hh_Err :: string

record Event =
  e_Action :: string
  e_ContainerID :: string
  e_ContainerName :: string
  e_Project :: string

record ContainerSummary =
  ct_ID :: string
  ct_Name :: string
  ct_State :: string
  ct_Labels :: "(string \<times> string) list"

record StatsSample =
  ss_CPUPercent :: rat
  ss_CPUCores :: rat
  ss_MemUsage :: "64 word"
  ss_MemLimit :: "64 word"
  ss_MemPercent :: rat
  ss_NetRx :: "64 word"
  ss_NetTx :: "64 word"
  ss_NetRxDropped :: "64 word"
  ss_NetTxDropped :: "64 word"
  ss_NetRxErrors :: "64 word"
  ss_NetTxErrors :: "64 word"

type_synonym snapshot = "(string \<times> ContainerStat) list"

record Monitor =
  mo_alerts :: alerts
  mo_history :: "memoryStore option"
  mo_snapshot :: snapshot
  mo_snapshotAt :: time
  mo_cooldowns :: "string \<rightharpoonup> time"
  mo_overSince :: "string \<rightharpoonup> time"
  mo_restarts :: "string \<Rightarrow> time list"
  mo_logCancels :: "string list"
  mo_health :: "int \<rightharpoonup> HostHealth"

record engine =
  en_containers :: "int \<Rightarrow> ContainerSummary list option"
  en_stats :: "int \<Rightarrow> string \<Rightarrow> StatsSample option"
  en_ping :: "int \<Rightarrow> string option"
  en_historyFails :: "string \<Rightarrow> int \<Rightarrow> bool"
  en_compile :: "string \<Rightarrow> (string \<Rightarrow> bool) option"
  en_quote :: "string \<Rightarrow> string"
  en_duration :: "duration \<Rightarrow> string"

definition metric :: "ContainerStat \<Rightarrow> string \<Rightarrow> rat \<times> bool" where
  "metric cs name =
     (if name = ''mem'' then (cs_MemPercent cs, True)
      else if name = ''cpu_total'' then
        (if cs_CPUCores cs \<le> 0 then (0, False) else (cs_CPUPercent cs / cs_CPUCores cs, True))
      else if name = ''netrx_rate'' then (cs_NetRxRate cs, cs_NetRxRateOK cs)
      else if name = ''nettx_rate'' then (cs_NetTxRate cs, cs_NetTxRateOK cs)
      else (cs_CPUPercent cs, True))"

definition local_host :: Host where
  "local_host = \<lparr>h_ID = 0, h_Name = ''local'', h_Kind = [], h_Address = [], h_TLSCA = [], h_TLSCert = [], h_TLSKey = [],
     h_HostKey = [], h_AlertEmail = [], h_Disabled = False, h_CreatedAt = 0\<rparr>"

definition monitoredHosts :: "outside \<Rightarrow> Host list" where
  "monitoredHosts out =
     (case ListHosts (o_db out) of
        Inl _ \<Rightarrow> [local_host]
      | Inr hosts \<Rightarrow> if hosts = [] then [local_host] else filter (\<lambda>h. \<not> h_Disabled h) hosts)"

section \<open>Texts\<close>

definition round_half_even :: "rat \<Rightarrow> int" where
  "round_half_even x =
     (let f = \<lfloor>x\<rfloor>; d = x - of_int f
      in if d < 1 / 2 then f else if d > 1 / 2 then f + 1 else if even f then f else f + 1)"

text \<open>\<open>%.1f\<close> and \<open>%.0f\<close>.\<close>

definition fmt1 :: "rat \<Rightarrow> string" where
  "fmt1 x = (let n = round_half_even (\<bar>x\<bar> * 10)
     in (if x < 0 then ''-'' else []) @ show_int (n div 10) @ ''.'' @ show_int (n mod 10))"

definition fmt0 :: "rat \<Rightarrow> string" where
  "fmt0 x = (if x < 0 then ''-'' else []) @ show_int (round_half_even \<bar>x\<bar>)"

definition to_uint64 :: "rat \<Rightarrow> 64 word" where
  "to_uint64 v = word_of_int (if v < 0 then - \<lfloor>- v\<rfloor> else \<lfloor>v\<rfloor>)"

fun scaled :: "rat \<Rightarrow> string list \<Rightarrow> string" where
  "scaled f [] = fmt1 f @ '' EiB''"
| "scaled f (u # us) = (let f1 = f / 1024 in if f1 < 1024 then fmt1 f1 @ '' '' @ u else scaled f1 us)"

definition humanBytes :: "64 word \<Rightarrow> string" where
  "humanBytes b = (if uint b < 1024 then show_int (uint b) @ '' B''
     else scaled (of_int (uint b)) [''KiB'', ''MiB'', ''GiB'', ''TiB'', ''PiB''])"

definition humanDuration :: "int \<Rightarrow> string" where
  "humanDuration s =
     (if s < 60 then show_int s @ ''s''
      else if s < 3600 then show_int (s div 60) @ ''m '' @ show_int (s mod 60) @ ''s''
      else show_int (s div 3600) @ ''h '' @ show_int (s mod 3600 div 60) @ ''m'')"

definition networkMetricLabel :: "string \<Rightarrow> string" where
  "networkMetricLabel m = (if m = ''neterrors'' then ''interface errors'' else ''dropped packets'')"

definition resourceMessage :: "resourceConfig \<Rightarrow> ContainerStat \<Rightarrow> rat \<Rightarrow> string" where
  "resourceMessage cfg cs val =
     (let tail = '' '' @ rc_Op cfg @ '' '' @ fmt0 (rc_Threshold cfg) @ ''% for '' @ show_int (rc_DurationSec cfg) @ ''s''
      in if rc_Metric cfg = ''mem'' then
           (if cs_MemLimit cs > 0
            then ''MEM '' @ humanBytes (cs_MemBytes cs) @ '' / '' @ humanBytes (cs_MemLimit cs) @ '' ('' @ fmt1 val @ ''% of limit)'' @ tail
            else ''MEM '' @ humanBytes (cs_MemBytes cs) @ '' ('' @ fmt1 val @ ''%)'' @ tail)
         else if rc_Metric cfg = ''cpu_total'' then ''CPU '' @ fmt1 val @ ''% of '' @ fmt0 (cs_CPUCores cs) @ '' cores'' @ tail
         else if rc_Metric cfg = ''netrx_rate'' \<or> rc_Metric cfg = ''nettx_rate'' then
           (if rc_Metric cfg = ''nettx_rate'' then ''TX'' else ''RX'') @ '' '' @ humanBytes (to_uint64 val) @ ''/s '' @ rc_Op cfg @ '' ''
             @ humanBytes (to_uint64 (rc_Threshold cfg)) @ ''/s for '' @ show_int (rc_DurationSec cfg) @ ''s''
         else ''CPU '' @ fmt1 val @ ''% of one core ('' @ fmt0 (cs_CPUCores cs) @ '' cores available)'' @ tail)"

definition severityRank :: "string \<Rightarrow> int" where
  "severityRank s = (if s = ''critical'' then 3 else if s = ''warning'' then 2 else if s = ''info'' then 1 else 0)"

definition stateKey :: "int \<Rightarrow> string \<Rightarrow> string \<Rightarrow> string" where
  "stateKey hostID cid m = show_int hostID @ '':'' @ cid @ '':'' @ m"

definition ruleKey :: "int \<Rightarrow> string \<Rightarrow> string" where
  "ruleKey ruleID cid = join '':'' [show_int ruleID, cid]"

definition matchTarget :: "string \<Rightarrow> string \<Rightarrow> bool" where
  "matchTarget target name \<longleftrightarrow>
     (let target = trim_space target in if target = [] \<or> target = ''*'' then True else contains name target)"

definition truncate_text :: "string \<Rightarrow> nat \<Rightarrow> string" where
  "truncate_text s n = (if length s > n then take n s @ ellipsis else s)"

section \<open>Firing\<close>

text \<open>The window that silences an alert of a rule; an error of the lookup counts as none.\<close>

definition rule_window :: "outside \<Rightarrow> AlertRule \<Rightarrow> int \<Rightarrow> string \<Rightarrow> string \<Rightarrow> MaintenanceWindow option" where
  "rule_window out r hostID project name =
     (case FindActiveMaintenanceWindow (o_zones out) (o_db out) (o_windows out) hostID project name (ar_ID r)
             (if ar_Severity r = [] then ''info'' else ar_Severity r) (o_now out) of
        Inl _ \<Rightarrow> None | Inr w \<Rightarrow> w)"

definition silencedNow :: "outside \<Rightarrow> int \<Rightarrow> string \<Rightarrow> string \<Rightarrow> AlertRule \<Rightarrow> bool" where
  "silencedNow out hostID project name r \<longleftrightarrow> rule_window out r hostID project name \<noteq> None"

definition alert_event ::
    "AlertRule \<Rightarrow> int \<Rightarrow> string \<Rightarrow> string \<Rightarrow> string \<Rightarrow> string \<Rightarrow> string \<Rightarrow> rat option \<Rightarrow> string \<Rightarrow> int
     \<Rightarrow> MaintenanceWindow option \<Rightarrow> AlertEvent" where
  "alert_event r hostID hostName cid name project message value kind durationSec win =
     \<lparr>ev_ID = 0, ev_RuleID = ar_ID r, ev_RuleName = ar_Name r, ev_Type = ar_Type r, ev_Severity = ar_Severity r,
      ev_HostID = hostID, ev_HostName = hostName, ev_ContainerID = cid, ev_ContainerName = name, ev_Project = project,
      ev_Message = message, ev_Value = value, ev_Acknowledged = False, ev_CreatedAt = 0, ev_Kind = kind,
      ev_DurationSec = durationSec, ev_AcknowledgedBy = [], ev_AcknowledgedAt = None, ev_Suppressed = (win \<noteq> None),
      ev_SuppressedBy = (case win of None \<Rightarrow> 0 | Some w \<Rightarrow> w_ID w), ev_Repeats = 0, ev_LastRepeatAt = None, ev_Ongoing = False\<rparr>"

definition deliver :: "outside \<Rightarrow> alerts \<Rightarrow> AlertRule \<Rightarrow> AlertEvent \<Rightarrow> alerts" where
  "deliver out d r ev =
     (let d1 = (case ar_WebhookID r of None \<Rightarrow> d | Some w \<Rightarrow> dispatch out d w ev)
      in if ar_Email r then emailNotify out d1 ev (ar_Emails r) else d1)"

definition emit ::
    "outside \<Rightarrow> alerts \<Rightarrow> AlertRule \<Rightarrow> int \<Rightarrow> string \<Rightarrow> string \<Rightarrow> string \<Rightarrow> string \<Rightarrow> string \<Rightarrow> rat option \<Rightarrow> string \<Rightarrow> int
     \<Rightarrow> bool \<times> alerts" where
  "emit out d r hostID hostName cid name project message value kind durationSec =
     (let win = rule_window out r hostID project name;
          ev = alert_event r hostID hostName cid name project message value kind durationSec win
      in if win \<noteq> None \<and> kind = KindRepeat then (True, d)
         else let (res, d1) = InsertAlertEvent d ev (o_now out);
                  ev1 = (case res of Inl _ \<Rightarrow> ev | Inr i \<Rightarrow> ev\<lparr>ev_ID := i\<rparr>)
              in if win \<noteq> None then (True, d1) else (False, deliver out d1 r ev1))"

definition fire ::
    "outside \<Rightarrow> Monitor \<Rightarrow> AlertRule \<Rightarrow> int \<Rightarrow> string \<Rightarrow> string \<Rightarrow> string \<Rightarrow> string \<Rightarrow> string \<Rightarrow> rat option \<Rightarrow> Monitor" where
  "fire out m r hostID hostName cid name project message value =
     (let key = ruleKey (ar_ID r) cid; cooldown = seconds (ar_CooldownSec r)
      in if (case mo_cooldowns m key of None \<Rightarrow> False | Some fired \<Rightarrow> time_sub (o_now out) fired < cooldown) then m
         else let (suppressed, d) = emit out (mo_alerts m) r hostID hostName cid name project message value KindFiring 0;
                  m1 = m\<lparr>mo_alerts := d\<rparr>
              in if suppressed then m1 else m1\<lparr>mo_cooldowns := (mo_cooldowns m)(key \<mapsto> o_now out)\<rparr>)"

section \<open>Container events and restarts\<close>

definition restartRetention :: duration where "restartRetention = hour"

definition recordRestart :: "Monitor \<Rightarrow> string \<Rightarrow> time \<Rightarrow> Monitor" where
  "recordRestart m cid now =
     m\<lparr>mo_restarts := (mo_restarts m)(cid := filter (\<lambda>t. t > now - restartRetention) (mo_restarts m cid) @ [now])\<rparr>"

definition restartCount :: "Monitor \<Rightarrow> string \<Rightarrow> int \<Rightarrow> time \<Rightarrow> int \<times> Monitor" where
  "restartCount m cid windowSec now =
     (let kept = filter (\<lambda>t. t > now - seconds windowSec) (mo_restarts m cid)
      in (int (length kept), m\<lparr>mo_restarts := (mo_restarts m)(cid := kept)\<rparr>))"

definition is_start :: "Event \<Rightarrow> bool" where
  "is_start e \<longleftrightarrow> e_Action e = ''start'' \<or> e_Action e = ''restart''"

definition event_rule :: "outside \<Rightarrow> int \<Rightarrow> string \<Rightarrow> Event \<Rightarrow> Monitor \<Rightarrow> AlertRule \<Rightarrow> Monitor" where
  "event_rule out hostID hostName e m r =
     (if \<not> ar_Enabled r \<or> \<not> matchTarget (ar_Target r) (e_ContainerName e) then m
      else if ar_Type r = ''state'' then
        (case parseState (ar_Config r) of
           None \<Rightarrow> m
         | Some events \<Rightarrow>
           if state_matches events (e_Action e)
           then fire out m r hostID hostName (e_ContainerID e) (e_ContainerName e) (e_Project e) (''container event: '' @ e_Action e) None
           else m)
      else if ar_Type r = ''restart'' \<and> is_start e then
        (case parseRestart (ar_Config r) of
           None \<Rightarrow> m
         | Some cfg \<Rightarrow>
           let (n, m1) = restartCount m (e_ContainerID e) (re_WindowSec cfg) (o_now out)
           in if n \<ge> re_Count cfg
              then fire out m1 r hostID hostName (e_ContainerID e) (e_ContainerName e) (e_Project e)
                     (''restarted '' @ show_int n @ '' times in '' @ show_int (re_WindowSec cfg) @ ''s (possible crash loop)'') (Some (of_int n))
              else m1)
      else m)"

definition handleEvent :: "outside \<Rightarrow> Monitor \<Rightarrow> int \<Rightarrow> string \<Rightarrow> Event \<Rightarrow> Monitor" where
  "handleEvent out m hostID hostName e =
     (let m1 = (if is_start e then recordRestart m (e_ContainerID e) (o_now out) else m)
      in case ListAlertRules (mo_alerts m1) of
           Inl _ \<Rightarrow> m1
         | Inr rules \<Rightarrow> foldl (event_rule out hostID hostName e) m1 rules)"

section \<open>Log lines\<close>

definition follow_line :: "outside \<Rightarrow> Monitor \<Rightarrow> AlertRule \<Rightarrow> logMatcher \<Rightarrow> int \<Rightarrow> string \<Rightarrow> string \<Rightarrow> string \<Rightarrow> string \<Rightarrow> string \<Rightarrow> Monitor" where
  "follow_line out m r cfg hostID hostName cid name project line =
     (if log_match cfg line then fire out m r hostID hostName cid name project (''log match: '' @ truncate_text line 200) None else m)"

definition ensureFollower :: "Monitor \<Rightarrow> string \<Rightarrow> Monitor" where
  "ensureFollower m key = (if key \<in> set (mo_logCancels m) then m else m\<lparr>mo_logCancels := mo_logCancels m @ [key]\<rparr>)"

definition follower_ended :: "Monitor \<Rightarrow> string \<Rightarrow> Monitor" where
  "follower_ended m key = m\<lparr>mo_logCancels := filter (\<lambda>k. k \<noteq> key) (mo_logCancels m)\<rparr>"

definition stopAllFollowers :: "Monitor \<Rightarrow> Monitor" where
  "stopAllFollowers m = m\<lparr>mo_logCancels := []\<rparr>"

definition log_rules :: "engine \<Rightarrow> AlertRule list \<Rightarrow> AlertRule list" where
  "log_rules en rules = filter (\<lambda>r. ar_Enabled r \<and> ar_Type r = ''log'' \<and> parseLog (en_compile en) (ar_Config r) \<noteq> None) rules"

definition wanted_followers :: "outside \<Rightarrow> engine \<Rightarrow> AlertRule list \<Rightarrow> string list" where
  "wanted_followers out en rules =
     (if log_rules en rules = [] then []
      else concat (map (\<lambda>h. case en_containers en (h_ID h) of
             None \<Rightarrow> []
           | Some cs \<Rightarrow> concat (map (\<lambda>r. map (\<lambda>c. ruleKey (ar_ID r) (ct_ID c))
               (filter (\<lambda>c. ct_State c = ''running'' \<and> matchTarget (ar_Target r) (ct_Name c)) cs)) (log_rules en rules)))
           (monitoredHosts out)))"

definition reconcileLogFollowers :: "outside \<Rightarrow> engine \<Rightarrow> Monitor \<Rightarrow> Monitor" where
  "reconcileLogFollowers out en m =
     (case ListAlertRules (mo_alerts m) of
        Inl _ \<Rightarrow> m
      | Inr rules \<Rightarrow>
        let want = wanted_followers out en rules; m1 = foldl ensureFollower m want
        in m1\<lparr>mo_logCancels := filter (\<lambda>k. k \<in> set want) (mo_logCancels m1)\<rparr>)"

section \<open>Host reachability\<close>

definition NotifySystem :: "outside \<Rightarrow> alerts \<Rightarrow> AlertEvent \<Rightarrow> db_error option \<times> alerts" where
  "NotifySystem out d ev =
     (let win = (case FindActiveMaintenanceWindow (o_zones out) (o_db out) (o_windows out) (ev_HostID ev) (ev_Project ev)
                        (ev_ContainerName ev) 0 (ev_Severity ev) (o_now out) of Inl _ \<Rightarrow> None | Inr w \<Rightarrow> w);
          ev1 = (case win of None \<Rightarrow> ev | Some w \<Rightarrow> ev\<lparr>ev_Suppressed := True, ev_SuppressedBy := w_ID w\<rparr>);
          (res, d1) = InsertAlertEvent d ev1 (o_now out);
          ev2 = (case res of Inl _ \<Rightarrow> ev1 | Inr i \<Rightarrow> ev1\<lparr>ev_ID := i\<rparr>);
          d2 = (if ev_Suppressed ev2 then d1 else emailNotify out d1 ev2 [])
      in (case res of Inl e \<Rightarrow> Some e | Inr _ \<Rightarrow> None, d2))"

definition host_event :: "int \<Rightarrow> string \<Rightarrow> string \<Rightarrow> string \<Rightarrow> AlertEvent" where
  "host_event hostID hostName severity message =
     \<lparr>ev_ID = 0, ev_RuleID = 0, ev_RuleName = ''Host reachability'', ev_Type = ''host'', ev_Severity = severity,
      ev_HostID = hostID, ev_HostName = hostName, ev_ContainerID = [], ev_ContainerName = [], ev_Project = [],
      ev_Message = message, ev_Value = None, ev_Acknowledged = False, ev_CreatedAt = 0, ev_Kind = [], ev_DurationSec = 0,
      ev_AcknowledgedBy = [], ev_AcknowledgedAt = None, ev_Suppressed = False, ev_SuppressedBy = 0, ev_Repeats = 0,
      ev_LastRepeatAt = None, ev_Ongoing = False\<rparr>"

definition fireHostAlert :: "outside \<Rightarrow> engine \<Rightarrow> alerts \<Rightarrow> int \<Rightarrow> string \<Rightarrow> bool \<Rightarrow> duration \<Rightarrow> alerts" where
  "fireHostAlert out en d hostID hostName online downtime =
     snd (NotifySystem out d
       (if online then host_event hostID hostName ''info''
          (''Host '' @ en_quote en hostName @ '' recovered (was unreachable for '' @ en_duration en (round_second downtime) @ '')'')
        else host_event hostID hostName ''critical'' (''Host '' @ en_quote en hostName @ '' is unreachable'')))"

definition recordHealth :: "outside \<Rightarrow> engine \<Rightarrow> Monitor \<Rightarrow> int \<Rightarrow> string \<Rightarrow> string option \<Rightarrow> Monitor" where
  "recordHealth out en m hostID hostName pingErr =
     (let now = o_now out; reachable = (pingErr = None); prev = mo_health m hostID;
          same = (case prev of None \<Rightarrow> False | Some p \<Rightarrow> hh_Reachable p = reachable);
          since = (if same then hh_Since (the prev) else now);
          m1 = m\<lparr>mo_health := (mo_health m)(hostID \<mapsto> \<lparr>hh_Reachable = reachable, hh_Since = since, hh_LastCheck = now,
                   hh_Err = (case pingErr of None \<Rightarrow> [] | Some e \<Rightarrow> e)\<rparr>)\<rparr>
      in case prev of
           None \<Rightarrow> m1
         | Some p \<Rightarrow> if hh_Reachable p = reachable then m1
             else m1\<lparr>mo_alerts := fireHostAlert out en (mo_alerts m1) hostID hostName reachable (time_sub now (hh_Since p))\<rparr>)"

definition checkAllHosts :: "outside \<Rightarrow> engine \<Rightarrow> Monitor \<Rightarrow> Monitor" where
  "checkAllHosts out en m = foldl (\<lambda>m h. recordHealth out en m (h_ID h) (h_Name h) (en_ping en (h_ID h))) m (monitoredHosts out)"

section \<open>Firing and its cooldown\<close>

definition cooling :: "outside \<Rightarrow> Monitor \<Rightarrow> AlertRule \<Rightarrow> string \<Rightarrow> bool" where
  "cooling out m r cid \<longleftrightarrow> (case mo_cooldowns m (ruleKey (ar_ID r) cid) of
     None \<Rightarrow> False | Some t \<Rightarrow> time_sub (o_now out) t < seconds (ar_CooldownSec r))"

lemma emit_suppressed: "fst (emit out d r h hn cid name project msg v kind dur) \<longleftrightarrow> rule_window out r h project name \<noteq> None"
  by (simp add: emit_def Let_def case_prod_unfold)

lemma fire_cases:
  "fire out m r h hn cid name project msg v =
    (if cooling out m r cid then m
     else let m1 = m\<lparr>mo_alerts := snd (emit out (mo_alerts m) r h hn cid name project msg v KindFiring 0)\<rparr>
          in if rule_window out r h project name \<noteq> None then m1
             else m1\<lparr>mo_cooldowns := (mo_cooldowns m)(ruleKey (ar_ID r) cid \<mapsto> o_now out)\<rparr>)"
  by (auto simp: fire_def cooling_def Let_def case_prod_unfold emit_suppressed split: option.split)

text \<open>The instants at which a sequence of firings of one rule for one container is delivered, with
  the state each firing meets.\<close>

fun deliveries :: "Monitor \<Rightarrow> AlertRule \<Rightarrow> int \<Rightarrow> string \<Rightarrow> string \<Rightarrow> string \<Rightarrow> string \<Rightarrow> (outside \<times> string) list \<Rightarrow> time list" where
  "deliveries m r h hn cid name project [] = []"
| "deliveries m r h hn cid name project ((out, msg) # calls) =
     (if cooling out m r cid \<or> rule_window out r h project name \<noteq> None then [] else [o_now out])
     @ deliveries (fire out m r h hn cid name project msg None) r h hn cid name project calls"

lemma deliveries_spaced:
  "successively (\<lambda>s t. seconds (ar_CooldownSec r) \<le> time_sub t s)
     ((case mo_cooldowns m (ruleKey (ar_ID r) cid) of None \<Rightarrow> [] | Some t \<Rightarrow> [t]) @ deliveries m r h hn cid name project calls)"
proof (induction calls arbitrary: m)
  case Nil
  then show ?case by (simp split: option.split)
next
  case (Cons c calls)
  obtain out msg where c: "c = (out, msg)" by (cases c)
  let ?m = "fire out m r h hn cid name project msg None"
  note IH = Cons.IH [of ?m]
  show ?case
  proof (cases "cooling out m r cid \<or> rule_window out r h project name \<noteq> None")
    case True
    then have "mo_cooldowns ?m = mo_cooldowns m" by (auto simp: fire_cases Let_def)
    then show ?thesis using IH True by (simp add: c)
  next
    case False
    then have "mo_cooldowns ?m (ruleKey (ar_ID r) cid) = Some (o_now out)" by (simp add: fire_cases Let_def)
    then have "successively (\<lambda>s t. seconds (ar_CooldownSec r) \<le> time_sub t s)
        (o_now out # deliveries ?m r h hn cid name project calls)" using IH by simp
    then show ?thesis using False by (auto simp: c cooling_def split: option.splits)
  qed
qed


section \<open>Host reachability\<close>

lemma emailNotify_events [simp]: "al_events (emailNotify out d ev es) = al_events d"
  by (simp add: emailNotify_def Let_def enqueueEmailRetry_def EnqueueAlertDeliveryRetry_def)

lemma NotifySystem_events:
  assumes "\<not> al_fails d InsEvent"
  shows "length (tbl_rows (al_events (snd (NotifySystem out d ev)))) = length (tbl_rows (al_events d)) + 1
    \<and> al_fails (snd (NotifySystem out d ev)) = al_fails d"
  using assms by (simp add: NotifySystem_def Let_def InsertAlertEvent_def case_prod_unfold tbl_insert_def)

text \<open>How often an observation differs from the one before it; the first has none.\<close>

fun changes :: "bool option \<Rightarrow> bool list \<Rightarrow> nat" where
  "changes prev [] = 0"
| "changes prev (b # bs) = (if prev = Some (\<not> b) then 1 else 0) + changes (Some b) bs"

fun state_since :: "(bool \<times> time) option \<Rightarrow> (bool \<times> time) list \<Rightarrow> time option" where
  "state_since prev [] = map_option snd prev"
| "state_since prev ((b, t) # obs) =
     state_since (Some (b, case prev of Some (a, s) \<Rightarrow> if a = b then s else t | None \<Rightarrow> t)) obs"

abbreviation run_pings :: "engine \<Rightarrow> int \<Rightarrow> string \<Rightarrow> Monitor \<Rightarrow> (outside \<times> string option) list \<Rightarrow> Monitor" where
  "run_pings en h hn \<equiv> foldl (\<lambda>m (out, ping). recordHealth out en m h hn ping)"

lemma recordHealth_health:
  "mo_health (recordHealth out en m h hn ping) = (mo_health m)(h \<mapsto> \<lparr>hh_Reachable = (ping = None),
     hh_Since = (case mo_health m h of Some p \<Rightarrow> if hh_Reachable p = (ping = None) then hh_Since p else o_now out | None \<Rightarrow> o_now out),
     hh_LastCheck = o_now out, hh_Err = (case ping of None \<Rightarrow> [] | Some e \<Rightarrow> e)\<rparr>)"
  by (cases "mo_health m h"; cases ping) (simp_all add: recordHealth_def Let_def)

lemma recordHealth_alerts:
  "mo_alerts (recordHealth out en m h hn ping) = (case mo_health m h of None \<Rightarrow> mo_alerts m
     | Some p \<Rightarrow> if hh_Reachable p = (ping = None) then mo_alerts m
         else fireHostAlert out en (mo_alerts m) h hn (ping = None) (time_sub (o_now out) (hh_Since p)))"
  by (cases "mo_health m h"; cases ping) (simp_all add: recordHealth_def Let_def)

lemma recordHealth_step:
  assumes "\<not> al_fails (mo_alerts m) InsEvent"
  shows "length (tbl_rows (al_events (mo_alerts (recordHealth out en m h hn ping))))
      = length (tbl_rows (al_events (mo_alerts m)))
        + (if map_option hh_Reachable (mo_health m h) = Some (\<not> (ping = None)) then 1 else 0)
    \<and> al_fails (mo_alerts (recordHealth out en m h hn ping)) = al_fails (mo_alerts m)"
  using NotifySystem_events [OF assms]
  by (cases "mo_health m h"; cases ping) (simp_all add: recordHealth_alerts fireHostAlert_def)

lemma run_pings_count:
  assumes "\<not> al_fails (mo_alerts m) InsEvent"
  shows "length (tbl_rows (al_events (mo_alerts (run_pings en h hn m obs))))
      = length (tbl_rows (al_events (mo_alerts m)))
        + changes (map_option hh_Reachable (mo_health m h)) (map (\<lambda>(_, ping). ping = None) obs)"
  using assms
proof (induction obs arbitrary: m)
  case (Cons x obs)
  obtain out ping where x: "x = (out, ping)" by (cases x)
  note s = recordHealth_step [OF Cons.prems, of out en h hn ping]
  show ?case using Cons.IH [of "recordHealth out en m h hn ping"] Cons.prems s
    by (cases ping) (simp_all add: x recordHealth_health)
qed simp

lemma run_pings_since:
  assumes "\<not> al_fails (mo_alerts m) InsEvent"
  shows "map_option hh_Since (mo_health (run_pings en h hn m obs) h)
      = state_since (map_option (\<lambda>x. (hh_Reachable x, hh_Since x)) (mo_health m h)) (map (\<lambda>(out, ping). (ping = None, o_now out)) obs)"
  using assms
proof (induction obs arbitrary: m)
  case Nil
  then show ?case by (cases "mo_health m h") auto
next
  case (Cons x obs)
  obtain out ping where x: "x = (out, ping)" by (cases x)
  have "\<not> al_fails (mo_alerts (recordHealth out en m h hn ping)) InsEvent"
    using recordHealth_step [OF Cons.prems] Cons.prems by simp
  note IH = Cons.IH [OF this]
  show ?case using IH by (cases "mo_health m h"; cases ping) (simp_all add: x recordHealth_health)
qed

text \<open>Reachability alerts are transitions. However a host is pinged, the feed gains one event for
  each ping that differs from the one before, none for the first observation and none for
  repeated ones; the recorded start of the current state is the instant of its first ping.
\<close>

theorem host_alert_per_transition:
  assumes "\<not> al_fails (mo_alerts m) InsEvent"
  shows "length (tbl_rows (al_events (mo_alerts (run_pings en h hn m obs))))
      = length (tbl_rows (al_events (mo_alerts m)))
        + changes (map_option hh_Reachable (mo_health m h)) (map (\<lambda>(_, ping). ping = None) obs)
    \<and> map_option hh_Since (mo_health (run_pings en h hn m obs) h)
      = state_since (map_option (\<lambda>x. (hh_Reachable x, hh_Since x)) (mo_health m h)) (map (\<lambda>(out, ping). (ping = None, o_now out)) obs)"
  using run_pings_count [OF assms] run_pings_since [OF assms] by simp

definition idle_monitor :: Monitor where
  "idle_monitor = \<lparr>mo_alerts = no_alerts, mo_history = None, mo_snapshot = [], mo_snapshotAt = 0, mo_cooldowns = Map.empty,
     mo_overSince = Map.empty, mo_restarts = (\<lambda>_. []), mo_logCancels = [], mo_health = Map.empty\<rparr>"

definition demo_engine :: engine where
  "demo_engine = \<lparr>en_containers = (\<lambda>_. None), en_stats = (\<lambda>_ _. None), en_ping = (\<lambda>_. None), en_historyFails = (\<lambda>_ _. False),
     en_compile = (\<lambda>_. None), en_quote = (\<lambda>s. s), en_duration = (\<lambda>_. [])\<rparr>"

theorem host_alert_per_transition_witness:
  "length (tbl_rows (al_events (mo_alerts (run_pings demo_engine 2 ''web'' idle_monitor
      [(quiet, Some ''timeout''), (quiet, Some ''timeout''), (quiet, None), (quiet, None), (quiet, Some ''timeout'')])))) = 2"
  using host_alert_per_transition [of idle_monitor demo_engine 2 "''web''"
      "[(quiet, Some ''timeout''), (quiet, Some ''timeout''), (quiet, None), (quiet, None), (quiet, Some ''timeout'')]"]
  by (simp add: idle_monitor_def no_alerts_def tbl_empty_def)

section \<open>Log followers\<close>

lemma ensure_all: "set (mo_logCancels (foldl ensureFollower m ks)) = set (mo_logCancels m) \<union> set ks
    \<and> (distinct (mo_logCancels m) \<longrightarrow> distinct (mo_logCancels (foldl ensureFollower m ks)))"
  by (induction ks arbitrary: m) (auto simp: ensureFollower_def)

lemma reconcile_exact:
  assumes "ListAlertRules (mo_alerts m) = Ok rules"
  shows "set (mo_logCancels (reconcileLogFollowers out en m)) = set (wanted_followers out en rules)"
  using assms ensure_all [of m "wanted_followers out en rules"] by (auto simp: reconcileLogFollowers_def Let_def)

lemma reconcile_distinct: "distinct (mo_logCancels m) \<Longrightarrow> distinct (mo_logCancels (reconcileLogFollowers out en m))"
  using ensure_all by (auto simp: reconcileLogFollowers_def Let_def split: sum.split)

section \<open>Restarts\<close>

text \<open>Rules that count restarts share one list per container: counting drops what the counting
  rule's own window does not cover.\<close>

definition restart_rule :: "string \<Rightarrow> int \<Rightarrow> AlertRule" where
  "restart_rule n w = \<lparr>ar_ID = 0, ar_Name = n, ar_Enabled = True, ar_Type = ''restart'', ar_Target = ''*'',
     ar_Config = Some \<lparr>jc_metric = [], jc_op = [], jc_threshold = 0, jc_durationSec = 0, jc_events = [], jc_windowSec = w,
       jc_count = 3, jc_pattern = [], jc_isRegex = False\<rparr>,
     ar_Severity = ''critical'', ar_WebhookID = None, ar_Email = False, ar_Emails = [], ar_CooldownSec = 60, ar_CreatedAt = 0\<rparr>"

definition with_rules :: "AlertRule list \<Rightarrow> Monitor" where
  "with_rules rs = idle_monitor\<lparr>mo_alerts := foldl (\<lambda>d r. snd (CreateAlertRule d r 0)) no_alerts rs\<rparr>"

definition started :: Event where
  "started = \<lparr>e_Action = ''start'', e_ContainerID = ''abc'', e_ContainerName = ''web'', e_Project = []\<rparr>"

definition restarts_at :: "Monitor \<Rightarrow> time list \<Rightarrow> Monitor" where
  "restarts_at m ts = foldl (\<lambda>m t. handleEvent (quiet\<lparr>o_now := t\<rparr>) m 1 ''h'' started) m ts"

text \<open>A rule with a short window blinds one with a long window. A container that restarts every four
  minutes trips a rule of three restarts in ten minutes when that is the only rule; with a second
  rule of three restarts in one minute on the same container, listed first, neither ever fires.
\<close>

theorem short_window_starves_long:
  "tbl_rows (al_events (mo_alerts (restarts_at (with_rules [restart_rule ''slow'' 600]) [hour, hour + 4 * minute, hour + 8 * minute]))) \<noteq> []
   \<and> tbl_rows (al_events (mo_alerts (restarts_at (with_rules [restart_rule ''fast'' 60, restart_rule ''slow'' 600])
       [hour, hour + 4 * minute, hour + 8 * minute]))) = []"
  by code_simp

end
