(* ===== verification/Conditions.thy ===== *)
theory Conditions
  imports Monitor
begin

text \<open>
  The alert engine, second part: of \<open>src/internal/monitor/monitor.go\<close> the sampling of all
  containers, the network rules, and resource rules as conditions with a lifetime
  (\<open>evalResourceRules\<close>): the scan for the most severe rule of each condition, the announcement
  of what changed, and the resolution of what ended.
\<close>

section \<open>Sampling\<close>

definition labelComposeProject :: string where "labelComposeProject = ''com.docker.compose.project''"

definition label_of :: "(string \<times> string) list \<Rightarrow> string \<Rightarrow> string" where
  "label_of ls k = (case map_of ls k of None \<Rightarrow> [] | Some v \<Rightarrow> v)"

definition fresh_stat :: "Host \<Rightarrow> ContainerSummary \<Rightarrow> ContainerStat" where
  "fresh_stat h c = \<lparr>cs_HostID = h_ID h, cs_HostName = h_Name h, cs_ID = ct_ID c, cs_Name = ct_Name c, cs_State = ct_State c,
     cs_Project = label_of (ct_Labels c) labelComposeProject, cs_CPUPercent = 0, cs_CPUCores = 0, cs_MemBytes = 0, cs_MemLimit = 0,
     cs_MemPercent = 0, cs_NetRx = 0, cs_NetTx = 0, cs_NetDrops = 0, cs_NetErrors = 0, cs_NetRxRate = 0, cs_NetTxRate = 0,
     cs_NetRxRateOK = False, cs_NetTxRateOK = False, cs_Sampled = False\<rparr>"

definition sample_stat :: "engine \<Rightarrow> ContainerStat \<Rightarrow> ContainerStat" where
  "sample_stat en cs =
     (if cs_State cs \<noteq> ''running'' then cs
      else case en_stats en (cs_HostID cs) (cs_ID cs) of
        None \<Rightarrow> cs
      | Some s \<Rightarrow> cs\<lparr>cs_Sampled := True, cs_CPUPercent := ss_CPUPercent s, cs_CPUCores := ss_CPUCores s,
          cs_MemBytes := ss_MemUsage s, cs_MemLimit := ss_MemLimit s, cs_MemPercent := ss_MemPercent s,
          cs_NetRx := ss_NetRx s, cs_NetTx := ss_NetTx s, cs_NetDrops := ss_NetRxDropped s + ss_NetTxDropped s,
          cs_NetErrors := ss_NetRxErrors s + ss_NetTxErrors s\<rparr>)"

definition sample_hosts :: "outside \<Rightarrow> engine \<Rightarrow> snapshot \<times> int list" where
  "sample_hosts out en =
     foldl (\<lambda>(snap, sampled) h.
         case en_containers en (h_ID h) of
           None \<Rightarrow> (snap, sampled)
         | Some cs \<Rightarrow> (foldl (\<lambda>sn c. let s = sample_stat en (fresh_stat h c) in AList.update (cs_ID s) s sn) snap cs, h_ID h # sampled))
       ([], []) (monitoredHosts out)"

definition rate_of :: "64 word \<Rightarrow> 64 word \<Rightarrow> rat \<Rightarrow> rat" where
  "rate_of new old elapsed = of_int (uint (new - old)) / elapsed"

definition with_rates :: "ContainerStat \<Rightarrow> ContainerStat \<Rightarrow> rat \<Rightarrow> ContainerStat" where
  "with_rates cs p elapsed =
     (let cs1 = (if cs_NetRx cs \<ge> cs_NetRx p
                 then cs\<lparr>cs_NetRxRate := rate_of (cs_NetRx cs) (cs_NetRx p) elapsed, cs_NetRxRateOK := True\<rparr> else cs)
      in if cs_NetTx cs \<ge> cs_NetTx p
         then cs1\<lparr>cs_NetTxRate := rate_of (cs_NetTx cs) (cs_NetTx p) elapsed, cs_NetTxRateOK := True\<rparr> else cs1)"

definition applyNetRates :: "snapshot \<Rightarrow> snapshot \<Rightarrow> rat \<Rightarrow> snapshot" where
  "applyNetRates fresh prev elapsed =
     (if elapsed \<le> 0 then fresh
      else map (\<lambda>(i, cs). (i, if \<not> cs_Sampled cs then cs
        else case map_of prev i of None \<Rightarrow> cs | Some p \<Rightarrow> if \<not> cs_Sampled p then cs else with_rates cs p elapsed)) fresh)"

definition history_sample :: "time \<Rightarrow> ContainerStat \<Rightarrow> Sample" where
  "history_sample now cs = \<lparr>sa_ContainerID = cs_ID cs, sa_HostID = cs_HostID cs, sa_Time = now, sa_CPU = cs_CPUPercent cs,
     sa_MemPercent = cs_MemPercent cs, sa_MemBytes = of_int (uint (cs_MemBytes cs)), sa_NetRx = of_int (uint (cs_NetRx cs)),
     sa_NetTx = of_int (uint (cs_NetTx cs)), sa_NetDrops = of_int (uint (cs_NetDrops cs)), sa_NetErrors = of_int (uint (cs_NetErrors cs))\<rparr>"

definition recordHistory :: "outside \<Rightarrow> Monitor \<Rightarrow> snapshot \<Rightarrow> Monitor" where
  "recordHistory out m snap =
     (case mo_history m of
        None \<Rightarrow> m
      | Some h \<Rightarrow>
        let samples = map (history_sample (o_now out)) (filter (\<lambda>cs. cs_State cs = ''running'' \<and> cs_Sampled cs) (map snd snap))
        in if samples = [] then m else m\<lparr>mo_history := Some (Record h samples (o_now out))\<rparr>)"

section \<open>Network rules\<close>

type_synonym netRuleWindow = "string \<times> int"

text \<open>One reading per metric and window, kept for the rules that share it: nothing is stored for a
  reading that was not tried yet, \<open>None\<close> for one that failed.\<close>

type_synonym readings = "netRuleWindow \<rightharpoonup> (string \<rightharpoonup> Point list) option"

definition read_window :: "outside \<Rightarrow> engine \<Rightarrow> memoryStore \<Rightarrow> string list \<Rightarrow> netRuleWindow \<Rightarrow> readings \<Rightarrow> readings" where
  "read_window out en h ids key rd =
     (if rd key \<noteq> None then rd
      else rd(key \<mapsto> (if en_historyFails en (fst key) (snd key) then None
             else Some (QueryAll h (fst key) (o_now out - seconds (snd key)) ids))))"

definition network_hit :: "outside \<Rightarrow> AlertRule \<Rightarrow> networkConfig \<Rightarrow> (string \<rightharpoonup> Point list) \<Rightarrow> Monitor \<Rightarrow> ContainerStat \<Rightarrow> Monitor" where
  "network_hit out r cfg byContainer m cs =
     (if cs_State cs \<noteq> ''running'' \<or> \<not> matchTarget (ar_Target r) (cs_Name cs) then m
      else case Increase (case byContainer (cs_ID cs) of None \<Rightarrow> [] | Some pts \<Rightarrow> pts) of
        None \<Rightarrow> m
      | Some inc \<Rightarrow>
        if inc < nc_Threshold cfg then m
        else fire out m r (cs_HostID cs) (cs_HostName cs) (cs_ID cs) (cs_Name cs) (cs_Project cs)
          (networkMetricLabel (nc_Metric cfg) @ '' increased by '' @ fmt0 inc @ '' in the last '' @ humanDuration (nc_WindowSec cfg)) (Some inc))"

definition network_rule ::
    "outside \<Rightarrow> engine \<Rightarrow> memoryStore \<Rightarrow> snapshot \<Rightarrow> string list \<Rightarrow> readings \<times> Monitor \<Rightarrow> AlertRule \<Rightarrow> readings \<times> Monitor" where
  "network_rule out en h snap ids st r =
     (case st of (rd, m) \<Rightarrow>
      if \<not> ar_Enabled r \<or> ar_Type r \<noteq> ''network'' then (rd, m)
      else case parseNetwork (ar_Config r) of
        None \<Rightarrow> (rd, m)
      | Some cfg \<Rightarrow>
        let key = (if nc_Metric cfg = ''neterrors'' then MetricNetErrors else MetricNetDrops, nc_WindowSec cfg);
            rd1 = read_window out en h ids key rd
        in case rd1 key of
             Some (Some byContainer) \<Rightarrow> (rd1, foldl (network_hit out r cfg byContainer) m (map snd snap))
           | _ \<Rightarrow> (rd1, m))"

definition evalNetworkRules :: "outside \<Rightarrow> engine \<Rightarrow> Monitor \<Rightarrow> snapshot \<Rightarrow> Monitor" where
  "evalNetworkRules out en m snap =
     (case mo_history m of
        None \<Rightarrow> m
      | Some h \<Rightarrow>
        (case ListAlertRules (mo_alerts m) of
           Inl _ \<Rightarrow> m
         | Inr rules \<Rightarrow>
           let ids = map cs_ID (filter (\<lambda>cs. cs_State cs = ''running'') (map snd snap))
           in snd (foldl (network_rule out en h snap ids) (Map.empty, m) rules)))"

section \<open>Resource rules: the scan\<close>

record winner =
  ca_rule :: AlertRule
  ca_cfg :: resourceConfig
  ca_stat :: ContainerStat
  ca_value :: rat

record scan =
  sc_over :: "string \<rightharpoonup> time"
  sc_winners :: "(string \<times> winner) list"
  sc_unmeasured :: "string list"

definition scan_stat :: "outside \<Rightarrow> AlertRule \<Rightarrow> resourceConfig \<Rightarrow> scan \<Rightarrow> ContainerStat \<Rightarrow> scan" where
  "scan_stat out r cfg sc cs =
     (if cs_State cs \<noteq> ''running'' \<or> \<not> matchTarget (ar_Target r) (cs_Name cs) then sc
      else let (val, ok) = metric cs (rc_Metric cfg); ck = stateKey (cs_HostID cs) (cs_ID cs) (metricKey cfg);
               key = ruleKey (ar_ID r) (cs_ID cs)
      in if \<not> ok then sc\<lparr>sc_unmeasured := ck # sc_unmeasured sc\<rparr>
      else if \<not> exceeds cfg val then sc\<lparr>sc_over := (sc_over sc)(key := None)\<rparr>
      else let since = (case sc_over sc key of None \<Rightarrow> o_now out | Some t \<Rightarrow> t); sc1 = sc\<lparr>sc_over := (sc_over sc)(key \<mapsto> since)\<rparr>
      in if time_sub (o_now out) since < seconds (rc_DurationSec cfg) then sc1
      else if (case map_of (sc_winners sc) ck of None \<Rightarrow> False
                 | Some cur \<Rightarrow> severityRank (ar_Severity (ca_rule cur)) \<ge> severityRank (ar_Severity r)) then sc1
      else sc1\<lparr>sc_winners := AList.update ck \<lparr>ca_rule = r, ca_cfg = cfg, ca_stat = cs, ca_value = val\<rparr> (sc_winners sc)\<rparr>)"

definition scan_rule :: "outside \<Rightarrow> snapshot \<Rightarrow> scan \<Rightarrow> AlertRule \<Rightarrow> scan" where
  "scan_rule out snap sc r =
     (if \<not> ar_Enabled r \<or> ar_Type r \<noteq> ''resource'' then sc
      else case parseResource (ar_Config r) of
        None \<Rightarrow> sc
      | Some cfg \<Rightarrow> foldl (scan_stat out r cfg) sc (map snd snap))"

section \<open>Resource rules: announcing\<close>

definition orNow :: "time \<Rightarrow> time \<Rightarrow> time" where
  "orNow t fallback = (if t = zero_time then fallback else t)"

definition saveState :: "outside \<Rightarrow> alerts \<Rightarrow> winner \<Rightarrow> time \<Rightarrow> time \<Rightarrow> alerts" where
  "saveState out d c startedAt notifiedAt =
     snd (UpsertAlertState d \<lparr>as_HostID = cs_HostID (ca_stat c), as_HostName = cs_HostName (ca_stat c),
       as_ContainerID = cs_ID (ca_stat c), as_ContainerName = cs_Name (ca_stat c), as_Metric = metricKey (ca_cfg c),
       as_RuleID = ar_ID (ca_rule c), as_RuleName = ar_Name (ca_rule c), as_Severity = ar_Severity (ca_rule c),
       as_LastValue = Some (ca_value c), as_StartedAt = orNow startedAt (o_now out), as_NotifiedAt = notifiedAt\<rparr>)"

definition announce :: "outside \<Rightarrow> alerts \<Rightarrow> winner \<Rightarrow> string \<Rightarrow> int \<Rightarrow> bool \<times> alerts" where
  "announce out d c kind durationSec =
     (let cs = ca_stat c
      in emit out d (ca_rule c) (cs_HostID cs) (cs_HostName cs) (cs_ID cs) (cs_Name cs) (cs_Project cs)
           (resourceMessage (ca_cfg c) cs (ca_value c)) (Some (ca_value c)) kind durationSec)"

text \<open>What a winner says about its condition: nothing (\<open>None\<close>), or an event of a kind.\<close>

definition news :: "outside \<Rightarrow> winner \<Rightarrow> AlertState option \<Rightarrow> string option" where
  "news out c prev =
     (let rank = severityRank (ar_Severity (ca_rule c))
      in case prev of
           None \<Rightarrow> Some KindFiring
         | Some st \<Rightarrow>
           if rank > severityRank (as_Severity st) then Some KindEscalated
           else if rank < severityRank (as_Severity st) then Some KindEased
           else if ar_CooldownSec (ca_rule c) > 0 \<and> time_sub (o_now out) (as_NotifiedAt st) \<ge> seconds (ar_CooldownSec (ca_rule c)) then
             (if as_NotifiedAt st = zero_time then
                (if silencedNow out (cs_HostID (ca_stat c)) (cs_Project (ca_stat c)) (cs_Name (ca_stat c)) (ca_rule c)
                 then None else Some KindFiring)
              else Some KindRepeat)
           else None)"

definition speak :: "outside \<Rightarrow> (string \<times> AlertState) list \<Rightarrow> alerts \<Rightarrow> string \<times> winner \<Rightarrow> alerts" where
  "speak out prev d w =
     (case w of (ck, c) \<Rightarrow>
      let now = o_now out;
          started = (case map_of prev ck of None \<Rightarrow> now | Some st \<Rightarrow> as_StartedAt st);
          notified = (case map_of prev ck of None \<Rightarrow> zero_time | Some st \<Rightarrow> as_NotifiedAt st);
          dur = (case map_of prev ck of None \<Rightarrow> 0 | Some st \<Rightarrow> whole_seconds (time_sub now (as_StartedAt st)))
      in case news out c (map_of prev ck) of
           None \<Rightarrow> saveState out d c started notified
         | Some kind \<Rightarrow>
           let (suppressed, d1) = announce out d c kind dur;
               notifiedAt = (if suppressed \<and> \<not> (kind = KindRepeat \<and> notified \<noteq> zero_time) then notified else now)
           in saveState out d1 c (orNow started now) notifiedAt)"

section \<open>Resource rules: resolving\<close>

definition resolved_rule :: "AlertState \<Rightarrow> AlertRule" where
  "resolved_rule st = \<lparr>ar_ID = as_RuleID st, ar_Name = as_RuleName st, ar_Enabled = False, ar_Type = ''resource'', ar_Target = [],
     ar_Config = None, ar_Severity = ''info'', ar_WebhookID = None, ar_Email = False, ar_Emails = [], ar_CooldownSec = 0, ar_CreatedAt = 0\<rparr>"

definition observed :: "int list \<Rightarrow> scan \<Rightarrow> string \<Rightarrow> AlertState \<Rightarrow> bool" where
  "observed sampled sc ck st \<longleftrightarrow> as_HostID st \<in> set sampled \<and> ck \<notin> set (sc_unmeasured sc)"

definition resolve :: "outside \<Rightarrow> snapshot \<Rightarrow> int list \<Rightarrow> scan \<Rightarrow> alerts \<Rightarrow> string \<times> AlertState \<Rightarrow> alerts" where
  "resolve out snap sampled sc d p =
     (case p of (ck, st) \<Rightarrow>
      if map_of (sc_winners sc) ck \<noteq> None then d
      else if \<not> observed sampled sc ck st then d
      else let dur = whole_seconds (time_sub (o_now out) (as_StartedAt st));
               project = (case map_of snap (as_ContainerID st) of None \<Rightarrow> [] | Some cs \<Rightarrow> cs_Project cs);
               d1 = snd (emit out d (resolved_rule st) (as_HostID st) (as_HostName st) (as_ContainerID st) (as_ContainerName st) project
                      (to_upper (as_Metric st) @ '' back to normal after '' @ humanDuration dur) None KindResolved dur)
           in snd (DeleteAlertState d1 (as_HostID st) (as_ContainerID st) (as_Metric st)))"

definition state_keys :: "AlertState list \<Rightarrow> (string \<times> AlertState) list" where
  "state_keys sts = foldl (\<lambda>m st. AList.update (stateKey (as_HostID st) (as_ContainerID st) (as_Metric st)) st m) [] sts"

definition evalResourceRules :: "outside \<Rightarrow> Monitor \<Rightarrow> snapshot \<Rightarrow> int list \<Rightarrow> Monitor" where
  "evalResourceRules out m snap sampled =
     (case ListAlertRules (mo_alerts m) of
        Inl _ \<Rightarrow> m
      | Inr rules \<Rightarrow>
        (case ListAlertStates (mo_alerts m) of
           Inl _ \<Rightarrow> m
         | Inr states \<Rightarrow>
           let prev = state_keys states;
               sc = foldl (scan_rule out snap) \<lparr>sc_over = mo_overSince m, sc_winners = [], sc_unmeasured = []\<rparr> rules;
               d1 = foldl (speak out prev) (mo_alerts m) (sc_winners sc);
               d2 = foldl (resolve out snap sampled sc) d1 prev
           in m\<lparr>mo_overSince := sc_over sc, mo_alerts := d2\<rparr>))"

definition pollStats :: "outside \<Rightarrow> engine \<Rightarrow> Monitor \<Rightarrow> Monitor" where
  "pollStats out en m =
     (let (snap0, sampled) = sample_hosts out en;
          snap = (if mo_snapshotAt m = zero_time then snap0
                  else applyNetRates snap0 (mo_snapshot m) (of_int (time_sub (o_now out) (mo_snapshotAt m)) / of_int second));
          m1 = m\<lparr>mo_snapshot := snap, mo_snapshotAt := o_now out\<rparr>;
          m2 = recordHistory out m1 snap;
          m3 = evalResourceRules out m2 snap sampled
      in evalNetworkRules out en m3 snap)"

section \<open>Rates\<close>

lemma uint_diff: "(b :: 64 word) \<le> a \<Longrightarrow> uint (a - b) = uint a - uint b"
  by (simp add: uint_sub_if' word_le_def)

text \<open>The reading a rate is taken against.\<close>

definition baseline :: "snapshot \<Rightarrow> ContainerStat \<Rightarrow> string \<Rightarrow> ContainerStat option" where
  "baseline prev cs i = (if \<not> cs_Sampled cs then None
     else case map_of prev i of None \<Rightarrow> None | Some p \<Rightarrow> if cs_Sampled p then Some p else None)"

definition rate_between :: "(ContainerStat \<Rightarrow> 64 word) \<Rightarrow> ContainerStat \<Rightarrow> ContainerStat option \<Rightarrow> rat \<Rightarrow> rat option" where
  "rate_between counter cs base elapsed = (case base of None \<Rightarrow> None
     | Some p \<Rightarrow> if 0 < elapsed \<and> uint (counter p) \<le> uint (counter cs)
         then Some (of_int (uint (counter cs) - uint (counter p)) / elapsed) else None)"

lemma rate_between_nonneg: "rate_between counter cs base elapsed = Some r \<Longrightarrow> 0 \<le> r"
  by (auto simp: rate_between_def simp del: of_int_diff split: option.splits if_splits)

lemma with_rates_spec:
  assumes "\<not> cs_NetRxRateOK cs" "\<not> cs_NetTxRateOK cs" "0 < elapsed"
  shows "cs_NetRxRateOK (with_rates cs p elapsed) \<longleftrightarrow> rate_between cs_NetRx cs (Some p) elapsed \<noteq> None"
    and "cs_NetTxRateOK (with_rates cs p elapsed) \<longleftrightarrow> rate_between cs_NetTx cs (Some p) elapsed \<noteq> None"
    and "cs_NetRxRateOK (with_rates cs p elapsed) \<Longrightarrow> rate_between cs_NetRx cs (Some p) elapsed = Some (cs_NetRxRate (with_rates cs p elapsed))"
    and "cs_NetTxRateOK (with_rates cs p elapsed) \<Longrightarrow> rate_between cs_NetTx cs (Some p) elapsed = Some (cs_NetTxRate (with_rates cs p elapsed))"
  using assms by (auto simp: with_rates_def rate_between_def Let_def rate_of_def uint_diff word_le_def split: if_splits)

lemma rates_entry:
  "applyNetRates fresh prev elapsed = map (\<lambda>(i, cs). (i, if 0 < elapsed
     then case baseline prev cs i of None \<Rightarrow> cs | Some p \<Rightarrow> with_rates cs p elapsed else cs)) fresh"
  by (auto simp: applyNetRates_def baseline_def map_idI split: option.split)

text \<open>A rate is a true difference of counters. A poll marks a container's rate as measured exactly
  when the container and its previous reading were both sampled, time has passed and the counter
  did not fall; then the 64-bit subtraction did not wrap, and the rate is the exact increase over
  the elapsed time and never negative. A failed sample or a counter that was reset leave the rate
  unmeasured.
\<close>

theorem net_rates_exact:
  assumes "list_all (\<lambda>(i, cs). \<not> cs_NetRxRateOK cs \<and> \<not> cs_NetTxRateOK cs) fresh"
    and "(i, cs') \<in> set (applyNetRates fresh prev elapsed)"
  shows "\<exists>cs. (i, cs) \<in> set fresh
    \<and> (cs_NetRxRateOK cs' = (rate_between cs_NetRx cs (baseline prev cs i) elapsed \<noteq> None))
    \<and> (cs_NetTxRateOK cs' = (rate_between cs_NetTx cs (baseline prev cs i) elapsed \<noteq> None))
    \<and> (cs_NetRxRateOK cs' \<longrightarrow> rate_between cs_NetRx cs (baseline prev cs i) elapsed = Some (cs_NetRxRate cs') \<and> 0 \<le> cs_NetRxRate cs')
    \<and> (cs_NetTxRateOK cs' \<longrightarrow> rate_between cs_NetTx cs (baseline prev cs i) elapsed = Some (cs_NetTxRate cs') \<and> 0 \<le> cs_NetTxRate cs')"
proof -
  obtain cs where cs: "(i, cs) \<in> set fresh"
      "cs' = (if 0 < elapsed then case baseline prev cs i of None \<Rightarrow> cs | Some p \<Rightarrow> with_rates cs p elapsed else cs)"
    using assms(2) by (auto simp: rates_entry)
  have off: "\<not> cs_NetRxRateOK cs" "\<not> cs_NetTxRateOK cs" using assms(1) cs(1) by (auto simp: list_all_iff)
  show ?thesis
  proof (cases "0 < elapsed \<and> baseline prev cs i \<noteq> None")
    case True
    then obtain p where p: "baseline prev cs i = Some p" by blast
    then have "cs' = with_rates cs p elapsed" using cs(2) True by simp
    then show ?thesis
      using with_rates_spec [OF off, of elapsed p] True cs(1) p rate_between_nonneg by (intro exI [of _ cs]) auto
  next
    case False
    then have "cs' = cs" using cs(2) by auto
    moreover have "rate_between c cs (baseline prev cs i) elapsed = None" for c
      using False by (auto simp: rate_between_def split: option.split)
    ultimately show ?thesis using off cs(1) by auto
  qed
qed

definition demo_stat :: "64 word \<Rightarrow> ContainerStat" where
  "demo_stat n = \<lparr>cs_HostID = 1, cs_HostName = ''h'', cs_ID = ''abc'', cs_Name = ''web'', cs_State = ''running'', cs_Project = [],
     cs_CPUPercent = 90, cs_CPUCores = 4, cs_MemBytes = 0, cs_MemLimit = 0, cs_MemPercent = 0, cs_NetRx = n, cs_NetTx = n,
     cs_NetDrops = 0, cs_NetErrors = 0, cs_NetRxRate = 0, cs_NetTxRate = 0, cs_NetRxRateOK = False, cs_NetTxRateOK = False, cs_Sampled = True\<rparr>"

theorem net_rates_exact_witness:
  "\<exists>cs'. (''abc'', cs') \<in> set (applyNetRates [(''abc'', demo_stat 50)] [(''abc'', demo_stat 20)] 15) \<and> cs_NetRxRateOK cs' \<and> cs_NetRxRate cs' = 2"
proof -
  let ?cs = "with_rates (demo_stat 50) (demo_stat 20) 15"
  have mem: "(''abc'', ?cs) \<in> set (applyNetRates [(''abc'', demo_stat 50)] [(''abc'', demo_stat 20)] 15)"
    by (simp add: applyNetRates_def demo_stat_def)
  have off: "list_all (\<lambda>(i, cs). \<not> cs_NetRxRateOK cs \<and> \<not> cs_NetTxRateOK cs) [(''abc'', demo_stat 50)]" by (simp add: demo_stat_def)
  have "rate_between cs_NetRx (demo_stat 50) (baseline [(''abc'', demo_stat 20)] (demo_stat 50) ''abc'') 15 = Some 2" by code_simp
  with net_rates_exact [OF off mem] mem show ?thesis by auto
qed

section \<open>Network rules without the shared readings\<close>

definition plain_hit :: "outside \<Rightarrow> memoryStore \<Rightarrow> AlertRule \<Rightarrow> networkConfig \<Rightarrow> Monitor \<Rightarrow> ContainerStat \<Rightarrow> Monitor" where
  "plain_hit out h r cfg m cs =
     (if cs_State cs \<noteq> ''running'' \<or> \<not> matchTarget (ar_Target r) (cs_Name cs) then m
      else case Increase (Query h (cs_ID cs) (if nc_Metric cfg = ''neterrors'' then MetricNetErrors else MetricNetDrops)
                (o_now out - seconds (nc_WindowSec cfg))) of
        None \<Rightarrow> m
      | Some inc \<Rightarrow>
        if inc < nc_Threshold cfg then m
        else fire out m r (cs_HostID cs) (cs_HostName cs) (cs_ID cs) (cs_Name cs) (cs_Project cs)
          (networkMetricLabel (nc_Metric cfg) @ '' increased by '' @ fmt0 inc @ '' in the last '' @ humanDuration (nc_WindowSec cfg)) (Some inc))"

definition plain_rule :: "outside \<Rightarrow> engine \<Rightarrow> memoryStore \<Rightarrow> snapshot \<Rightarrow> Monitor \<Rightarrow> AlertRule \<Rightarrow> Monitor" where
  "plain_rule out en h snap m r =
     (if \<not> ar_Enabled r \<or> ar_Type r \<noteq> ''network'' then m
      else case parseNetwork (ar_Config r) of
        None \<Rightarrow> m
      | Some cfg \<Rightarrow>
        if en_historyFails en (if nc_Metric cfg = ''neterrors'' then MetricNetErrors else MetricNetDrops) (nc_WindowSec cfg) then m
        else foldl (plain_hit out h r cfg) m (map snd snap))"

definition running_ids :: "snapshot \<Rightarrow> string list" where
  "running_ids snap = map cs_ID (filter (\<lambda>cs. cs_State cs = ''running'') (map snd snap))"

definition reading :: "outside \<Rightarrow> engine \<Rightarrow> memoryStore \<Rightarrow> string list \<Rightarrow> netRuleWindow \<Rightarrow> (string \<rightharpoonup> Point list) option" where
  "reading out en h ids key = (if en_historyFails en (fst key) (snd key) then None
     else Some (QueryAll h (fst key) (o_now out - seconds (snd key)) ids))"

lemma hit_plain:
  assumes "cs \<in> set (map snd snap)"
  shows "network_hit out r cfg (QueryAll h (if nc_Metric cfg = ''neterrors'' then MetricNetErrors else MetricNetDrops)
      (o_now out - seconds (nc_WindowSec cfg)) (running_ids snap)) m cs = plain_hit out h r cfg m cs"
proof (cases "cs_State cs = ''running''")
  case True
  then have "cs_ID cs \<in> set (running_ids snap)" using assms by (auto simp: running_ids_def)
  then show ?thesis
    using memory.batched_increase [of h _ "o_now out - seconds (nc_WindowSec cfg)" "running_ids snap" "cs_ID cs"]
    by (simp add: network_hit_def plain_hit_def memory.batched_def)
next
  case False
  then show ?thesis by (simp add: network_hit_def plain_hit_def)
qed

lemma rule_plain:
  assumes "\<And>key v. rd key = Some v \<Longrightarrow> v = reading out en h (running_ids snap) key"
  shows "\<exists>rd'. network_rule out en h snap (running_ids snap) (rd, m) r = (rd', plain_rule out en h snap m r)
    \<and> (\<forall>key v. rd' key = Some v \<longrightarrow> v = reading out en h (running_ids snap) key)"
proof (cases "parseNetwork (ar_Config r)")
  case None
  then show ?thesis using assms by (auto simp: network_rule_def plain_rule_def)
next
  case (Some cfg)
  define key where "key = (if nc_Metric cfg = ''neterrors'' then MetricNetErrors else MetricNetDrops, nc_WindowSec cfg)"
  define rd1 where "rd1 = read_window out en h (running_ids snap) key rd"
  have "rd1 = (if rd key \<noteq> None then rd else rd(key \<mapsto> reading out en h (running_ids snap) key))"
    by (simp add: rd1_def read_window_def reading_def)
  then have rd1: "rd1 key = Some (reading out en h (running_ids snap) key)"
    and all: "\<forall>k v. rd1 k = Some v \<longrightarrow> v = reading out en h (running_ids snap) k"
    using assms by (cases "rd key"; simp)+
  have hits: "foldl (network_hit out r cfg (QueryAll h (fst key) (o_now out - seconds (snd key)) (running_ids snap))) m (map snd snap)
      = foldl (plain_hit out h r cfg) m (map snd snap)"
    by (rule foldl_cong) (simp_all add: hit_plain key_def del: set_map)
  show ?thesis
  proof (cases "\<not> ar_Enabled r \<or> ar_Type r \<noteq> ''network''")
    case True
    then show ?thesis using assms by (auto simp: network_rule_def plain_rule_def)
  next
    case False
    then have "network_rule out en h snap (running_ids snap) (rd, m) r = (rd1, plain_rule out en h snap m r)"
      using Some rd1 hits by (simp add: network_rule_def plain_rule_def Let_def reading_def flip: key_def rd1_def) (simp add: key_def)
    then show ?thesis using all by blast
  qed
qed

text \<open>C34. Sharing the readings changes nothing. Evaluating the network rules with one reading per metric
  and window for all running containers gives the same state as asking the history anew for every
  rule and container: no container is missed by the batch, and a failed reading silences exactly
  the rules that need it.
\<close>

theorem network_batching:
  "evalNetworkRules out en m snap = (case (mo_history m, ListAlertRules (mo_alerts m)) of
     (Some h, Inr rules) \<Rightarrow> foldl (plain_rule out en h snap) m rules | _ \<Rightarrow> m)"
proof -
  have "snd (foldl (network_rule out en h snap (running_ids snap)) (rd, m) rules) = foldl (plain_rule out en h snap) m rules"
    if "\<forall>key v. rd key = Some v \<longrightarrow> v = reading out en h (running_ids snap) key" for h rd rules
    using that
  proof (induction rules arbitrary: rd m)
    case (Cons r rules)
    then obtain rd' where "network_rule out en h snap (running_ids snap) (rd, m) r = (rd', plain_rule out en h snap m r)"
        "\<forall>key v. rd' key = Some v \<longrightarrow> v = reading out en h (running_ids snap) key"
      using rule_plain by blast
    then show ?case using Cons.IH by simp
  qed simp
  then show ?thesis by (simp add: evalNetworkRules_def Let_def running_ids_def split: option.split sum.split)
qed

section \<open>The most severe rule\<close>

lemma show_nat_chars: "c \<in> set (show_nat n) \<Longrightarrow> is_digit c"
  using show_nat_digits [of n] by (auto simp: list_all_iff)

lemma show_int_no_colon: "CHR '':'' \<notin> set (show_int n)"
  using show_nat_chars [of "CHR '':''"] by (auto simp: show_int_def is_digit_def)

lemma show_nat_inj: "show_nat m = show_nat n \<Longrightarrow> m = n"
  by (metis show_nat_digits of_nat_eq_iff)

lemma show_int_inj: "show_int m = show_int n \<Longrightarrow> m = n"
proof -
  have sign: "CHR ''-'' # show_nat a \<noteq> show_nat b" for a b
    using show_nat_chars [of "CHR ''-''" b] by (auto simp: is_digit_def dest!: sym [of _ "show_nat b"])
  assume "show_int m = show_int n"
  then show ?thesis
    using sign sign [THEN not_sym] show_nat_inj [of "nat m" "nat n"] show_nat_inj [of "nat (- m)" "nat (- n)"]
    by (auto simp: show_int_def split: if_splits)
qed

lemma append_sep_inj: "c \<notin> set a \<Longrightarrow> c \<notin> set a' \<Longrightarrow> a @ c # b = a' @ c # b' \<Longrightarrow> a = a' \<and> b = b'"
proof (induction a arbitrary: a')
  case Nil
  then show ?case by (cases a') auto
next
  case (Cons x a)
  then show ?case by (cases a') auto
qed

lemma ruleKey_inj: "ruleKey i a = ruleKey j b \<longleftrightarrow> i = j \<and> a = b"
  using append_sep_inj [OF show_int_no_colon show_int_no_colon, of i a j b] show_int_inj [of i j] by (auto simp: ruleKey_def)

text \<open>The pairs of a rule and a container that a scan looks at, and when such a pair is due: the
  metric is readable and over the threshold, and has been for the rule's duration.\<close>

type_synonym pair = "AlertRule \<times> resourceConfig \<times> ContainerStat"

definition rule_pairs :: "snapshot \<Rightarrow> AlertRule \<Rightarrow> pair list" where
  "rule_pairs snap r = (if \<not> ar_Enabled r \<or> ar_Type r \<noteq> ''resource'' then []
     else case parseResource (ar_Config r) of None \<Rightarrow> [] | Some cfg \<Rightarrow> map (\<lambda>cs. (r, cfg, cs)) (map snd snap))"

definition pair_state :: "pair \<Rightarrow> string" where
  "pair_state p = (case p of (r, cfg, cs) \<Rightarrow> stateKey (cs_HostID cs) (cs_ID cs) (metricKey cfg))"

definition due :: "outside \<Rightarrow> (string \<rightharpoonup> time) \<Rightarrow> pair \<Rightarrow> bool" where
  "due out over p = (case p of (r, cfg, cs) \<Rightarrow>
     cs_State cs = ''running'' \<and> matchTarget (ar_Target r) (cs_Name cs) \<and> snd (metric cs (rc_Metric cfg))
     \<and> exceeds cfg (fst (metric cs (rc_Metric cfg)))
     \<and> seconds (rc_DurationSec cfg) \<le> time_sub (o_now out) (case over (ruleKey (ar_ID r) (cs_ID cs)) of None \<Rightarrow> o_now out | Some t \<Rightarrow> t))"

definition unreadable :: "pair \<Rightarrow> bool" where
  "unreadable p = (case p of (r, cfg, cs) \<Rightarrow>
     cs_State cs = ''running'' \<and> matchTarget (ar_Target r) (cs_Name cs) \<and> \<not> snd (metric cs (rc_Metric cfg)))"

definition pair_rank :: "pair \<Rightarrow> int" where
  "pair_rank p = severityRank (ar_Severity (fst p))"

definition pair_of :: "winner \<Rightarrow> pair" where
  "pair_of c = (ca_rule c, ca_cfg c, ca_stat c)"

definition scan_pair :: "outside \<Rightarrow> scan \<Rightarrow> pair \<Rightarrow> scan" where
  "scan_pair out sc p = (case p of (r, cfg, cs) \<Rightarrow> scan_stat out r cfg sc cs)"

lemma scan_rule_pairs: "scan_rule out snap sc r = foldl (scan_pair out) sc (rule_pairs snap r)"
  by (simp add: scan_rule_def rule_pairs_def scan_pair_def foldl_map split: option.split)

lemma scan_rules_pairs: "foldl (scan_rule out snap) sc rules = foldl (scan_pair out) sc (concat (map (rule_pairs snap) rules))"
  by (induction rules arbitrary: sc) (simp_all add: scan_rule_pairs)

text \<open>What is known after some pairs have been scanned.\<close>

definition beats :: "outside \<Rightarrow> (string \<rightharpoonup> time) \<Rightarrow> pair list \<Rightarrow> string \<Rightarrow> winner \<Rightarrow> bool" where
  "beats out over ps ck c \<longleftrightarrow> pair_of c \<in> set ps \<and> due out over (pair_of c) \<and> pair_state (pair_of c) = ck
     \<and> ca_value c = fst (metric (ca_stat c) (rc_Metric (ca_cfg c)))
     \<and> (\<forall>q \<in> set ps. due out over q \<and> pair_state q = ck \<longrightarrow> pair_rank q \<le> pair_rank (pair_of c))"

definition scanned :: "outside \<Rightarrow> (string \<rightharpoonup> time) \<Rightarrow> pair list \<Rightarrow> scan \<Rightarrow> bool" where
  "scanned out over ps sc \<longleftrightarrow>
     (\<forall>ck. (map_of (sc_winners sc) ck = None \<longleftrightarrow> \<not> (\<exists>q \<in> set ps. due out over q \<and> pair_state q = ck))
        \<and> (\<forall>c. map_of (sc_winners sc) ck = Some c \<longrightarrow> beats out over ps ck c))
     \<and> (\<forall>ck. ck \<in> set (sc_unmeasured sc) \<longleftrightarrow> (\<exists>q \<in> set ps. unreadable q \<and> pair_state q = ck))
     \<and> (\<forall>i cid. (i, cid) \<notin> (\<lambda>(r, cfg, cs). (ar_ID r, cs_ID cs)) ` set ps \<longrightarrow> sc_over sc (ruleKey i cid) = over (ruleKey i cid))"

lemma scanned_over:
  "scanned out over ps sc \<Longrightarrow> (ar_ID r, cs_ID cs) \<notin> (\<lambda>(r, cfg, cs). (ar_ID r, cs_ID cs)) ` set ps
    \<Longrightarrow> sc_over sc (ruleKey (ar_ID r) (cs_ID cs)) = over (ruleKey (ar_ID r) (cs_ID cs))"
  by (simp add: scanned_def)

lemma beats_snoc: "beats out over ps ck c \<Longrightarrow> \<not> (due out over p \<and> pair_state p = ck) \<or> pair_rank p \<le> pair_rank (pair_of c)
    \<Longrightarrow> beats out over (ps @ [p]) ck c"
  by (auto simp: beats_def)

lemma scanned_same:
  assumes "scanned out over ps sc" and "sc_winners sc' = sc_winners sc"
    and "\<not> due out over p \<or> (\<exists>c. map_of (sc_winners sc) (pair_state p) = Some c \<and> pair_rank p \<le> pair_rank (pair_of c))"
    and "set (sc_unmeasured sc') = set (sc_unmeasured sc) \<union> (if unreadable p then {pair_state p} else {})"
    and "\<And>k. k \<noteq> ruleKey (ar_ID (fst p)) (cs_ID (snd (snd p))) \<Longrightarrow> sc_over sc' k = sc_over sc k"
  shows "scanned out over (ps @ [p]) sc'"
proof -
  obtain r cfg cs where p: "p = (r, cfg, cs)" by (cases p) auto
  have w: "(map_of (sc_winners sc) ck = None \<longleftrightarrow> \<not> (\<exists>q \<in> set (ps @ [p]). due out over q \<and> pair_state q = ck))
        \<and> (\<forall>c. map_of (sc_winners sc) ck = Some c \<longrightarrow> beats out over (ps @ [p]) ck c)" for ck
  proof
    have "map_of (sc_winners sc) ck = None \<longleftrightarrow> \<not> (\<exists>q \<in> set ps. due out over q \<and> pair_state q = ck)"
      using assms(1) by (simp add: scanned_def)
    then show "map_of (sc_winners sc) ck = None \<longleftrightarrow> \<not> (\<exists>q \<in> set (ps @ [p]). due out over q \<and> pair_state q = ck)"
      using assms(3) by auto
    show "\<forall>c. map_of (sc_winners sc) ck = Some c \<longrightarrow> beats out over (ps @ [p]) ck c"
    proof (intro allI impI)
      fix c assume c: "map_of (sc_winners sc) ck = Some c"
      then have "beats out over ps ck c" using assms(1) by (simp add: scanned_def)
      then show "beats out over (ps @ [p]) ck c" using assms(3) c by (intro beats_snoc) auto
    qed
  qed
  have "ck \<in> set (sc_unmeasured sc') \<longleftrightarrow> (\<exists>q \<in> set (ps @ [p]). unreadable q \<and> pair_state q = ck)" for ck
    using assms(1,4) by (auto simp: scanned_def)
  moreover have "sc_over sc' (ruleKey i cid) = over (ruleKey i cid)"
    if "(i, cid) \<notin> (\<lambda>(r, cfg, cs). (ar_ID r, cs_ID cs)) ` set (ps @ [p])" for i cid
  proof -
    have "ruleKey i cid \<noteq> ruleKey (ar_ID (fst p)) (cs_ID (snd (snd p)))" using that p by (auto simp: ruleKey_inj)
    moreover have "(i, cid) \<notin> (\<lambda>(r, cfg, cs). (ar_ID r, cs_ID cs)) ` set ps" using that by auto
    ultimately show ?thesis using assms(1,5) by (simp add: scanned_def)
  qed
  ultimately show ?thesis using w assms(2) by (simp add: scanned_def)
qed

lemma scanned_won:
  assumes "scanned out over ps sc" and "due out over p" "\<not> unreadable p"
    and "\<And>c. map_of (sc_winners sc) (pair_state p) = Some c \<Longrightarrow> pair_rank (pair_of c) < pair_rank p"
    and "sc_winners sc' = AList.update (pair_state p) c' (sc_winners sc)" "pair_of c' = p"
    and "ca_value c' = fst (metric (ca_stat c') (rc_Metric (ca_cfg c')))"
    and "sc_unmeasured sc' = sc_unmeasured sc"
    and "\<And>k. k \<noteq> ruleKey (ar_ID (fst p)) (cs_ID (snd (snd p))) \<Longrightarrow> sc_over sc' k = sc_over sc k"
  shows "scanned out over (ps @ [p]) sc'"
proof -
  obtain r cfg cs where p: "p = (r, cfg, cs)" by (cases p) auto
  have old: "map_of (sc_winners sc) ck = None \<longleftrightarrow> \<not> (\<exists>q \<in> set ps. due out over q \<and> pair_state q = ck)"
    "\<And>c. map_of (sc_winners sc) ck = Some c \<Longrightarrow> beats out over ps ck c" for ck
    using assms(1) by (simp_all add: scanned_def)
  have "pair_rank q \<le> pair_rank p" if q: "q \<in> set ps" "due out over q" "pair_state q = pair_state p" for q
  proof -
    obtain c where "map_of (sc_winners sc) (pair_state p) = Some c"
      using old(1) [of "pair_state p"] q by (cases "map_of (sc_winners sc) (pair_state p)") auto
    then show ?thesis using old(2) assms(4) q by (fastforce simp: beats_def)
  qed
  then have won: "beats out over (ps @ [p]) (pair_state p) c'"
    using assms(2,6,7) by (auto simp: beats_def)
  have w: "(map_of (sc_winners sc') ck = None \<longleftrightarrow> \<not> (\<exists>q \<in> set (ps @ [p]). due out over q \<and> pair_state q = ck))
        \<and> (\<forall>c. map_of (sc_winners sc') ck = Some c \<longrightarrow> beats out over (ps @ [p]) ck c)" for ck
  proof (cases "ck = pair_state p")
    case True
    then show ?thesis using won assms(2,5) by (auto simp: update_conv)
  next
    case False
    then have "map_of (sc_winners sc') ck = map_of (sc_winners sc) ck" by (simp add: assms(5) update_conv)
    then show ?thesis using False old [of ck] by (auto intro: beats_snoc)
  qed
  have "ck \<in> set (sc_unmeasured sc') \<longleftrightarrow> (\<exists>q \<in> set (ps @ [p]). unreadable q \<and> pair_state q = ck)" for ck
    using assms(1,3,8) by (auto simp: scanned_def)
  moreover have "sc_over sc' (ruleKey i cid) = over (ruleKey i cid)"
    if "(i, cid) \<notin> (\<lambda>(r, cfg, cs). (ar_ID r, cs_ID cs)) ` set (ps @ [p])" for i cid
  proof -
    have "ruleKey i cid \<noteq> ruleKey (ar_ID (fst p)) (cs_ID (snd (snd p)))" using that p by (auto simp: ruleKey_inj)
    moreover have "(i, cid) \<notin> (\<lambda>(r, cfg, cs). (ar_ID r, cs_ID cs)) ` set ps" using that by auto
    ultimately show ?thesis using assms(1,9) by (simp add: scanned_def)
  qed
  ultimately show ?thesis using w by (simp add: scanned_def)
qed

lemma scan_pair_scanned:
  assumes "scanned out over ps sc" and "(ar_ID r, cs_ID cs) \<notin> (\<lambda>(r, cfg, cs). (ar_ID r, cs_ID cs)) ` set ps"
  shows "scanned out over (ps @ [(r, cfg, cs)]) (scan_pair out sc (r, cfg, cs))"
proof -
  let ?p = "(r, cfg, cs)" and ?ck = "stateKey (cs_HostID cs) (cs_ID cs) (metricKey cfg)"
  have over: "sc_over sc (ruleKey (ar_ID r) (cs_ID cs)) = over (ruleKey (ar_ID r) (cs_ID cs))"
    using scanned_over [OF assms] .
  show ?thesis
  proof (cases "due out over ?p")
    case False
    then show ?thesis
      by (intro scanned_same [OF assms(1)])
        (auto simp: scan_pair_def scan_stat_def due_def unreadable_def pair_state_def over Let_def case_prod_unfold)
  next
    case True
    show ?thesis
    proof (cases "\<exists>c. map_of (sc_winners sc) (pair_state ?p) = Some c \<and> pair_rank ?p \<le> pair_rank (pair_of c)")
      case win: True
      show ?thesis
        using True win by (intro scanned_same [OF assms(1)])
          (auto simp: scan_pair_def scan_stat_def due_def unreadable_def pair_state_def pair_rank_def pair_of_def over Let_def case_prod_unfold)
    next
      case win: False
      show ?thesis
      proof (rule scanned_won [OF assms(1) True])
        show "\<not> unreadable ?p" using True by (auto simp: due_def unreadable_def)
        show "pair_rank (pair_of c) < pair_rank ?p" if "map_of (sc_winners sc) (pair_state ?p) = Some c" for c
          using that win by force
        show "sc_winners (scan_pair out sc ?p) = AList.update (pair_state ?p)
            \<lparr>ca_rule = r, ca_cfg = cfg, ca_stat = cs, ca_value = fst (metric cs (rc_Metric cfg))\<rparr> (sc_winners sc)"
          using True win by (auto simp: scan_pair_def scan_stat_def due_def pair_state_def pair_rank_def pair_of_def over Let_def
              case_prod_unfold split: option.split)
        show "sc_unmeasured (scan_pair out sc ?p) = sc_unmeasured sc"
          using True by (auto simp: scan_pair_def scan_stat_def due_def Let_def case_prod_unfold)
        show "sc_over (scan_pair out sc ?p) k = sc_over sc k" if "k \<noteq> ruleKey (ar_ID (fst ?p)) (cs_ID (snd (snd ?p)))" for k
          using that by (auto simp: scan_pair_def scan_stat_def Let_def case_prod_unfold)
      qed (simp_all add: pair_of_def)
    qed
  qed
qed

lemma scan_all:
  assumes "scanned out over ps sc" and "distinct (map (\<lambda>(r, cfg, cs). (ar_ID r, cs_ID cs)) (ps @ qs))"
  shows "scanned out over (ps @ qs) (foldl (scan_pair out) sc qs)"
  using assms
proof (induction qs arbitrary: ps sc)
  case (Cons q qs)
  obtain r cfg cs where q: "q = (r, cfg, cs)" by (cases q) auto
  have "scanned out over (ps @ [q]) (scan_pair out sc q)"
    unfolding q by (rule scan_pair_scanned [OF Cons.prems(1)]) (use Cons.prems(2) q in auto)
  then show ?case using Cons.IH [of "ps @ [q]"] Cons.prems(2) by simp
qed simp

lemma rule_pairs_ids: "map (\<lambda>(r, cfg, cs). (ar_ID r, cs_ID cs)) (rule_pairs snap r) = []
    \<or> map (\<lambda>(r, cfg, cs). (ar_ID r, cs_ID cs)) (rule_pairs snap r) = map (\<lambda>i. (ar_ID r, i)) (map (cs_ID \<circ> snd) snap)"
  by (simp add: rule_pairs_def split: option.split)

lemma rule_pairs_rule: "q \<in> set (rule_pairs snap s) \<Longrightarrow> fst q = s"
  by (auto simp: rule_pairs_def split: if_splits option.splits)

lemma pairs_distinct:
  assumes "distinct (map ar_ID rules)" "distinct (map (cs_ID \<circ> snd) snap)"
  shows "distinct (map (\<lambda>(r, cfg, cs). (ar_ID r, cs_ID cs)) (concat (map (rule_pairs snap) rules)))"
  using assms(1)
proof (induction rules)
  case (Cons r rules)
  let ?ids = "map (\<lambda>(r, cfg, cs). (ar_ID r, cs_ID cs))"
  have "distinct (map (\<lambda>i. (ar_ID r, i)) (map (cs_ID \<circ> snd) snap))"
    by (subst distinct_map) (use assms(2) in \<open>simp add: inj_on_def\<close>)
  then have "distinct (?ids (rule_pairs snap r))" using rule_pairs_ids [of snap r] by (metis distinct.simps(1))
  moreover have "set (?ids (rule_pairs snap r)) \<inter> set (?ids (concat (map (rule_pairs snap) rules))) = {}"
  proof (rule ccontr)
    assume "\<not> ?thesis"
    then obtain x where x: "x \<in> set (?ids (rule_pairs snap r))" "x \<in> set (?ids (concat (map (rule_pairs snap) rules)))" by blast
    have "fst x = ar_ID r" using x(1) by (auto dest: rule_pairs_rule)
    moreover have "fst x \<in> ar_ID ` set rules" using x(2) by (auto dest: rule_pairs_rule)
    ultimately have "ar_ID r \<in> ar_ID ` set rules" by simp
    then show False using Cons.prems by simp
  qed
  ultimately show ?case using Cons by simp
qed simp

lemma winners_distinct: "distinct (map fst (sc_winners sc)) \<Longrightarrow> distinct (map fst (sc_winners (foldl (scan_pair out) sc qs)))"
proof (induction qs arbitrary: sc)
  case (Cons q qs)
  have "distinct (map fst (sc_winners (scan_pair out sc q)))"
    using Cons.prems by (auto simp: scan_pair_def scan_stat_def Let_def case_prod_unfold intro: distinct_update)
  then show ?case using Cons.IH by simp
qed simp

text \<open>C26. Of several rules over one condition only the most severe speaks. For every condition, a scan
  has a winner exactly when some rule is due for it: enabled, of the right type and target, its
  metric readable and over the threshold for the rule's duration. The winner is such a rule, no
  due rule of the condition is more severe, and there is only one winner for each condition.
\<close>

theorem loudest_rule_speaks:
  assumes "distinct (map ar_ID rules)" and "distinct (map (cs_ID \<circ> snd) snap)"
  shows "let ps = concat (map (rule_pairs snap) rules);
             sc = foldl (scan_rule out snap) \<lparr>sc_over = over, sc_winners = [], sc_unmeasured = []\<rparr> rules
    in (case map_of (sc_winners sc) ck of
          None \<Rightarrow> \<not> list_ex (\<lambda>q. due out over q \<and> pair_state q = ck) ps
        | Some c \<Rightarrow> beats out over ps ck c)
       \<and> distinct (map fst (sc_winners sc))"
proof -
  let ?sc = "\<lparr>sc_over = over, sc_winners = [], sc_unmeasured = []\<rparr>" and ?ps = "concat (map (rule_pairs snap) rules)"
  have "scanned out over [] ?sc" by (simp add: scanned_def)
  from scan_all [OF this, of ?ps] pairs_distinct [OF assms] have "scanned out over ?ps (foldl (scan_pair out) ?sc ?ps)" by simp
  then show ?thesis
    using winners_distinct [of ?sc] by (auto simp: Let_def scan_rules_pairs scanned_def list_ex_iff split: option.split)
qed

definition cpu_rule :: "int \<Rightarrow> string \<Rightarrow> rat \<Rightarrow> AlertRule" where
  "cpu_rule i sev limit = \<lparr>ar_ID = i, ar_Name = ''cpu'', ar_Enabled = True, ar_Type = ''resource'', ar_Target = ''*'',
     ar_Config = Some \<lparr>jc_metric = [], jc_op = [], jc_threshold = limit, jc_durationSec = 600, jc_events = [], jc_windowSec = 0,
       jc_count = 0, jc_pattern = [], jc_isRegex = False\<rparr>,
     ar_Severity = sev, ar_WebhookID = None, ar_Email = False, ar_Emails = [], ar_CooldownSec = 60, ar_CreatedAt = 0\<rparr>"

definition busy :: snapshot where "busy = [(''abc'', demo_stat 0)]"

definition busy_rules :: "AlertRule list" where
  "busy_rules = [cpu_rule 1 ''warning'' 50, cpu_rule 2 ''critical'' 80]"

definition busy_scan :: scan where
  "busy_scan = foldl (scan_rule (quiet\<lparr>o_now := hour\<rparr>) busy) \<lparr>sc_over = (\<lambda>_. Some 0), sc_winners = [], sc_unmeasured = []\<rparr>
     busy_rules"

theorem loudest_rule_speaks_witness:
  "\<exists>c. map_of (sc_winners busy_scan) ''1:abc:cpu'' = Some c \<and> ar_ID (ca_rule c) = 2
     \<and> beats (quiet\<lparr>o_now := hour\<rparr>) (\<lambda>_. Some 0) (concat (map (rule_pairs busy) busy_rules))
         ''1:abc:cpu'' c"
proof -
  have "map_option (ar_ID \<circ> ca_rule) (map_of (sc_winners busy_scan) ''1:abc:cpu'') = Some 2" by code_simp
  then obtain c where c: "map_of (sc_winners busy_scan) ''1:abc:cpu'' = Some c" "ar_ID (ca_rule c) = 2" by auto
  have "distinct (map ar_ID busy_rules)" "distinct (map (cs_ID \<circ> snd) busy)"
    by (simp_all add: cpu_rule_def busy_def busy_rules_def)
  from loudest_rule_speaks [OF this, of "quiet\<lparr>o_now := hour\<rparr>" "\<lambda>_. Some 0" "''1:abc:cpu''"] c show ?thesis
    unfolding Let_def busy_scan_def by auto
qed

end
