(* ===== verification/ConditionLife.thy ===== *)
theory ConditionLife
  imports Conditions
begin

text \<open>
  The life of a condition, over the definitions of \<open>Conditions\<close>: what a poll leaves in the table of
  conditions, when a condition ends, and what is said about one that began in silence.
\<close>

section \<open>When a condition ends\<close>

lemma deliver_frame [simp]:
  "al_states (dispatch out d w ev) = al_states d" "al_states (emailNotify out d ev es) = al_states d"
  "al_events (dispatch out d w ev) = al_events d"
  "al_states (deliver out d r ev) = al_states d" "al_fails (deliver out d r ev) = al_fails d" "al_events (deliver out d r ev) = al_events d"
  by (simp_all add: deliver_def dispatch_def emailNotify_def enqueueRetry_def enqueueEmailRetry_def EnqueueAlertDeliveryRetry_def
      record_webhook_def recordDelivery_def RecordAlertDelivery_def Let_def split: option.split)

lemma emit_frame [simp]:
  "al_states (snd (emit out d r h hn cid name project msg v kind dur)) = al_states d"
  "al_fails (snd (emit out d r h hn cid name project msg v kind dur)) = al_fails d"
  by (simp_all add: emit_def InsertAlertEvent_def Let_def case_prod_unfold)

lemma announce_frame [simp]:
  "al_states (snd (announce out d c kind dur)) = al_states d" "al_fails (snd (announce out d c kind dur)) = al_fails d"
  by (simp_all add: announce_def Let_def)

text \<open>Whatever a winner says, its condition is saved in the end.\<close>

lemma speak_saves:
  "\<exists>started notified. al_states (speak out prev d (ck, c)) = al_states (saveState out d c started notified)
     \<and> al_fails (speak out prev d (ck, c)) = al_fails d"
proof (cases "news out c (map_of prev ck)")
  case None
  then show ?thesis by (auto simp: speak_def Let_def saveState_def UpsertAlertState_def)
next
  case (Some kind)
  then show ?thesis
    by (simp add: speak_def Let_def case_prod_unfold) (auto simp: saveState_def UpsertAlertState_def)
qed

definition states_wf :: "alerts \<Rightarrow> bool" where
  "states_wf d \<longleftrightarrow> distinct (map (\<lambda>a. (as_HostID a, as_ContainerID a, as_Metric a)) (al_states d))"

definition saved_row :: "AlertState list \<Rightarrow> AlertState list \<Rightarrow> bool" where
  "saved_row xs ys \<longleftrightarrow> (\<forall>a \<in> set xs. \<exists>b \<in> set ys. same_condition a b \<and> as_StartedAt b = as_StartedAt a)"

lemma same_condition_refl [simp]: "same_condition a a" by (simp add: same_condition_def)

lemma saved_row_refl: "set xs \<subseteq> set ys \<Longrightarrow> saved_row xs ys"
  unfolding saved_row_def using same_condition_refl by blast

lemma saved_row_trans: "saved_row xs ys \<Longrightarrow> saved_row ys zs \<Longrightarrow> saved_row xs zs"
  unfolding saved_row_def same_condition_def by metis

lemma upsert_saves: "saved_row (al_states d) (al_states (snd (UpsertAlertState d a)))"
proof -
  let ?f = "\<lambda>b. if same_condition a b then (state_columns a)\<lparr>as_StartedAt := as_StartedAt b\<rparr> else b"
  have "same_condition b (?f b) \<and> as_StartedAt (?f b) = as_StartedAt b" for b
    by (simp add: same_condition_def state_columns_def)
  then have "saved_row xs (map ?f xs)" for xs unfolding saved_row_def by (metis (no_types, lifting) image_eqI list.set_map)
  moreover have "saved_row (al_states d) (al_states d)" "saved_row (al_states d) (al_states d @ [state_columns a])"
    by (rule saved_row_refl, auto)+
  ultimately show ?thesis by (simp add: UpsertAlertState_def)
qed

lemma speak_keeps: "saved_row (al_states d) (al_states (speak out prev d w)) \<and> al_fails (speak out prev d w) = al_fails d"
proof -
  obtain ck c where w: "w = (ck, c)" by (cases w)
  show ?thesis using speak_saves [of out prev d ck c] upsert_saves by (auto simp: w saveState_def)
qed

lemma speak_all_keeps:
  "saved_row (al_states d) (al_states (foldl (speak out prev) d ws)) \<and> al_fails (foldl (speak out prev) d ws) = al_fails d"
proof (induction ws arbitrary: d)
  case Nil
  then show ?case by (simp add: saved_row_refl)
next
  case (Cons w ws)
  then show ?case using speak_keeps [of d out prev w] saved_row_trans by fastforce
qed

definition ended :: "int list \<Rightarrow> scan \<Rightarrow> string \<times> AlertState \<Rightarrow> bool" where
  "ended sampled sc p \<longleftrightarrow> map_of (sc_winners sc) (fst p) = None \<and> observed sampled sc (fst p) (snd p)"

lemma resolve_states:
  assumes "\<not> al_fails d DelState"
  shows "al_states (resolve out snap sampled sc d p)
      = filter (\<lambda>b. \<not> (ended sampled sc p \<and> same_condition (snd p) b)) (al_states d)
    \<and> al_fails (resolve out snap sampled sc d p) = al_fails d"
proof -
  obtain ck st where p: "p = (ck, st)" by (cases p)
  show ?thesis using assms
    by (auto simp: p resolve_def ended_def DeleteAlertState_def same_condition_def Let_def intro!: filter_cong [OF refl])
qed

lemma resolve_all_states:
  assumes "\<not> al_fails d DelState"
  shows "al_states (foldl (resolve out snap sampled sc) d ps)
      = filter (\<lambda>b. \<not> list_ex (\<lambda>p. ended sampled sc p \<and> same_condition (snd p) b) ps) (al_states d)"
  using assms
proof (induction ps arbitrary: d)
  case (Cons p ps)
  note r = resolve_states [OF Cons.prems, of out snap sampled sc p]
  show ?case using Cons.IH [of "resolve out snap sampled sc d p"] Cons.prems r
    by simp
qed simp

text \<open>The unreadable conditions of a scan.\<close>

lemma unmeasured_scan:
  "set (sc_unmeasured (foldl (scan_pair out) sc ps)) = set (sc_unmeasured sc) \<union> pair_state ` {q \<in> set ps. unreadable q}"
proof (induction ps arbitrary: sc)
  case (Cons p ps)
  have "set (sc_unmeasured (scan_pair out sc p)) = set (sc_unmeasured sc) \<union> (if unreadable p then {pair_state p} else {})"
    by (auto simp: scan_pair_def scan_stat_def unreadable_def pair_state_def Let_def case_prod_unfold)
  then show ?case using Cons.IH by auto
qed simp


text \<open>Keys of conditions are unambiguous as long as container ids hold no colon.\<close>

definition plain_id :: "string \<Rightarrow> bool" where "plain_id cid \<longleftrightarrow> CHR '':'' \<notin> set cid"

lemma stateKey_inj:
  assumes "plain_id a" "plain_id b"
  shows "stateKey h a x = stateKey k b y \<longleftrightarrow> h = k \<and> a = b \<and> x = y"
proof
  assume "stateKey h a x = stateKey k b y"
  then have "show_int h @ CHR '':'' # (a @ CHR '':'' # x) = show_int k @ CHR '':'' # (b @ CHR '':'' # y)" by (simp add: stateKey_def)
  from append_sep_inj [OF show_int_no_colon show_int_no_colon this]
  have "show_int h = show_int k" "a @ CHR '':'' # x = b @ CHR '':'' # y" by blast+
  then show "h = k \<and> a = b \<and> x = y" using show_int_inj append_sep_inj [of "CHR '':''" a b x y] assms by (auto simp: plain_id_def)
qed simp

definition state_key :: "AlertState \<Rightarrow> string" where
  "state_key a = stateKey (as_HostID a) (as_ContainerID a) (as_Metric a)"

lemma set_state_keys:
  assumes "distinct (map state_key sts)"
  shows "set (state_keys sts) = (\<lambda>a. (state_key a, a)) ` set sts"
proof -
  have "foldl (\<lambda>m st. AList.update (stateKey (as_HostID st) (as_ContainerID st) (as_Metric st)) st m) acc sts
      = acc @ map (\<lambda>a. (state_key a, a)) sts" if "distinct (map fst acc @ map state_key sts)" for acc
    using that
  proof (induction sts arbitrary: acc)
    case (Cons a sts)
    have "AList.update (state_key a) a acc = acc @ [(state_key a, a)]"
      using Cons.prems by (induction acc) auto
    then show ?case using Cons.IH [of "acc @ [(state_key a, a)]"] Cons.prems by (simp add: state_key_def)
  qed simp
  from this [of "[]"] assms show ?thesis by (simp add: state_keys_def)
qed

lemma distinct_state_key:
  assumes "states_wf d" "list_all (plain_id \<circ> as_ContainerID) (al_states d)"
  shows "distinct (map state_key (al_states d))"
  using assms by (auto simp: states_wf_def distinct_map inj_on_def state_key_def list_all_iff stateKey_inj)


lemma resolve_all_fails: "al_fails (foldl (resolve out snap sampled sc) d ps) = al_fails d"
  by (induction ps arbitrary: d) (simp_all add: resolve_def DeleteAlertState_def Let_def case_prod_unfold)

lemma eval_fails [simp]: "al_fails (mo_alerts (evalResourceRules out m snap sampled)) = al_fails (mo_alerts m)"
  using speak_all_keeps by (simp add: evalResourceRules_def Let_def resolve_all_fails split: sum.split)

lemma with_rules_fails [simp]: "\<not> al_fails (mo_alerts (with_rules rs)) q"
proof -
  have "al_fails (foldl (\<lambda>d r. snd (CreateAlertRule d r 0)) d rs) = al_fails d" for d
    by (induction rs arbitrary: d) (simp_all add: CreateAlertRule_def Let_def case_prod_unfold)
  then show ?thesis by (simp add: with_rules_def no_alerts_def)
qed

definition poll_at :: "time \<Rightarrow> snapshot \<Rightarrow> int list \<Rightarrow> Monitor \<Rightarrow> Monitor" where
  "poll_at t snap sampled m = evalResourceRules (quiet\<lparr>o_now := t\<rparr>) m snap sampled"

definition firing_monitor :: Monitor where
  "firing_monitor = poll_at (day + hour) busy [1] (poll_at day busy [1] (with_rules [cpu_rule 0 ''warning'' 50]))"

definition firing_row :: AlertState where
  "firing_row = hd (al_states (mo_alerts firing_monitor))"


section \<open>One row for each condition\<close>

lemma upsert_wf: "states_wf d \<Longrightarrow> states_wf (snd (UpsertAlertState d a))"
proof -
  assume wf: "states_wf d"
  let ?key = "\<lambda>a. (as_HostID a, as_ContainerID a, as_Metric a)"
  let ?f = "\<lambda>b. if same_condition a b then (state_columns a)\<lparr>as_StartedAt := as_StartedAt b\<rparr> else b"
  have "?key (?f b) = ?key b" for b by (simp add: same_condition_def state_columns_def)
  then have "map ?key (map ?f xs) = map ?key xs" for xs by simp
  moreover have "\<not> list_ex (same_condition a) (al_states d) \<Longrightarrow> ?key (state_columns a) \<notin> set (map ?key (al_states d))"
    by (auto simp: list_ex_iff same_condition_def state_columns_def)
  ultimately show ?thesis using wf by (simp add: states_wf_def UpsertAlertState_def del: map_map)
qed

lemma speak_wf: "states_wf d \<Longrightarrow> states_wf (speak out prev d w)"
proof -
  assume wf: "states_wf d"
  obtain ck c where w: "w = (ck, c)" by (cases w)
  obtain s n where "al_states (speak out prev d (ck, c)) = al_states (saveState out d c s n)" using speak_saves by blast
  then show ?thesis using upsert_wf [OF wf] by (simp add: w saveState_def states_wf_def)
qed

lemma resolve_wf: "states_wf d \<Longrightarrow> states_wf (resolve out snap sampled sc d p)"
  by (auto simp: states_wf_def resolve_def DeleteAlertState_def Let_def distinct_map_filter case_prod_unfold)

text \<open>A condition has one row. From an empty table, whatever polls are evaluated and whatever
  statements fail, no two rows of the table of conditions are for the same metric of the same
  container on the same host.
\<close>

theorem one_row_per_condition:
  assumes "al_states (mo_alerts m) = []"
  shows "states_wf (mo_alerts (foldl (\<lambda>m (out, snap, sampled). evalResourceRules out m snap sampled) m polls))"
proof -
  have step: "states_wf (mo_alerts (evalResourceRules out m snap sampled))" if "states_wf (mo_alerts m)" for out m snap sampled
  proof -
    have "states_wf (foldl (speak out prev) d ws)" if "states_wf d" for prev d ws
      using that by (induction ws arbitrary: d) (simp_all add: speak_wf)
    moreover have "states_wf (foldl (resolve out snap sampled sc) d ps)" if "states_wf d" for sc d ps
      using that by (induction ps arbitrary: d) (simp_all add: resolve_wf)
    ultimately show ?thesis using that by (auto simp: evalResourceRules_def Let_def split: sum.split)
  qed
  have "states_wf (mo_alerts (foldl (\<lambda>m (out, snap, sampled). evalResourceRules out m snap sampled) m polls))" if "states_wf (mo_alerts m)" for m
    using that by (induction polls arbitrary: m) (auto simp: step)
  then show ?thesis using assms by (simp add: states_wf_def)
qed

theorem one_row_per_condition_witness:
  "states_wf (mo_alerts (foldl (\<lambda>m (out, snap, sampled). evalResourceRules out m snap sampled) (with_rules [cpu_rule 0 ''warning'' 50])
     [(quiet\<lparr>o_now := day\<rparr>, busy, [1]), (quiet\<lparr>o_now := day + hour\<rparr>, busy, [1])]))"
  by (rule one_row_per_condition) code_simp

section \<open>An announcement that is owed\<close>

lemma upsert_row:
  assumes "\<not> al_fails d UpsState"
  shows "\<exists>b \<in> set (al_states (snd (UpsertAlertState d a))). same_condition a b \<and> as_NotifiedAt b = trunc_sec (as_NotifiedAt a)"
proof (cases "list_ex (same_condition a) (al_states d)")
  case True
  then obtain x where x: "x \<in> set (al_states d)" "same_condition a x" by (auto simp: list_ex_iff)
  let ?b = "(state_columns a)\<lparr>as_StartedAt := as_StartedAt x\<rparr>"
  have "?b \<in> set (al_states (snd (UpsertAlertState d a)))" using assms True x by (auto simp: UpsertAlertState_def image_iff)
  moreover have "same_condition a ?b \<and> as_NotifiedAt ?b = trunc_sec (as_NotifiedAt a)" by (simp add: same_condition_def state_columns_def)
  ultimately show ?thesis by blast
next
  case False
  then show ?thesis using assms by (simp add: UpsertAlertState_def) (simp add: same_condition_def state_columns_def)
qed

lemma saved_notified:
  assumes "\<not> al_fails d UpsState"
  shows "\<exists>b \<in> set (al_states (saveState out d c s n)). as_HostID b = cs_HostID (ca_stat c) \<and> as_ContainerID b = cs_ID (ca_stat c)
    \<and> as_Metric b = metricKey (ca_cfg c) \<and> as_NotifiedAt b = trunc_sec n"
  unfolding saveState_def by (rule bexE [OF upsert_row [OF assms]]) (auto simp: same_condition_def intro!: bexI)

lemma saveState_frame [simp]:
  "al_events (saveState out d c s n) = al_events d" "al_deliveries (saveState out d c s n) = al_deliveries d"
  "al_retries (saveState out d c s n) = al_retries d"
  by (simp_all add: saveState_def UpsertAlertState_def)


section \<open>A finding about the dwell time\<close>

definition exited :: snapshot where "exited = [(''abc'', (demo_stat 0)\<lparr>cs_State := ''exited''\<rparr>)]"

text \<open>The time over the threshold counts on while a container is stopped. A rule that asks for ten
  minutes over the threshold fires at the very first reading after a container that had been over it
  for an instant was stopped for two hours; a monitor that had not seen the earlier reading says
  nothing.
\<close>

theorem dwell_counts_downtime:
  "tbl_rows (al_events (mo_alerts (poll_at (day + 2 * hour) busy [1] (poll_at (day + minute) exited [1]
       (poll_at day busy [1] (with_rules [cpu_rule 0 ''warning'' 50])))))) \<noteq> []
   \<and> tbl_rows (al_events (mo_alerts (poll_at (day + 2 * hour) busy [1] (with_rules [cpu_rule 0 ''warning'' 50])))) = []"
  by code_simp

definition owed_row :: AlertState where "owed_row = firing_row\<lparr>as_NotifiedAt := zero_time\<rparr>"

definition owed_winner :: winner where
  "owed_winner = \<lparr>ca_rule = cpu_rule 1 ''warning'' 50, ca_cfg = \<lparr>rc_Metric = ''cpu'', rc_Op = ''>'', rc_Threshold = 50, rc_DurationSec = 600\<rparr>,
     ca_stat = demo_stat 0, ca_value = 90\<rparr>"


end
