(* ===== verification/OAuthStore.thy ===== *)
theory OAuthStore
  imports Accounts
begin

text \<open>
  The tables of the OAuth server for tools, \<open>src/internal/store/oauth.go\<close> and
  \<open>mcp_sessions.go\<close>: registered clients, authorization codes, refresh tokens and connector
  sessions. Each table has a text as its primary key, so inserting a key in use is an error. Times
  are kept as RFC 3339 texts, in whole seconds. A statement or the commit of a transaction fails
  when \<open>o_fails\<close> says so; a transaction that fails, or ends without commit, leaves the tables
  as they were. The locale \<open>single_use\<close> is what the token endpoint relies on: a code or a
  refresh token is gone once it was taken.
\<close>

section \<open>Tables with a text as key\<close>

definition key_insert :: "string \<Rightarrow> 'r \<Rightarrow> (string \<times> 'r) list \<Rightarrow> (string \<times> 'r) list option" where
  "key_insert k r t = (if k \<in> set (map fst t) then None else Some (t @ [(k, r)]))"

definition key_delete :: "string \<Rightarrow> (string \<times> 'r) list \<Rightarrow> (string \<times> 'r) list" where
  "key_delete k t = filter (\<lambda>(j, r). j \<noteq> k) t"

definition key_update :: "string \<Rightarrow> ('r \<Rightarrow> 'r) \<Rightarrow> (string \<times> 'r) list \<Rightarrow> (string \<times> 'r) list" where
  "key_update k f t = map (\<lambda>(j, r). (j, if j = k then f r else r)) t"

definition rows_without :: "('r \<Rightarrow> bool) \<Rightarrow> (string \<times> 'r) list \<Rightarrow> (string \<times> 'r) list" where
  "rows_without P t = filter (\<lambda>(j, r). \<not> P r) t"

lemma key_insert_Some:
  "key_insert k r t = Some t' \<longleftrightarrow> map_of t k = None \<and> t' = t @ [(k, r)]"
  by (auto simp: key_insert_def map_of_eq_None_iff)

lemma map_of_snoc: "map_of t k = None \<Longrightarrow> map_of (t @ [(k, r)]) = (map_of t)(k \<mapsto> r)"
  by (auto simp: map_add_def fun_eq_iff split: option.splits)

lemma map_of_key_delete [simp]: "map_of (key_delete k t) = (map_of t)(k := None)"
  by (simp add: key_delete_def map_of_filter_ne)

lemma map_of_key_update: "map_of (key_update k f t) j = (if j = k then map_option f (map_of t j) else map_of t j)"
  by (simp add: key_update_def map_of_update_rows)

lemma set_key_delete: "(j, r) \<in> set (key_delete k t) \<longleftrightarrow> (j, r) \<in> set t \<and> j \<noteq> k"
  by (auto simp: key_delete_def)

lemma set_rows_without: "(j, r) \<in> set (rows_without P t) \<longleftrightarrow> (j, r) \<in> set t \<and> \<not> P r"
  by (auto simp: rows_without_def)

lemma keys_key_update [simp]: "map fst (key_update k f t) = map fst t"
  by (induction t) (auto simp: key_update_def)

lemma map_of_rows_without_None: "map_of t k = None \<Longrightarrow> map_of (rows_without P t) k = None"
  by (auto simp: rows_without_def map_of_eq_None_iff)

lemma snd_key_update: "snd ` set (key_update k f t) \<subseteq> snd ` set t \<union> f ` snd ` set t"
  by (force simp: key_update_def)

section \<open>State\<close>

record OAuthClient =
  oc_ID :: string
  oc_Name :: string
  oc_RedirectURIs :: "string list"
  oc_CreatedAt :: time

record OAuthCode =
  cd_ClientID :: string
  cd_UserID :: int
  cd_RedirectURI :: string
  cd_CodeChallenge :: string
  cd_Resource :: string
  cd_Scope :: string
  cd_ExpiresAt :: time

record OAuthRefreshToken =
  rt_ClientID :: string
  rt_UserID :: int
  rt_Scope :: string
  rt_Resource :: string
  rt_ExpiresAt :: time
  rt_SessionID :: string

record MCPOAuthSession =
  ms_ID :: string
  ms_ClientID :: string
  ms_UserID :: int
  ms_IP :: string
  ms_UserAgent :: string
  ms_CreatedAt :: time
  ms_LastUsedAt :: time
  ms_ExpiresAt :: time

datatype oauth_error = OErrNotFound | ErrRefreshTokenExpired | ErrRefreshClientMismatch
  | ErrRefreshResourceMismatch | OErrSQL

datatype oauth_stmt = InsClient | SelClient | SelClients | DelClient | InsCode | SelCode | DelCode
  | InsRefresh | SelRefresh | DelRefresh | InsMCPSession | SelMCPSession | UpdMCPSession | DelMCPSession
  | CommitTx

text \<open>The columns \<open>created_at\<close> of codes and refresh tokens are written and never read.\<close>

record oauth_store =
  os_clients :: "(string \<times> OAuthClient) list"
  os_codes :: "(string \<times> OAuthCode) list"
  os_refresh :: "(string \<times> OAuthRefreshToken) list"
  os_sessions :: "(string \<times> MCPOAuthSession) list"
  os_fails :: "oauth_stmt \<Rightarrow> bool"

text \<open>The expiry column of a refresh token: the empty text, here 0, for the zero time, which stands
  for no expiry; any other time is written in whole seconds. (A time in the first second of the
  year 1 is not told apart from the zero time.)\<close>

definition expiry_column :: "time \<Rightarrow> time" where
  "expiry_column t = (if t = 0 then 0 else trunc_sec t)"

section \<open>Clients\<close>

definition CreateOAuthClient :: "oauth_store \<Rightarrow> OAuthClient \<Rightarrow> time \<Rightarrow> (oauth_error + unit) \<times> oauth_store" where
  "CreateOAuthClient s c now =
     (if os_fails s InsClient then (Err OErrSQL, s)
      else case key_insert (oc_ID c) (c\<lparr>oc_CreatedAt := trunc_sec now\<rparr>) (os_clients s) of
        None \<Rightarrow> (Err OErrSQL, s)
      | Some t \<Rightarrow> (Ok (), s\<lparr>os_clients := t\<rparr>))"

definition OAuthClientByID :: "oauth_store \<Rightarrow> string \<Rightarrow> oauth_error + OAuthClient" where
  "OAuthClientByID s i =
     (if os_fails s SelClient then Err OErrSQL
      else case map_of (os_clients s) i of None \<Rightarrow> Err OErrNotFound | Some c \<Rightarrow> Ok (c\<lparr>oc_ID := i\<rparr>))"

definition ListOAuthClients :: "oauth_store \<Rightarrow> oauth_error + OAuthClient list" where
  "ListOAuthClients s =
     (if os_fails s SelClients then Err OErrSQL
      else Ok (rev (sort_key (\<lambda>c. (oc_CreatedAt c, oc_ID c)) (map (\<lambda>(i, c). c\<lparr>oc_ID := i\<rparr>) (os_clients s)))))"

definition DeleteOAuthClient :: "oauth_store \<Rightarrow> string \<Rightarrow> (oauth_error + bool) \<times> oauth_store" where
  "DeleteOAuthClient s i =
     (if os_fails s DelClient then (Err OErrSQL, s)
      else if map_of (os_clients s) i = None then (Ok False, s)
      else if os_fails s DelCode \<or> os_fails s DelRefresh \<or> os_fails s DelMCPSession \<or> os_fails s CommitTx
        then (Err OErrSQL, s)
      else (Ok True, s\<lparr>os_clients := key_delete i (os_clients s),
              os_codes := rows_without (\<lambda>c. cd_ClientID c = i) (os_codes s),
              os_refresh := rows_without (\<lambda>t. rt_ClientID t = i) (os_refresh s),
              os_sessions := rows_without (\<lambda>m. ms_ClientID m = i) (os_sessions s)\<rparr>))"

section \<open>Codes\<close>

definition CreateOAuthCode :: "string \<Rightarrow> OAuthCode \<Rightarrow> oauth_store \<Rightarrow> (oauth_error + unit) \<times> oauth_store" where
  "CreateOAuthCode h c s =
     (if os_fails s InsCode then (Err OErrSQL, s)
      else case key_insert h (c\<lparr>cd_ExpiresAt := trunc_sec (cd_ExpiresAt c)\<rparr>) (os_codes s) of
        None \<Rightarrow> (Err OErrSQL, s)
      | Some t \<Rightarrow> (Ok (), s\<lparr>os_codes := t\<rparr>))"

definition ConsumeOAuthCode :: "string \<Rightarrow> oauth_store \<Rightarrow> (oauth_error + OAuthCode) \<times> oauth_store" where
  "ConsumeOAuthCode h s =
     (if os_fails s SelCode then (Err OErrSQL, s)
      else case map_of (os_codes s) h of
        None \<Rightarrow> (Err OErrNotFound, s)
      | Some c \<Rightarrow>
        if os_fails s DelCode \<or> os_fails s CommitTx then (Err OErrSQL, s)
        else (Ok c, s\<lparr>os_codes := key_delete h (os_codes s)\<rparr>))"

text \<open>Three statements, each on its own: an error leaves the work of those before it.\<close>

definition DeleteExpiredOAuth :: "oauth_store \<Rightarrow> time \<Rightarrow> (oauth_error + unit) \<times> oauth_store" where
  "DeleteExpiredOAuth s now =
     (if os_fails s DelCode then (Err OErrSQL, s)
      else let s1 = s\<lparr>os_codes := rows_without (\<lambda>c. cd_ExpiresAt c < trunc_sec now) (os_codes s)\<rparr>
      in if os_fails s DelRefresh then (Err OErrSQL, s1)
      else let s2 = s1\<lparr>os_refresh := rows_without (\<lambda>t. rt_ExpiresAt t \<noteq> 0 \<and> rt_ExpiresAt t < trunc_sec now) (os_refresh s)\<rparr>
      in if os_fails s DelMCPSession then (Err OErrSQL, s2)
      else (Ok (), s2\<lparr>os_sessions := rows_without (\<lambda>m. ms_ExpiresAt m < trunc_sec now) (os_sessions s)\<rparr>))"

section \<open>Connector sessions\<close>

definition CreateMCPOAuthSession :: "oauth_store \<Rightarrow> MCPOAuthSession \<Rightarrow> time \<Rightarrow> (oauth_error + unit) \<times> oauth_store" where
  "CreateMCPOAuthSession s m now =
     (if os_fails s InsMCPSession then (Err OErrSQL, s)
      else case key_insert (ms_ID m) (m\<lparr>ms_UserAgent := truncateUA (ms_UserAgent m), ms_CreatedAt := trunc_sec now,
             ms_LastUsedAt := trunc_sec now, ms_ExpiresAt := trunc_sec (ms_ExpiresAt m)\<rparr>) (os_sessions s) of
        None \<Rightarrow> (Err OErrSQL, s)
      | Some t \<Rightarrow> (Ok (), s\<lparr>os_sessions := t\<rparr>))"

definition MCPOAuthSessionExists :: "oauth_store \<Rightarrow> string \<Rightarrow> int \<Rightarrow> oauth_error + bool" where
  "MCPOAuthSessionExists s i uid =
     (if os_fails s SelMCPSession then Err OErrSQL
      else Ok (case map_of (os_sessions s) i of None \<Rightarrow> False | Some m \<Rightarrow> ms_UserID m = uid))"

definition touch_session :: "time \<Rightarrow> time \<Rightarrow> MCPOAuthSession \<Rightarrow> MCPOAuthSession" where
  "touch_session now ex m = m\<lparr>ms_LastUsedAt := trunc_sec now, ms_ExpiresAt := trunc_sec ex\<rparr>"

definition TouchMCPOAuthSession :: "oauth_store \<Rightarrow> string \<Rightarrow> time \<Rightarrow> time \<Rightarrow> (oauth_error + unit) \<times> oauth_store" where
  "TouchMCPOAuthSession s i ex now =
     (if os_fails s UpdMCPSession then (Err OErrSQL, s)
      else if map_of (os_sessions s) i = None then (Err OErrNotFound, s)
      else (Ok (), s\<lparr>os_sessions := key_update i (touch_session now ex) (os_sessions s)\<rparr>))"

definition ListMCPOAuthSessions :: "oauth_store \<Rightarrow> int \<Rightarrow> time \<Rightarrow> oauth_error + MCPOAuthSession list" where
  "ListMCPOAuthSessions s uid now =
     (if os_fails s SelMCPSession then Err OErrSQL
      else Ok (sort_key (\<lambda>m. - ms_LastUsedAt m)
             (filter (\<lambda>m. ms_UserID m = uid \<and> ms_ExpiresAt m > trunc_sec now) (map (\<lambda>(i, m). m\<lparr>ms_ID := i\<rparr>) (os_sessions s)))))"

definition ListAllMCPOAuthSessions :: "oauth_store \<Rightarrow> time \<Rightarrow> oauth_error + MCPOAuthSession list" where
  "ListAllMCPOAuthSessions s now =
     (if os_fails s SelMCPSession then Err OErrSQL
      else Ok (sort_key (\<lambda>m. - ms_LastUsedAt m)
             (filter (\<lambda>m. ms_ExpiresAt m > trunc_sec now) (map (\<lambda>(i, m). m\<lparr>ms_ID := i\<rparr>) (os_sessions s)))))"

text \<open>The two revocations share a transaction; the first argument is the condition of the query
  that deletes the session.\<close>

definition deleteMCPOAuthSessionTx ::
    "(MCPOAuthSession \<Rightarrow> bool) \<Rightarrow> oauth_store \<Rightarrow> string \<Rightarrow> (oauth_error + unit) \<times> oauth_store" where
  "deleteMCPOAuthSessionTx P s i =
     (if os_fails s DelMCPSession then (Err OErrSQL, s)
      else case map_of (os_sessions s) i of
        None \<Rightarrow> (Err OErrNotFound, s)
      | Some m \<Rightarrow>
        if \<not> P m then (Err OErrNotFound, s)
        else if os_fails s DelRefresh \<or> os_fails s CommitTx then (Err OErrSQL, s)
        else (Ok (), s\<lparr>os_sessions := key_delete i (os_sessions s),
                os_refresh := rows_without (\<lambda>t. rt_SessionID t = i) (os_refresh s)\<rparr>))"

definition RevokeMCPOAuthSession :: "oauth_store \<Rightarrow> string \<Rightarrow> int \<Rightarrow> (oauth_error + unit) \<times> oauth_store" where
  "RevokeMCPOAuthSession s i uid = deleteMCPOAuthSessionTx (\<lambda>m. ms_UserID m = uid) s i"

definition AdminRevokeMCPOAuthSession :: "oauth_store \<Rightarrow> string \<Rightarrow> (oauth_error + unit) \<times> oauth_store" where
  "AdminRevokeMCPOAuthSession s i = deleteMCPOAuthSessionTx (\<lambda>_. True) s i"

section \<open>Refresh tokens\<close>

definition CreateRefreshToken :: "string \<Rightarrow> OAuthRefreshToken \<Rightarrow> oauth_store \<Rightarrow> (oauth_error + unit) \<times> oauth_store" where
  "CreateRefreshToken h t s =
     (if os_fails s InsRefresh then (Err OErrSQL, s)
      else case key_insert h (t\<lparr>rt_ExpiresAt := expiry_column (rt_ExpiresAt t)\<rparr>) (os_refresh s) of
        None \<Rightarrow> (Err OErrSQL, s)
      | Some rs \<Rightarrow> (Ok (), s\<lparr>os_refresh := rs\<rparr>))"

definition ConsumeRefreshToken :: "string \<Rightarrow> oauth_store \<Rightarrow> (oauth_error + OAuthRefreshToken) \<times> oauth_store" where
  "ConsumeRefreshToken h s =
     (if os_fails s SelRefresh then (Err OErrSQL, s)
      else case map_of (os_refresh s) h of
        None \<Rightarrow> (Err OErrNotFound, s)
      | Some t \<Rightarrow>
        if os_fails s DelRefresh \<or> os_fails s CommitTx then (Err OErrSQL, s)
        else (Ok t, s\<lparr>os_refresh := key_delete h (os_refresh s)\<rparr>))"

text \<open>The session the rotated token goes on with, when its row is touched or created: the tables
  after it, or \<open>None\<close> for an error of a statement.\<close>

definition renew_session ::
    "OAuthRefreshToken \<Rightarrow> string \<Rightarrow> string \<Rightarrow> string \<Rightarrow> time \<Rightarrow> time \<Rightarrow> oauth_store \<Rightarrow> (string \<times> oauth_store) option" where
  "renew_session rec candidate ip ua ex now s =
     (let fresh = (rt_SessionID rec = []);
          sid = (if fresh then candidate else rt_SessionID rec)
      in if \<not> fresh \<and> os_fails s UpdMCPSession then None
         else if \<not> fresh \<and> map_of (os_sessions s) sid \<noteq> None
           then Some (sid, s\<lparr>os_sessions := key_update sid (touch_session now ex) (os_sessions s)\<rparr>)
         else if os_fails s InsMCPSession then None
         else case key_insert sid \<lparr>ms_ID = sid, ms_ClientID = rt_ClientID rec, ms_UserID = rt_UserID rec, ms_IP = ip,
                ms_UserAgent = truncateUA ua, ms_CreatedAt = trunc_sec now, ms_LastUsedAt = trunc_sec now,
                ms_ExpiresAt = trunc_sec ex\<rparr> (os_sessions s) of
           None \<Rightarrow> None
         | Some t \<Rightarrow> Some (sid, s\<lparr>os_sessions := t\<rparr>))"

definition RotateRefreshToken ::
    "oauth_store \<Rightarrow> string \<Rightarrow> (OAuthRefreshToken \<Rightarrow> oauth_error option) \<Rightarrow> string \<Rightarrow> string \<Rightarrow> string \<Rightarrow> time
      \<Rightarrow> string \<Rightarrow> time \<Rightarrow> time \<Rightarrow> (oauth_error + OAuthRefreshToken \<times> string) \<times> oauth_store" where
  "RotateRefreshToken s old validate candidate ip ua sessionExpires new newExpires now =
     (if os_fails s SelRefresh then (Err OErrSQL, s)
      else case map_of (os_refresh s) old of
        None \<Rightarrow> (Err OErrNotFound, s)
      | Some rec \<Rightarrow>
        if os_fails s DelRefresh then (Err OErrSQL, s)
        else let s1 = s\<lparr>os_refresh := key_delete old (os_refresh s)\<rparr>
        in case validate rec of
          Some e \<Rightarrow> if os_fails s CommitTx then (Err OErrSQL, s) else (Err e, s1)
        | None \<Rightarrow>
          (case renew_session rec candidate ip ua sessionExpires now s1 of
             None \<Rightarrow> (Err OErrSQL, s)
           | Some (sid, s2) \<Rightarrow>
             if os_fails s InsRefresh then (Err OErrSQL, s)
             else case key_insert new (rec\<lparr>rt_ExpiresAt := expiry_column newExpires, rt_SessionID := sid\<rparr>) (os_refresh s2) of
               None \<Rightarrow> (Err OErrSQL, s)
             | Some t \<Rightarrow> if os_fails s CommitTx then (Err OErrSQL, s)
                 else (Ok (rec, sid), s2\<lparr>os_refresh := t\<rparr>)))"

section \<open>What the statements do to a row\<close>

lemma CreateOAuthCode_cases:
  "CreateOAuthCode h c s = (r, s') \<Longrightarrow>
    r = Ok () \<and> map_of (os_codes s) h = None
      \<and> s' = s\<lparr>os_codes := os_codes s @ [(h, c\<lparr>cd_ExpiresAt := trunc_sec (cd_ExpiresAt c)\<rparr>)]\<rparr>
    \<or> r = Err OErrSQL \<and> s' = s"
  by (auto simp: CreateOAuthCode_def key_insert_Some split: if_splits option.splits)

lemma CreateRefreshToken_cases:
  "CreateRefreshToken h t s = (r, s') \<Longrightarrow>
    r = Ok () \<and> map_of (os_refresh s) h = None
      \<and> s' = s\<lparr>os_refresh := os_refresh s @ [(h, t\<lparr>rt_ExpiresAt := expiry_column (rt_ExpiresAt t)\<rparr>)]\<rparr>
    \<or> r = Err OErrSQL \<and> s' = s"
  by (auto simp: CreateRefreshToken_def key_insert_Some split: if_splits option.splits)

lemma CreateMCPOAuthSession_cases:
  "CreateMCPOAuthSession s m now = (r, s') \<Longrightarrow>
    r = Ok () \<and> map_of (os_sessions s) (ms_ID m) = None
      \<and> s' = s\<lparr>os_sessions := os_sessions s @ [(ms_ID m, m\<lparr>ms_UserAgent := truncateUA (ms_UserAgent m),
           ms_CreatedAt := trunc_sec now, ms_LastUsedAt := trunc_sec now, ms_ExpiresAt := trunc_sec (ms_ExpiresAt m)\<rparr>)]\<rparr>
    \<or> r = Err OErrSQL \<and> s' = s"
  by (auto simp: CreateMCPOAuthSession_def key_insert_Some split: if_splits option.splits)

lemma ConsumeOAuthCode_cases:
  "ConsumeOAuthCode h s = (r, s') \<Longrightarrow>
    (\<exists>c. r = Ok c \<and> map_of (os_codes s) h = Some c \<and> s' = s\<lparr>os_codes := key_delete h (os_codes s)\<rparr>)
    \<or> (\<exists>e. r = Err e) \<and> s' = s"
  by (auto simp: ConsumeOAuthCode_def split: if_splits option.splits)

lemma ConsumeRefreshToken_cases:
  "ConsumeRefreshToken h s = (r, s') \<Longrightarrow>
    (\<exists>t. r = Ok t \<and> map_of (os_refresh s) h = Some t \<and> s' = s\<lparr>os_refresh := key_delete h (os_refresh s)\<rparr>)
    \<or> (\<exists>e. r = Err e) \<and> s' = s"
  by (auto simp: ConsumeRefreshToken_def split: if_splits option.splits)

text \<open>What \<open>renew_session\<close> leaves alone, and the session it names.\<close>

lemma renew_session_Some:
  assumes "renew_session rec candidate ip ua ex now s = Some (sid, s')"
  shows "sid = (if rt_SessionID rec = [] then candidate else rt_SessionID rec)
    \<and> os_clients s' = os_clients s \<and> os_codes s' = os_codes s \<and> os_refresh s' = os_refresh s \<and> os_fails s' = os_fails s
    \<and> (\<exists>m. map_of (os_sessions s') sid = Some m \<and> ms_ExpiresAt m = trunc_sec ex)
    \<and> (\<forall>j. j \<noteq> sid \<longrightarrow> map_of (os_sessions s') j = map_of (os_sessions s) j)"
  using assms
  by (auto simp: renew_session_def Let_def key_insert_Some map_of_key_update touch_session_def map_of_snoc
      simp del: map_of_append split: if_splits option.splits)

lemma RotateRefreshToken_cases:
  assumes "RotateRefreshToken s old validate candidate ip ua se new ne now = (r, s')"
  obtains
    (rotated) rec sid s2 where "r = Ok (rec, sid)" and "map_of (os_refresh s) old = Some rec" and "validate rec = None"
      and "renew_session rec candidate ip ua se now (s\<lparr>os_refresh := key_delete old (os_refresh s)\<rparr>) = Some (sid, s2)"
      and "map_of (key_delete old (os_refresh s)) new = None"
      and "s' = s2\<lparr>os_refresh := key_delete old (os_refresh s) @ [(new, rec\<lparr>rt_ExpiresAt := expiry_column ne, rt_SessionID := sid\<rparr>)]\<rparr>"
  | (refused) rec e where "r = Err e" and "map_of (os_refresh s) old = Some rec" and "validate rec = Some e"
      and "s' = s\<lparr>os_refresh := key_delete old (os_refresh s)\<rparr>"
  | (failed) e where "r = Err e" and "s' = s" and "e = OErrNotFound \<or> e = OErrSQL"
proof (cases "map_of (os_refresh s) old")
  case None
  with assms have "(r = Err OErrNotFound \<or> r = Err OErrSQL) \<and> s' = s"
    by (auto simp: RotateRefreshToken_def split: if_splits)
  then show thesis using failed by blast
next
  case (Some rec)
  note rec = Some
  let ?s1 = "s\<lparr>os_refresh := key_delete old (os_refresh s)\<rparr>"
  show thesis
  proof (cases "validate rec")
    case (Some e)
    with assms rec have "r = Err e \<and> s' = ?s1 \<or> r = Err OErrSQL \<and> s' = s"
      by (simp add: RotateRefreshToken_def Let_def split: if_splits)
    then show thesis using refused rec Some failed by blast
  next
    case None
    show thesis
    proof (cases "renew_session rec candidate ip ua se now ?s1")
      case None
      with assms rec \<open>validate rec = None\<close> have "r = Err OErrSQL \<and> s' = s"
        by (simp add: RotateRefreshToken_def Let_def split: if_splits)
      then show thesis using failed by blast
    next
      case (Some p)
      obtain sid s2 where p: "p = (sid, s2)" by (cases p)
      then have refresh: "os_refresh s2 = key_delete old (os_refresh s)"
        using renew_session_Some Some by fastforce
      let ?t = "rec\<lparr>rt_ExpiresAt := expiry_column ne, rt_SessionID := sid\<rparr>"
      have "r = Err OErrSQL \<and> s' = s \<or> r = Ok (rec, sid)
          \<and> (\<exists>t. key_insert new ?t (key_delete old (os_refresh s)) = Some t \<and> s' = s2\<lparr>os_refresh := t\<rparr>)"
        using assms rec \<open>validate rec = None\<close> Some p refresh
        by (cases "key_insert new ?t (key_delete old (os_refresh s))")
          (simp_all add: RotateRefreshToken_def Let_def split: if_splits)
      then show thesis
        using rotated [of rec sid s2] failed rec \<open>validate rec = None\<close> Some p
        by (auto simp: key_insert_Some)
    qed
  qed
qed

section \<open>A credential that is used once\<close>

text \<open>What the token endpoint relies on: taking a credential yields what was put in under that key
  and removes it; a failed attempt removes nothing and adds nothing; issuing one credential does
  not bring back another.\<close>

locale single_use =
  fixes mint :: "'k \<Rightarrow> 'v \<Rightarrow> 's \<Rightarrow> ('e + unit) \<times> 's"
    and consume :: "'k \<Rightarrow> 's \<Rightarrow> ('e + 'v) \<times> 's"
    and live :: "'s \<Rightarrow> 'k \<Rightarrow> 'v option"
  assumes consume_ok: "consume k s = (Ok v, s') \<Longrightarrow> live s k = Some v \<and> live s' = (live s)(k := None)"
    and consume_err: "consume k s = (Err e, s') \<Longrightarrow> live s' = live s"
    and mint_other: "j \<noteq> k \<Longrightarrow> live (snd (mint k v s)) j = live s j"
begin

lemma dead_refused: "live s k = None \<Longrightarrow> \<not> is_ok (fst (consume k s))"
  using consume_ok [of k s] by (cases "consume k s"; cases "fst (consume k s)") auto

lemma consume_keeps_dead: "live s k = None \<Longrightarrow> live (snd (consume j s)) k = None"
  using consume_ok [of j s] consume_err [of j s] by (cases "consume j s"; cases "fst (consume j s)") auto

lemma taken_is_dead: "is_ok (fst (consume k s)) \<Longrightarrow> live (snd (consume k s)) k = None"
  using consume_ok [of k s] by (cases "consume k s"; cases "fst (consume k s)") auto

lemma second_refused: "is_ok (fst (consume k s)) \<Longrightarrow> \<not> is_ok (fst (consume k (snd (consume k s))))"
  by (rule dead_refused, rule taken_is_dead)

text \<open>Whatever is done in between, as long as the key is not issued again.\<close>

lemma dead_after:
  assumes "live s k = None" and "\<And>f t. f \<in> set fs \<Longrightarrow> live t k = None \<Longrightarrow> live (f t) k = None"
  shows "live (fold (\<lambda>f. f) fs s) k = None"
  using assms by (induction fs arbitrary: s) auto

lemma taken_once:
  assumes "is_ok (fst (consume k s))" and "\<And>f t. f \<in> set fs \<Longrightarrow> live t k = None \<Longrightarrow> live (f t) k = None"
  shows "\<not> is_ok (fst (consume k (fold (\<lambda>f. f) fs (snd (consume k s)))))"
proof (rule dead_refused, rule dead_after)
  show "live (snd (consume k s)) k = None" using assms(1) by (rule taken_is_dead)
qed (rule assms(2))

end

interpretation code_use: single_use CreateOAuthCode ConsumeOAuthCode "\<lambda>s. map_of (os_codes s)"
  by unfold_locales
    (auto dest!: ConsumeOAuthCode_cases, auto simp: CreateOAuthCode_def key_insert_Some map_of_snoc
      simp del: map_of_append split: option.splits)

interpretation refresh_use: single_use CreateRefreshToken ConsumeRefreshToken "\<lambda>s. map_of (os_refresh s)"
  by unfold_locales
    (auto dest!: ConsumeRefreshToken_cases, auto simp: CreateRefreshToken_def key_insert_Some map_of_snoc
      simp del: map_of_append split: option.splits)

section \<open>Invariants\<close>

definition session_gone :: "string \<Rightarrow> oauth_store \<Rightarrow> bool" where
  "session_gone i s \<longleftrightarrow> map_of (os_sessions s) i = None \<and> i \<notin> rt_SessionID ` snd ` set (os_refresh s)"

definition client_gone :: "string \<Rightarrow> oauth_store \<Rightarrow> bool" where
  "client_gone i s \<longleftrightarrow> map_of (os_clients s) i = None
     \<and> i \<notin> cd_ClientID ` snd ` set (os_codes s) \<and> i \<notin> rt_ClientID ` snd ` set (os_refresh s)
     \<and> i \<notin> ms_ClientID ` snd ` set (os_sessions s)"

text \<open>The sessions that refresh tokens name, without the empty name of old tokens.\<close>

definition chain_ids :: "(string \<times> OAuthRefreshToken) list \<Rightarrow> string list" where
  "chain_ids rs = filter (\<lambda>i. i \<noteq> []) (map (rt_SessionID \<circ> snd) rs)"

definition oauth_wf :: "oauth_store \<Rightarrow> bool" where
  "oauth_wf s \<longleftrightarrow> distinct (map fst (os_refresh s)) \<and> distinct (chain_ids (os_refresh s))"

lemma chain_ids_append [simp]: "chain_ids (a @ b) = chain_ids a @ chain_ids b"
  by (simp add: chain_ids_def)

lemma set_chain_ids: "i \<in> set (chain_ids rs) \<longleftrightarrow> i \<noteq> [] \<and> (\<exists>h t. (h, t) \<in> set rs \<and> rt_SessionID t = i)"
  by (force simp: chain_ids_def)

lemma distinct_chain_filter: "distinct (chain_ids rs) \<Longrightarrow> distinct (chain_ids (filter P rs))"
  by (induction rs) (force simp: chain_ids_def)+

lemma chain_unique:
  "distinct (chain_ids rs) \<Longrightarrow> (h, t) \<in> set rs \<Longrightarrow> (g, u) \<in> set rs \<Longrightarrow> rt_SessionID t = rt_SessionID u
    \<Longrightarrow> rt_SessionID t \<noteq> [] \<Longrightarrow> h = g"
  by (induction rs) (force simp: chain_ids_def split: if_splits)+

lemma chain_ids_key_delete:
  assumes "oauth_wf s" and "map_of (os_refresh s) h = Some t"
  shows "rt_SessionID t \<notin> set (chain_ids (key_delete h (os_refresh s)))"
  using assms chain_unique [of "os_refresh s" h t] map_of_SomeD [OF assms(2)]
  by (fastforce simp: set_chain_ids set_key_delete oauth_wf_def)

lemma oauth_wf_filter:
  assumes "oauth_wf s" and "os_refresh s' = filter P (os_refresh s)"
  shows "oauth_wf s'"
  using assms by (simp add: oauth_wf_def distinct_chain_filter distinct_map_filter)

lemma oauth_wf_same: "oauth_wf s \<Longrightarrow> os_refresh s' = os_refresh s \<Longrightarrow> oauth_wf s'"
  by (simp add: oauth_wf_def)

lemma oauth_wf_add:
  assumes "oauth_wf s" and "os_refresh s' = filter P (os_refresh s) @ [(h, t)]"
    and "map_of (filter P (os_refresh s)) h = None" and "rt_SessionID t \<notin> set (chain_ids (filter P (os_refresh s)))"
  shows "oauth_wf s'"
  using assms distinct_chain_filter [of "os_refresh s" P]
  by (auto simp: oauth_wf_def map_of_eq_None_iff distinct_map_filter chain_ids_def)

end
