(* ===== verification/ClientAddr.thy ===== *)
theory ClientAddr
  imports Prelude
begin

text \<open>
  Who a request comes from: \<open>src/internal/api/client_ip.go\<close>, \<open>isLoopback\<close> of
  \<open>auth_handlers.go\<close>, the path prefix of \<open>basepath.go\<close>, and the parsers of the settings they
  use in \<open>src/internal/config/config.go\<close>. Addresses are those of Go's package \<open>net\<close>:
  sixteen bytes, an IPv4 address in its mapped form. A request is its peer address, its headers
  (the values of a name in canonical form, in order), its decoded path (a raw
  spelling of the path beside it is cut the same way or dropped) and what the middlewares recorded of it.
\<close>

unbundle bit_operations_syntax

section \<open>Addresses, as in package net\<close>

type_synonym ip = "8 word list"

record ip_net =
  n_IP :: ip
  n_Mask :: ip

definition index_byte :: "char \<Rightarrow> string \<Rightarrow> nat option" where
  "index_byte c s = (if c \<in> set s then Some (length (takeWhile (\<lambda>x. x \<noteq> c) s)) else None)"

definition last_index_byte :: "char \<Rightarrow> string \<Rightarrow> nat option" where
  "last_index_byte c s = map_option (\<lambda>n. length s - 1 - n) (index_byte c (rev s))"

text \<open>\<open>net.SplitHostPort\<close>: host and port, \<open>None\<close> for an error.\<close>

definition SplitHostPort :: "string \<Rightarrow> (string \<times> string) option" where
  "SplitHostPort hp =
     (case last_index_byte (CHR '':'') hp of
        None \<Rightarrow> None
      | Some i \<Rightarrow>
        if hd hp = CHR ''['' then
          (case index_byte (CHR '']'') hp of
             None \<Rightarrow> None
           | Some j \<Rightarrow>
             if j + 1 \<noteq> i then None
             else if CHR ''['' \<in> set (drop 1 hp) \<or> CHR '']'' \<in> set (drop (j + 1) hp) then None
             else Some (drop 1 (take j hp), drop (i + 1) hp))
        else if CHR '':'' \<in> set (take i hp) then None
        else if CHR ''['' \<in> set hp \<or> CHR '']'' \<in> set hp then None
        else Some (take i hp, drop (i + 1) hp))"

text \<open>One decimal field of an IPv4 address: no leading zero, at most 255.\<close>

definition parse_octet :: "string \<Rightarrow> 8 word option" where
  "parse_octet s =
     (if s = [] \<or> \<not> list_all is_digit s \<or> (length s > 1 \<and> hd s = CHR ''0'') \<or> length s > 3 \<or> digits_val s > 255 then None
      else Some (word_of_int (digits_val s)))"

definition parse_ipv4 :: "string \<Rightarrow> ip option" where
  "parse_ipv4 s =
     (case map parse_octet (split_on (CHR ''.'') s) of
        [Some a, Some b, Some c, Some d] \<Rightarrow> Some [a, b, c, d]
      | _ \<Rightarrow> None)"

definition hex_val :: "char \<Rightarrow> int option" where
  "hex_val c =
     (let n = int (of_char c)
      in if 48 \<le> n \<and> n \<le> 57 then Some (n - 48)
         else if 97 \<le> n \<and> n \<le> 102 then Some (n - 87)
         else if 65 \<le> n \<and> n \<le> 70 then Some (n - 55)
         else None)"

definition hex_group :: "string \<Rightarrow> int" where
  "hex_group s = foldl (\<lambda>n c. 16 * n + (case hex_val c of None \<Rightarrow> 0 | Some d \<Rightarrow> d)) 0 s"

text \<open>The loop of \<open>netip.parseIPv6\<close>: the bytes so far, the place of the ellipsis, and the rest
  of the text. The result is the bytes and the place, once the text is used up or 16 bytes are
  there.\<close>

function v6_loop :: "ip \<Rightarrow> nat option \<Rightarrow> string \<Rightarrow> (ip \<times> nat option \<times> string) option" where
  "v6_loop bs el s =
     (if length bs \<ge> 16 then Some (bs, el, s)
      else let digs = takeWhile (\<lambda>c. hex_val c \<noteq> None) s; rest = drop (length digs) s
      in if digs = [] \<or> length digs > 4 then None
         else if rest \<noteq> [] \<and> hd rest = CHR ''.'' then
           (if el = None \<and> length bs \<noteq> 12 then None
            else if length bs + 4 > 16 then None
            else case parse_ipv4 s of None \<Rightarrow> None | Some q \<Rightarrow> Some (bs @ q, el, []))
         else let bs' = bs @ [word_of_int (hex_group digs div 256), word_of_int (hex_group digs)]
         in if rest = [] then Some (bs', el, [])
            else if hd rest \<noteq> CHR '':'' \<or> length rest = 1 then None
            else if hd (tl rest) = CHR '':'' then
              (if el \<noteq> None then None
               else if tl (tl rest) = [] then Some (bs', Some (length bs'), [])
               else v6_loop bs' (Some (length bs')) (tl (tl rest)))
            else v6_loop bs' el (tl rest))"
  by pat_completeness auto
termination
  by (relation "measure (\<lambda>(bs, el, s). length s)") (auto simp: Let_def)

declare v6_loop.simps [simp del]

definition expand_ellipsis :: "ip \<times> nat option \<times> string \<Rightarrow> ip option" where
  "expand_ellipsis r =
     (case r of (bs, el, s) \<Rightarrow>
        if s \<noteq> [] then None
        else if length bs < 16 then
          (case el of None \<Rightarrow> None
           | Some k \<Rightarrow> Some (take k bs @ replicate (16 - length bs) 0 @ drop k bs))
        else if el \<noteq> None then None
        else Some bs)"

definition parse_ipv6 :: "string \<Rightarrow> ip option" where
  "parse_ipv6 s =
     (if CHR ''%'' \<in> set s then None
      else if has_prefix ''::'' s then
        (if drop 2 s = [] then Some (replicate 16 0)
         else Option.bind (v6_loop [] (Some 0) (drop 2 s)) expand_ellipsis)
      else Option.bind (v6_loop [] None s) expand_ellipsis)"

definition v4_prefix :: ip where
  "v4_prefix = replicate 10 0 @ [255, 255]"

definition ParseIP :: "string \<Rightarrow> ip option" where
  "ParseIP s =
     (case dropWhile (\<lambda>c. c \<notin> {CHR ''.'', CHR '':'', CHR ''%''}) s of
        [] \<Rightarrow> None
      | c # _ \<Rightarrow>
        if c = CHR ''.'' then map_option (\<lambda>q. v4_prefix @ q) (parse_ipv4 s)
        else if c = CHR '':'' then parse_ipv6 s
        else None)"

definition To4 :: "ip \<Rightarrow> ip option" where
  "To4 a =
     (if length a = 4 then Some a
      else if length a = 16 \<and> take 12 a = v4_prefix then Some (drop 12 a)
      else None)"

definition IsLoopback :: "ip \<Rightarrow> bool" where
  "IsLoopback a =
     (case To4 a of Some q \<Rightarrow> hd q = 127 | None \<Rightarrow> a = replicate 15 0 @ [1])"

definition CIDRMask :: "nat \<Rightarrow> nat \<Rightarrow> ip" where
  "CIDRMask ones bits =
     map (\<lambda>i. let k = min 8 (ones - 8 * i) in word_of_int (256 - 2 ^ (8 - k))) [0..<bits div 8]"

text \<open>\<open>IPNet.Contains\<close>, with the shapes of network number and mask that \<open>networkNumberAndMask\<close>
  accepts.\<close>

definition net_Contains :: "ip_net \<Rightarrow> ip \<Rightarrow> bool" where
  "net_Contains n a =
     (let nn = (case To4 (n_IP n) of Some q \<Rightarrow> q | None \<Rightarrow> n_IP n);
          m = (if length (n_Mask n) = 16 \<and> length nn = 4 then drop 12 (n_Mask n) else n_Mask n);
          b = (case To4 a of Some q \<Rightarrow> q | None \<Rightarrow> a)
      in length m = length nn \<and> length b = length nn
       \<and> list_all (\<lambda>i. (nn ! i AND m ! i) = (b ! i AND m ! i)) [0..<length nn])"

text \<open>\<open>IP.String\<close>: dotted for IPv4, else groups in hexadecimal with the first longest run of two or
  more zero groups as an ellipsis.\<close>

definition hex_char :: "int \<Rightarrow> char" where
  "hex_char d = char_of (nat (if d < 10 then 48 + d else 87 + d))"

function show_hex :: "int \<Rightarrow> string" where
  "show_hex n = (if n < 16 then [hex_char n] else show_hex (n div 16) @ [hex_char (n mod 16)])"
  by pat_completeness auto
termination
  by (relation "measure nat") auto

declare show_hex.simps [simp del]

fun groups_of :: "ip \<Rightarrow> int list" where
  "groups_of (a # b # rest) = (256 * uint a + uint b) # groups_of rest"
| "groups_of _ = []"

definition zero_run :: "int list \<Rightarrow> nat \<Rightarrow> nat" where
  "zero_run gs i = length (takeWhile (\<lambda>g. g = 0) (drop i gs))"

definition longest_run :: "int list \<Rightarrow> (nat \<times> nat) option" where
  "longest_run gs =
     fold (\<lambda>i best. let l = zero_run gs i
             in if l \<ge> 2 \<and> (case best of None \<Rightarrow> True | Some (_, k) \<Rightarrow> l > k) then Some (i, l) else best)
       [0..<length gs] None"

definition ip_String :: "ip \<Rightarrow> string" where
  "ip_String a =
     (case To4 a of
        Some q \<Rightarrow> join ''.'' (map (\<lambda>b. show_int (uint b)) q)
      | None \<Rightarrow>
        let gs = groups_of a; hex = (\<lambda>xs. join '':'' (map show_hex xs))
        in case longest_run gs of
             None \<Rightarrow> hex gs
           | Some (i, l) \<Rightarrow> hex (take i gs) @ ''::'' @ hex (drop (i + l) gs))"

section \<open>Trusted proxies\<close>

text \<open>\<open>net.ParseCIDR\<close>: the network of an address and a prefix length.\<close>

definition ParseCIDR :: "string \<Rightarrow> ip_net option" where
  "ParseCIDR s =
     (case after_byte (CHR ''/'') s of
        None \<Rightarrow> None
      | Some ones \<Rightarrow>
        (case ParseIP (before_byte (CHR ''/'') s) of
           None \<Rightarrow> None
         | Some a \<Rightarrow>
           let v4 = (CHR '':'' \<notin> set (before_byte (CHR ''/'') s)); bits = (if v4 then 32 else 128)
           in if ones = [] \<or> \<not> list_all is_digit ones \<or> digits_val ones > int bits then None
              else let m = CIDRMask (nat (digits_val ones)) bits; b = (if v4 then drop 12 a else a)
              in Some \<lparr>n_IP = map2 (AND) b m, n_Mask = m\<rparr>))"

text \<open>\<open>Inl\<close> is the entry that was refused.\<close>

fun parse_entries :: "string list \<Rightarrow> string + ip_net list" where
  "parse_entries [] = Inr []"
| "parse_entries (p # ps) =
     (let part = trim_space p
      in if part = [] then parse_entries ps
         else if CHR ''/'' \<in> set part then
           (case ParseCIDR part of
              None \<Rightarrow> Inl part
            | Some n \<Rightarrow> (case parse_entries ps of Inl e \<Rightarrow> Inl e | Inr ns \<Rightarrow> Inr (n # ns)))
         else
           (case ParseIP part of
              None \<Rightarrow> Inl part
            | Some a \<Rightarrow>
              let bits = (if To4 a = None then 128 else 32)
              in (case parse_entries ps of Inl e \<Rightarrow> Inl e
                  | Inr ns \<Rightarrow> Inr (\<lparr>n_IP = a, n_Mask = CIDRMask bits bits\<rparr> # ns))))"

definition parseCIDRs :: "string \<Rightarrow> string + ip_net list" where
  "parseCIDRs raw = parse_entries (split_on (CHR '','') raw)"

definition ipInAny :: "ip \<Rightarrow> ip_net list \<Rightarrow> bool" where
  "ipInAny a nets = list_ex (\<lambda>n. net_Contains n a) nets"

section \<open>client_ip.go\<close>

record http_in =
  hi_RemoteAddr :: string
  hi_Headers :: "string \<Rightarrow> string list"
  hi_Path :: string
  hi_ViaProxy :: bool
  hi_Prefix :: string
  hi_TLS :: bool

definition xff_ips :: "http_in \<Rightarrow> ip list" where
  "xff_ips r = List.map_filter (\<lambda>part. ParseIP (trim_space part))
     (concat (map (split_on (CHR '','')) (hi_Headers r ''X-Forwarded-For'')))"

definition realClientFromXFF :: "http_in \<Rightarrow> ip_net list \<Rightarrow> string" where
  "realClientFromXFF r trusted =
     (let ips = xff_ips r
      in if ips = [] then []
         else case find (\<lambda>a. \<not> ipInAny a trusted) (rev ips) of
           Some a \<Rightarrow> ip_String a
         | None \<Rightarrow> ip_String (hd ips))"

definition host_of_addr :: "string \<Rightarrow> string" where
  "host_of_addr addr = (case SplitHostPort addr of None \<Rightarrow> addr | Some (h, _) \<Rightarrow> h)"

definition clientIP :: "ip_net list \<Rightarrow> http_in \<Rightarrow> http_in" where
  "clientIP trusted r =
     (let host = host_of_addr (hi_RemoteAddr r);
          viaProxy = (case ParseIP host of None \<Rightarrow> False | Some peer \<Rightarrow> ipInAny peer trusted);
          real = (if viaProxy then realClientFromXFF r trusted else [])
      in r\<lparr>hi_ViaProxy := viaProxy, hi_RemoteAddr := (if real \<noteq> [] then real else host)\<rparr>)"

section \<open>The local exemption\<close>

definition forwardingHeaders :: "string list" where
  "forwardingHeaders = [''Forwarded'', ''X-Forwarded-For'', ''X-Forwarded-Host'', ''X-Forwarded-Proto'',
     ''X-Forwarded-Server'', ''X-Forwarded-Prefix'', ''X-Real-Ip'', ''Via'']"

definition hasForwardingHeaders :: "http_in \<Rightarrow> bool" where
  "hasForwardingHeaders r = list_ex (\<lambda>h. hi_Headers r h \<noteq> []) forwardingHeaders"

definition isLoopback :: "http_in \<Rightarrow> bool" where
  "isLoopback r =
     (if hi_ViaProxy r \<or> hasForwardingHeaders r then False
      else case ParseIP (host_of_addr (hi_RemoteAddr r)) of None \<Rightarrow> False | Some a \<Rightarrow> IsLoopback a)"

text \<open>The setting is read from the store; an error reads as off.\<close>

definition mfaExempt :: "bool option \<Rightarrow> http_in \<Rightarrow> bool" where
  "mfaExempt setting r \<longleftrightarrow> setting = Some True \<and> isLoopback r"

definition firstHeaderValue :: "http_in \<Rightarrow> string \<Rightarrow> string" where
  "firstHeaderValue r name =
     before_byte (CHR '','') (case hi_Headers r name of [] \<Rightarrow> [] | v # _ \<Rightarrow> v)"

definition cookieSecure :: "string \<Rightarrow> http_in \<Rightarrow> bool" where
  "cookieSecure tlsCert r =
     (if hi_TLS r \<or> tlsCert \<noteq> [] then True
      else if \<not> hi_ViaProxy r then False
      else equal_fold (trim_space (firstHeaderValue r ''X-Forwarded-Proto'')) ''https'')"

section \<open>The path prefix\<close>

definition maxPathPrefix :: nat where "maxPathPrefix = 256"

definition unreserved :: "char \<Rightarrow> bool" where
  "unreserved ch \<longleftrightarrow>
     (let n = of_char ch :: nat
      in 97 \<le> n \<and> n \<le> 122 \<or> 65 \<le> n \<and> n \<le> 90 \<or> 48 \<le> n \<and> n \<le> 57
         \<or> ch \<in> {CHR ''-'', CHR ''.'', CHR ''_'', CHR ''~''})"

definition plain_segment :: "string \<Rightarrow> bool" where
  "plain_segment seg \<longleftrightarrow> seg \<noteq> [] \<and> seg \<noteq> ''.'' \<and> seg \<noteq> ''..'' \<and> list_all unreserved seg"

definition NormalizePathPrefix :: "string \<Rightarrow> string option" where
  "NormalizePathPrefix raw =
     (let p = trim_space raw
      in if length p > maxPathPrefix then None
         else let p = (if has_prefix ''/'' p then p else CHR ''/'' # p);
                  p = trim_suffix ''/'' p
         in if p = [] then Some []
            else if list_all plain_segment (split_on (CHR ''/'') (drop 1 p)) then Some p
            else None)"

definition cutPathPrefix :: "string \<Rightarrow> string \<Rightarrow> string option" where
  "cutPathPrefix p pre =
     (if p = pre then Some ''/''
      else if has_prefix (pre @ ''/'') p then Some (drop (length pre) p)
      else None)"

definition stripPathPrefix :: "http_in \<Rightarrow> string \<Rightarrow> http_in" where
  "stripPathPrefix r pre =
     (case cutPathPrefix (hi_Path r) pre of None \<Rightarrow> r | Some rest \<Rightarrow> r\<lparr>hi_Path := rest\<rparr>)"

definition pathPrefix :: "string \<Rightarrow> bool \<Rightarrow> http_in \<Rightarrow> http_in" where
  "pathPrefix basePath forwarded r =
     (let h = (case hi_Headers r ''X-Forwarded-Prefix'' of [] \<Rightarrow> [] | v # _ \<Rightarrow> v);
          pre = (if forwarded \<and> h \<noteq> [] then (case NormalizePathPrefix h of None \<Rightarrow> basePath | Some p \<Rightarrow> p) else basePath)
      in if pre \<noteq> [] then (stripPathPrefix r pre)\<lparr>hi_Prefix := pre\<rparr> else r)"

definition cookiePath :: "http_in \<Rightarrow> string" where
  "cookiePath r = hi_Prefix r @ ''/''"

section \<open>Lemmas\<close>

lemma split_on_sep: "split_on c (a @ c # b) = split_on c a @ split_on c b"
  by (induction a) (auto split: list.splits)

lemma split_on_concat: "join [c] (split_on c s) = s"
proof (induction s)
  case (Cons x s)
  then show ?case
    by (cases "split_on c s") (auto split: list.splits, (metis append_Cons join.simps list.exhaust)+)
qed simp

lemma xff_ips_after:
  assumes "hi_Headers r ''X-Forwarded-For'' = hs @ [spoof @ '','' @ real]"
    and "hi_Headers r' ''X-Forwarded-For'' = [real]"
  shows "\<exists>a. xff_ips r = a @ xff_ips r'"
  using assms by (simp add: xff_ips_def split_on_sep List.map_filter_def)

lemma find_rev_append:
  "\<exists>x \<in> set b. P x \<Longrightarrow> find P (rev (a @ b)) = find P (rev b)"
  by (induction b rule: rev_induct) auto

lemma trim_space_id: "s = [] \<or> \<not> is_space (hd s) \<and> \<not> is_space (last s) \<Longrightarrow> trim_space s = s"
  by (metis dropWhile_eq_self_iff hd_rev rev_rev_ident trim_space_Nil trim_space_def)

lemma unreserved_not_space: "unreserved c \<Longrightarrow> \<not> is_space c"
  by (auto simp: unreserved_def is_space_def Let_def)

lemma in_parts: "c \<in> set s \<Longrightarrow> c \<noteq> sep \<Longrightarrow> \<exists>p \<in> set (split_on sep s). c \<in> set p"
  by (induction s) (auto split: list.splits)

lemma split_on_final: "s \<noteq> [] \<Longrightarrow> last s = sep \<Longrightarrow> [] \<in> set (split_on sep s)"
  using split_on_sep [of sep "butlast s" "[]"] append_butlast_last_id [of s] by auto

lemma plain_chars:
  assumes "list_all plain_segment (split_on (CHR ''/'') s)" and "c \<in> set s"
  shows "unreserved c \<or> c = CHR ''/''"
  using in_parts [of c s "CHR ''/''"] assms by (fastforce simp: list_all_iff plain_segment_def)

lemma trim_suffix_cases: "trim_suffix x s = s \<or> trim_suffix x s @ x = s"
  by (auto simp: trim_suffix_def has_suffix_iff)

lemma NormalizePathPrefix_Some:
  assumes "NormalizePathPrefix raw = Some p" and "p \<noteq> []"
  shows "\<exists>t. p = CHR ''/'' # t \<and> t \<noteq> [] \<and> list_all plain_segment (split_on (CHR ''/'') t) \<and> length p \<le> maxPathPrefix + 1"
proof -
  let ?q = "if has_prefix ''/'' (trim_space raw) then trim_space raw else CHR ''/'' # trim_space raw"
  from assms have p: "p = trim_suffix ''/'' ?q" and len: "length (trim_space raw) \<le> maxPathPrefix"
    and plain: "list_all plain_segment (split_on (CHR ''/'') (drop 1 p))"
    by (auto simp: NormalizePathPrefix_def Let_def split: if_splits)
  obtain q where q: "?q = CHR ''/'' # q" by (cases "has_prefix ''/'' (trim_space raw)") (auto simp: has_prefix_iff)
  have "p = ?q \<or> p @ ''/'' = ?q"
    unfolding p by (rule trim_suffix_cases)
  then have "hd p = CHR ''/''" using assms(2) q by (metis hd_append2 list.sel(1))
  moreover have "length p \<le> maxPathPrefix + 1"
    using len unfolding p by (auto simp: trim_suffix_def)
  moreover have "drop 1 p \<noteq> []" using plain by (auto simp: plain_segment_def)
  ultimately show ?thesis
    using assms(2) plain by (intro exI [of _ "drop 1 p"]) (cases p; simp)
qed

section \<open>Properties\<close>

text \<open>C23. No entry to the left of the first hop that is not a trusted proxy is believed: whatever a
  client writes into the header before it reaches the proxies, the address the server works with is
  the same, as long as the entries the proxies appended hold one that is not a trusted proxy.\<close>

theorem spoofed_hops_ignored:
  assumes "hi_Headers r ''X-Forwarded-For'' = hs @ [spoof @ '','' @ real]"
    and "r' = r\<lparr>hi_Headers := (hi_Headers r)(''X-Forwarded-For'' := [real])\<rparr>"
    and "list_ex (\<lambda>a. \<not> ipInAny a trusted) (xff_ips r')"
  shows "hi_RemoteAddr (clientIP trusted r) = hi_RemoteAddr (clientIP trusted r')
    \<and> hi_ViaProxy (clientIP trusted r) = hi_ViaProxy (clientIP trusted r')"
proof -
  obtain a where a: "xff_ips r = a @ xff_ips r'"
    using xff_ips_after [OF assms(1), of r'] assms(2) by auto
  have "\<exists>x \<in> set (xff_ips r'). \<not> ipInAny x trusted" using assms(3) by (simp add: list_ex_iff)
  then have "find (\<lambda>x. \<not> ipInAny x trusted) (rev (xff_ips r)) = find (\<lambda>x. \<not> ipInAny x trusted) (rev (xff_ips r'))"
    and "find (\<lambda>x. \<not> ipInAny x trusted) (rev (xff_ips r')) \<noteq> None" and "xff_ips r' \<noteq> []"
    unfolding a by (auto simp: find_rev_append find_None_iff simp del: rev_append)
  then have "realClientFromXFF r trusted = realClientFromXFF r' trusted"
    using a by (auto simp: realClientFromXFF_def Let_def)
  then show ?thesis using assms(2) by (simp add: clientIP_def Let_def)
qed

theorem spoofed_hops_ignored_witness:
  "let nets = (case parseCIDRs ''127.0.0.1'' of Inr ns \<Rightarrow> ns | Inl _ \<Rightarrow> []);
       r = \<lparr>hi_RemoteAddr = ''127.0.0.1:4242'', hi_Headers = (\<lambda>h. if h = ''X-Forwarded-For'' then [''::1, 203.0.113.9''] else []),
            hi_Path = ''/api/login'', hi_ViaProxy = False, hi_Prefix = [], hi_TLS = False\<rparr>
   in hi_RemoteAddr (clientIP nets r) = ''203.0.113.9'' \<and> hi_ViaProxy (clientIP nets r)"
proof -
  let ?nets = "case parseCIDRs ''127.0.0.1'' of Inr ns \<Rightarrow> ns | Inl _ \<Rightarrow> []"
  let ?r = "\<lparr>hi_RemoteAddr = ''127.0.0.1:4242'', hi_Headers = (\<lambda>h. if h = ''X-Forwarded-For'' then [''::1, 203.0.113.9''] else []),
            hi_Path = ''/api/login'', hi_ViaProxy = False, hi_Prefix = [], hi_TLS = False\<rparr>"
  let ?r' = "?r\<lparr>hi_Headers := (hi_Headers ?r)(''X-Forwarded-For'' := ['' 203.0.113.9''])\<rparr>"
  have "hi_Headers ?r ''X-Forwarded-For'' = [] @ [''::1'' @ '','' @ '' 203.0.113.9'']" by simp
  moreover have "list_ex (\<lambda>a. \<not> ipInAny a ?nets) (xff_ips ?r')" by code_simp
  ultimately have "hi_RemoteAddr (clientIP ?nets ?r) = hi_RemoteAddr (clientIP ?nets ?r')
      \<and> hi_ViaProxy (clientIP ?nets ?r) = hi_ViaProxy (clientIP ?nets ?r')"
    by (rule spoofed_hops_ignored [OF _ refl])
  moreover have "hi_RemoteAddr (clientIP ?nets ?r') = ''203.0.113.9''" by code_simp
  moreover have "hi_ViaProxy (clientIP ?nets ?r')" by code_simp
  ultimately show ?thesis by simp
qed


text \<open>A path prefix that is accepted is safe to write into links, cookies and redirects: it is empty,
  or a slash followed by plain segments, so it has only unreserved characters and slashes, does not
  start with two slashes or end with one, and has no dot segment. It is its own canonical form
  (within the length limit), and the length is bounded.\<close>

theorem path_prefix_plain:
  assumes "NormalizePathPrefix raw = Some p" and "p \<noteq> []"
  shows "hd p = CHR ''/'' \<and> \<not> has_prefix ''//'' p \<and> last p \<noteq> CHR ''/''
    \<and> list_all (\<lambda>c. unreserved c \<or> c = CHR ''/'') p
    \<and> ''.'' \<notin> set (split_on (CHR ''/'') p) \<and> ''..'' \<notin> set (split_on (CHR ''/'') p)
    \<and> length p \<le> maxPathPrefix + 1 \<and> (length p \<le> maxPathPrefix \<longrightarrow> NormalizePathPrefix p = Some p)"
proof -
  obtain t where t: "p = CHR ''/'' # t" "t \<noteq> []" and plain: "list_all plain_segment (split_on (CHR ''/'') t)"
    and len: "length p \<le> maxPathPrefix + 1"
    using NormalizePathPrefix_Some [OF assms] by blast
  have seg: "[] \<notin> set (split_on (CHR ''/'') t)" using plain by (auto simp: list_all_iff plain_segment_def)
  then have last: "last t \<noteq> CHR ''/''" using split_on_final [OF t(2)] by blast
  have hd: "hd t \<noteq> CHR ''/''" using seg t(2) by (cases t) auto
  have chars: "list_all (\<lambda>c. unreserved c \<or> c = CHR ''/'') p"
    using plain_chars [OF plain] t(1) by (auto simp: list_all_iff)
  have "unreserved (last p)"
    using chars last t last_in_set [of t] by (auto simp: list_all_iff)
  then have "\<not> is_space (last p)" by (rule unreserved_not_space)
  then have trim: "trim_space p = p"
    using t by (intro trim_space_id) (auto simp: is_space_def)
  have "trim_suffix ''/'' p = p"
    using trim_suffix_cases [of "''/''" p] last t by (metis last_ConsR last_snoc)
  then have "length p \<le> maxPathPrefix \<Longrightarrow> NormalizePathPrefix p = Some p"
    using t plain trim by (simp add: NormalizePathPrefix_def)
  then show ?thesis
    using t hd last chars len plain by (auto simp: list_all_iff plain_segment_def neq_Nil_conv)
qed

theorem path_prefix_plain_witness:
  "NormalizePathPrefix ''dockercmd/'' = Some ''/dockercmd'' \<and> hd ''/dockercmd'' = CHR ''/''
   \<and> NormalizePathPrefix ''/dockercmd'' = Some ''/dockercmd''"
proof -
  have n: "NormalizePathPrefix ''dockercmd/'' = Some ''/dockercmd''" by code_simp
  then show ?thesis using path_prefix_plain [OF n] by (simp add: maxPathPrefix_def)
qed

text \<open>An IPv4 address is printed so that it parses to the same address.\<close>

lemma digit_char_zero: "n < 10 \<Longrightarrow> digit_char n = CHR ''0'' \<longleftrightarrow> n = 0"
proof -
  assume n: "n < 10"
  have "digit_char n = CHR ''0'' \<Longrightarrow> int n = 0" using digit_char_val [OF n] by (simp add: digit_val_def)
  moreover have "digit_char 0 = CHR ''0''" by code_simp
  ultimately show ?thesis by auto
qed

lemma show_nat_short:
  assumes "n < 256"
  shows "length (show_nat n) \<le> 3 \<and> (length (show_nat n) > 1 \<longrightarrow> hd (show_nat n) \<noteq> CHR ''0'')"
proof -
  consider "n < 10" | "10 \<le> n" "n < 100" | "100 \<le> n" by linarith
  then show ?thesis
  proof cases
    case 1
    then show ?thesis by (simp add: show_nat.simps [of n])
  next
    case 2
    then have "0 < n div 10" "n div 10 < 10" by auto
    with 2 show ?thesis by (simp add: show_nat.simps [of n] show_nat.simps [of "n div 10"] digit_char_zero)
  next
    case 3
    then have "0 < n div 10 div 10" "n div 10 div 10 < 10" "\<not> n div 10 < 10" using assms by auto
    with 3 assms show ?thesis
      by (simp add: show_nat.simps [of n] show_nat.simps [of "n div 10"] show_nat.simps [of "n div 10 div 10"]
          digit_char_zero)
  qed
qed

lemma octet_roundtrip: "parse_octet (show_int (uint (b :: 8 word))) = Some b"
proof -
  have lt: "unat b < 256" using unsigned_less [of b] by simp
  have "show_int (uint b) = show_nat (unat b)" by (simp add: show_int_def)
  then show ?thesis
    using show_nat_short [OF lt] show_nat_digits [of "unat b"] uint_lt2p [of b] by (simp add: parse_octet_def)
qed

lemma split_on_no_sep: "c \<notin> set a \<Longrightarrow> split_on c a = [a]"
  by (induction a) auto

lemma show_int_no_dot: "0 \<le> n \<Longrightarrow> CHR ''.'' \<notin> set (show_int n)"
  using show_nat_digits [of "nat n"] by (auto simp: show_int_def list_all_iff is_digit_def)

lemma ipv4_roundtrip:
  fixes q :: ip
  assumes "length q = 4"
  shows "ParseIP (ip_String (v4_prefix @ q)) = Some (v4_prefix @ q)"
proof -
  obtain a b c d where q: "q = [a, b, c, d]"
    using assms by (auto simp: eval_nat_numeral length_Suc_conv)
  let ?s = "\<lambda>x :: 8 word. show_int (uint x)"
  have s: "ip_String (v4_prefix @ q) = ?s a @ ''.'' @ ?s b @ ''.'' @ ?s c @ ''.'' @ ?s d"
    using q by (simp add: ip_String_def To4_def v4_prefix_def)
  have split: "split_on (CHR ''.'') (ip_String (v4_prefix @ q)) = [?s a, ?s b, ?s c, ?s d]"
    unfolding s by (simp add: split_on_sep split_on_no_sep show_int_no_dot)
  have "list_all is_digit (?s a)" using show_nat_digits [of "nat (uint a)"] by (simp add: show_int_def)
  then have "dropWhile (\<lambda>x. x \<notin> {CHR ''.'', CHR '':'', CHR ''%''}) (ip_String (v4_prefix @ q))
      = ''.'' @ ?s b @ ''.'' @ ?s c @ ''.'' @ ?s d"
    unfolding s by (subst dropWhile_append2) (auto simp: list_all_iff is_digit_def)
  then show ?thesis
    using split q by (simp add: ParseIP_def parse_ipv4_def octet_roundtrip)
qed

end
