(* ===== verification/OAuthServer.thy ===== *)
theory OAuthServer
  imports OAuthStore AuthService AuditLog ClientAddr
begin

text \<open>
  The authorization server for tools, \<open>src/internal/api/oauth_handlers.go\<close>, and its access
  tokens, \<open>src/internal/mcp/oauth_token.go\<close>. What comes from outside a request is a record
  \<open>oauth_env\<close>: the clock, the values drawn at random in order (\<open>None\<close> where drawing
  fails), the parser of session cookies, the hash of a credential, the S256 transform, the HMAC
  under the signing key, the parser of URLs, and signing and checking of access tokens by the JWT
  library. The clock is read once per request.
\<close>

section \<open>Access tokens\<close>

record accessClaims =
  ac_ReadOnly :: bool
  ac_ClientID :: string
  ac_SessionID :: string
  ac_Issuer :: string
  ac_Subject :: string
  ac_Audience :: "string list"
  ac_IssuedAt :: time
  ac_ExpiresAt :: "time option"
  ac_ID :: string

definition AccessTokenTTL :: duration where "AccessTokenTTL = 15 * minute"

record url =
  url_Scheme :: string
  url_Hostname :: string
  url_Fragment :: string

record oauth_env =
  oe_now :: time
  oe_rand :: "nat \<Rightarrow> string option"
  oe_jti :: "string option"
  oe_session :: "string \<Rightarrow> Claims option"
  oe_hash :: "string \<Rightarrow> string"
  oe_s256 :: "string \<Rightarrow> string"
  oe_mac :: "string \<Rightarrow> string"
  oe_url :: "string \<Rightarrow> url option"
  oe_sign :: "accessClaims \<Rightarrow> string option"
  oe_jwt :: "string \<Rightarrow> time \<Rightarrow> string \<Rightarrow> accessClaims option"

text \<open>The settings the handlers read: the public URL and the length of the signing key.\<close>

record oauth_conf =
  of_MCPPublicURL :: string
  of_keylen :: nat

definition MintAccessToken ::
    "oauth_env \<Rightarrow> nat \<Rightarrow> string \<Rightarrow> string \<Rightarrow> int \<Rightarrow> string \<Rightarrow> string \<Rightarrow> bool \<Rightarrow> duration \<Rightarrow> (string \<times> time) option" where
  "MintAccessToken e keylen issuer resource uid clientID sessionID readOnly ttl =
     (if keylen = 0 \<or> clientID = [] \<or> sessionID = [] then None
      else case oe_jti e of None \<Rightarrow> None
        | Some jti \<Rightarrow>
          (case oe_sign e \<lparr>ac_ReadOnly = readOnly, ac_ClientID = clientID, ac_SessionID = sessionID, ac_Issuer = issuer,
               ac_Subject = show_int uid, ac_Audience = [resource], ac_IssuedAt = trunc_sec (oe_now e),
               ac_ExpiresAt = Some (trunc_sec (oe_now e + ttl)), ac_ID = jti\<rparr> of
             None \<Rightarrow> None | Some t \<Rightarrow> Some (t, oe_now e + ttl)))"

text \<open>The library is asked to check signature, algorithm, audience and expiry.\<close>

definition parseAccessToken :: "oauth_env \<Rightarrow> string \<Rightarrow> string \<Rightarrow> (int \<times> string \<times> string \<times> bool \<times> time) option" where
  "parseAccessToken e resource tok =
     (case oe_jwt e resource (oe_now e) tok of
        None \<Rightarrow> None
      | Some c \<Rightarrow>
        (case parse_int64 (ac_Subject c) of
           None \<Rightarrow> None
         | Some uid \<Rightarrow>
           (case ac_ExpiresAt c of None \<Rightarrow> None
            | Some ex \<Rightarrow> Some (uid, ac_ClientID c, ac_SessionID c, ac_ReadOnly c, ex))))"

section \<open>Requests and answers\<close>

record oauth_request =
  oq_request :: request
  oq_query :: "string \<Rightarrow> string"
  oq_form :: "(string \<Rightarrow> string) option"
  oq_cookie :: "string option"
  oq_agent :: string

text \<open>A redirect goes to a URI with query parameters set on it.\<close>

datatype oauth_answer =
    Panic
  | JsonErr nat string string
  | PlainErr nat string
  | ErrorPage string
  | LoginPage
  | ConsentPage string string string
  | Redirect string "(string \<times> string) list"
  | Registered OAuthClient
  | Tokens string string string
  | RateLimited
  | Accepted

definition oauthCodeTTL :: duration where "oauthCodeTTL = 60 * second"
definition oauthRefreshTTL :: duration where "oauthRefreshTTL = 30 * 24 * hour"
definition scopeFull :: string where "scopeFull = ''mcp''"
definition scopeReadOnly :: string where "scopeReadOnly = ''mcp:read''"
definition clientIDPrefix :: string where "clientIDPrefix = ''dcmcp_''"
definition maxRedirectURIs :: nat where "maxRedirectURIs = 5"

record oauth_server =
  ov_conf :: oauth_conf
  ov_store :: oauth_store
  ov_log :: adb
  ov_limiter :: "LoginLimiter option"

definition mcpBase :: "oauth_conf \<Rightarrow> string" where
  "mcpBase c = rev (dropWhile (\<lambda>x. x = CHR ''/'') (rev (of_MCPPublicURL c)))"

definition mcpResource :: "oauth_conf \<Rightarrow> string" where
  "mcpResource c = mcpBase c @ ''/mcp''"

definition resourceOK :: "oauth_conf \<Rightarrow> string \<Rightarrow> bool" where
  "resourceOK c resource \<longleftrightarrow> resource = [] \<or> resource = mcpResource c"

definition sessionClaims :: "oauth_env \<Rightarrow> oauth_request \<Rightarrow> Claims option" where
  "sessionClaims e r =
     (case oq_cookie r of None \<Rightarrow> None
      | Some v \<Rightarrow> (case oe_session e v of None \<Rightarrow> None | Some c \<Rightarrow> if c_Kind c = KindSession then Some c else None))"

definition clientDisplay :: "OAuthClient \<Rightarrow> string" where
  "clientDisplay c = (if oc_Name c \<noteq> [] then oc_Name c else oc_ID c)"

definition validRedirectURI :: "oauth_env \<Rightarrow> string \<Rightarrow> bool" where
  "validRedirectURI e raw =
     (case oe_url e raw of None \<Rightarrow> False
      | Some u \<Rightarrow>
        if url_Fragment u \<noteq> [] then False
        else if url_Scheme u = ''https'' then True
        else if url_Scheme u = ''http'' then url_Hostname u \<in> {''localhost'', ''127.0.0.1'', ''::1''}
        else False)"

definition verifyPKCE :: "oauth_env \<Rightarrow> string \<Rightarrow> string \<Rightarrow> bool" where
  "verifyPKCE e verifier challenge =
     (if verifier = [] \<or> challenge = [] then False else oe_s256 e verifier = challenge)"

definition csrf_text :: "string \<Rightarrow> string \<Rightarrow> string \<Rightarrow> string" where
  "csrf_text cookie clientID redirectURI = ''csrf:'' @ cookie @ [CHR 0x00] @ clientID @ [CHR 0x00] @ redirectURI"

definition oauthCSRF :: "oauth_env \<Rightarrow> oauth_request \<Rightarrow> string \<Rightarrow> string \<Rightarrow> string" where
  "oauthCSRF e r clientID redirectURI =
     (case oq_cookie r of None \<Rightarrow> [] | Some v \<Rightarrow> oe_mac e (csrf_text v clientID redirectURI))"

definition oauthCSRFValid :: "oauth_env \<Rightarrow> oauth_request \<Rightarrow> string \<Rightarrow> string \<Rightarrow> string \<Rightarrow> bool" where
  "oauthCSRFValid e r got clientID redirectURI =
     (let want = oauthCSRF e r clientID redirectURI
      in if want = [] \<or> got = [] then False else want = got)"

section \<open>Registration\<close>

record register_body =
  rb_RedirectURIs :: "string list"
  rb_ClientName :: string
  rb_TokenEndpointAuthMethod :: string

definition handleOAuthRegister ::
    "oauth_env \<Rightarrow> oauth_server \<Rightarrow> register_body option \<Rightarrow> oauth_answer \<times> oauth_server" where
  "handleOAuthRegister e v body =
     (case body of
        None \<Rightarrow> (JsonErr 400 ''invalid_client_metadata'' ''malformed JSON'', v)
      | Some b \<Rightarrow>
        if rb_RedirectURIs b = [] \<or> length (rb_RedirectURIs b) > maxRedirectURIs
          then (JsonErr 400 ''invalid_redirect_uri'' ''1..5 redirect_uris required'', v)
        else if rb_TokenEndpointAuthMethod b \<noteq> [] \<and> rb_TokenEndpointAuthMethod b \<noteq> ''none''
          then (JsonErr 400 ''invalid_client_metadata'' ''only token_endpoint_auth_method=none is supported'', v)
        else if \<not> list_all (validRedirectURI e) (rb_RedirectURIs b)
          then (JsonErr 400 ''invalid_redirect_uri'' ''redirect_uris must be https or loopback'', v)
        else case oe_rand e 0 of
          None \<Rightarrow> (Panic, v)
        | Some rnd \<Rightarrow>
          let c = \<lparr>oc_ID = clientIDPrefix @ rnd, oc_Name = rb_ClientName b, oc_RedirectURIs = rb_RedirectURIs b, oc_CreatedAt = 0\<rparr>
          in case CreateOAuthClient (ov_store v) c (oe_now e) of
               (Inl _, s) \<Rightarrow> (PlainErr 500 ''could not register client'', v\<lparr>ov_store := s\<rparr>)
             | (Inr _, s) \<Rightarrow> (Registered c, v\<lparr>ov_store := s\<rparr>))"

section \<open>The authorization endpoint\<close>

record authzParams =
  ap_clientID :: string
  ap_redirectURI :: string
  ap_state :: string
  ap_codeChallenge :: string
  ap_method :: string
  ap_scope :: string
  ap_resource :: string

definition parseAuthzParams :: "(string \<Rightarrow> string) \<Rightarrow> authzParams" where
  "parseAuthzParams q = \<lparr>ap_clientID = q ''client_id'', ap_redirectURI = q ''redirect_uri'', ap_state = q ''state'',
     ap_codeChallenge = q ''code_challenge'', ap_method = q ''code_challenge_method'', ap_scope = q ''scope'',
     ap_resource = q ''resource''\<rparr>"

definition validateClientRedirect :: "oauth_store \<Rightarrow> authzParams \<Rightarrow> oauth_answer + OAuthClient" where
  "validateClientRedirect s p =
     (case OAuthClientByID s (ap_clientID p) of
        Inl _ \<Rightarrow> Inl (ErrorPage ''Unknown client.'')
      | Inr c \<Rightarrow> if ap_redirectURI p \<in> set (oc_RedirectURIs c) then Inr c
          else Inl (ErrorPage ''redirect_uri does not match a registered URI.''))"

definition state_param :: "authzParams \<Rightarrow> (string \<times> string) list" where
  "state_param p = (if ap_state p \<noteq> [] then [(''state'', ap_state p)] else [])"

definition authzRedirectError :: "oauth_env \<Rightarrow> oauth_conf \<Rightarrow> authzParams \<Rightarrow> string \<Rightarrow> oauth_answer" where
  "authzRedirectError e cf p code =
     (case oe_url e (ap_redirectURI p) of None \<Rightarrow> ErrorPage code
      | Some _ \<Rightarrow> Redirect (ap_redirectURI p) ([(''error'', code), (''iss'', mcpBase cf)] @ state_param p))"

definition handleOAuthAuthorize :: "oauth_env \<Rightarrow> oauth_server \<Rightarrow> oauth_request \<Rightarrow> oauth_answer" where
  "handleOAuthAuthorize e v r =
     (let p = parseAuthzParams (oq_query r); cf = ov_conf v
      in case validateClientRedirect (ov_store v) p of
           Inl a \<Rightarrow> a
         | Inr client \<Rightarrow>
           if oq_query r ''response_type'' \<noteq> ''code'' then authzRedirectError e cf p ''unsupported_response_type''
           else if ap_codeChallenge p = [] \<or> ap_method p \<noteq> ''S256'' then authzRedirectError e cf p ''invalid_request''
           else if \<not> resourceOK cf (ap_resource p) then authzRedirectError e cf p ''invalid_target''
           else case sessionClaims e r of None \<Rightarrow> LoginPage
             | Some c \<Rightarrow> ConsentPage (c_Username c) (clientDisplay client) (oauthCSRF e r (ap_clientID p) (ap_redirectURI p)))"

definition handleOAuthAuthorizeDecision ::
    "oauth_env \<Rightarrow> oauth_server \<Rightarrow> oauth_request \<Rightarrow> oauth_answer \<times> oauth_server" where
  "handleOAuthAuthorizeDecision e v r =
     (case oq_form r of
        None \<Rightarrow> (PlainErr 400 ''bad form'', v)
      | Some f \<Rightarrow>
        let p = parseAuthzParams f; cf = ov_conf v
        in case validateClientRedirect (ov_store v) p of
          Inl a \<Rightarrow> (a, v)
        | Inr client \<Rightarrow>
          (case sessionClaims e r of
             None \<Rightarrow> (LoginPage, v)
           | Some claims \<Rightarrow>
             if \<not> oauthCSRFValid e r (f ''csrf'') (ap_clientID p) (ap_redirectURI p)
               then (PlainErr 403 ''invalid CSRF token'', v)
             else if ap_codeChallenge p = [] \<or> ap_method p \<noteq> ''S256'' \<or> \<not> resourceOK cf (ap_resource p)
               then (authzRedirectError e cf p ''invalid_request'', v)
             else if f ''decision'' \<noteq> ''allow'' then (authzRedirectError e cf p ''access_denied'', v)
             else let scope = (if f ''readonly'' = ''1'' then scopeReadOnly else scopeFull)
             in case oe_rand e 0 of
               None \<Rightarrow> (Panic, v)
             | Some code \<Rightarrow>
               (case CreateOAuthCode (oe_hash e code)
                   \<lparr>cd_ClientID = oc_ID client, cd_UserID = c_UserID claims, cd_RedirectURI = ap_redirectURI p,
                    cd_CodeChallenge = ap_codeChallenge p, cd_Resource = mcpResource cf, cd_Scope = scope,
                    cd_ExpiresAt = oe_now e + oauthCodeTTL\<rparr> (ov_store v) of
                  (Inl _, s) \<Rightarrow> (PlainErr 500 ''could not issue code'', v\<lparr>ov_store := s\<rparr>)
                | (Inr _, s) \<Rightarrow>
                  let v1 = v\<lparr>ov_store := s, ov_log := audit (ov_log v) (oq_request r) None ''mcp.oauth.authorize''
                               (c_Username claims) (''client='' @ oc_ID client @ '' scope='' @ scope) (oe_now e)\<rparr>
                  in case oe_url e (ap_redirectURI p) of
                       None \<Rightarrow> (Panic, v1)
                     | Some _ \<Rightarrow> (Redirect (ap_redirectURI p)
                         ([(''code'', code), (''iss'', mcpBase cf)] @ state_param p), v1))))"

section \<open>The token endpoint\<close>

definition sessionInfo :: "oauth_request \<Rightarrow> SessionInfo" where
  "sessionInfo r = \<lparr>si_IP = host_of_addr (rq_RemoteAddr (oq_request r)), si_UserAgent = oq_agent r\<rparr>"

definition issueTokens ::
    "oauth_env \<Rightarrow> oauth_server \<Rightarrow> oauth_request \<Rightarrow> string \<Rightarrow> int \<Rightarrow> string \<Rightarrow> string \<Rightarrow> string \<Rightarrow> oauth_answer \<times> oauth_server" where
  "issueTokens e v r clientID uid scope resource sessionID =
     (case MintAccessToken e (of_keylen (ov_conf v)) (mcpBase (ov_conf v)) resource uid clientID sessionID
          (scope = scopeReadOnly) AccessTokenTTL of
        None \<Rightarrow> (JsonErr 500 ''server_error'' [], v)
      | Some (access, _) \<Rightarrow>
        (case oe_rand e 1 of
           None \<Rightarrow> (Panic, v)
         | Some refresh \<Rightarrow>
           let ex = oe_now e + oauthRefreshTTL
           in case CreateRefreshToken (oe_hash e refresh)
                \<lparr>rt_ClientID = clientID, rt_UserID = uid, rt_Scope = scope, rt_Resource = resource, rt_ExpiresAt = ex,
                 rt_SessionID = sessionID\<rparr> (ov_store v) of
             (Inl _, s) \<Rightarrow> (JsonErr 500 ''server_error'' [], v\<lparr>ov_store := s\<rparr>)
           | (Inr _, s) \<Rightarrow>
             (case CreateMCPOAuthSession s
                \<lparr>ms_ID = sessionID, ms_ClientID = clientID, ms_UserID = uid, ms_IP = si_IP (sessionInfo r),
                 ms_UserAgent = si_UserAgent (sessionInfo r), ms_CreatedAt = 0, ms_LastUsedAt = 0, ms_ExpiresAt = ex\<rparr> (oe_now e) of
                (Inl _, s1) \<Rightarrow> (JsonErr 500 ''server_error'' [], v\<lparr>ov_store := s1\<rparr>)
              | (Inr _, s1) \<Rightarrow> (Tokens access refresh scope, v\<lparr>ov_store := s1\<rparr>))))"

definition tokenFromCode ::
    "oauth_env \<Rightarrow> oauth_server \<Rightarrow> oauth_request \<Rightarrow> (string \<Rightarrow> string) \<Rightarrow> oauth_answer \<times> oauth_server" where
  "tokenFromCode e v r f =
     (case ConsumeOAuthCode (oe_hash e (f ''code'')) (ov_store v) of
        (Inl _, s) \<Rightarrow> (JsonErr 400 ''invalid_grant'' ''unknown or used code'', v\<lparr>ov_store := s\<rparr>)
      | (Inr rec, s) \<Rightarrow>
        let v1 = v\<lparr>ov_store := s\<rparr>
        in if oe_now e > cd_ExpiresAt rec then (JsonErr 400 ''invalid_grant'' ''code expired'', v1)
           else if f ''client_id'' \<noteq> cd_ClientID rec \<or> f ''redirect_uri'' \<noteq> cd_RedirectURI rec
             then (JsonErr 400 ''invalid_grant'' ''client/redirect mismatch'', v1)
           else if cd_Resource rec \<noteq> mcpResource (ov_conf v) then (JsonErr 400 ''invalid_grant'' ''resource mismatch'', v1)
           else if \<not> verifyPKCE e (f ''code_verifier'') (cd_CodeChallenge rec)
             then (JsonErr 400 ''invalid_grant'' ''PKCE verification failed'', v1)
           else case oe_rand e 0 of
             None \<Rightarrow> (Panic, v1)
           | Some sid \<Rightarrow> issueTokens e v1 r (cd_ClientID rec) (cd_UserID rec) (cd_Scope rec) (cd_Resource rec) sid)"

text \<open>The check that runs inside the rotation.\<close>

definition refresh_validate :: "oauth_env \<Rightarrow> string \<Rightarrow> string \<Rightarrow> OAuthRefreshToken \<Rightarrow> oauth_error option" where
  "refresh_validate e clientID resource rec =
     (if rt_ExpiresAt rec \<noteq> 0 \<and> oe_now e > rt_ExpiresAt rec then Some ErrRefreshTokenExpired
      else if clientID \<noteq> rt_ClientID rec then Some ErrRefreshClientMismatch
      else if rt_Resource rec \<noteq> resource then Some ErrRefreshResourceMismatch
      else None)"

definition tokenFromRefresh ::
    "oauth_env \<Rightarrow> oauth_server \<Rightarrow> oauth_request \<Rightarrow> (string \<Rightarrow> string) \<Rightarrow> oauth_answer \<times> oauth_server" where
  "tokenFromRefresh e v r f =
     (case (oe_rand e 0, oe_rand e 1) of
        (Some refresh, Some candidate) \<Rightarrow>
        let ex = oe_now e + oauthRefreshTTL; resource = mcpResource (ov_conf v)
        in (case RotateRefreshToken (ov_store v) (oe_hash e (f ''refresh_token'')) (refresh_validate e (f ''client_id'') resource)
              candidate (si_IP (sessionInfo r)) (si_UserAgent (sessionInfo r)) ex (oe_hash e refresh) ex (oe_now e) of
            (Inl err, s) \<Rightarrow>
              (JsonErr 400 ''invalid_grant''
                 (if err = ErrRefreshTokenExpired then ''refresh token expired''
                  else if err = ErrRefreshClientMismatch then ''client mismatch''
                  else if err = ErrRefreshResourceMismatch then ''resource mismatch''
                  else ''unknown refresh token''), v\<lparr>ov_store := s\<rparr>)
          | (Inr (rec, sid), s) \<Rightarrow>
              (case MintAccessToken e (of_keylen (ov_conf v)) (mcpBase (ov_conf v)) (rt_Resource rec) (rt_UserID rec)
                  (rt_ClientID rec) sid (rt_Scope rec = scopeReadOnly) AccessTokenTTL of
                 None \<Rightarrow> (JsonErr 500 ''server_error'' [], v\<lparr>ov_store := s\<rparr>)
               | Some (access, _) \<Rightarrow> (Tokens access refresh (rt_Scope rec), v\<lparr>ov_store := s\<rparr>)))
      | _ \<Rightarrow> (Panic, v))"

definition handleOAuthToken :: "oauth_env \<Rightarrow> oauth_server \<Rightarrow> oauth_request \<Rightarrow> oauth_answer \<times> oauth_server" where
  "handleOAuthToken e v r =
     (case oq_form r of
        None \<Rightarrow> (JsonErr 400 ''invalid_request'' ''bad form'', v)
      | Some f \<Rightarrow>
        if f ''grant_type'' = ''authorization_code'' then tokenFromCode e v r f
        else if f ''grant_type'' = ''refresh_token'' then tokenFromRefresh e v r f
        else (JsonErr 400 ''unsupported_grant_type'' [], v))"

text \<open>The limiter in front of registration and the token endpoint; the list is the order in which the
  limiter's map is walked.\<close>

definition oauthThrottle ::
    "oauth_env \<Rightarrow> string list \<Rightarrow> string \<Rightarrow> (oauth_server \<Rightarrow> oauth_answer \<times> oauth_server) \<Rightarrow> oauth_server \<Rightarrow> oauth_answer \<times> oauth_server" where
  "oauthThrottle e order remote handler v =
     (case ov_limiter v of
        None \<Rightarrow> handler v
      | Some l \<Rightarrow>
        if \<not> Allow l remote (oe_now e) then (RateLimited, v)
        else handler (v\<lparr>ov_limiter := Some (Fail order l remote (oe_now e))\<rparr>))"

section \<open>Administration\<close>

definition handleRevokeMCPSession :: "oauth_env \<Rightarrow> oauth_server \<Rightarrow> request \<Rightarrow> string \<Rightarrow> oauth_answer \<times> oauth_server" where
  "handleRevokeMCPSession e v r i =
     (case rq_Claims r of
        None \<Rightarrow> (Panic, v)
      | Some uid \<Rightarrow>
        (case RevokeMCPOAuthSession (ov_store v) i uid of
           (Inl err, s) \<Rightarrow> ((if err = OErrNotFound then PlainErr 404 ''session not found''
                            else PlainErr 500 ''could not revoke session''), v\<lparr>ov_store := s\<rparr>)
         | (Inr _, s) \<Rightarrow> (Accepted, v\<lparr>ov_store := s, ov_log := audit (ov_log v) r None ''mcp.session.revoke'' i [] (oe_now e)\<rparr>)))"

definition handleAdminRevokeMCPSession :: "oauth_env \<Rightarrow> oauth_server \<Rightarrow> request \<Rightarrow> string \<Rightarrow> oauth_answer \<times> oauth_server" where
  "handleAdminRevokeMCPSession e v r i =
     (case AdminRevokeMCPOAuthSession (ov_store v) i of
        (Inl err, s) \<Rightarrow> ((if err = OErrNotFound then PlainErr 404 ''session not found''
                         else PlainErr 500 ''could not revoke session''), v\<lparr>ov_store := s\<rparr>)
      | (Inr _, s) \<Rightarrow> (Accepted, v\<lparr>ov_store := s, ov_log := audit (ov_log v) r None ''mcp.admin.session.revoke'' i [] (oe_now e)\<rparr>))"

definition handleAdminDeleteOAuthClient :: "oauth_env \<Rightarrow> oauth_server \<Rightarrow> request \<Rightarrow> string \<Rightarrow> oauth_answer \<times> oauth_server" where
  "handleAdminDeleteOAuthClient e v r i =
     (case DeleteOAuthClient (ov_store v) i of
        (Inl _, s) \<Rightarrow> (PlainErr 500 ''could not delete client'', v\<lparr>ov_store := s\<rparr>)
      | (Inr deleted, s) \<Rightarrow>
        if \<not> deleted then (PlainErr 404 ''client not found'', v\<lparr>ov_store := s\<rparr>)
        else (Accepted, v\<lparr>ov_store := s, ov_log := audit (ov_log v) r None ''mcp.admin.oauth_client.delete'' i [] (oe_now e)\<rparr>))"

section \<open>Runs\<close>

text \<open>Whatever can happen to the server's state: the requests above and the sweep, each with its own
  surroundings. The list carries the events in the order in which their effects take place.\<close>

datatype oauth_event =
    EvRegister oauth_env "register_body option"
  | EvDecision oauth_env oauth_request
  | EvToken oauth_env oauth_request
  | EvRevoke oauth_env request string
  | EvAdminRevoke oauth_env request string
  | EvDeleteClient oauth_env request string
  | EvSweep time
  | EvFaults "oauth_stmt \<Rightarrow> bool"

fun oauth_step :: "oauth_event \<Rightarrow> oauth_server \<Rightarrow> oauth_answer \<times> oauth_server" where
  "oauth_step (EvRegister e b) v = handleOAuthRegister e v b"
| "oauth_step (EvDecision e r) v = handleOAuthAuthorizeDecision e v r"
| "oauth_step (EvToken e r) v = handleOAuthToken e v r"
| "oauth_step (EvRevoke e r i) v = handleRevokeMCPSession e v r i"
| "oauth_step (EvAdminRevoke e r i) v = handleAdminRevokeMCPSession e v r i"
| "oauth_step (EvDeleteClient e r i) v = handleAdminDeleteOAuthClient e v r i"
| "oauth_step (EvSweep now) v = (Accepted, v\<lparr>ov_store := snd (DeleteExpiredOAuth (ov_store v) now)\<rparr>)"
| "oauth_step (EvFaults f) v = (Accepted, v\<lparr>ov_store := (ov_store v)\<lparr>os_fails := f\<rparr>\<rparr>)"

definition oauth_run :: "oauth_event list \<Rightarrow> oauth_server \<Rightarrow> oauth_server" where
  "oauth_run es v = fold (\<lambda>ev w. snd (oauth_step ev w)) es v"

end
