(* ===== verification/McpTokens.thy ===== *)
theory McpTokens
  imports OAuthServer
begin

text \<open>
  Bearer tokens for tools: \<open>src/internal/store/api_tokens.go\<close>, the lifetime policy of
  \<open>mcp_policy.go\<close> and the handlers of \<open>src/internal/api/mcp_token_handlers.go\<close> and
  \<open>mcp_admin_handlers.go\<close> that create and revoke tokens. The settings row of the policy is what
  JSON decoding makes of it: absent, not JSON, or an object in which each field may be missing.
\<close>

section \<open>api_tokens.go\<close>

record APIToken =
  t_ID :: int
  t_UserID :: int
  t_TokenHash :: string
  t_Name :: string
  t_Sections :: "string list"
  t_HostIDs :: "int list"
  t_ReadOnly :: bool
  t_CreatedAt :: time
  t_LastUsedAt :: time
  t_ExpiresAt :: time
  t_Revoked :: bool

datatype token_error = TErrNotFound | TErrSQL | TErrNeverForbidden | TErrLifetime int

datatype token_stmt = InsToken | SelToken | SelTokens | RevToken | TouchToken | GetPolicy | PutPolicy

record policy_json =
  pj_defaultDays :: "int option"
  pj_maxDays :: "int option"
  pj_allowUnlimited :: "bool option"

datatype policy_setting = NoPolicy | CorruptPolicy | StoredPolicy policy_json

record token_store =
  ts_tokens :: "APIToken tbl"
  ts_policy :: policy_setting
  ts_fails :: "token_stmt \<Rightarrow> bool"

definition Expired :: "APIToken \<Rightarrow> time \<Rightarrow> bool" where
  "Expired t now \<longleftrightarrow> t_ExpiresAt t \<noteq> 0 \<and> now > t_ExpiresAt t"

definition CreateAPIToken :: "token_store \<Rightarrow> APIToken \<Rightarrow> time \<Rightarrow> (token_error + int) \<times> token_store" where
  "CreateAPIToken s t now =
     (if ts_fails s InsToken \<or> list_ex (\<lambda>(i, x). t_TokenHash x = t_TokenHash t) (tbl_rows (ts_tokens s)) then (Err TErrSQL, s)
      else let (i, tb) = tbl_insert (t\<lparr>t_CreatedAt := trunc_sec now, t_LastUsedAt := 0,
                t_ExpiresAt := expiry_column (t_ExpiresAt t), t_Revoked := False\<rparr>) (ts_tokens s)
           in (Ok i, s\<lparr>ts_tokens := tb\<rparr>))"

text \<open>\<open>scanAPITokenRow\<close> reads the column of host ids and does not keep it.\<close>

definition scanAPITokenRow :: "int \<times> APIToken \<Rightarrow> APIToken" where
  "scanAPITokenRow row = (snd row)\<lparr>t_ID := fst row, t_HostIDs := []\<rparr>"

definition APITokenByHash :: "token_store \<Rightarrow> string \<Rightarrow> token_error + APIToken" where
  "APITokenByHash s hash =
     (if ts_fails s SelToken then Err TErrSQL
      else case find (\<lambda>(i, x). t_TokenHash x = hash \<and> \<not> t_Revoked x) (tbl_rows (ts_tokens s)) of
        None \<Rightarrow> Err TErrNotFound
      | Some row \<Rightarrow> Ok (scanAPITokenRow row))"

definition ListAPITokens :: "token_store \<Rightarrow> int \<Rightarrow> token_error + APIToken list" where
  "ListAPITokens s uid =
     (if ts_fails s SelTokens then Err TErrSQL
      else Ok (map scanAPITokenRow (sort_key (\<lambda>(i, x). - i) (filter (\<lambda>(i, x). t_UserID x = uid) (tbl_rows (ts_tokens s))))))"

text \<open>The administrator's list joins the accounts, here their names by id, leaves the hash out and
  keeps the host ids.\<close>

definition ListAllAPITokens :: "token_store \<Rightarrow> (int \<rightharpoonup> string) \<Rightarrow> token_error + (APIToken \<times> string) list" where
  "ListAllAPITokens s names =
     (if ts_fails s SelTokens then Err TErrSQL
      else Ok (List.map_filter (\<lambda>(i, x). map_option (\<lambda>n. (x\<lparr>t_ID := i, t_TokenHash := []\<rparr>, n)) (names (t_UserID x)))
             (sort_key (\<lambda>(i, x). - i) (tbl_rows (ts_tokens s)))))"

definition revoke_where :: "(APIToken \<Rightarrow> bool) \<Rightarrow> token_store \<Rightarrow> int \<Rightarrow> (token_error + bool) \<times> token_store" where
  "revoke_where P s i =
     (if ts_fails s RevToken then (Err TErrSQL, s)
      else case tbl_lookup (ts_tokens s) i of
        None \<Rightarrow> (Ok False, s)
      | Some t \<Rightarrow>
        if P t \<and> \<not> t_Revoked t
        then (Ok True, s\<lparr>ts_tokens := tbl_update i (\<lambda>t. t\<lparr>t_Revoked := True\<rparr>) (ts_tokens s)\<rparr>)
        else (Ok False, s))"

definition AdminRevokeAPIToken :: "token_store \<Rightarrow> int \<Rightarrow> (token_error + bool) \<times> token_store" where
  "AdminRevokeAPIToken s i = revoke_where (\<lambda>_. True) s i"

definition RevokeAPIToken :: "token_store \<Rightarrow> int \<Rightarrow> int \<Rightarrow> (token_error + bool) \<times> token_store" where
  "RevokeAPIToken s i uid = revoke_where (\<lambda>t. t_UserID t = uid) s i"

definition TouchAPIToken :: "token_store \<Rightarrow> int \<Rightarrow> time \<Rightarrow> (token_error + unit) \<times> token_store" where
  "TouchAPIToken s i now =
     (if ts_fails s TouchToken then (Err TErrSQL, s)
      else (Ok (), s\<lparr>ts_tokens := tbl_update i (\<lambda>t. t\<lparr>t_LastUsedAt := trunc_sec now\<rparr>) (ts_tokens s)\<rparr>))"

section \<open>mcp_policy.go\<close>

record MCPTokenPolicy =
  mp_DefaultDays :: int
  mp_MaxDays :: int
  mp_AllowUnlimited :: bool

definition defaultMCPTokenDays :: int where "defaultMCPTokenDays = 30"
definition defaultMCPTokenMaxDays :: int where "defaultMCPTokenMaxDays = 365"
definition absoluteMaxTokenDays :: int where "absoluteMaxTokenDays = 100 * 365"

definition DefaultMCPTokenPolicy :: MCPTokenPolicy where
  "DefaultMCPTokenPolicy = \<lparr>mp_DefaultDays = defaultMCPTokenDays, mp_MaxDays = defaultMCPTokenMaxDays, mp_AllowUnlimited = False\<rparr>"

definition normalizeMCPTokenPolicy :: "MCPTokenPolicy \<Rightarrow> MCPTokenPolicy" where
  "normalizeMCPTokenPolicy p0 =
     (let p1 = (if mp_DefaultDays p0 \<le> 0 then p0\<lparr>mp_DefaultDays := defaultMCPTokenDays\<rparr> else p0);
          p2 = (if mp_MaxDays p1 < 0 then p1\<lparr>mp_MaxDays := 0\<rparr> else p1);
          p3 = (if \<not> mp_AllowUnlimited p2 \<and> mp_MaxDays p2 = 0 then p2\<lparr>mp_MaxDays := defaultMCPTokenMaxDays\<rparr> else p2)
      in if mp_MaxDays p3 > 0 \<and> mp_DefaultDays p3 > mp_MaxDays p3 then p3\<lparr>mp_DefaultDays := mp_MaxDays p3\<rparr> else p3)"

text \<open>\<open>json.Unmarshal\<close> into the default policy: a missing field keeps its value.\<close>

definition unmarshal_policy :: "policy_json \<Rightarrow> MCPTokenPolicy \<Rightarrow> MCPTokenPolicy" where
  "unmarshal_policy j p =
     p\<lparr>mp_DefaultDays := (case pj_defaultDays j of None \<Rightarrow> mp_DefaultDays p | Some n \<Rightarrow> n),
       mp_MaxDays := (case pj_maxDays j of None \<Rightarrow> mp_MaxDays p | Some n \<Rightarrow> n),
       mp_AllowUnlimited := (case pj_allowUnlimited j of None \<Rightarrow> mp_AllowUnlimited p | Some b \<Rightarrow> b)\<rparr>"

definition GetMCPTokenPolicy :: "token_store \<Rightarrow> token_error + MCPTokenPolicy" where
  "GetMCPTokenPolicy s =
     (if ts_fails s GetPolicy then Err TErrSQL
      else case ts_policy s of
        NoPolicy \<Rightarrow> Ok DefaultMCPTokenPolicy
      | CorruptPolicy \<Rightarrow> Ok DefaultMCPTokenPolicy
      | StoredPolicy j \<Rightarrow> Ok (normalizeMCPTokenPolicy (unmarshal_policy j DefaultMCPTokenPolicy)))"

definition SetMCPTokenPolicy :: "token_store \<Rightarrow> MCPTokenPolicy \<Rightarrow> (token_error + unit) \<times> token_store" where
  "SetMCPTokenPolicy s p =
     (if ts_fails s PutPolicy then (Err TErrSQL, s)
      else let q = normalizeMCPTokenPolicy p
           in (Ok (), s\<lparr>ts_policy := StoredPolicy \<lparr>pj_defaultDays = Some (mp_DefaultDays q), pj_maxDays = Some (mp_MaxDays q),
                pj_allowUnlimited = Some (mp_AllowUnlimited q)\<rparr>\<rparr>))"

text \<open>The product of days and hours is computed in 64 bits.\<close>

definition ResolveExpiry :: "MCPTokenPolicy \<Rightarrow> int \<Rightarrow> bool \<Rightarrow> time \<Rightarrow> token_error + time" where
  "ResolveExpiry p requestedDays never now =
     (if never then (if \<not> mp_AllowUnlimited p then Err TErrNeverForbidden else Ok 0)
      else let days = (if requestedDays \<le> 0 then mp_DefaultDays p else requestedDays)
      in if mp_MaxDays p > 0 \<and> days > mp_MaxDays p then Err (TErrLifetime (mp_MaxDays p))
         else if days > absoluteMaxTokenDays then Err (TErrLifetime absoluteMaxTokenDays)
         else Ok (now + wrap64 (wrap64 (days * 24) * hour)))"

section \<open>The handlers\<close>

record token_body =
  tb_Name :: string
  tb_ReadOnly :: bool
  tb_Sections :: "string list"
  tb_HostIDs :: "int list"
  tb_ExpiresInDays :: int
  tb_NeverExpires :: bool

datatype token_answer = TokPanic | TokErr nat | TokErrText nat token_error | TokCreated int string | TokOK

definition cleanSections :: "string list \<Rightarrow> string list" where
  "cleanSections ss = filter ValidSection ss"

definition cleanHostIDs :: "int list \<Rightarrow> int list" where
  "cleanHostIDs ids = dedup (\<lambda>i. i > 0) [] ids"

text \<open>The sections a new token gets: those asked for, of a caller who is no administrator only the
  ones the account has now. \<open>Inl\<close> is the status of the refusal.\<close>

definition token_sections :: "db \<Rightarrow> User \<Rightarrow> string list \<Rightarrow> nat + string list" where
  "token_sections d u ss =
     (let requested = cleanSections ss
      in bind_res (if IsAdmin u then Ok requested
           else case EffectiveSections d u of Inl _ \<Rightarrow> Err 500 | Inr eff \<Rightarrow> Ok (filter (\<lambda>s. s \<in> set eff) requested))
         (\<lambda>sections. if requested \<noteq> [] \<and> sections = [] then Err 400 else Ok sections))"

definition handleCreateMCPToken ::
    "oauth_env \<Rightarrow> db \<Rightarrow> token_store \<Rightarrow> adb \<Rightarrow> request \<Rightarrow> token_body option \<Rightarrow> token_answer \<times> token_store \<times> adb" where
  "handleCreateMCPToken e d s a r body =
     (case rq_Claims r of
        None \<Rightarrow> (TokPanic, s, a)
      | Some uid \<Rightarrow>
        (case (UserByID d uid, body) of
           (Inl _, _) \<Rightarrow> (TokErr 401, s, a)
         | (Inr u, None) \<Rightarrow> (TokErr 400, s, a)
         | (Inr u, Some b) \<Rightarrow>
           let name = trim_space (tb_Name b); hosts = cleanHostIDs (tb_HostIDs b)
           in if name = [] then (TokErr 400, s, a)
              else case token_sections d u (tb_Sections b) of
                Inl st \<Rightarrow> (TokErr st, s, a)
              | Inr sections \<Rightarrow>
                if tb_HostIDs b \<noteq> [] \<and> hosts = [] then (TokErr 400, s, a)
                else case GetMCPTokenPolicy s of
                  Inl _ \<Rightarrow> (TokErr 500, s, a)
                | Inr policy \<Rightarrow>
                  (case ResolveExpiry policy (tb_ExpiresInDays b) (tb_NeverExpires b) (oe_now e) of
                     Inl err \<Rightarrow> (TokErrText 400 err, s, a)
                   | Inr ex \<Rightarrow>
                     (case oe_rand e 0 of
                        None \<Rightarrow> (TokPanic, s, a)
                      | Some secret \<Rightarrow>
                        (case CreateAPIToken s \<lparr>t_ID = 0, t_UserID = u_ID u, t_TokenHash = oe_hash e secret, t_Name = name,
                             t_Sections = sections, t_HostIDs = hosts, t_ReadOnly = tb_ReadOnly b \<or> u_ReadOnly u, t_CreatedAt = 0,
                             t_LastUsedAt = 0, t_ExpiresAt = ex, t_Revoked = False\<rparr> (oe_now e) of
                           (Inl _, s1) \<Rightarrow> (TokErr 500, s1, a)
                         | (Inr i, s1) \<Rightarrow> (TokCreated i secret, s1, audit a r None ''mcp.token.create'' (show_int i) name (oe_now e)))))))"

definition handleRevokeMCPToken ::
    "oauth_env \<Rightarrow> token_store \<Rightarrow> adb \<Rightarrow> request \<Rightarrow> string \<Rightarrow> token_answer \<times> token_store \<times> adb" where
  "handleRevokeMCPToken e s a r idtext =
     (case rq_Claims r of
        None \<Rightarrow> (TokPanic, s, a)
      | Some uid \<Rightarrow>
        (case RevokeAPIToken s (parse_int64_value idtext) uid of
           (Inl _, s1) \<Rightarrow> (TokErr 500, s1, a)
         | (Inr ok, s1) \<Rightarrow> if \<not> ok then (TokErr 404, s1, a)
             else (TokOK, s1, audit a r None ''mcp.token.revoke'' idtext [] (oe_now e))))"

definition handleAdminRevokeMCPToken ::
    "oauth_env \<Rightarrow> token_store \<Rightarrow> adb \<Rightarrow> request \<Rightarrow> string \<Rightarrow> token_answer \<times> token_store \<times> adb" where
  "handleAdminRevokeMCPToken e s a r idtext =
     (case AdminRevokeAPIToken s (parse_int64_value idtext) of
        (Inl _, s1) \<Rightarrow> (TokErr 500, s1, a)
      | (Inr ok, s1) \<Rightarrow> if \<not> ok then (TokErr 404, s1, a)
          else (TokOK, s1, audit a r None ''mcp.admin.token.revoke'' idtext [] (oe_now e)))"

definition handleAdminSetMCPTokenPolicy ::
    "oauth_env \<Rightarrow> token_store \<Rightarrow> adb \<Rightarrow> request \<Rightarrow> MCPTokenPolicy option \<Rightarrow> (nat + MCPTokenPolicy) \<times> token_store \<times> adb" where
  "handleAdminSetMCPTokenPolicy e s a r body =
     (case body of
        None \<Rightarrow> (Inl 400, s, a)
      | Some p \<Rightarrow>
        (case SetMCPTokenPolicy s p of
           (Inl _, s1) \<Rightarrow> (Inl 500, s1, a)
         | (Inr _, s1) \<Rightarrow>
           (case GetMCPTokenPolicy s1 of
              Inl _ \<Rightarrow> (Inl 500, s1, a)
            | Inr saved \<Rightarrow>
              (Inr saved, s1, audit a r None ''mcp.token_policy.update'' []
                 (''default '' @ show_int (mp_DefaultDays saved) @ ''d, max '' @ show_int (mp_MaxDays saved)
                  @ ''d, never-expiring '' @ (if mp_AllowUnlimited saved then ''true'' else ''false'')) (oe_now e)))))"

definition handleListMCPTokens :: "token_store \<Rightarrow> int \<Rightarrow> time \<Rightarrow> token_error + APIToken list" where
  "handleListMCPTokens s uid now =
     (case ListAPITokens s uid of Inl e \<Rightarrow> Err e
      | Inr ts \<Rightarrow> Ok (filter (\<lambda>t. \<not> (t_Revoked t \<or> Expired t now)) ts))"

definition handleAdminListMCPTokens :: "token_store \<Rightarrow> (int \<rightharpoonup> string) \<Rightarrow> time \<Rightarrow> token_error + (APIToken \<times> string) list" where
  "handleAdminListMCPTokens s names now =
     (case ListAllAPITokens s names of Inl e \<Rightarrow> Err e
      | Inr ts \<Rightarrow> Ok (filter (\<lambda>(t, _). \<not> (t_Revoked t \<or> Expired t now)) ts))"

section \<open>Lifetimes\<close>

lemma normalize_shape:
  fixes p :: MCPTokenPolicy
  defines "q \<equiv> normalizeMCPTokenPolicy p"
  shows "0 < mp_DefaultDays q" and "0 \<le> mp_MaxDays q" and "mp_AllowUnlimited q = mp_AllowUnlimited p"
    and "\<not> mp_AllowUnlimited q \<Longrightarrow> 0 < mp_MaxDays q" and "0 < mp_MaxDays q \<Longrightarrow> mp_DefaultDays q \<le> mp_MaxDays q"
  unfolding q_def
  by (auto simp: normalizeMCPTokenPolicy_def Let_def defaultMCPTokenDays_def defaultMCPTokenMaxDays_def)

lemma normalize_id:
  assumes "0 < mp_DefaultDays p" and "0 \<le> mp_MaxDays p" and "\<not> mp_AllowUnlimited p \<Longrightarrow> 0 < mp_MaxDays p"
    and "0 < mp_MaxDays p \<Longrightarrow> mp_DefaultDays p \<le> mp_MaxDays p"
  shows "normalizeMCPTokenPolicy p = p"
  using assms by (auto simp: normalizeMCPTokenPolicy_def Let_def)

lemma normalize_idem: "normalizeMCPTokenPolicy (normalizeMCPTokenPolicy p) = normalizeMCPTokenPolicy p"
  by (rule normalize_id) (use normalize_shape [of p] in auto)

lemma default_normal: "normalizeMCPTokenPolicy DefaultMCPTokenPolicy = DefaultMCPTokenPolicy"
  by (rule normalize_id) (auto simp: DefaultMCPTokenPolicy_def defaultMCPTokenDays_def defaultMCPTokenMaxDays_def)

lemma GetMCPTokenPolicy_normal:
  "GetMCPTokenPolicy s = Ok p \<Longrightarrow> normalizeMCPTokenPolicy p = p"
  by (auto simp: GetMCPTokenPolicy_def default_normal normalize_idem split: if_splits policy_setting.splits)

lemma days_exact:
  assumes "0 < days" and "days \<le> absoluteMaxTokenDays"
  shows "wrap64 (wrap64 (days * 24) * hour) = days * day"
proof -
  have "wrap64 (days * 24) = days * 24"
    using assms by (intro wrap64_id) (auto simp: min_int64_def max_int64_def absoluteMaxTokenDays_def)
  then show ?thesis
    using assms by (simp add: time_units wrap64_id min_int64_def max_int64_def absoluteMaxTokenDays_def)
qed

section \<open>Properties\<close>

text \<open>The lifetime a token gets is the one that was asked for, never a wrapped one. Under the policy
  the store returns, whatever is in the settings row, a token without expiry is issued only if
  the administrator allows it; any other expiry lies after now by a whole number of days: the
  requested number, or the policy's default, at most the policy's ceiling and at most a century.
  Without the permission for unlimited tokens there is a ceiling.\<close>

theorem token_lifetime_bounded:
  assumes "GetMCPTokenPolicy s = Ok p" and "ResolveExpiry p requested never now = Ok t"
  shows "never \<and> mp_AllowUnlimited p \<and> t = 0
    \<or> \<not> never \<and> (\<exists>days. t = now + days * day \<and> days = (if requested \<le> 0 then mp_DefaultDays p else requested)
         \<and> 1 \<le> days \<and> days \<le> absoluteMaxTokenDays
         \<and> (mp_MaxDays p = 0 \<or> days \<le> mp_MaxDays p) \<and> (mp_MaxDays p = 0 \<longrightarrow> mp_AllowUnlimited p))"
proof (cases never)
  case True
  then show ?thesis using assms(2) by (auto simp: ResolveExpiry_def split: if_splits)
next
  case False
  let ?d = "if requested \<le> 0 then mp_DefaultDays p else requested"
  have p: "normalizeMCPTokenPolicy p = p" by (rule GetMCPTokenPolicy_normal [OF assms(1)])
  note n = normalize_shape [of p, unfolded p]
  have d: "1 \<le> ?d" using n(1) by auto
  from False assms(2) have mx: "\<not> (mp_MaxDays p > 0 \<and> ?d > mp_MaxDays p)" and le: "?d \<le> absoluteMaxTokenDays"
    and t: "t = now + wrap64 (wrap64 (?d * 24) * hour)"
    by (auto simp: ResolveExpiry_def Let_def split: if_splits)
  have "t = now + ?d * day"
    unfolding t using days_exact [of ?d] d le by simp
  moreover have "mp_MaxDays p = 0 \<or> ?d \<le> mp_MaxDays p" using mx n(2) by linarith
  moreover have "mp_MaxDays p = 0 \<longrightarrow> mp_AllowUnlimited p" using n(4) by (cases "mp_AllowUnlimited p") auto
  ultimately show ?thesis using False d le by blast
qed

theorem token_lifetime_bounded_witness:
  "GetMCPTokenPolicy \<lparr>ts_tokens = tbl_empty, ts_policy = StoredPolicy \<lparr>pj_defaultDays = Some 90, pj_maxDays = Some 0,
       pj_allowUnlimited = None\<rparr>, ts_fails = (\<lambda>_. False)\<rparr>
     = Ok \<lparr>mp_DefaultDays = 90, mp_MaxDays = 365, mp_AllowUnlimited = False\<rparr>
   \<and> ResolveExpiry \<lparr>mp_DefaultDays = 90, mp_MaxDays = 365, mp_AllowUnlimited = False\<rparr> 0 False 1000 = Ok (1000 + 90 * day)"
proof -
  let ?s = "\<lparr>ts_tokens = tbl_empty, ts_policy = StoredPolicy \<lparr>pj_defaultDays = Some 90, pj_maxDays = Some 0,
       pj_allowUnlimited = None\<rparr>, ts_fails = (\<lambda>_. False)\<rparr>" and ?p = "\<lparr>mp_DefaultDays = 90, mp_MaxDays = 365, mp_AllowUnlimited = False\<rparr>"
  have g: "GetMCPTokenPolicy ?s = Ok ?p" by code_simp
  obtain t where t: "ResolveExpiry ?p 0 False 1000 = Ok t"
    by (simp add: ResolveExpiry_def absoluteMaxTokenDays_def)
  then show ?thesis using token_lifetime_bounded [OF g t] g by auto
qed

end
