(* ===== verification/OAuthRuns.thy ===== *)
theory OAuthRuns
  imports OAuthServer
begin

text \<open>
  What holds of the authorization server over runs of any length: a code is used once, a session
  that was revoked and a client that was removed stay gone, a session has at most one refresh
  token, and no answer redirects to a place that was not registered.
\<close>

section \<open>What one answer tells\<close>

lemma issueTokens_cases:
  assumes "issueTokens e v r cid uid scope res sid = (a, v')"
  obtains
    (tokens) access refresh s where "a = Tokens access refresh scope" and "oe_rand e 1 = Some refresh"
      and "MintAccessToken e (of_keylen (ov_conf v)) (mcpBase (ov_conf v)) res uid cid sid (scope = scopeReadOnly) AccessTokenTTL
            = Some (access, oe_now e + AccessTokenTTL)"
      and "CreateRefreshToken (oe_hash e refresh) \<lparr>rt_ClientID = cid, rt_UserID = uid, rt_Scope = scope, rt_Resource = res,
             rt_ExpiresAt = oe_now e + oauthRefreshTTL, rt_SessionID = sid\<rparr> (ov_store v) = (Ok (), s)"
      and "CreateMCPOAuthSession s \<lparr>ms_ID = sid, ms_ClientID = cid, ms_UserID = uid, ms_IP = si_IP (sessionInfo r),
             ms_UserAgent = si_UserAgent (sessionInfo r), ms_CreatedAt = 0, ms_LastUsedAt = 0,
             ms_ExpiresAt = oe_now e + oauthRefreshTTL\<rparr> (oe_now e) = (Ok (), ov_store v')"
  | (half) refresh where "\<not> (\<exists>x y z. a = Tokens x y z)" and "oe_rand e 1 = Some refresh"
      and "CreateRefreshToken (oe_hash e refresh) \<lparr>rt_ClientID = cid, rt_UserID = uid, rt_Scope = scope, rt_Resource = res,
             rt_ExpiresAt = oe_now e + oauthRefreshTTL, rt_SessionID = sid\<rparr> (ov_store v) = (Ok (), ov_store v')"
  | (none) "\<not> (\<exists>x y z. a = Tokens x y z)" and "ov_store v' = ov_store v"
proof (cases "MintAccessToken e (of_keylen (ov_conf v)) (mcpBase (ov_conf v)) res uid cid sid (scope = scopeReadOnly) AccessTokenTTL")
  case None
  with assms show thesis using none by (auto simp: issueTokens_def)
next
  case (Some p)
  note mint = Some
  then obtain access where p: "p = (access, oe_now e + AccessTokenTTL)"
    by (auto simp: MintAccessToken_def split: if_splits option.splits)
  show thesis
  proof (cases "oe_rand e 1")
    case None
    with assms mint p show thesis using none by (auto simp: issueTokens_def)
  next
    case (Some refresh)
    let ?t = "\<lparr>rt_ClientID = cid, rt_UserID = uid, rt_Scope = scope, rt_Resource = res,
             rt_ExpiresAt = oe_now e + oauthRefreshTTL, rt_SessionID = sid\<rparr>"
    let ?m = "\<lparr>ms_ID = sid, ms_ClientID = cid, ms_UserID = uid, ms_IP = si_IP (sessionInfo r),
             ms_UserAgent = si_UserAgent (sessionInfo r), ms_CreatedAt = 0, ms_LastUsedAt = 0,
             ms_ExpiresAt = oe_now e + oauthRefreshTTL\<rparr>"
    obtain x s where x: "CreateRefreshToken (oe_hash e refresh) ?t (ov_store v) = (x, s)" by (metis surj_pair)
    obtain y s1 where y: "CreateMCPOAuthSession s ?m (oe_now e) = (y, s1)" by (metis surj_pair)
    note cs = CreateRefreshToken_cases [OF x] CreateMCPOAuthSession_cases [OF y]
    have step: "(a, v') = (case x of Inl _ \<Rightarrow> (JsonErr 500 ''server_error'' [], v\<lparr>ov_store := s\<rparr>)
        | Inr _ \<Rightarrow> (case y of Inl _ \<Rightarrow> (JsonErr 500 ''server_error'' [], v\<lparr>ov_store := s1\<rparr>)
           | Inr _ \<Rightarrow> (Tokens access refresh scope, v\<lparr>ov_store := s1\<rparr>)))"
      using assms mint p Some x y by (simp add: issueTokens_def Let_def split: sum.splits)
    show thesis
    proof (cases x)
      case Inl
      with step cs(1) show thesis using none by auto
    next
      case (Inr u)
      show thesis
      proof (cases y)
        case Inl
        with step Inr cs(2) x Some show thesis using half [of refresh] by auto
      next
        case (Inr w)
        with step \<open>x = Inr u\<close> x y p mint Some show thesis using tokens [of access refresh s] by auto
      qed
    qed
  qed
qed

section \<open>The step relation\<close>

text \<open>One step of the tables, with the strings \<open>D\<close> drawn at random in it and the hashes
  \<open>H\<close> of credentials made from them, and the redirect addresses \<open>V\<close> that pass the check of
  registration: rows are removed; a client with a drawn id and such addresses is added; a
  code is added for a registered client; a code is traded for a refresh token and, unless that
  fails, a session with a drawn name; a refresh token is replaced by one of the same client and
  session, its session being touched or created.\<close>

inductive oauth_change :: "string set \<Rightarrow> string set \<Rightarrow> (string \<Rightarrow> bool) \<Rightarrow> oauth_store \<Rightarrow> oauth_store \<Rightarrow> bool" for D H V where
  shrink: "os_clients s' = filter P (os_clients s) \<Longrightarrow> os_codes s' = filter Q (os_codes s)
    \<Longrightarrow> os_refresh s' = filter R (os_refresh s) \<Longrightarrow> os_sessions s' = filter S (os_sessions s) \<Longrightarrow> oauth_change D H V s s'"
| register: "x \<in> D \<Longrightarrow> list_all V (oc_RedirectURIs c) \<Longrightarrow> s' = s\<lparr>os_clients := os_clients s @ [(clientIDPrefix @ x, c)]\<rparr> \<Longrightarrow> oauth_change D H V s s'"
| issue: "h \<in> H \<Longrightarrow> map_of (os_clients s) (cd_ClientID c) \<noteq> None
    \<Longrightarrow> s' = s\<lparr>os_codes := os_codes s @ [(h, c)]\<rparr> \<Longrightarrow> oauth_change D H V s s'"
| grant: "map_of (os_codes s) k = Some c \<Longrightarrow> sid \<in> D \<Longrightarrow> h \<in> H \<Longrightarrow> map_of (os_refresh s) h = None
    \<Longrightarrow> rt_ClientID t = cd_ClientID c \<Longrightarrow> rt_SessionID t = sid
    \<Longrightarrow> ss = [] \<or> (\<exists>m. ss = [(sid, m)] \<and> ms_ClientID m = cd_ClientID c)
    \<Longrightarrow> s' = s\<lparr>os_codes := key_delete k (os_codes s), os_refresh := os_refresh s @ [(h, t)], os_sessions := os_sessions s @ ss\<rparr>
    \<Longrightarrow> oauth_change D H V s s'"
| rotate: "map_of (os_refresh s) k = Some t \<Longrightarrow> (if rt_SessionID t = [] then sid \<in> D else sid = rt_SessionID t)
    \<Longrightarrow> h \<in> H \<Longrightarrow> map_of (key_delete k (os_refresh s)) h = None
    \<Longrightarrow> rt_ClientID t' = rt_ClientID t \<Longrightarrow> rt_SessionID t' = sid
    \<Longrightarrow> os_clients s' = os_clients s \<Longrightarrow> os_codes s' = os_codes s
    \<Longrightarrow> os_refresh s' = key_delete k (os_refresh s) @ [(h, t')]
    \<Longrightarrow> (\<exists>now ex. os_sessions s' = key_update sid (touch_session now ex) (os_sessions s))
       \<or> (\<exists>m. os_sessions s' = os_sessions s @ [(sid, m)] \<and> ms_ClientID m = rt_ClientID t)
    \<Longrightarrow> oauth_change D H V s s'"

lemma oauth_change_same: "oauth_change D H V s s"
  by (rule shrink [where P = "\<lambda>_. True" and Q = "\<lambda>_. True" and R = "\<lambda>_. True" and S = "\<lambda>_. True"]) simp_all

text \<open>The strings an event draws, their hashes, and the addresses it accepts.\<close>

fun env_of :: "oauth_event \<Rightarrow> oauth_env option" where
  "env_of (EvRegister e _) = Some e"
| "env_of (EvDecision e _) = Some e"
| "env_of (EvToken e _) = Some e"
| "env_of _ = None"

definition drawn :: "oauth_event \<Rightarrow> string set" where
  "drawn ev = (case env_of ev of None \<Rightarrow> {} | Some e \<Rightarrow> set (List.map_filter (oe_rand e) [0, 1]))"

definition hashed :: "oauth_event \<Rightarrow> string set" where
  "hashed ev = (case env_of ev of None \<Rightarrow> {} | Some e \<Rightarrow> oe_hash e ` set (List.map_filter (oe_rand e) [0, 1]))"

definition accepted :: "oauth_event \<Rightarrow> string \<Rightarrow> bool" where
  "accepted ev u = (case env_of ev of None \<Rightarrow> False | Some e \<Rightarrow> validRedirectURI e u)"

lemma in_drawn: "env_of ev = Some e \<Longrightarrow> oe_rand e n = Some x \<Longrightarrow> n \<le> 1 \<Longrightarrow> x \<in> drawn ev \<and> oe_hash e x \<in> hashed ev"
  by (cases n) (auto simp: drawn_def hashed_def List.map_filter_def)

lemma renew_session_shape:
  assumes "renew_session rec cand ip ua ex now s = Some (sid, s')"
  shows "os_sessions s' = key_update sid (touch_session now ex) (os_sessions s)
    \<or> (\<exists>m. os_sessions s' = os_sessions s @ [(sid, m)] \<and> ms_ClientID m = rt_ClientID rec)"
  using assms by (auto simp: renew_session_def Let_def key_insert_Some split: if_splits option.splits)

text \<open>Every handler makes one step of the relation.\<close>

lemma deleteTx_change: "oauth_change D H V s (snd (deleteMCPOAuthSessionTx P s i))"
proof (cases "snd (deleteMCPOAuthSessionTx P s i) = s")
  case False
  then have "snd (deleteMCPOAuthSessionTx P s i) = s\<lparr>os_sessions := key_delete i (os_sessions s),
                os_refresh := rows_without (\<lambda>t. rt_SessionID t = i) (os_refresh s)\<rparr>"
    by (auto simp: deleteMCPOAuthSessionTx_def split: if_splits option.splits)
  then show ?thesis
    by (intro shrink [where P = "\<lambda>_. True" and Q = "\<lambda>_. True"]) (auto simp: key_delete_def rows_without_def)
qed (simp add: oauth_change_same)

lemma DeleteOAuthClient_change: "oauth_change D H V s (snd (DeleteOAuthClient s i))"
proof (cases "snd (DeleteOAuthClient s i) = s")
  case False
  then have "snd (DeleteOAuthClient s i) = s\<lparr>os_clients := key_delete i (os_clients s),
              os_codes := rows_without (\<lambda>c. cd_ClientID c = i) (os_codes s),
              os_refresh := rows_without (\<lambda>t. rt_ClientID t = i) (os_refresh s),
              os_sessions := rows_without (\<lambda>m. ms_ClientID m = i) (os_sessions s)\<rparr>"
    by (auto simp: DeleteOAuthClient_def split: if_splits)
  then show ?thesis
    by (intro shrink) (auto simp: key_delete_def rows_without_def)
qed (simp add: oauth_change_same)

lemma DeleteExpiredOAuth_change: "oauth_change D H V s (snd (DeleteExpiredOAuth s now))"
proof -
  have T: "xs = filter (\<lambda>_. True) xs" for xs :: "'a list" by simp
  show ?thesis
    unfolding DeleteExpiredOAuth_def Let_def rows_without_def
    by (auto intro!: shrink [where P = "\<lambda>_. True"] simp: oauth_change_same intro: T)
qed

lemma register_change:
  assumes "handleOAuthRegister e v b = (a, v')" and "env_of ev = Some e"
  shows "oauth_change (drawn ev) (hashed ev) (accepted ev) (ov_store v) (ov_store v')"
proof (cases "ov_store v' = ov_store v")
  case False
  with assms(1) obtain b' where b: "b = Some b'" by (cases b) (auto simp: handleOAuthRegister_def)
  from False assms(1) obtain x where "oe_rand e 0 = Some x"
    and "list_all (validRedirectURI e) (rb_RedirectURIs b')"
    and "ov_store v' = (ov_store v)\<lparr>os_clients := os_clients (ov_store v) @ [(clientIDPrefix @ x,
      \<lparr>oc_ID = clientIDPrefix @ x, oc_Name = rb_ClientName b', oc_RedirectURIs = rb_RedirectURIs b',
       oc_CreatedAt = trunc_sec (oe_now e)\<rparr>)]\<rparr>"
    by (auto simp: handleOAuthRegister_def b CreateOAuthClient_def key_insert_Some Let_def
        split: option.splits if_splits sum.splits prod.splits)
  moreover have "accepted ev = validRedirectURI e" using assms(2) by (simp add: accepted_def fun_eq_iff)
  ultimately show ?thesis using in_drawn [OF assms(2)] by (intro register [of x]) auto
qed (simp add: oauth_change_same)

lemma validateClientRedirect_Inr:
  "validateClientRedirect s p = Inr c \<longleftrightarrow>
    \<not> os_fails s SelClient \<and> (\<exists>row. map_of (os_clients s) (ap_clientID p) = Some row \<and> c = row\<lparr>oc_ID := ap_clientID p\<rparr>
      \<and> ap_redirectURI p \<in> set (oc_RedirectURIs row))"
  by (auto simp: validateClientRedirect_def OAuthClientByID_def split: option.splits if_splits)

text \<open>What a decision does when it changes the tables.\<close>

lemma decision_cases:
  assumes "handleOAuthAuthorizeDecision e v r = (a, v')"
  obtains (same) "ov_store v' = ov_store v" and "\<And>u ps. a = Redirect u ps \<Longrightarrow> \<nexists>x. (''code'', x) \<in> set ps"
  | (issued) f claims client code where "oq_form r = Some f"
      and "validateClientRedirect (ov_store v) (parseAuthzParams f) = Inr client"
      and "sessionClaims e r = Some claims"
      and "oauthCSRFValid e r (f ''csrf'') (f ''client_id'') (f ''redirect_uri'')"
      and "f ''code_challenge'' \<noteq> []" and "f ''code_challenge_method'' = ''S256''"
      and "resourceOK (ov_conf v) (f ''resource'')" and "f ''decision'' = ''allow''"
      and "oe_rand e 0 = Some code" and "map_of (os_codes (ov_store v)) (oe_hash e code) = None"
      and "ov_store v' = (ov_store v)\<lparr>os_codes := os_codes (ov_store v) @ [(oe_hash e code,
         \<lparr>cd_ClientID = f ''client_id'', cd_UserID = c_UserID claims, cd_RedirectURI = f ''redirect_uri'',
          cd_CodeChallenge = f ''code_challenge'', cd_Resource = mcpResource (ov_conf v),
          cd_Scope = (if f ''readonly'' = ''1'' then scopeReadOnly else scopeFull),
          cd_ExpiresAt = trunc_sec (oe_now e + oauthCodeTTL)\<rparr>)]\<rparr>"
      and "a = Panic \<or> a = Redirect (f ''redirect_uri'') ([(''code'', code), (''iss'', mcpBase (ov_conf v))] @ state_param (parseAuthzParams f))"
proof (cases "ov_store v' = ov_store v \<and> (\<forall>u ps. a = Redirect u ps \<longrightarrow> (\<nexists>x. (''code'', x) \<in> set ps))")
  case True
  then show thesis using same by blast
next
  case False
  have err: "authzRedirectError e cf p c \<noteq> Redirect u ps \<or> (\<nexists>x. (''code'', x) \<in> set ps)" for cf p c u ps
    by (auto simp: authzRedirectError_def state_param_def split: option.splits)
  obtain f where f: "oq_form r = Some f"
    using False assms by (cases "oq_form r") (auto simp: handleOAuthAuthorizeDecision_def)
  let ?p = "parseAuthzParams f"
  note D = handleOAuthAuthorizeDecision_def f Let_def
  obtain client where c: "validateClientRedirect (ov_store v) ?p = Inr client"
  proof (cases "validateClientRedirect (ov_store v) ?p")
    case (Inl x)
    then have "a = x \<and> v' = v" using assms by (simp add: D)
    moreover have "x \<noteq> Redirect u ps" for u ps using Inl by (auto simp: validateClientRedirect_def split: sum.splits if_splits)
    ultimately show ?thesis using False by simp
  qed (rule that)
  obtain claims where s: "sessionClaims e r = Some claims"
    using False assms c by (cases "sessionClaims e r") (auto simp: D)
  have g1: "oauthCSRFValid e r (f ''csrf'') (ap_clientID ?p) (ap_redirectURI ?p)"
    by (rule ccontr) (use False assms c s in \<open>auto simp: D\<close>)
  have g2: "\<not> (ap_codeChallenge ?p = [] \<or> ap_method ?p \<noteq> ''S256'' \<or> \<not> resourceOK (ov_conf v) (ap_resource ?p))"
  proof
    assume "ap_codeChallenge ?p = [] \<or> ap_method ?p \<noteq> ''S256'' \<or> \<not> resourceOK (ov_conf v) (ap_resource ?p)"
    then have "a = authzRedirectError e (ov_conf v) ?p ''invalid_request'' \<and> v' = v"
      using assms c s g1 by (auto simp: D)
    then show False using \<open>\<not> (_ \<and> _)\<close> err by metis
  qed
  have g3: "f ''decision'' = ''allow''"
  proof (rule ccontr)
    assume "f ''decision'' \<noteq> ''allow''"
    then have "a = authzRedirectError e (ov_conf v) ?p ''access_denied'' \<and> v' = v"
      using assms c s g1 g2 by (auto simp: D)
    then show False using \<open>\<not> (_ \<and> _)\<close> err by metis
  qed
  obtain code where code: "oe_rand e 0 = Some code"
    using False assms c s g1 g2 g3 by (cases "oe_rand e 0") (simp_all add: D)
  have id: "oc_ID client = f ''client_id''"
    using c by (auto simp: validateClientRedirect_Inr parseAuthzParams_def)
  obtain x s2 where x: "CreateOAuthCode (oe_hash e code)
      \<lparr>cd_ClientID = f ''client_id'', cd_UserID = c_UserID claims, cd_RedirectURI = f ''redirect_uri'',
       cd_CodeChallenge = f ''code_challenge'', cd_Resource = mcpResource (ov_conf v),
       cd_Scope = (if f ''readonly'' = ''1'' then scopeReadOnly else scopeFull), cd_ExpiresAt = oe_now e + oauthCodeTTL\<rparr> (ov_store v) = (x, s2)"
    by (metis surj_pair)
  have ap: "ap_clientID ?p = f ''client_id''" "ap_redirectURI ?p = f ''redirect_uri''" "ap_codeChallenge ?p = f ''code_challenge''"
    "ap_method ?p = f ''code_challenge_method''" "ap_resource ?p = f ''resource''"
    by (simp_all add: parseAuthzParams_def)
  have "x = Ok () \<and> ov_store v' = s2 \<and> (a = Panic \<or> a = Redirect (f ''redirect_uri'')
      ([(''code'', code), (''iss'', mcpBase (ov_conf v))] @ state_param ?p))"
    using False assms c s g1 g2 g3 code CreateOAuthCode_cases [OF x]
    by (cases x; cases "oe_url e (f ''redirect_uri'')") (auto simp: D ap id x)
  then show thesis
    using issued [of f client claims code] f c s g1 g2 g3 code CreateOAuthCode_cases [OF x]
    by (auto simp: ap)
qed

lemma decision_change:
  assumes "handleOAuthAuthorizeDecision e v r = (a, v')" and "env_of ev = Some e"
  shows "oauth_change (drawn ev) (hashed ev) (accepted ev) (ov_store v) (ov_store v')"
  using assms(1)
proof (cases rule: decision_cases)
  case same
  then show ?thesis by (simp add: oauth_change_same)
next
  case (issued f claims client code)
  then show ?thesis
    using in_drawn [OF assms(2) issued(9)]
    by (intro issue) (auto simp: validateClientRedirect_Inr parseAuthzParams_def)
qed

lemma grant_change:
  assumes "tokenFromCode e v r f = (a, v')" and "env_of ev = Some e"
  shows "oauth_change (drawn ev) (hashed ev) (accepted ev) (ov_store v) (ov_store v')"
proof -
  let ?s = "ov_store v" and ?k = "oe_hash e (f ''code'')"
  obtain x s where x: "ConsumeOAuthCode ?k ?s = (x, s)" by (metis surj_pair)
  show ?thesis
  proof (cases x)
    case Inl
    then show ?thesis
      using assms(1) x ConsumeOAuthCode_cases [OF x] by (auto simp: tokenFromCode_def oauth_change_same)
  next
    case (Inr c)
    then have c: "map_of (os_codes ?s) ?k = Some c" and s: "s = ?s\<lparr>os_codes := key_delete ?k (os_codes ?s)\<rparr>"
      using ConsumeOAuthCode_cases [OF x] by auto
    have del: "oauth_change D H V ?s s" for D H V
      unfolding s by (rule shrink [where P = "\<lambda>_. True" and R = "\<lambda>_. True" and S = "\<lambda>_. True"]) (auto simp: key_delete_def)
    show ?thesis
    proof (cases "ov_store v' = s")
      case False
      with assms(1) x Inr obtain sid where sid: "oe_rand e 0 = Some sid"
        and i: "issueTokens e (v\<lparr>ov_store := s\<rparr>) r (cd_ClientID c) (cd_UserID c) (cd_Scope c) (cd_Resource c) sid = (a, v')"
        by (auto simp: tokenFromCode_def Let_def split: if_splits option.splits)
      from i show ?thesis
      proof (cases rule: issueTokens_cases)
        case (tokens access refresh s1)
        then show ?thesis
          using c in_drawn [OF assms(2) sid] in_drawn [OF assms(2) tokens(2)]
            CreateRefreshToken_cases [OF tokens(4)] CreateMCPOAuthSession_cases [OF tokens(5)]
          by (intro grant [OF c]) (auto simp: s)
      next
        case (half refresh)
        then show ?thesis
          using c in_drawn [OF assms(2) sid] in_drawn [OF assms(2) half(2)] CreateRefreshToken_cases [OF half(3)]
          by (intro grant [OF c, where ss = "[]"]) (auto simp: s)
      qed (use False in simp)
    qed (use del in simp)
  qed
qed

lemma refresh_change:
  assumes "tokenFromRefresh e v r f = (a, v')" and "env_of ev = Some e"
  shows "oauth_change (drawn ev) (hashed ev) (accepted ev) (ov_store v) (ov_store v')"
proof (cases "ov_store v' = ov_store v")
  case False
  let ?s = "ov_store v" and ?k = "oe_hash e (f ''refresh_token'')"
  from False assms(1) obtain refresh cand where d: "oe_rand e 0 = Some refresh" "oe_rand e 1 = Some cand"
    by (auto simp: tokenFromRefresh_def split: option.splits)
  let ?ex = "oe_now e + oauthRefreshTTL"
  obtain x s where x: "RotateRefreshToken ?s ?k (refresh_validate e (f ''client_id'') (mcpResource (ov_conf v)))
      cand (si_IP (sessionInfo r)) (si_UserAgent (sessionInfo r)) ?ex (oe_hash e refresh) ?ex (oe_now e) = (x, s)"
    by (metis surj_pair)
  then have s: "ov_store v' = s"
    using assms(1) d by (auto simp: tokenFromRefresh_def Let_def split: sum.splits option.splits prod.splits)
  from x show ?thesis
  proof (cases rule: RotateRefreshToken_cases)
    case (rotated rec sid s2)
    note r = renew_session_Some [OF rotated(4)] renew_session_shape [OF rotated(4)]
    show ?thesis
      using r rotated in_drawn [OF assms(2) d(1)] in_drawn [OF assms(2) d(2)] s
      by (intro rotate [OF rotated(2), where sid = sid and h = "oe_hash e refresh"]) (auto split: if_splits)
  next
    case (refused rec err)
    then show ?thesis
      using s by (intro shrink [where P = "\<lambda>_. True" and Q = "\<lambda>_. True" and S = "\<lambda>_. True"]) (auto simp: key_delete_def)
  next
    case failed
    then show ?thesis using s by (simp add: oauth_change_same)
  qed
qed (simp add: oauth_change_same)

lemma oauth_step_change:
  "oauth_change (drawn ev) (hashed ev) (accepted ev) (ov_store v) (ov_store (snd (oauth_step ev v)))"
proof (cases ev)
  case (EvRegister e b)
  then show ?thesis using register_change [OF surjective_pairing, of ev e] by simp
next
  case (EvDecision e r)
  then show ?thesis using decision_change [OF surjective_pairing, of ev e] by simp
next
  case (EvToken e r)
  then show ?thesis
    using grant_change [OF surjective_pairing, of ev e] refresh_change [OF surjective_pairing, of ev e]
    by (auto simp: handleOAuthToken_def oauth_change_same split: option.splits)
next
  case (EvRevoke e r i)
  have "ov_store (snd (oauth_step ev v)) = ov_store v
      \<or> (\<exists>u. ov_store (snd (oauth_step ev v)) = snd (RevokeMCPOAuthSession (ov_store v) i u))"
    unfolding EvRevoke
    by (cases "rq_Claims r"; cases "RevokeMCPOAuthSession (ov_store v) i (the (rq_Claims r))";
        cases "fst (RevokeMCPOAuthSession (ov_store v) i (the (rq_Claims r)))")
      (auto simp: handleRevokeMCPSession_def, (metis snd_conv)+)
  then show ?thesis by (auto simp: RevokeMCPOAuthSession_def oauth_change_same deleteTx_change)
next
  case (EvAdminRevoke e r i)
  have "ov_store (snd (oauth_step ev v)) = snd (AdminRevokeMCPOAuthSession (ov_store v) i)"
    unfolding EvAdminRevoke by (auto simp: handleAdminRevokeMCPSession_def split: prod.splits sum.splits)
  then show ?thesis by (simp add: AdminRevokeMCPOAuthSession_def deleteTx_change)
next
  case (EvDeleteClient e r i)
  have "ov_store (snd (oauth_step ev v)) = snd (DeleteOAuthClient (ov_store v) i)"
    unfolding EvDeleteClient by (auto simp: handleAdminDeleteOAuthClient_def split: prod.splits sum.splits)
  then show ?thesis by (simp add: DeleteOAuthClient_change)
next
  case (EvSweep now)
  then show ?thesis by (simp add: DeleteExpiredOAuth_change)
next
  case (EvFaults g)
  then show ?thesis
    by (intro shrink [where P = "\<lambda>_. True" and Q = "\<lambda>_. True" and R = "\<lambda>_. True" and S = "\<lambda>_. True"]) simp_all
qed

section \<open>Invariants over runs\<close>

lemma oauth_run_Nil [simp]: "oauth_run [] v = v"
  and oauth_run_Cons [simp]: "oauth_run (ev # es) v = oauth_run es (snd (oauth_step ev v))"
  by (simp_all add: oauth_run_def)

text \<open>A property of the tables that a step keeps holds after a run.\<close>

lemma oauth_run_invariant:
  assumes "\<And>ev s s'. ev \<in> set es \<Longrightarrow> I s \<Longrightarrow> oauth_change (drawn ev) (hashed ev) (accepted ev) s s' \<Longrightarrow> I s'" and "I (ov_store v)"
  shows "I (ov_store (oauth_run es v))"
  using assms
proof (induction es arbitrary: v)
  case (Cons ev es)
  have "I (ov_store (snd (oauth_step ev v)))" by (rule Cons.prems(1) [OF _ Cons.prems(2) oauth_step_change]) simp
  moreover have "I s'" if "ev' \<in> set es" "I s" "oauth_change (drawn ev') (hashed ev') (accepted ev') s s'" for ev' s s'
    using Cons.prems(1) [of ev' s s'] that by simp
  ultimately have "I (ov_store (oauth_run es (snd (oauth_step ev v))))"
    using Cons.IH by blast
  then show ?case by simp
qed simp

lemma snd_key_delete: "snd ` set (key_delete k t) \<subseteq> snd ` set t"
  by (auto simp: key_delete_def)

lemma touch_client: "ms_ClientID ` snd ` set (key_update i (touch_session now ex) t) = ms_ClientID ` snd ` set t"
  by (induction t) (auto simp: key_update_def touch_session_def)

lemma session_gone_change:
  assumes "oauth_change D H V s s'" and "session_gone i s" and "i \<notin> D" and "i \<noteq> []"
  shows "session_gone i s'"
  using assms(1)
proof (cases rule: oauth_change.cases)
  case shrink
  then show ?thesis using assms(2) by (auto simp: session_gone_def map_of_eq_None_iff)
next
  case (rotate k t sid h t')
  have "(k, t) \<in> set (os_refresh s)" using rotate(1) by (rule map_of_SomeD)
  then have "rt_SessionID t \<noteq> i" using assms(2) by (force simp: session_gone_def)
  then have sid: "sid \<noteq> i" using rotate(2) assms(3) by (auto split: if_splits)
  then have "map_of (os_sessions s') i = None"
    using rotate(10) assms(2) by (auto simp: session_gone_def map_of_key_update)
  moreover have "rt_SessionID ` snd ` set (os_refresh s') \<subseteq> insert sid (rt_SessionID ` snd ` set (os_refresh s))"
    using image_mono [OF snd_key_delete [of k "os_refresh s"], of rt_SessionID] rotate(6,9) by auto
  ultimately show ?thesis using sid assms(2) by (auto simp: session_gone_def)
qed (use assms(2-4) in \<open>auto simp: session_gone_def\<close>)

lemma client_gone_change:
  assumes "oauth_change D H V s s'" and "client_gone i s" and "\<And>x. x \<in> D \<Longrightarrow> clientIDPrefix @ x \<noteq> i"
  shows "client_gone i s'"
  using assms(1)
proof (cases rule: oauth_change.cases)
  case shrink
  then show ?thesis using assms(2) by (auto simp: client_gone_def map_of_eq_None_iff)
next
  case (grant k c sid h t ss)
  have "(k, c) \<in> set (os_codes s)" using grant(1) by (rule map_of_SomeD)
  then have "cd_ClientID c \<noteq> i" using assms(2) by (force simp: client_gone_def)
  moreover have "cd_ClientID ` snd ` set (os_codes s') \<subseteq> cd_ClientID ` snd ` set (os_codes s)"
    using image_mono [OF snd_key_delete [of k "os_codes s"], of cd_ClientID] grant(8) by simp
  ultimately show ?thesis using grant assms(2) by (auto simp: client_gone_def)
next
  case (rotate k t sid h t')
  have "(k, t) \<in> set (os_refresh s)" using rotate(1) by (rule map_of_SomeD)
  then have t: "rt_ClientID t \<noteq> i" using assms(2) by (force simp: client_gone_def)
  have ms: "ms_ClientID ` snd ` set (os_sessions s') \<subseteq> insert (rt_ClientID t) (ms_ClientID ` snd ` set (os_sessions s))"
    using rotate(10)
  proof
    assume "\<exists>now ex. os_sessions s' = key_update sid (touch_session now ex) (os_sessions s)"
    then obtain now ex where "os_sessions s' = key_update sid (touch_session now ex) (os_sessions s)" by blast
    then show ?thesis by (simp only: touch_client subset_insertI)
  next
    assume "\<exists>m. os_sessions s' = os_sessions s @ [(sid, m)] \<and> ms_ClientID m = rt_ClientID t"
    then show ?thesis by force
  qed
  have rt: "rt_ClientID ` snd ` set (os_refresh s') \<subseteq> insert (rt_ClientID t) (rt_ClientID ` snd ` set (os_refresh s))"
    using image_mono [OF snd_key_delete [of k "os_refresh s"], of rt_ClientID] rotate(5,9) by auto
  have "i \<notin> insert (rt_ClientID t) (ms_ClientID ` snd ` set (os_sessions s))"
    and "i \<notin> insert (rt_ClientID t) (rt_ClientID ` snd ` set (os_refresh s))"
    using t assms(2) by (simp_all add: client_gone_def)
  with ms rt have "i \<notin> ms_ClientID ` snd ` set (os_sessions s')" "i \<notin> rt_ClientID ` snd ` set (os_refresh s')"
    by (meson subsetD)+
  with rotate(7,8) assms(2) show ?thesis by (simp add: client_gone_def)
qed (use assms(2,3) in \<open>auto simp: client_gone_def\<close>)

lemma code_gone_change:
  assumes "oauth_change D H V s s'" and "map_of (os_codes s) h = None" and "h \<notin> H"
  shows "map_of (os_codes s') h = None"
  using assms(1)
proof (cases rule: oauth_change.cases)
  case shrink
  then show ?thesis using assms(2) by (auto simp: map_of_eq_None_iff)
qed (use assms(2,3) in \<open>auto simp: map_add_def\<close>)

lemma oauth_wf_change:
  assumes "oauth_change D H V s s'" and "oauth_wf s" and "D \<inter> set (chain_ids (os_refresh s)) = {}"
  shows "oauth_wf s'"
  using assms(1)
proof (cases rule: oauth_change.cases)
  case shrink
  show ?thesis by (rule oauth_wf_filter [OF assms(2) shrink(3)])
next
  case (grant k c sid h t ss)
  then have "rt_SessionID t \<notin> set (chain_ids (os_refresh s))" using assms(3) by blast
  with grant(4,8) show ?thesis
    using oauth_wf_add [OF assms(2), of s' "\<lambda>_. True" h t] by simp
next
  case (rotate k t sid h t')
  have new: "sid \<notin> set (chain_ids (key_delete k (os_refresh s)))"
  proof (cases "rt_SessionID t = []")
    case True
    then have "sid \<notin> set (chain_ids (os_refresh s))" using rotate(2) assms(3) by auto
    then show ?thesis by (auto simp: set_chain_ids set_key_delete)
  next
    case False
    then show ?thesis using chain_ids_key_delete [OF assms(2) rotate(1)] rotate(2) by simp
  qed
  show ?thesis
    by (rule oauth_wf_add [OF assms(2)]) (use rotate new in \<open>auto simp: key_delete_def\<close>)
qed (auto intro: oauth_wf_same [OF assms(2)])

text \<open>A code that is gone stays gone, whatever else happens, unless it is issued again.\<close>

lemma code_gone_run:
  assumes "map_of (os_codes (ov_store v)) h = None" and "list_all (\<lambda>ev. h \<notin> hashed ev) es"
  shows "map_of (os_codes (ov_store (oauth_run es v))) h = None"
  by (rule oauth_run_invariant [where I = "\<lambda>s. map_of (os_codes s) h = None"])
    (use assms in \<open>auto simp: list_all_iff intro: code_gone_change\<close>)

lemma session_gone_run:
  assumes "session_gone i (ov_store v)" and "list_all (\<lambda>ev. i \<notin> drawn ev) es" and "i \<noteq> []"
  shows "session_gone i (ov_store (oauth_run es v))"
  by (rule oauth_run_invariant [where I = "session_gone i"])
    (use assms in \<open>auto simp: list_all_iff intro: session_gone_change\<close>)

lemma client_gone_run:
  assumes "client_gone i (ov_store v)" and "list_all (\<lambda>ev. i \<notin> (@) clientIDPrefix ` drawn ev) es"
  shows "client_gone i (ov_store (oauth_run es v))"
proof (rule oauth_run_invariant [where I = "client_gone i"])
  show "client_gone i s'"
    if "ev \<in> set es" "client_gone i s" "oauth_change (drawn ev) (hashed ev) (accepted ev) s s'" for ev s s'
    using that assms(2) by (intro client_gone_change [OF that(3,2)]) (auto simp: list_all_iff)
qed (rule assms(1))

lemma issueTokens_codes: "issueTokens e v r cid uid scope res sid = (a, v') \<Longrightarrow> os_codes (ov_store v') = os_codes (ov_store v)"
  by (erule issueTokens_cases) (auto dest!: CreateRefreshToken_cases CreateMCPOAuthSession_cases)

text \<open>An attempt that finds the code removes it, whatever its answer.\<close>

lemma tokenFromCode_spends:
  assumes "tokenFromCode e v r f = (a, v')" and "a \<noteq> JsonErr 400 ''invalid_grant'' ''unknown or used code''"
  shows "is_ok (fst (ConsumeOAuthCode (oe_hash e (f ''code'')) (ov_store v)))
    \<and> os_codes (ov_store v') = os_codes (snd (ConsumeOAuthCode (oe_hash e (f ''code'')) (ov_store v)))"
  using assms issueTokens_codes
  by (fastforce simp: tokenFromCode_def Let_def split: prod.splits sum.splits if_splits option.splits)

lemma tokenFromCode_dead:
  assumes "map_of (os_codes (ov_store v)) (oe_hash e (f ''code'')) = None"
  shows "fst (tokenFromCode e v r f) = JsonErr 400 ''invalid_grant'' ''unknown or used code''"
  using code_use.dead_refused [OF assms]
  by (auto simp: tokenFromCode_def is_ok_def split: prod.splits sum.splits)

section \<open>Properties\<close>

text \<open>C20. An authorization code is used at most once. The first request to the token endpoint that finds
  it, whether or not it gets tokens, spends it: after any further events, as long as no newly drawn
  code has the same hash, a request with that code is refused as unknown.\<close>

theorem code_used_once:
  assumes "oq_form r = Some f" and "f ''grant_type'' = ''authorization_code''"
    and "fst (oauth_step (EvToken e r) v) \<noteq> JsonErr 400 ''invalid_grant'' ''unknown or used code''"
    and "list_all (\<lambda>ev. oe_hash e (f ''code'') \<notin> hashed ev) es"
    and "oq_form r2 = Some f2" and "f2 ''grant_type'' = ''authorization_code''"
    and "oe_hash e2 (f2 ''code'') = oe_hash e (f ''code'')"
  shows "fst (oauth_step (EvToken e2 r2) (oauth_run es (snd (oauth_step (EvToken e r) v))))
    = JsonErr 400 ''invalid_grant'' ''unknown or used code''"
proof -
  let ?h = "oe_hash e (f ''code'')" and ?v1 = "snd (oauth_step (EvToken e r) v)"
  have "oauth_step (EvToken e r) v = tokenFromCode e v r f"
    using assms(1,2) by (simp add: handleOAuthToken_def)
  then have "map_of (os_codes (ov_store ?v1)) ?h = None"
    using tokenFromCode_spends [OF surjective_pairing] assms(3) code_use.taken_is_dead by metis
  then have "map_of (os_codes (ov_store (oauth_run es ?v1))) (oe_hash e2 (f2 ''code'')) = None"
    using code_gone_run assms(4,7) by simp
  then show ?thesis
    using tokenFromCode_dead assms(5,6) by (simp add: handleOAuthToken_def)
qed

text \<open>C21. Whoever gets tokens for a code has what was bound to it: the code is recorded and not expired,
  client, redirect URI and resource are those it was issued for, and the verifier hashes to the
  challenge. The refresh token and the session recorded are of the code's account and client, and the
  access token is signed for that account, client and session, read-only exactly if the consent
  was.\<close>

theorem tokens_need_the_code:
  assumes "oq_form r = Some f" and "f ''grant_type'' = ''authorization_code''"
    and "oauth_step (EvToken e r) v = (Tokens access refresh scope, v')"
  shows "\<exists>rec sid t m. map_of (os_codes (ov_store v)) (oe_hash e (f ''code'')) = Some rec \<and> oe_now e \<le> cd_ExpiresAt rec
    \<and> f ''client_id'' = cd_ClientID rec \<and> f ''redirect_uri'' = cd_RedirectURI rec
    \<and> cd_Resource rec = mcpResource (ov_conf v) \<and> f ''code_verifier'' \<noteq> []
    \<and> oe_s256 e (f ''code_verifier'') = cd_CodeChallenge rec \<and> scope = cd_Scope rec
    \<and> map_of (os_refresh (ov_store v')) (oe_hash e refresh) = Some t \<and> rt_SessionID t = sid
    \<and> rt_UserID t = cd_UserID rec \<and> rt_ClientID t = cd_ClientID rec
    \<and> map_of (os_sessions (ov_store v')) sid = Some m \<and> ms_UserID m = cd_UserID rec
    \<and> MintAccessToken e (of_keylen (ov_conf v)) (mcpBase (ov_conf v)) (cd_Resource rec) (cd_UserID rec) (cd_ClientID rec) sid
        (cd_Scope rec = scopeReadOnly) AccessTokenTTL = Some (access, oe_now e + AccessTokenTTL)"
proof -
  obtain x s where x: "ConsumeOAuthCode (oe_hash e (f ''code'')) (ov_store v) = (x, s)" by (metis surj_pair)
  have step: "tokenFromCode e v r f = (Tokens access refresh scope, v')"
    using assms by (simp add: handleOAuthToken_def)
  obtain rec where rec: "x = Inr rec"
    using step x by (cases x) (auto simp: tokenFromCode_def)
  then have "\<not> oe_now e > cd_ExpiresAt rec" "f ''client_id'' = cd_ClientID rec" "f ''redirect_uri'' = cd_RedirectURI rec"
    "cd_Resource rec = mcpResource (ov_conf v)" "verifyPKCE e (f ''code_verifier'') (cd_CodeChallenge rec)"
    using step x by (auto simp: tokenFromCode_def Let_def split: if_splits)
  moreover from this obtain sid where
    i: "issueTokens e (v\<lparr>ov_store := s\<rparr>) r (cd_ClientID rec) (cd_UserID rec) (cd_Scope rec) (cd_Resource rec) sid
      = (Tokens access refresh scope, v')"
    using step x rec by (auto simp: tokenFromCode_def Let_def split: option.splits)
  moreover have "map_of (os_codes (ov_store v)) (oe_hash e (f ''code'')) = Some rec"
    using ConsumeOAuthCode_cases [OF x] rec by auto
  moreover from i have "scope = cd_Scope rec \<and> (\<exists>t m. map_of (os_refresh (ov_store v')) (oe_hash e refresh) = Some t
      \<and> rt_SessionID t = sid \<and> rt_UserID t = cd_UserID rec \<and> rt_ClientID t = cd_ClientID rec
      \<and> map_of (os_sessions (ov_store v')) sid = Some m \<and> ms_UserID m = cd_UserID rec)
      \<and> MintAccessToken e (of_keylen (ov_conf v)) (mcpBase (ov_conf v)) (cd_Resource rec) (cd_UserID rec) (cd_ClientID rec) sid
        (cd_Scope rec = scopeReadOnly) AccessTokenTTL = Some (access, oe_now e + AccessTokenTTL)"
    by (cases rule: issueTokens_cases)
      (auto dest!: CreateRefreshToken_cases CreateMCPOAuthSession_cases simp: map_of_snoc simp del: map_of_append)
  ultimately show ?thesis by (auto simp: verifyPKCE_def split: if_splits)
qed

text \<open>The draws of a run are fresh when no event draws the name of a session that a refresh token
  carries at that time.\<close>

fun fresh_run :: "oauth_event list \<Rightarrow> oauth_server \<Rightarrow> bool" where
  "fresh_run [] v = True"
| "fresh_run (ev # es) v \<longleftrightarrow> drawn ev \<inter> set (chain_ids (os_refresh (ov_store v))) = {} \<and> fresh_run es (snd (oauth_step ev v))"

text \<open>C22. Rotation keeps one chain per session: in every run with fresh draws, no two refresh tokens
  belong to the same session, so revoking a session by deleting the token that carries its name
  leaves no other one behind.\<close>

theorem one_refresh_token_per_session:
  assumes "oauth_wf (ov_store v)" and "fresh_run es v"
  shows "oauth_wf (ov_store (oauth_run es v))"
  using assms
proof (induction es arbitrary: v)
  case (Cons ev es)
  then show ?case using oauth_wf_change [OF oauth_step_change, of v ev] by simp
qed simp

text \<open>An example: a connector registered with one address, and the surroundings of its requests.\<close>

definition demo_claims :: Claims where
  "demo_claims = \<lparr>c_UserID = 7, c_Username = ''eva'', c_Role = ''user'', c_Kind = ''session'', c_Epoch = 1, c_ID = ''s1'',
     c_IssuedAt = 0, c_ExpiresAt = Some (200 * day)\<rparr>"

definition demo_env :: oauth_env where
  "demo_env = \<lparr>oe_now = 100 * day, oe_rand = (\<lambda>n. Some (if n = 0 then ''zero'' else ''one'')), oe_jti = Some ''j'',
     oe_session = (\<lambda>c. if c = ''cookie'' then Some demo_claims else None), oe_hash = (\<lambda>x. CHR ''h'' # x),
     oe_s256 = (\<lambda>x. CHR ''s'' # x), oe_mac = (\<lambda>x. ''mac''),
     oe_url = (\<lambda>u. if has_prefix ''https:'' u then Some \<lparr>url_Scheme = ''https'', url_Hostname = ''tool'', url_Fragment = []\<rparr> else None),
     oe_sign = (\<lambda>c. Some ''a.b.c''), oe_jwt = (\<lambda>_ _ _. None)\<rparr>"

definition demo_form :: "(string \<times> string) list \<Rightarrow> string \<Rightarrow> string" where
  "demo_form kvs k = (case map_of kvs k of None \<Rightarrow> [] | Some x \<Rightarrow> x)"

definition demo_post :: "(string \<times> string) list \<Rightarrow> oauth_request" where
  "demo_post kvs = \<lparr>oq_request = \<lparr>rq_Method = ''POST'', rq_Path = ''/oauth/token'', rq_Host = [], rq_Claims = None,
     rq_Username = [], rq_RemoteAddr = ''10.0.0.9''\<rparr>, oq_query = (\<lambda>_. []), oq_form = Some (demo_form kvs),
     oq_cookie = Some ''cookie'', oq_agent = ''tool''\<rparr>"

definition demo_oauth :: oauth_server where
  "demo_oauth = \<lparr>ov_conf = \<lparr>of_MCPPublicURL = ''https://dc/'', of_keylen = 32\<rparr>,
     ov_store = \<lparr>os_clients = [], os_codes = [], os_refresh = [], os_sessions = [], os_fails = (\<lambda>_. False)\<rparr>,
     ov_log = \<lparr>a_log = tbl_empty, a_ins_fails = False, a_sel_fails = False\<rparr>, ov_limiter = None\<rparr>"

definition demo_register :: oauth_event where
  "demo_register = EvRegister demo_env (Some \<lparr>rb_RedirectURIs = [''https://tool/cb''], rb_ClientName = ''tool'',
     rb_TokenEndpointAuthMethod = []\<rparr>)"

definition demo_consent :: oauth_request where
  "demo_consent = demo_post [(''client_id'', ''dcmcp_zero''), (''redirect_uri'', ''https://tool/cb''), (''csrf'', ''mac''),
     (''code_challenge'', ''sverify''), (''code_challenge_method'', ''S256''), (''decision'', ''allow'')]"

definition demo_token_form :: "string \<Rightarrow> string" where
  "demo_token_form = demo_form [(''grant_type'', ''authorization_code''), (''code'', ''zero''), (''client_id'', ''dcmcp_zero''),
     (''redirect_uri'', ''https://tool/cb''), (''code_verifier'', ''verify'')]"

definition demo_token :: oauth_request where
  "demo_token = (demo_post [])\<lparr>oq_form := Some demo_token_form\<rparr>"

definition consented :: oauth_server where
  "consented = oauth_run [demo_register, EvDecision demo_env demo_consent] demo_oauth"

definition tool_connected :: oauth_server where
  "tool_connected = snd (oauth_step (EvToken demo_env demo_token) consented)"

lemma demo_tokens: "fst (oauth_step (EvToken demo_env demo_token) consented) = Tokens ''a.b.c'' ''one'' ''mcp''"
  by code_simp

theorem code_used_once_witness:
  "fst (oauth_step (EvToken demo_env demo_token) consented) = Tokens ''a.b.c'' ''one'' ''mcp''
   \<and> fst (oauth_step (EvToken demo_env demo_token) (oauth_run [EvSweep (101 * day)] tool_connected))
      = JsonErr 400 ''invalid_grant'' ''unknown or used code''"
proof -
  have "list_all (\<lambda>ev. oe_hash demo_env (demo_token_form ''code'') \<notin> hashed ev) [EvSweep (101 * day)]"
    by (simp add: hashed_def)
  moreover have "oq_form demo_token = Some demo_token_form" "demo_token_form ''grant_type'' = ''authorization_code''"
    by (simp_all add: demo_token_def demo_token_form_def demo_form_def)
  ultimately show ?thesis
    using code_used_once [of demo_token demo_token_form demo_env consented "[EvSweep (101 * day)]" demo_token demo_token_form demo_env]
      demo_tokens by (simp add: tool_connected_def)
qed

theorem tokens_need_the_code_witness:
  "\<exists>rec. map_of (os_codes (ov_store consented)) ''hzero'' = Some rec \<and> cd_UserID rec = 7 \<and> 100 * day \<le> cd_ExpiresAt rec
    \<and> cd_CodeChallenge rec = ''sverify''"
proof -
  have "oauth_step (EvToken demo_env demo_token) consented = (Tokens ''a.b.c'' ''one'' ''mcp'', tool_connected)"
    using demo_tokens by (simp add: tool_connected_def prod_eq_iff)
  moreover have "oq_form demo_token = Some demo_token_form" "demo_token_form ''grant_type'' = ''authorization_code''"
    by (simp_all add: demo_token_def demo_token_form_def demo_form_def)
  ultimately obtain rec where "map_of (os_codes (ov_store consented)) (oe_hash demo_env (demo_token_form ''code'')) = Some rec"
    "oe_now demo_env \<le> cd_ExpiresAt rec" "oe_s256 demo_env (demo_token_form ''code_verifier'') = cd_CodeChallenge rec"
    using tokens_need_the_code [of demo_token demo_token_form demo_env consented] by blast
  moreover have "map_option cd_UserID (map_of (os_codes (ov_store consented)) ''hzero'') = Some 7" by code_simp
  ultimately show ?thesis by (auto simp: demo_env_def demo_token_form_def demo_form_def)
qed

theorem one_refresh_token_per_session_witness:
  "oauth_wf (ov_store tool_connected) \<and> chain_ids (os_refresh (ov_store tool_connected)) = [''zero'']"
proof -
  let ?es = "[demo_register, EvDecision demo_env demo_consent, EvToken demo_env demo_token]"
  have "tool_connected = oauth_run ?es demo_oauth" by (simp add: tool_connected_def consented_def)
  moreover have "oauth_wf (ov_store demo_oauth)" by code_simp
  moreover have "fresh_run ?es demo_oauth" by code_simp
  moreover have "chain_ids (os_refresh (ov_store tool_connected)) = [''zero'']" by code_simp
  ultimately show ?thesis using one_refresh_token_per_session by metis
qed

section \<open>Redirects\<close>

text \<open>A place to send a browser to: an https address or one of this machine, without a fragment.\<close>

definition safe_target :: "(string \<Rightarrow> url option) \<Rightarrow> string \<Rightarrow> bool" where
  "safe_target U u = (case U u of None \<Rightarrow> False
     | Some p \<Rightarrow> url_Fragment p = [] \<and> (url_Scheme p = ''https''
         \<or> url_Scheme p = ''http'' \<and> url_Hostname p \<in> {''localhost'', ''127.0.0.1'', ''::1''}))"

definition uris_safe :: "(string \<Rightarrow> url option) \<Rightarrow> oauth_store \<Rightarrow> bool" where
  "uris_safe U s \<longleftrightarrow> list_all (\<lambda>(i, c). list_all (safe_target U) (oc_RedirectURIs c)) (os_clients s)"

lemma validRedirectURI_safe: "validRedirectURI e u \<longleftrightarrow> safe_target (oe_url e) u"
  by (auto simp: validRedirectURI_def safe_target_def split: option.splits)

lemma uris_safe_change:
  assumes "oauth_change D H V s s'" and "uris_safe U s" and "\<And>u. V u \<Longrightarrow> safe_target U u"
  shows "uris_safe U s'"
  using assms(1)
proof (cases rule: oauth_change.cases)
  case shrink
  then show ?thesis using assms(2) by (auto simp: uris_safe_def list_all_iff)
qed (use assms(2,3) in \<open>auto simp: uris_safe_def list_all_iff\<close>)

text \<open>The parsers of URLs in a run are the same function.\<close>

definition parses_with :: "(string \<Rightarrow> url option) \<Rightarrow> oauth_event \<Rightarrow> bool" where
  "parses_with U ev \<longleftrightarrow> (case env_of ev of None \<Rightarrow> True | Some e \<Rightarrow> \<forall>u. oe_url e u = U u)"

lemma uris_safe_run:
  assumes "uris_safe U (ov_store v)" and "\<And>ev. ev \<in> set es \<Longrightarrow> parses_with U ev"
  shows "uris_safe U (ov_store (oauth_run es v))"
proof (rule oauth_run_invariant [where I = "uris_safe U"])
  show "uris_safe U s'"
    if "ev \<in> set es" "uris_safe U s" "oauth_change (drawn ev) (hashed ev) (accepted ev) s s'" for ev s s'
  proof (rule uris_safe_change [OF that(3,2)])
    have "oe_url e = U" if "env_of ev = Some e" for e
      using assms(2) [OF \<open>ev \<in> set es\<close>] that by (auto simp: parses_with_def)
    then show "safe_target U u" if "accepted ev u" for u
      using that by (auto simp: accepted_def validRedirectURI_safe split: option.splits)
  qed
qed (rule assms(1))

lemma authorize_redirect:
  assumes "handleOAuthAuthorize e v r = Redirect u ps"
  shows "\<exists>i c. map_of (os_clients (ov_store v)) i = Some c \<and> u \<in> set (oc_RedirectURIs c)"
proof -
  let ?p = "parseAuthzParams (oq_query r)"
  obtain c where c: "validateClientRedirect (ov_store v) ?p = Inr c"
    using assms by (cases "validateClientRedirect (ov_store v) ?p")
      (auto simp: handleOAuthAuthorize_def Let_def validateClientRedirect_def split: sum.splits if_splits)
  have "u = ap_redirectURI ?p"
    using assms c by (auto simp: handleOAuthAuthorize_def Let_def authzRedirectError_def split: if_splits option.splits)
  then show ?thesis using c by (auto simp: validateClientRedirect_Inr)
qed

lemma decision_redirect:
  assumes "fst (handleOAuthAuthorizeDecision e v r) = Redirect u ps"
  shows "\<exists>i c. map_of (os_clients (ov_store v)) i = Some c \<and> u \<in> set (oc_RedirectURIs c)"
proof -
  obtain f where f: "oq_form r = Some f"
    using assms by (cases "oq_form r") (auto simp: handleOAuthAuthorizeDecision_def)
  let ?p = "parseAuthzParams f"
  obtain c where c: "validateClientRedirect (ov_store v) ?p = Inr c"
    using assms f by (cases "validateClientRedirect (ov_store v) ?p")
      (auto simp: handleOAuthAuthorizeDecision_def Let_def validateClientRedirect_def split: sum.splits if_splits)
  have "u = ap_redirectURI ?p"
    using assms f c by (auto simp: handleOAuthAuthorizeDecision_def Let_def authzRedirectError_def
      split: if_splits option.splits prod.splits sum.splits)
  then show ?thesis using c by (auto simp: validateClientRedirect_Inr)
qed

text \<open>No open redirect: in every run that starts with no client, whatever the parameters of a
  request to the authorization endpoint, an answer that redirects the browser, with a code or with
  an error, goes to an address some client registered, and that address is https or on this
  machine.\<close>

theorem redirects_are_registered:
  assumes "os_clients (ov_store v) = []" and "list_all (parses_with U) es"
    and "handleOAuthAuthorize e (oauth_run es v) r = Redirect u ps
      \<or> fst (oauth_step (EvDecision e r) (oauth_run es v)) = Redirect u ps"
  shows "safe_target U u
    \<and> (\<exists>i c. map_of (os_clients (ov_store (oauth_run es v))) i = Some c \<and> u \<in> set (oc_RedirectURIs c))"
proof -
  have "uris_safe U (ov_store (oauth_run es v))"
    by (rule uris_safe_run) (use assms(1,2) in \<open>auto simp: uris_safe_def list_all_iff\<close>)
  moreover obtain i c where c: "map_of (os_clients (ov_store (oauth_run es v))) i = Some c" "u \<in> set (oc_RedirectURIs c)"
    using assms(3) authorize_redirect decision_redirect by (metis oauth_step.simps(2))
  ultimately have "safe_target U u"
    using map_of_SomeD [OF c(1)] by (auto simp: uris_safe_def list_all_iff)
  with c show ?thesis by blast
qed

theorem redirects_are_registered_witness:
  "fst (oauth_step (EvDecision demo_env demo_consent) (oauth_run [demo_register] demo_oauth))
     = Redirect ''https://tool/cb'' [(''code'', ''zero''), (''iss'', ''https://dc'')]
   \<and> safe_target (oe_url demo_env) ''https://tool/cb''"
proof -
  have r: "fst (oauth_step (EvDecision demo_env demo_consent) (oauth_run [demo_register] demo_oauth))
     = Redirect ''https://tool/cb'' [(''code'', ''zero''), (''iss'', ''https://dc'')]" by code_simp
  have "os_clients (ov_store demo_oauth) = []" by (simp add: demo_oauth_def)
  moreover have "list_all (parses_with (oe_url demo_env)) [demo_register]"
    by (simp add: parses_with_def demo_register_def)
  ultimately show ?thesis using redirects_are_registered r by blast
qed

section \<open>Consent with a session that was ended\<close>

text \<open>The consent screen takes any cookie whose signature is good. A session that was logged out, or
  that a password change made invalid, no longer opens the console, but it still authorizes a
  connector: here the session middleware refuses the cookie, and the decision with the same cookie
  issues a code.\<close>

lemma ended_session_consents:
  assumes "w_parse w = oe_session demo_env" and "ha_cookie h = oq_cookie demo_consent" and "SessionExists d ''s1'' 7 = Ok False"
  shows "fst (RequireSession w d h) = None
    \<and> fst (oauth_step (EvDecision demo_env demo_consent) (oauth_run [demo_register] demo_oauth))
       = Redirect ''https://tool/cb'' [(''code'', ''zero''), (''iss'', ''https://dc'')]"
proof
  show "fst (RequireSession w d h) = None"
    using assms by (simp add: RequireSession_def extract_claims_def raw_token_def demo_consent_def demo_post_def demo_env_def demo_claims_def)
  show "fst (oauth_step (EvDecision demo_env demo_consent) (oauth_run [demo_register] demo_oauth))
       = Redirect ''https://tool/cb'' [(''code'', ''zero''), (''iss'', ''https://dc'')]" by code_simp
qed

end
