(* ===== verification/McpGate.thy ===== *)
theory McpGate
  imports McpTokens OAuthRuns
begin

text \<open>
  The gate of the tool server, \<open>src/internal/mcp/server.go\<close>: the bearer verifier, the narrowing a
  token puts on its owner, and the check in front of every tool, with the limiter of changes. Its
  state is what it reads and writes: the role tables, the OAuth tables, the tokens, the audit log
  and the limiter. A request's host recorder (\<open>src/internal/docker/hostrecorder.go\<close>) is the host
  it holds, if any. \<open>CheckAccess\<close> is the server's \<open>checkAccess\<close>.
\<close>

section \<open>The host recorder\<close>

type_synonym recorder = "int option"

definition recordHost :: "recorder \<Rightarrow> int \<Rightarrow> recorder" where
  "recordHost rc h = (case rc of None \<Rightarrow> Some h | Some x \<Rightarrow> Some x)"

definition recorded_host :: "recorder \<Rightarrow> int" where
  "recorded_host rc = (case rc of None \<Rightarrow> 0 | Some h \<Rightarrow> h)"

section \<open>The verifier\<close>

record mcp =
  mg_db :: db
  mg_oauth :: oauth_store
  mg_tokens :: token_store
  mg_log :: adb
  mg_limiter :: controlLimiter
  mg_resource :: string
  mg_keylen :: nat

record principal =
  pr_user :: User
  pr_roOnly :: bool
  pr_scopes :: "string list"
  pr_hosts :: "int list"
  pr_ip :: string

datatype mcp_error = MUnauthenticated | MTokenReadOnly | MTokenSection string | MTokenHost | MDenied denial
  | MRateLimited | MInvalid string | MStore

definition dots :: "string \<Rightarrow> nat" where
  "dots s = length (filter (\<lambda>c. c = CHR ''.'') s)"

definition mcp_clientIP :: "string option \<Rightarrow> string" where
  "mcp_clientIP remote = (case remote of None \<Rightarrow> ''mcp'' | Some a \<Rightarrow> a)"

text \<open>The path of a signed access token whose claims were read: \<open>None\<close> is \<open>ErrInvalidToken\<close>.\<close>

definition verify_access ::
    "mcp \<Rightarrow> string option \<Rightarrow> int \<times> string \<times> string \<times> bool \<times> time \<Rightarrow> (principal \<times> time) option" where
  "verify_access g remote claims =
     (case claims of (uid, cid, sid, ro, ex) \<Rightarrow>
        (case UserByID (mg_db g) uid of
           Inl _ \<Rightarrow> None
         | Inr u \<Rightarrow>
           if cid \<noteq> [] \<and> \<not> is_ok (OAuthClientByID (mg_oauth g) cid) then None
           else if sid \<noteq> [] \<and> MCPOAuthSessionExists (mg_oauth g) sid uid \<noteq> Ok True then None
           else Some (\<lparr>pr_user = u, pr_roOnly = ro, pr_scopes = [], pr_hosts = [], pr_ip = mcp_clientIP remote\<rparr>, ex)))"

definition verify_opaque :: "oauth_env \<Rightarrow> mcp \<Rightarrow> string option \<Rightarrow> string \<Rightarrow> (principal \<times> time) option \<times> mcp" where
  "verify_opaque e g remote token =
     (case APITokenByHash (mg_tokens g) (oe_hash e token) of
        Inl _ \<Rightarrow> (None, g)
      | Inr tok \<Rightarrow>
        if Expired tok (oe_now e) then (None, g)
        else case UserByID (mg_db g) (t_UserID tok) of
          Inl _ \<Rightarrow> (None, g)
        | Inr u \<Rightarrow>
          (Some (\<lparr>pr_user = u, pr_roOnly = t_ReadOnly tok, pr_scopes = t_Sections tok, pr_hosts = t_HostIDs tok,
                  pr_ip = mcp_clientIP remote\<rparr>,
                 (if t_ExpiresAt tok = 0 then oe_now e + 100 * 365 * 24 * hour else t_ExpiresAt tok)),
           g\<lparr>mg_tokens := snd (TouchAPIToken (mg_tokens g) (t_ID tok) (oe_now e))\<rparr>))"

definition verifyToken :: "oauth_env \<Rightarrow> mcp \<Rightarrow> string option \<Rightarrow> string \<Rightarrow> (principal \<times> time) option \<times> mcp" where
  "verifyToken e g remote token =
     (if mg_keylen g > 0 \<and> mg_resource g \<noteq> [] \<and> dots token = 2
      then (case parseAccessToken e (mg_resource g) token of
              Some claims \<Rightarrow> (verify_access g remote claims, g)
            | None \<Rightarrow> verify_opaque e g remote token)
      else verify_opaque e g remote token)"

section \<open>The gate\<close>

definition narrowed :: "principal \<Rightarrow> string \<Rightarrow> bool \<Rightarrow> int \<Rightarrow> mcp_error option" where
  "narrowed p sec write h =
     (if write \<and> pr_roOnly p then Some MTokenReadOnly
      else if pr_scopes p \<noteq> [] \<and> sec \<notin> set (pr_scopes p) then Some (MTokenSection sec)
      else if h \<noteq> 0 \<and> pr_hosts p \<noteq> [] \<and> h \<notin> set (pr_hosts p) then Some MTokenHost
      else None)"

definition mcp_auditOn :: "adb \<Rightarrow> principal \<Rightarrow> int \<Rightarrow> string \<Rightarrow> string \<Rightarrow> string \<Rightarrow> time \<Rightarrow> adb" where
  "mcp_auditOn a p h action target detail now =
     snd (Audit_entry a \<lparr>a_UserID = u_ID (pr_user p), a_Username = u_Username (pr_user p), a_Action = action, a_Target = target,
            a_Detail = detail, a_IP = pr_ip p, a_HostID = h, a_CreatedAt = 0\<rparr> now)"

definition mcp_audit :: "adb \<Rightarrow> recorder \<Rightarrow> principal \<Rightarrow> string \<Rightarrow> string \<Rightarrow> string \<Rightarrow> time \<Rightarrow> adb" where
  "mcp_audit a rc p action target detail now = mcp_auditOn a p (recorded_host rc) action target detail now"

definition ratelimit_text :: string where
  "ratelimit_text = ''control rate limit reached via MCP; changes refused''"

definition authorizeCharged ::
    "time \<Rightarrow> mcp \<Rightarrow> recorder \<Rightarrow> principal option \<Rightarrow> string \<Rightarrow> bool \<Rightarrow> int \<Rightarrow> bool \<Rightarrow> (mcp_error + principal) \<times> mcp \<times> recorder" where
  "authorizeCharged now g rc po sec write h charge =
     (let rc1 = (if h > 0 then recordHost rc h else rc); h1 = (if h < 0 then 0 else h)
      in case po of
           None \<Rightarrow> (Err MUnauthenticated, g, rc1)
         | Some p \<Rightarrow>
           (case narrowed p sec write h1 of
              Some e \<Rightarrow> (Err e, g, rc1)
            | None \<Rightarrow>
              (case checkAccess (mg_db g) (pr_user p) sec write h1 of
                 Some den \<Rightarrow> (Err (MDenied den), g, rc1)
               | None \<Rightarrow>
                 if write \<and> charge
                 then (case allow (mg_limiter g) (u_ID (pr_user p)) now of
                         ((ok, firstTrip), l) \<Rightarrow>
                           let g1 = g\<lparr>mg_limiter := l\<rparr>
                           in if ok then (Ok p, g1, rc1)
                              else (Err MRateLimited,
                                    (if firstTrip then g1\<lparr>mg_log := mcp_audit (mg_log g) rc1 p ''mcp.ratelimit'' sec ratelimit_text now\<rparr> else g1),
                                    rc1))
                 else (Ok p, g, rc1))))"

definition authorize ::
    "time \<Rightarrow> mcp \<Rightarrow> recorder \<Rightarrow> principal option \<Rightarrow> string \<Rightarrow> bool \<Rightarrow> int \<Rightarrow> (mcp_error + principal) \<times> mcp \<times> recorder" where
  "authorize now g rc po sec write h = authorizeCharged now g rc po sec write h write"

definition recheck ::
    "time \<Rightarrow> mcp \<Rightarrow> recorder \<Rightarrow> principal option \<Rightarrow> string \<Rightarrow> bool \<Rightarrow> int \<Rightarrow> mcp_error option \<times> mcp \<times> recorder" where
  "recheck now g rc po sec write h =
     (case authorizeCharged now g rc po sec write h False of
        (Inl e, g1, rc1) \<Rightarrow> (Some e, g1, rc1) | (Inr _, g1, rc1) \<Rightarrow> (None, g1, rc1))"

definition recheckHost ::
    "time \<Rightarrow> mcp \<Rightarrow> recorder \<Rightarrow> principal option \<Rightarrow> string \<Rightarrow> bool \<Rightarrow> int \<Rightarrow> mcp_error option \<times> mcp \<times> recorder" where
  "recheckHost now g rc po sec write h =
     (if h \<noteq> 0
      then (case authorize now g rc po ''hosts'' False h of
              (Inl e, g1, rc1) \<Rightarrow> (Some e, g1, rc1)
            | (Inr _, g1, rc1) \<Rightarrow> recheck now g1 rc1 po sec write h)
      else recheck now g rc po sec write h)"

section \<open>Lemmas\<close>

lemma authorizeCharged_Ok:
  assumes "authorizeCharged now g rc po sec write h charge = (Ok p, g', rc')"
  shows "po = Some p \<and> narrowed p sec write (max 0 h) = None
    \<and> checkAccess (mg_db g) (pr_user p) sec write (max 0 h) = None
    \<and> mg_db g' = mg_db g \<and> mg_oauth g' = mg_oauth g \<and> mg_tokens g' = mg_tokens g \<and> mg_log g' = mg_log g
    \<and> mg_limiter g' = (if write \<and> charge then snd (allow (mg_limiter g) (u_ID (pr_user p)) now) else mg_limiter g)"
  using assms
  by (auto simp: authorizeCharged_def Let_def max_def split: option.splits if_splits prod.splits)

lemma host_norm: "(if h < 0 then 0 else h) = max 0 (h :: int)"
  by simp

text \<open>A refusal by token or roles changes nothing, and neither does a second check.\<close>

lemma authorizeCharged_denied:
  assumes "narrowed p sec write (max 0 h) \<noteq> None \<or> checkAccess (mg_db g) (pr_user p) sec write (max 0 h) \<noteq> None"
  shows "fst (snd (authorizeCharged now g rc (Some p) sec write h charge)) = g"
proof (cases "narrowed p sec write (max 0 h)")
  case None
  with assms obtain den where "checkAccess (mg_db g) (pr_user p) sec write (max 0 h) = Some den" by auto
  with None show ?thesis by (simp add: authorizeCharged_def Let_def host_norm)
qed (simp add: authorizeCharged_def Let_def host_norm)

lemma recheck_free: "fst (snd (recheck now g rc po sec write h)) = g"
proof (cases po)
  case (Some p)
  then show ?thesis
    by (cases "narrowed p sec write (max 0 h)"; cases "checkAccess (mg_db g) (pr_user p) sec write (max 0 h)")
      (simp_all add: recheck_def authorizeCharged_def Let_def host_norm)
qed (simp add: recheck_def authorizeCharged_def Let_def)

lemma OAuthClientByID_gone: "client_gone i s \<Longrightarrow> \<not> is_ok (OAuthClientByID s i)"
  by (simp add: client_gone_def OAuthClientByID_def)

lemma session_gone_missing: "session_gone i s \<Longrightarrow> MCPOAuthSessionExists s i uid \<noteq> Ok True"
  by (simp add: session_gone_def MCPOAuthSessionExists_def)

lemma rows_without_gone: "i \<notin> f ` snd ` set (rows_without (\<lambda>r. f r = i) t)"
  by (auto simp: rows_without_def)

lemma deleteTx_gone:
  assumes "deleteMCPOAuthSessionTx P s i = (Ok (), s')"
  shows "session_gone i s'"
proof -
  have "s' = s\<lparr>os_sessions := key_delete i (os_sessions s), os_refresh := rows_without (\<lambda>t. rt_SessionID t = i) (os_refresh s)\<rparr>"
    using assms by (simp add: deleteMCPOAuthSessionTx_def split: if_splits option.splits)
  then show ?thesis using rows_without_gone [of i rt_SessionID] by (simp add: session_gone_def)
qed

lemma DeleteOAuthClient_gone:
  assumes "DeleteOAuthClient s i = (Ok True, s')"
  shows "client_gone i s'"
proof -
  have "s' = s\<lparr>os_clients := key_delete i (os_clients s), os_codes := rows_without (\<lambda>c. cd_ClientID c = i) (os_codes s),
      os_refresh := rows_without (\<lambda>t. rt_ClientID t = i) (os_refresh s),
      os_sessions := rows_without (\<lambda>m. ms_ClientID m = i) (os_sessions s)\<rparr>"
    using assms by (simp add: DeleteOAuthClient_def split: if_splits)
  then show ?thesis
    by (simp add: client_gone_def rows_without_gone)
qed

section \<open>Properties\<close>


text \<open>C10. Revoking a connector session is immediate and lasts. Once the owner or an administrator has
  revoked it, no access token of that session is accepted, on the next request or after any further
  events of the authorization server, refreshes included, as long as no event draws the same
  session name; and no refresh token of that session is left.\<close>

theorem revoked_mcp_session_refused:
  assumes "RevokeMCPOAuthSession (ov_store v) sid uid = (Ok (), s) \<or> AdminRevokeMCPOAuthSession (ov_store v) sid = (Ok (), s)"
    and "sid \<noteq> []" and "list_all (\<lambda>ev. sid \<notin> drawn ev) es"
    and "mg_oauth g = ov_store (oauth_run es (v\<lparr>ov_store := s\<rparr>))"
    and "mg_keylen g > 0" and "mg_resource g \<noteq> []" and "dots token = 2"
    and "parseAccessToken e (mg_resource g) token = Some (u, cid, sid, ro, ex)"
  shows "fst (verifyToken e g remote token) = None
    \<and> (\<forall>h t. (h, t) \<in> set (os_refresh (mg_oauth g)) \<longrightarrow> rt_SessionID t \<noteq> sid)"
proof -
  have "session_gone sid s"
    using assms(1) by (auto simp: RevokeMCPOAuthSession_def AdminRevokeMCPOAuthSession_def dest: deleteTx_gone)
  then have gone: "session_gone sid (mg_oauth g)"
    using session_gone_run [of sid "v\<lparr>ov_store := s\<rparr>" es] assms(2-4) by simp
  then have "verify_access g remote (u, cid, sid, ro, ex) = None"
    using session_gone_missing [OF gone] assms(2) by (auto simp: verify_access_def split: sum.splits)
  moreover have "rt_SessionID t \<noteq> sid" if "(h, t) \<in> set (os_refresh (mg_oauth g))" for h t
    using gone that by (force simp: session_gone_def)
  ultimately show ?thesis using assms(5-8) by (auto simp: verifyToken_def)
qed

text \<open>Removing a connector severs everything derived from it: no code, refresh token or session of
  the client is left, no access token issued to it is accepted again, whatever happens later, as long
  as no registration draws its id.\<close>

theorem removed_client_refused:
  assumes "DeleteOAuthClient (ov_store v) cid = (Ok True, s)"
    and "cid \<noteq> []" and "list_all (\<lambda>ev. cid \<notin> (@) clientIDPrefix ` drawn ev) es"
    and "mg_oauth g = ov_store (oauth_run es (v\<lparr>ov_store := s\<rparr>))"
    and "mg_keylen g > 0" and "mg_resource g \<noteq> []" and "dots token = 2"
    and "parseAccessToken e (mg_resource g) token = Some (u, cid, sid, ro, ex)"
  shows "client_gone cid (mg_oauth g) \<and> fst (verifyToken e g remote token) = None"
proof -
  have gone: "client_gone cid (mg_oauth g)"
    using client_gone_run [of cid "v\<lparr>ov_store := s\<rparr>" es] DeleteOAuthClient_gone [OF assms(1)] assms(3,4) by simp
  then have "verify_access g remote (u, cid, sid, ro, ex) = None"
    using OAuthClientByID_gone [OF gone] assms(2) by (auto simp: verify_access_def split: sum.splits)
  with gone assms(5-8) show ?thesis by (simp add: verifyToken_def)
qed


text \<open>The example installation with a connected tool, and the check of its access token by the
  library.\<close>

definition demo_access :: accessClaims where
  "demo_access = \<lparr>ac_ReadOnly = False, ac_ClientID = ''dcmcp_zero'', ac_SessionID = ''zero'', ac_Issuer = ''https://dc'',
     ac_Subject = ''7'', ac_Audience = [''https://dc/mcp''], ac_IssuedAt = 100 * day,
     ac_ExpiresAt = Some (100 * day + AccessTokenTTL), ac_ID = ''j''\<rparr>"

definition gate_env :: oauth_env where
  "gate_env = demo_env\<lparr>oe_jwt := (\<lambda>res now tok. if res = ''https://dc/mcp'' \<and> tok = ''a.b.c'' \<and> now < 100 * day + AccessTokenTTL
     then Some demo_access else None)\<rparr>"

definition demo_gate :: "oauth_store \<Rightarrow> mcp" where
  "demo_gate s = \<lparr>mg_db = demo_db, mg_oauth = s,
     mg_tokens = \<lparr>ts_tokens = tbl_empty, ts_policy = NoPolicy, ts_fails = (\<lambda>_. False)\<rparr>,
     mg_log = \<lparr>a_log = tbl_empty, a_ins_fails = False, a_sel_fails = False\<rparr>, mg_limiter = newControlLimiter,
     mg_resource = ''https://dc/mcp'', mg_keylen = 32\<rparr>"

definition demo_principal :: principal where
  "demo_principal = \<lparr>pr_user = demo_user, pr_roOnly = False, pr_scopes = [], pr_hosts = [], pr_ip = ''10.0.0.9''\<rparr>"

lemma demo_accepted:
  "map_option (\<lambda>(p, ex). (u_ID (pr_user p), pr_roOnly p)) (fst (verifyToken gate_env (demo_gate (ov_store tool_connected)) None ''a.b.c''))
     = Some (7, False)"
  by code_simp


definition demo_refresh :: oauth_event where
  "demo_refresh = EvToken (demo_env\<lparr>oe_rand := (\<lambda>n. Some (if n = 0 then ''two'' else ''three''))\<rparr>)
     (demo_post [(''grant_type'', ''refresh_token''), (''refresh_token'', ''one''), (''client_id'', ''dcmcp_zero'')])"

theorem revoked_mcp_session_refused_witness:
  "fst (verifyToken gate_env (demo_gate (ov_store (oauth_run [demo_refresh]
       (tool_connected\<lparr>ov_store := snd (RevokeMCPOAuthSession (ov_store tool_connected) ''zero'' 7)\<rparr>)))) None ''a.b.c'') = None"
proof -
  let ?s = "snd (RevokeMCPOAuthSession (ov_store tool_connected) ''zero'' 7)"
  let ?g = "demo_gate (ov_store (oauth_run [demo_refresh] (tool_connected\<lparr>ov_store := ?s\<rparr>)))"
  have "fst (RevokeMCPOAuthSession (ov_store tool_connected) ''zero'' 7) = Ok ()" by code_simp
  then have f1: "RevokeMCPOAuthSession (ov_store tool_connected) ''zero'' 7 = (Ok (), ?s)" by (simp add: prod_eq_iff)
  have f3: "list_all (\<lambda>ev. ''zero'' \<notin> drawn ev) [demo_refresh]"
    by (simp add: drawn_def demo_refresh_def List.map_filter_def)
  have f4: "mg_oauth ?g = ov_store (oauth_run [demo_refresh] (tool_connected\<lparr>ov_store := ?s\<rparr>))"
    and f5: "mg_keylen ?g > 0" and f6: "mg_resource ?g \<noteq> []" by (simp_all add: demo_gate_def)
  have f7: "dots ''a.b.c'' = 2" by code_simp
  have res: "mg_resource ?g = ''https://dc/mcp''" by (simp add: demo_gate_def)
  have "parseAccessToken gate_env ''https://dc/mcp'' ''a.b.c''
      = Some (7, ''dcmcp_zero'', ''zero'', False, 100 * day + AccessTokenTTL)" by code_simp
  then have f8: "parseAccessToken gate_env (mg_resource ?g) ''a.b.c'' = Some (7, ''dcmcp_zero'', ''zero'', False, 100 * day + AccessTokenTTL)"
    by (simp only: res)
  show ?thesis
    using revoked_mcp_session_refused [OF disjI1 [OF f1] _ f3 f4 f5 f6 f7 f8] by simp
qed

theorem removed_client_refused_witness:
  "fst (verifyToken gate_env (demo_gate (ov_store (oauth_run [demo_refresh]
       (tool_connected\<lparr>ov_store := snd (DeleteOAuthClient (ov_store tool_connected) ''dcmcp_zero'')\<rparr>)))) None ''a.b.c'') = None"
proof -
  let ?s = "snd (DeleteOAuthClient (ov_store tool_connected) ''dcmcp_zero'')"
  let ?g = "demo_gate (ov_store (oauth_run [demo_refresh] (tool_connected\<lparr>ov_store := ?s\<rparr>)))"
  have "fst (DeleteOAuthClient (ov_store tool_connected) ''dcmcp_zero'') = Ok True" by code_simp
  then have f1: "DeleteOAuthClient (ov_store tool_connected) ''dcmcp_zero'' = (Ok True, ?s)" by (simp add: prod_eq_iff)
  have f3: "list_all (\<lambda>ev. ''dcmcp_zero'' \<notin> (@) clientIDPrefix ` drawn ev) [demo_refresh]"
    by (simp add: drawn_def demo_refresh_def List.map_filter_def clientIDPrefix_def)
  have f4: "mg_oauth ?g = ov_store (oauth_run [demo_refresh] (tool_connected\<lparr>ov_store := ?s\<rparr>))"
    and f5: "mg_keylen ?g > 0" and f6: "mg_resource ?g \<noteq> []" by (simp_all add: demo_gate_def)
  have f7: "dots ''a.b.c'' = 2" by code_simp
  have res: "mg_resource ?g = ''https://dc/mcp''" by (simp add: demo_gate_def)
  have "parseAccessToken gate_env ''https://dc/mcp'' ''a.b.c''
      = Some (7, ''dcmcp_zero'', ''zero'', False, 100 * day + AccessTokenTTL)" by code_simp
  then have f8: "parseAccessToken gate_env (mg_resource ?g) ''a.b.c'' = Some (7, ''dcmcp_zero'', ''zero'', False, 100 * day + AccessTokenTTL)"
    by (simp only: res)
  show ?thesis
    using removed_client_refused [OF f1 _ f3 f4 f5 f6 f7 f8] by simp
qed

section \<open>Access tokens\<close>

text \<open>What is assumed of the JWT library: a token it signed is read back with its claims when the
  expected audience is among them and it has not expired, and nothing else is accepted.\<close>

definition jwt_library :: "oauth_env \<Rightarrow> bool" where
  "jwt_library e \<longleftrightarrow>
     (\<forall>c tok res now. oe_sign e c = Some tok \<longrightarrow>
        oe_jwt e res now tok = (if res \<in> set (ac_Audience c) \<and> (\<exists>ex. ac_ExpiresAt c = Some ex \<and> now < ex) then Some c else None))"

text \<open>C25. An access token that was issued is read back as what it was issued for: account, client,
  session and the read-only flag, for the resource it names, until its expiry in whole seconds, and
  not for another resource or later.\<close>

theorem access_token_roundtrip:
  assumes "jwt_library e" and "MintAccessToken e keylen issuer resource uid cid sid ro ttl = Some (tok, ex)"
    and "min_int64 \<le> uid" and "uid \<le> max_int64" and "later = e\<lparr>oe_now := t\<rparr>"
  shows "parseAccessToken later res tok =
    (if res = resource \<and> t < trunc_sec ex then Some (uid, cid, sid, ro, trunc_sec ex) else None)"
proof -
  obtain jti where j: "oe_jti e = Some jti"
    using assms(2) by (cases "oe_jti e") (simp_all add: MintAccessToken_def split: if_splits)
  have sign: "oe_sign e \<lparr>ac_ReadOnly = ro, ac_ClientID = cid, ac_SessionID = sid, ac_Issuer = issuer,
               ac_Subject = show_int uid, ac_Audience = [resource], ac_IssuedAt = trunc_sec (oe_now e),
               ac_ExpiresAt = Some (trunc_sec (oe_now e + ttl)), ac_ID = jti\<rparr> = Some tok"
    and ex: "ex = oe_now e + ttl"
    using assms(2) j by (simp_all add: MintAccessToken_def split: if_splits option.splits)
  have jwt: "oe_jwt e res t tok = (if res = resource \<and> t < trunc_sec ex
      then Some \<lparr>ac_ReadOnly = ro, ac_ClientID = cid, ac_SessionID = sid, ac_Issuer = issuer,
               ac_Subject = show_int uid, ac_Audience = [resource], ac_IssuedAt = trunc_sec (oe_now e),
               ac_ExpiresAt = Some (trunc_sec ex), ac_ID = jti\<rparr> else None)"
    using assms(1) sign ex unfolding jwt_library_def by simp
  show ?thesis
    using jwt parse_show_int [OF assms(3,4)] by (simp add: parseAccessToken_def assms(5))
qed

definition jwt_env :: oauth_env where
  "jwt_env = demo_env\<lparr>oe_sign := (\<lambda>c. if c = demo_access then Some ''a.b.c'' else None),
     oe_jwt := (\<lambda>res now tok. if tok = ''a.b.c'' \<and> res \<in> set (ac_Audience demo_access)
        \<and> (\<exists>ex. ac_ExpiresAt demo_access = Some ex \<and> now < ex) then Some demo_access else None)\<rparr>"

theorem access_token_roundtrip_witness:
  "MintAccessToken jwt_env 32 ''https://dc'' ''https://dc/mcp'' 7 ''dcmcp_zero'' ''zero'' False AccessTokenTTL
     = Some (''a.b.c'', 100 * day + AccessTokenTTL)
   \<and> parseAccessToken (jwt_env\<lparr>oe_now := 100 * day + minute\<rparr>) ''https://dc/mcp'' ''a.b.c''
     = Some (7, ''dcmcp_zero'', ''zero'', False, trunc_sec (100 * day + AccessTokenTTL))"
proof -
  have lib: "jwt_library jwt_env" by (auto simp: jwt_library_def jwt_env_def)
  have "trunc_sec (100 * day + AccessTokenTTL) = 100 * day + AccessTokenTTL" "trunc_sec (100 * day) = 100 * day"
    by (simp_all add: trunc_sec_def time_units AccessTokenTTL_def)
  moreover have "show_int 7 = ''7''" by code_simp
  ultimately have mint: "MintAccessToken jwt_env 32 ''https://dc'' ''https://dc/mcp'' 7 ''dcmcp_zero'' ''zero'' False AccessTokenTTL
     = Some (''a.b.c'', 100 * day + AccessTokenTTL)"
    by (simp add: MintAccessToken_def jwt_env_def demo_env_def demo_access_def)
  show ?thesis
    using mint access_token_roundtrip [OF lib mint _ _ refl, of "100 * day + minute" "''https://dc/mcp''"]
    by (simp add: min_int64_def max_int64_def time_units AccessTokenTTL_def trunc_sec_def)
qed

section \<open>A token's host list is lost\<close>

text \<open>A token created for one host works on every host its owner reaches: the list is stored, but the
  lookup by hash does not read it, so the principal of a request has no host restriction. Here
  the owner asks for a token for staging (host 2) only, and the token is then let through for
  production (host 3).\<close>

lemma token_host_list_lost:
  "let r = handleCreateMCPToken demo_env demo_db \<lparr>ts_tokens = tbl_empty, ts_policy = NoPolicy, ts_fails = (\<lambda>_. False)\<rparr>
         \<lparr>a_log = tbl_empty, a_ins_fails = False, a_sel_fails = False\<rparr> (demo_request ''POST'' ''/api/mcp/tokens'' [])
         (Some \<lparr>tb_Name = ''ci'', tb_ReadOnly = False, tb_Sections = [''images''], tb_HostIDs = [2], tb_ExpiresInDays = 0, tb_NeverExpires = False\<rparr>);
       g = (demo_gate (ov_store tool_connected))\<lparr>mg_tokens := fst (snd r)\<rparr>;
       p = map_option fst (fst (verifyToken demo_env g None ''zero''))
   in fst r = TokCreated 1 ''zero'' \<and> map_option t_HostIDs (tbl_lookup (ts_tokens (fst (snd r))) 1) = Some [2]
      \<and> is_ok (fst (authorizeCharged 0 g None p ''images'' False 3 False))"
  by code_simp


section \<open>Revoking a bearer token\<close>

text \<open>Every change of the token table, as data.\<close>

datatype token_op = TCreate APIToken time | TRevoke int int | TAdminRevoke int | TTouch int time
  | TPolicy MCPTokenPolicy | TFaults "token_stmt \<Rightarrow> bool"

fun token_apply :: "token_op \<Rightarrow> token_store \<Rightarrow> token_store" where
  "token_apply (TCreate t now) s = snd (CreateAPIToken s t now)"
| "token_apply (TRevoke i uid) s = snd (RevokeAPIToken s i uid)"
| "token_apply (TAdminRevoke i) s = snd (AdminRevokeAPIToken s i)"
| "token_apply (TTouch i now) s = snd (TouchAPIToken s i now)"
| "token_apply (TPolicy p) s = snd (SetMCPTokenPolicy s p)"
| "token_apply (TFaults f) s = s\<lparr>ts_fails := f\<rparr>"

text \<open>The unique index on the hash, and a hash whose only row is revoked.\<close>

definition token_wf :: "token_store \<Rightarrow> bool" where
  "token_wf s \<longleftrightarrow> tbl_wf (ts_tokens s) \<and> distinct (map (t_TokenHash \<circ> snd) (tbl_rows (ts_tokens s)))"

definition hash_revoked :: "string \<Rightarrow> token_store \<Rightarrow> bool" where
  "hash_revoked h s \<longleftrightarrow> h \<in> set (map (t_TokenHash \<circ> snd) (tbl_rows (ts_tokens s)))
     \<and> list_all (\<lambda>x. t_TokenHash (snd x) = h \<longrightarrow> t_Revoked (snd x)) (tbl_rows (ts_tokens s))"

lemma hash_revoked_update:
  assumes "hash_revoked h s" and "ts_tokens s' = tbl_update i f (ts_tokens s)"
    and "\<And>t. t_TokenHash (f t) = t_TokenHash t" and "\<And>t. t_Revoked t \<Longrightarrow> t_Revoked (f t)"
  shows "hash_revoked h s'"
proof -
  have "map (t_TokenHash \<circ> snd) (tbl_rows (ts_tokens s')) = map (t_TokenHash \<circ> snd) (tbl_rows (ts_tokens s))"
    using assms(2,3) by (auto simp: tbl_update_def)
  moreover have "t_TokenHash (snd x) = h \<longrightarrow> t_Revoked (snd x)" if "x \<in> set (tbl_rows (ts_tokens s'))" for x
  proof -
    from that have "x \<in> (\<lambda>(j, r). (j, if j = i then f r else r)) ` set (tbl_rows (ts_tokens s))"
      by (simp add: assms(2) tbl_update_def)
    then obtain q where q: "q \<in> set (tbl_rows (ts_tokens s))" and x: "x = (\<lambda>(j, r). (j, if j = i then f r else r)) q"
      by (rule imageE) auto
    obtain j y where jy: "q = (j, y)" by (cases q)
    have y: "snd x = (if j = i then f y else y)" by (simp add: x jy)
    have "t_TokenHash y = h \<longrightarrow> t_Revoked y" using assms(1) q by (auto simp: hash_revoked_def list_all_iff jy)
    then show ?thesis using y assms(3,4) by auto
  qed
  then have "list_all (\<lambda>x. t_TokenHash (snd x) = h \<longrightarrow> t_Revoked (snd x)) (tbl_rows (ts_tokens s'))"
    by (simp add: list_all_iff)
  ultimately show ?thesis using assms(1) by (simp only: hash_revoked_def)
qed

lemma hash_revoked_same: "hash_revoked h s \<Longrightarrow> ts_tokens s' = ts_tokens s \<Longrightarrow> hash_revoked h s'"
  by (simp add: hash_revoked_def)

lemma hash_revoked_revoke: "hash_revoked h s \<Longrightarrow> hash_revoked h (snd (revoke_where P s i))"
  by (auto simp: revoke_where_def split: option.splits intro: hash_revoked_update)

lemma hash_revoked_apply: "hash_revoked h s \<Longrightarrow> hash_revoked h (token_apply oper s)"
proof (cases oper)
  case (TCreate t now)
  assume h: "hash_revoked h s"
  show ?thesis
  proof (cases "snd (CreateAPIToken s t now) = s")
    case False
    then have "t_TokenHash t \<noteq> h" using h
      by (force simp: CreateAPIToken_def hash_revoked_def list_ex_iff split: if_splits)
    with h TCreate show ?thesis
      by (auto simp: CreateAPIToken_def hash_revoked_def tbl_insert_def Let_def)
  qed (use h TCreate in simp)
qed (auto simp: RevokeAPIToken_def AdminRevokeAPIToken_def TouchAPIToken_def SetMCPTokenPolicy_def Let_def
    intro: hash_revoked_revoke hash_revoked_update hash_revoked_same)

lemma hash_revoked_run: "hash_revoked h s \<Longrightarrow> hash_revoked h (fold token_apply ops s)"
  by (induction ops arbitrary: s) (auto intro: hash_revoked_apply)

lemma hash_revoked_lookup: "hash_revoked h s \<Longrightarrow> \<not> is_ok (APITokenByHash s h)"
  by (auto simp: APITokenByHash_def hash_revoked_def list_all_iff dest!: find_SomeD split: option.splits)

lemma revoke_where_revokes:
  assumes "token_wf s" and "tbl_lookup (ts_tokens s) i = Some t" and "revoke_where P s i = (Ok True, s')"
  shows "hash_revoked (t_TokenHash t) s'"
proof -
  let ?rows = "tbl_rows (ts_tokens s)"
  have s': "s' = s\<lparr>ts_tokens := tbl_update i (\<lambda>t. t\<lparr>t_Revoked := True\<rparr>) (ts_tokens s)\<rparr>"
    using assms(2,3) by (auto simp: revoke_where_def split: if_splits)
  have row: "(i, t) \<in> set ?rows" using assms(1,2) by (simp add: token_wf_def set_rows_lookup)
  have "(j, x) = (i, t)" if "(j, x) \<in> set ?rows" "t_TokenHash x = t_TokenHash t" for j x
    using assms(1) row that by (force simp: token_wf_def distinct_map inj_on_def)
  then have "list_all (\<lambda>x. t_TokenHash (snd x) = t_TokenHash t \<longrightarrow> t_Revoked (snd x)) (tbl_rows (ts_tokens s'))"
    by (fastforce simp: s' list_all_iff tbl_update_def)
  moreover
  have "(i, t\<lparr>t_Revoked := True\<rparr>) \<in> set (tbl_rows (ts_tokens s'))"
    using row by (force simp: s' tbl_update_def)
  then have "t_TokenHash t \<in> set (map (t_TokenHash \<circ> snd) (tbl_rows (ts_tokens s')))" by force
  ultimately show ?thesis by (simp only: hash_revoked_def)
qed

text \<open>A revoked bearer token never works again: after its owner or an administrator revoked it, and
  after any further operations on the table, including attempts to create a token with the same
  hash, the verifier refuses its secret.\<close>

theorem revoked_token_refused:
  assumes "token_wf s" and "tbl_lookup (ts_tokens s) i = Some t"
    and "RevokeAPIToken s i uid = (Ok True, s') \<or> AdminRevokeAPIToken s i = (Ok True, s')"
    and "mg_tokens g = fold token_apply ops s'" and "oe_hash e secret = t_TokenHash t"
    and "parseAccessToken e (mg_resource g) secret = None"
  shows "verifyToken e g remote secret = (None, g)"
proof -
  have "hash_revoked (t_TokenHash t) s'"
    using assms(1-3) by (auto simp: RevokeAPIToken_def AdminRevokeAPIToken_def intro: revoke_where_revokes)
  then have "\<not> is_ok (APITokenByHash (mg_tokens g) (oe_hash e secret))"
    using assms(4,5) by (simp add: hash_revoked_run hash_revoked_lookup)
  then have "verify_opaque e g remote secret = (None, g)"
    by (auto simp: verify_opaque_def is_ok_def split: sum.splits)
  then show ?thesis using assms(6) by (simp add: verifyToken_def)
qed

definition demo_token_row :: APIToken where
  "demo_token_row = \<lparr>t_ID = 0, t_UserID = 7, t_TokenHash = ''hzero'', t_Name = ''ci'', t_Sections = [], t_HostIDs = [],
     t_ReadOnly = False, t_CreatedAt = 0, t_LastUsedAt = 0, t_ExpiresAt = 0, t_Revoked = False\<rparr>"

definition one_token :: token_store where
  "one_token = snd (CreateAPIToken \<lparr>ts_tokens = tbl_empty, ts_policy = NoPolicy, ts_fails = (\<lambda>_. False)\<rparr> demo_token_row (99 * day))"

definition token_gate :: "token_store \<Rightarrow> mcp" where
  "token_gate s = (demo_gate (ov_store tool_connected))\<lparr>mg_tokens := s\<rparr>"

lemma one_token_accepted:
  "map_option (\<lambda>(p, ex). u_ID (pr_user p)) (fst (verifyToken demo_env (token_gate one_token) None ''zero'')) = Some 7"
  by code_simp

theorem revoked_token_refused_witness:
  "let g = token_gate (fold token_apply [TCreate demo_token_row 0] (snd (RevokeAPIToken one_token 1 7)))
   in verifyToken demo_env g None ''zero'' = (None, g)"
proof -
  let ?s' = "snd (RevokeAPIToken one_token 1 7)"
  let ?g = "token_gate (fold token_apply [TCreate demo_token_row 0] ?s')"
  have wf: "token_wf one_token" by code_simp
  obtain t where t: "tbl_lookup (ts_tokens one_token) 1 = Some t" "t_TokenHash t = ''hzero''"
  proof -
    have "map_option t_TokenHash (tbl_lookup (ts_tokens one_token) 1) = Some ''hzero''" by code_simp
    then show ?thesis using that by auto
  qed
  have "fst (RevokeAPIToken one_token 1 7) = Ok True" by code_simp
  then have r: "RevokeAPIToken one_token 1 7 = (Ok True, ?s')" by (simp add: prod_eq_iff)
  have h: "oe_hash demo_env ''zero'' = t_TokenHash t" using t(2) by (simp add: demo_env_def)
  have g: "mg_tokens ?g = fold token_apply [TCreate demo_token_row 0] ?s'" by (simp add: token_gate_def)
  have "parseAccessToken demo_env (mg_resource ?g) ''zero'' = None" by (simp add: parseAccessToken_def demo_env_def)
  from revoked_token_refused [OF wf t(1) disjI1 [OF r] g h this] show ?thesis by (simp only: Let_def)
qed


end
