(* ===== verification/DeployPolicy.thy ===== *)
theory DeployPolicy
  imports Complex_Main MaintenanceApi
begin

text \<open>
  The rules a deployment has to meet: \<open>src/internal/docker/policy.go\<close> (the checks on a resolved
  compose file), \<open>src/internal/store/policy_rules.go\<close> (the mode of each rule) and
  \<open>src/internal/api/policy_handlers.go\<close> (the gate every way of deploying shares). The compose
  file is the decoded document, its map of services an association list; the compose program and the
  JSON decoder are parameters.
\<close>

section \<open>Paths and image references\<close>

text \<open>Go's \<open>path.Clean\<close>: the elements of a path are taken from left to right onto a stack, where
  \<open>..\<close> removes the element before it; at the root it is dropped, and at the start of a
  relative path it stays.\<close>

fun clean_step :: "bool \<Rightarrow> string list \<Rightarrow> string \<Rightarrow> string list" where
  "clean_step rooted out e =
     (if e = [] \<or> e = ''.'' then out
      else if e = ''..''
        then (case out of
                [] \<Rightarrow> if rooted then [] else [''..'']
              | x # xs \<Rightarrow> if x = ''..'' then e # out else xs)
      else e # out)"

definition path_rooted :: "string \<Rightarrow> bool" where
  "path_rooted p \<longleftrightarrow> has_prefix ''/'' p"

definition clean_parts :: "string \<Rightarrow> string list" where
  "clean_parts p = rev (foldl (clean_step (path_rooted p)) [] (split_on (CHR ''/'') p))"

definition path_Clean :: "string \<Rightarrow> string" where
  "path_Clean p =
     (let parts = join ''/'' (clean_parts p)
      in if path_rooted p then CHR ''/'' # parts else if parts = [] then ''.'' else parts)"

definition dockerSocketCandidatePaths :: "string list" where
  "dockerSocketCandidatePaths = [''/var/run/docker.sock'', ''/run/docker.sock'']"

text \<open>The regular expression \<open>^/(?:var/)?run/user(?:/[0-9]+)?$\<close>.\<close>

definition rootlessRuntimeDir :: "string \<Rightarrow> bool" where
  "rootlessRuntimeDir s \<longleftrightarrow>
     list_ex (\<lambda>base. s = base \<or>
       has_prefix (base @ ''/'') s \<and> drop (length base + 1) s \<noteq> [] \<and> list_all is_digit (drop (length base + 1) s))
     [''/run/user'', ''/var/run/user'']"

definition mountsDockerSocket :: "string \<Rightarrow> string \<Rightarrow> bool" where
  "mountsDockerSocket source0 target0 =
     (let source = path_Clean source0; target = path_Clean target0
      in has_suffix ''docker.sock'' source \<or> has_suffix ''docker.sock'' target
         \<or> source = ''/''
         \<or> rootlessRuntimeDir source
         \<or> list_ex (\<lambda>candidate. source = candidate \<or> has_prefix (source @ ''/'') candidate) dockerSocketCandidatePaths)"

text \<open>What follows the last occurrence of a byte, if there is one: \<open>strings.LastIndex\<close> and a slice.\<close>

fun after_last :: "char \<Rightarrow> string \<Rightarrow> string option" where
  "after_last c [] = None"
| "after_last c (x # xs) =
     (case after_last c xs of
        Some t \<Rightarrow> Some t
      | None \<Rightarrow> if x = c then Some xs else None)"

definition isLatestTag :: "string \<Rightarrow> bool" where
  "isLatestTag ref =
     (if ref = [] then False
      else if contains ref ''@'' then False
      else let rest = (case after_last (CHR ''/'') ref of None \<Rightarrow> ref | Some t \<Rightarrow> t)
           in case after_last (CHR '':'') rest of
                None \<Rightarrow> True
              | Some tag \<Rightarrow> tag = ''latest'')"

section \<open>policy.go\<close>

datatype PolicyRuleID = RulePrivileged | RuleHostNetwork | RuleHostPID | RuleDockerSocket | RuleLatestTag
  | RuleMissingLimits | RuleMissingHealthcheck

definition AllPolicyRules :: "PolicyRuleID list" where
  "AllPolicyRules = [RulePrivileged, RuleHostNetwork, RuleHostPID, RuleDockerSocket, RuleLatestTag, RuleMissingLimits,
     RuleMissingHealthcheck]"

fun rule_name :: "PolicyRuleID \<Rightarrow> string" where
  "rule_name RulePrivileged = ''privileged''"
| "rule_name RuleHostNetwork = ''host_network''"
| "rule_name RuleHostPID = ''host_pid''"
| "rule_name RuleDockerSocket = ''docker_socket_mount''"
| "rule_name RuleLatestTag = ''latest_tag''"
| "rule_name RuleMissingLimits = ''missing_resource_limits''"
| "rule_name RuleMissingHealthcheck = ''missing_healthcheck''"

record compose_volume =
  cv_Type :: string
  cv_Source :: string
  cv_Target :: string

text \<open>The fields of a service the rules read. Limits are numbers, zero when they are absent; the
  healthcheck is the flag of an explicit one that is disabled.\<close>

record compose_service =
  cs_Image :: string
  cs_Volumes :: "compose_volume list"
  cs_Privileged :: bool
  cs_NetworkMode :: string
  cs_Pid :: string
  cs_LimitCPUs :: rat
  cs_LimitMemory :: int
  cs_CPUs :: rat
  cs_MemLimit :: int
  cs_Healthcheck :: "bool option"

type_synonym compose_doc = "(string \<times> compose_service) list"

record PolicyViolation =
  pv_Rule :: PolicyRuleID
  pv_Service :: string
  pv_Mode :: string
  pv_Detail :: string

text \<open>A missing rule has the zero value of the map, the empty mode.\<close>

definition add_violation ::
    "(string \<rightharpoonup> string) \<Rightarrow> PolicyRuleID \<Rightarrow> string \<Rightarrow> string \<Rightarrow> PolicyViolation list \<Rightarrow> PolicyViolation list" where
  "add_violation modes rule service detail out =
     (let mode0 = (case modes (rule_name rule) of None \<Rightarrow> [] | Some x \<Rightarrow> x);
          mode = (if mode0 = [] then ''off'' else mode0)
      in if mode = ''off'' then out
         else out @ [\<lparr>pv_Rule = rule, pv_Service = service, pv_Mode = mode, pv_Detail = detail\<rparr>])"

definition evaluate_service ::
    "(string \<rightharpoonup> string) \<Rightarrow> string \<times> compose_service \<Rightarrow> PolicyViolation list \<Rightarrow> PolicyViolation list" where
  "evaluate_service modes s out0 =
     (let (name, svc) = s;
          out1 = (if cs_Privileged svc then add_violation modes RulePrivileged name ''runs as a privileged container'' out0 else out0);
          out2 = (if cs_NetworkMode svc = ''host'' then add_violation modes RuleHostNetwork name (''uses the host'' @ CHR 0x27 # ''s network namespace'') out1 else out1);
          out3 = (if cs_Pid svc = ''host'' then add_violation modes RuleHostPID name (''uses the host'' @ CHR 0x27 # ''s PID namespace'') out2 else out2);
          out4 = (if list_ex (\<lambda>v. cv_Type v = ''bind'' \<and> mountsDockerSocket (cv_Source v) (cv_Target v)) (cs_Volumes svc)
                  then add_violation modes RuleDockerSocket name ''mounts the Docker socket'' out3 else out3);
          out5 = (if isLatestTag (cs_Image svc)
                  then add_violation modes RuleLatestTag name (''image '' @ CHR 0x22 # cs_Image svc @ CHR 0x22 # '' has no pinned tag or digest'') out4 else out4);
          hasLimits = (cs_LimitCPUs svc \<noteq> 0 \<or> cs_LimitMemory svc \<noteq> 0 \<or> cs_CPUs svc \<noteq> 0 \<or> cs_MemLimit svc \<noteq> 0);
          out6 = (if \<not> hasLimits then add_violation modes RuleMissingLimits name ''has no CPU or memory limit'' out5 else out5)
      in if cs_Healthcheck svc = None \<or> cs_Healthcheck svc = Some True
         then add_violation modes RuleMissingHealthcheck name ''has no healthcheck'' out6 else out6)"

definition EvaluatePolicy ::
    "(string \<Rightarrow> compose_doc option) \<Rightarrow> string \<Rightarrow> (string \<rightharpoonup> string) \<Rightarrow> unit + PolicyViolation list" where
  "EvaluatePolicy decode configJSON modes =
     (case decode configJSON of
        None \<Rightarrow> Err ()
      | Some cfg \<Rightarrow> Ok (foldl (\<lambda>out s. evaluate_service modes s out) [] (sort_key fst cfg)))"

section \<open>policy_rules.go\<close>

definition PolicyRuleIDs :: "string list" where
  "PolicyRuleIDs = [''privileged'', ''host_network'', ''host_pid'', ''docker_socket_mount'', ''latest_tag'',
     ''missing_resource_limits'', ''missing_healthcheck'']"

definition PolicyModes :: "string list" where
  "PolicyModes = [''off'', ''warn'', ''block'']"

definition validPolicyRuleID :: "string \<Rightarrow> bool" where
  "validPolicyRuleID i \<longleftrightarrow> list_ex (\<lambda>r. r = i) PolicyRuleIDs"

definition validPolicyMode :: "string \<Rightarrow> bool" where
  "validPolicyMode x \<longleftrightarrow> list_ex (\<lambda>r. r = x) PolicyModes"

text \<open>The stored setting: absent, a text that is no JSON object of strings, the text \<open>null\<close>, or an
  object.\<close>

datatype rules_setting = NoRules | CorruptRules | NullRules | StoredRules "(string \<times> string) list"

datatype rules_error = RErrSQL | ErrPolicyRulesCorrupt

record rules_store =
  rs_setting :: rules_setting
  rs_get_fails :: bool
  rs_put_fails :: bool

definition valid_entries :: "(string \<times> string) list \<Rightarrow> (string \<times> string) list" where
  "valid_entries kvs = filter (\<lambda>(i, x). validPolicyRuleID i \<and> validPolicyMode x) kvs"

definition rules_off :: "string \<rightharpoonup> string" where
  "rules_off = map_of (map (\<lambda>i. (i, ''off'')) PolicyRuleIDs)"

text \<open>The map is returned beside the error.\<close>

definition PolicyRuleModes :: "rules_store \<Rightarrow> (string \<rightharpoonup> string) \<times> rules_error option" where
  "PolicyRuleModes s =
     (if rs_get_fails s then (rules_off, Some RErrSQL)
      else case rs_setting s of
        NoRules \<Rightarrow> (rules_off, None)
      | CorruptRules \<Rightarrow> (rules_off, Some ErrPolicyRulesCorrupt)
      | NullRules \<Rightarrow> (rules_off, Some ErrPolicyRulesCorrupt)
      | StoredRules kvs \<Rightarrow> (foldl (\<lambda>out (i, x). out(i \<mapsto> x)) rules_off (valid_entries kvs), None))"

definition SetPolicyRuleModes :: "rules_store \<Rightarrow> (string \<times> string) list \<Rightarrow> (rules_error + unit) \<times> rules_store" where
  "SetPolicyRuleModes s modes =
     (if rs_put_fails s then (Err RErrSQL, s)
      else (Ok (), s\<lparr>rs_setting := StoredRules (valid_entries modes)\<rparr>))"

section \<open>policy_handlers.go\<close>

record deploy_srv =
  ds_srv :: srv
  ds_rules :: rules_store

datatype policy_answer = PolicyErr nat | PolicyRules "string \<rightharpoonup> string" bool | PolicySaved

definition handleGetPolicyRules :: "deploy_srv \<Rightarrow> policy_answer" where
  "handleGetPolicyRules s =
     (case PolicyRuleModes (ds_rules s) of
        (modes, Some RErrSQL) \<Rightarrow> PolicyErr 500
      | (modes, Some ErrPolicyRulesCorrupt) \<Rightarrow> PolicyRules modes True
      | (modes, None) \<Rightarrow> PolicyRules modes False)"

definition handleSetPolicyRules ::
    "deploy_srv \<Rightarrow> request \<Rightarrow> (string \<times> string) list option \<Rightarrow> time \<Rightarrow> policy_answer \<times> deploy_srv" where
  "handleSetPolicyRules s r body now =
     (case body of
        None \<Rightarrow> (PolicyErr 400, s)
      | Some modes \<Rightarrow>
        (case SetPolicyRuleModes (ds_rules s) modes of
           (Inl _, rules) \<Rightarrow> (PolicyErr 500, s\<lparr>ds_rules := rules\<rparr>)
         | (Inr _, rules) \<Rightarrow>
           (PolicySaved, s\<lparr>ds_rules := rules,
              ds_srv := (ds_srv s)\<lparr>sv_audit := audit (sv_audit (ds_srv s)) r None ''policy.rules.update'' [] [] now\<rparr>\<rparr>)))"

datatype policy_error = PolicyRulesCorrupt | PolicyRulesUnread | PolicyNoConfig | PolicyNoEvaluation

text \<open>What a deployment asks of the compose program: the resolved configuration of a directory under
  profiles, environment and files, or a failure, the decoder of that configuration, and the texts of
  the errors.\<close>

record compose_env =
  ce_config :: "string \<Rightarrow> string \<Rightarrow> string list \<Rightarrow> string list \<Rightarrow> string list \<Rightarrow> string option"
  ce_decode :: "string \<Rightarrow> compose_doc option"
  ce_text :: "policy_error \<Rightarrow> string"

definition any_mode :: "(string \<Rightarrow> bool) \<Rightarrow> (string \<rightharpoonup> string) \<Rightarrow> bool" where
  "any_mode P modes \<longleftrightarrow> list_ex (\<lambda>i. case modes i of None \<Rightarrow> False | Some x \<Rightarrow> P x) PolicyRuleIDs"

definition evaluateDeployPolicy ::
    "compose_env \<Rightarrow> rules_store \<Rightarrow> string \<Rightarrow> string \<Rightarrow> string list \<Rightarrow> string list \<Rightarrow> string list
     \<Rightarrow> policy_error + (PolicyViolation list \<times> PolicyViolation list)" where
  "evaluateDeployPolicy ce rules slug dir profiles env files =
     (case PolicyRuleModes rules of
        (_, Some ErrPolicyRulesCorrupt) \<Rightarrow> Err PolicyRulesCorrupt
      | (_, Some RErrSQL) \<Rightarrow> Err PolicyRulesUnread
      | (modes, None) \<Rightarrow>
        let anyEnabled = any_mode (\<lambda>x. x \<noteq> ''off'') modes; anyBlock = any_mode (\<lambda>x. x = ''block'') modes
        in if \<not> anyEnabled then Ok ([], [])
           else case ce_config ce dir slug profiles env files of
             None \<Rightarrow> if anyBlock then Err PolicyNoConfig else Ok ([], [])
           | Some configJSON \<Rightarrow>
             (case EvaluatePolicy (ce_decode ce) configJSON modes of
                Inl _ \<Rightarrow> if anyBlock then Err PolicyNoEvaluation else Ok ([], [])
              | Inr violations \<Rightarrow> Ok (filter (\<lambda>v. pv_Mode v = ''block'') violations, filter (\<lambda>v. pv_Mode v = ''warn'') violations)))"

definition policyViolationSummary :: "PolicyViolation list \<Rightarrow> string" where
  "policyViolationSummary vs = join '', '' (map (\<lambda>v. rule_name (pv_Rule v) @ '':'' @ pv_Service v) vs)"

record Project =
  p_ID :: int
  p_Name :: string
  p_Slug :: string
  p_ComposeFile :: string
  p_HostID :: int
  p_AllowRemoteHostPaths :: bool
  p_LastDeployedProfiles :: "string list"
  p_CreatedBy :: string
  p_CreatedAt :: time
  p_UpdatedAt :: time

definition auditProject :: "deploy_srv \<Rightarrow> request \<Rightarrow> Project \<Rightarrow> string \<Rightarrow> string \<Rightarrow> time \<Rightarrow> deploy_srv" where
  "auditProject s r p action detail now =
     s\<lparr>ds_srv := (ds_srv s)\<lparr>sv_audit :=
        auditOn (sv_audit (ds_srv s)) r (daemonHost (sv_db (ds_srv s)) (p_HostID p)) action (p_Slug p) detail now\<rparr>\<rparr>"

datatype refusal = RefRulesCorrupt | RefCheckFailed | RefBlocked "PolicyViolation list" | RefWarnings "PolicyViolation list"

text \<open>The audit actions of the two kinds of caller. The answer \<open>None\<close> means that the deployment may
  go on.\<close>

definition policy_action :: "string \<Rightarrow> string \<Rightarrow> string" where
  "policy_action kind what =
     (if kind = ''restore'' then ''project.revision.restore.'' @ what else ''project.deploy.'' @ what)"

definition policyCheckOrRefuse ::
    "compose_env \<Rightarrow> deploy_srv \<Rightarrow> request \<Rightarrow> Project \<Rightarrow> string \<Rightarrow> string list \<Rightarrow> string list \<Rightarrow> string list \<Rightarrow> bool \<Rightarrow> string
     \<Rightarrow> time \<Rightarrow> refusal option \<times> deploy_srv" where
  "policyCheckOrRefuse ce s r p dir profiles env files confirmed kind now =
     (case evaluateDeployPolicy ce (ds_rules s) (p_Slug p) dir profiles env files of
        Inl e \<Rightarrow>
          (Some (if e = PolicyRulesCorrupt then RefRulesCorrupt else RefCheckFailed),
           auditProject s r p (policy_action kind ''policy_check_failed'') (ce_text ce e) now)
      | Inr (blocked, warned) \<Rightarrow>
        if blocked \<noteq> []
        then (Some (RefBlocked blocked), auditProject s r p (policy_action kind ''policy_block'') (policyViolationSummary blocked) now)
        else if warned \<noteq> [] \<and> \<not> confirmed then (Some (RefWarnings warned), s)
        else (None, if warned \<noteq> []
                    then auditProject s r p (policy_action kind ''policy_warn_ack'') (policyViolationSummary warned) now else s))"

section \<open>What the rules mean\<close>

fun breaks :: "PolicyRuleID \<Rightarrow> compose_service \<Rightarrow> bool" where
  "breaks RulePrivileged svc \<longleftrightarrow> cs_Privileged svc"
| "breaks RuleHostNetwork svc \<longleftrightarrow> cs_NetworkMode svc = ''host''"
| "breaks RuleHostPID svc \<longleftrightarrow> cs_Pid svc = ''host''"
| "breaks RuleDockerSocket svc \<longleftrightarrow>
     (\<exists>v \<in> set (cs_Volumes svc). cv_Type v = ''bind'' \<and> mountsDockerSocket (cv_Source v) (cv_Target v))"
| "breaks RuleLatestTag svc \<longleftrightarrow> isLatestTag (cs_Image svc)"
| "breaks RuleMissingLimits svc \<longleftrightarrow>
     cs_LimitCPUs svc = 0 \<and> cs_LimitMemory svc = 0 \<and> cs_CPUs svc = 0 \<and> cs_MemLimit svc = 0"
| "breaks RuleMissingHealthcheck svc \<longleftrightarrow> cs_Healthcheck svc \<noteq> Some False"

definition enforced :: "(string \<rightharpoonup> string) \<Rightarrow> PolicyRuleID \<Rightarrow> bool" where
  "enforced modes r \<longleftrightarrow> (case modes (rule_name r) of None \<Rightarrow> False | Some x \<Rightarrow> x \<noteq> [] \<and> x \<noteq> ''off'')"

text \<open>One service's violations: its name, the rule and the mode, in the order of the rules.\<close>

definition violations_of ::
    "(string \<rightharpoonup> string) \<Rightarrow> string \<times> compose_service \<Rightarrow> (string \<times> PolicyRuleID \<times> string) list" where
  "violations_of modes s =
     map (\<lambda>r. (fst s, r, the (modes (rule_name r)))) (filter (\<lambda>r. breaks r (snd s) \<and> enforced modes r) AllPolicyRules)"

definition violation_key :: "PolicyViolation \<Rightarrow> string \<times> PolicyRuleID \<times> string" where
  "violation_key v = (pv_Service v, pv_Rule v, pv_Mode v)"

lemma add_violation_keys:
  "map violation_key (add_violation modes r n txt out)
    = map violation_key out @ (if enforced modes r then [(n, r, the (modes (rule_name r)))] else [])"
  by (auto simp: add_violation_def Let_def enforced_def violation_key_def split: option.splits)

lemma add_violation_if:
  "map violation_key (if b then add_violation modes r n txt out else out)
    = map violation_key out @ map (\<lambda>r. (n, r, the (modes (rule_name r)))) (filter (\<lambda>r. b \<and> enforced modes r) [r])"
  by (simp add: add_violation_keys)

lemma evaluate_service_keys:
  "map violation_key (evaluate_service modes s out) = map violation_key out @ violations_of modes s"
proof -
  obtain n svc where s: "s = (n, svc)" by (cases s)
  have hc: "(cs_Healthcheck svc = None \<or> cs_Healthcheck svc = Some True) = (cs_Healthcheck svc \<noteq> Some False)"
    by (cases "cs_Healthcheck svc") auto
  show ?thesis
    unfolding evaluate_service_def Let_def s prod.case add_violation_if violations_of_def AllPolicyRules_def hc
    by (simp add: list_ex_iff)
qed

lemma evaluate_fold_keys:
  "map violation_key (foldl (\<lambda>out s. evaluate_service modes s out) out ss)
    = map violation_key out @ concat (map (violations_of modes) ss)"
  by (induction ss arbitrary: out) (simp_all add: evaluate_service_keys)

lemma updates_as_map: "foldl (\<lambda>out (i, x). out(i \<mapsto> x)) m kvs = m ++ map_of (rev kvs)"
  by (induction kvs arbitrary: m) (auto simp: map_add_upd_left map_add_def fun_eq_iff split: option.splits)

lemma rules_off_lookup: "rules_off i = (if i \<in> set PolicyRuleIDs then Some ''off'' else None)"
  by (simp add: rules_off_def map_of_map_restrict [where f = "\<lambda>_. ''off''", unfolded comp_def] restrict_map_def)

lemma valid_entriesD: "map_of (rev (valid_entries kvs)) i = Some x \<Longrightarrow> i \<in> set PolicyRuleIDs \<and> x \<in> set PolicyModes"
  by (drule map_of_SomeD) (auto simp: valid_entries_def validPolicyRuleID_def validPolicyMode_def list_ex_iff)

lemma PolicyRuleModes_lookup:
  assumes "PolicyRuleModes s = (modes, None)"
  obtains kvs where "\<And>i. modes i = (case map_of (rev (valid_entries kvs)) i of Some x \<Rightarrow> Some x | None \<Rightarrow> rules_off i)"
proof (cases "rs_setting s")
  case NoRules
  then have "modes = rules_off" using assms by (simp add: PolicyRuleModes_def split: if_splits)
  then have "\<And>i. modes i = (case map_of (rev (valid_entries [])) i of Some x \<Rightarrow> Some x | None \<Rightarrow> rules_off i)"
    by (simp add: valid_entries_def)
  then show thesis by (rule that)
next
  case (StoredRules kvs)
  then have "modes = rules_off ++ map_of (rev (valid_entries kvs))"
    using assms by (simp add: PolicyRuleModes_def updates_as_map split: if_splits)
  then have "\<And>i. modes i = (case map_of (rev (valid_entries kvs)) i of Some x \<Rightarrow> Some x | None \<Rightarrow> rules_off i)"
    by (simp add: map_add_def)
  then show thesis by (rule that)
qed (use assms in \<open>simp_all add: PolicyRuleModes_def split: if_splits\<close>)

lemma PolicyRuleModes_shape:
  assumes "PolicyRuleModes s = (modes, None)"
  shows "case modes i of None \<Rightarrow> i \<notin> set PolicyRuleIDs | Some x \<Rightarrow> i \<in> set PolicyRuleIDs \<and> x \<in> set PolicyModes"
proof -
  obtain kvs where m: "modes i = (case map_of (rev (valid_entries kvs)) i of Some x \<Rightarrow> Some x | None \<Rightarrow> rules_off i)"
    using PolicyRuleModes_lookup [OF assms] by metis
  show ?thesis
  proof (cases "map_of (rev (valid_entries kvs)) i")
    case None
    then have "modes i = rules_off i" by (simp add: m)
    moreover have "''off'' \<in> set PolicyModes" by (simp add: PolicyModes_def)
    ultimately show ?thesis by (simp add: rules_off_lookup)
  next
    case (Some x)
    then have "modes i = Some x" by (simp add: m)
    with valid_entriesD [OF Some] show ?thesis by simp
  qed
qed

lemma rule_name_mem: "rule_name r \<in> set PolicyRuleIDs"
  by (cases r) (simp_all add: PolicyRuleIDs_def)

lemma any_mode_rule:
  "modes (rule_name r) = Some x \<Longrightarrow> P x \<Longrightarrow> any_mode P modes"
  using rule_name_mem [of r] by (force simp: any_mode_def list_ex_iff)

lemma all_rules: "r \<in> set AllPolicyRules"
  by (cases r) (simp_all add: AllPolicyRules_def)

lemma EvaluatePolicy_keys:
  "EvaluatePolicy decode cfg modes = Ok vs \<Longrightarrow>
    \<exists>doc. decode cfg = Some doc \<and> map violation_key vs = concat (map (violations_of modes) (sort_key fst doc))"
  by (auto simp: EvaluatePolicy_def evaluate_fold_keys split: option.splits)

lemma violation_found:
  assumes "map violation_key vs = concat (map (violations_of modes) (sort_key fst doc))"
    and "(n, svc) \<in> set doc" and "breaks r svc" and "modes (rule_name r) = Some x" and "x \<noteq> []" and "x \<noteq> ''off''"
  shows "\<exists>v \<in> set vs. pv_Service v = n \<and> pv_Rule v = r \<and> pv_Mode v = x"
proof -
  have "(n, r, x) \<in> set (violations_of modes (n, svc))"
    using assms(3-6) all_rules [of r] by (force simp: violations_of_def enforced_def)
  then have "(n, r, x) \<in> set (map violation_key vs)" using assms(1,2) by fastforce
  then show ?thesis by (auto simp: violation_key_def)
qed

lemma policy_passed:
  assumes "evaluateDeployPolicy ce rules slug dir profiles env files = Ok ([], warned)" and "PolicyRuleModes rules = (modes, None)"
    and "modes (rule_name r) = Some ''block''"
  shows "\<exists>cfg doc. ce_config ce dir slug profiles env files = Some cfg \<and> ce_decode ce cfg = Some doc
    \<and> (\<forall>(n, svc) \<in> set doc. \<not> breaks r svc)"
proof -
  have en: "any_mode (\<lambda>x. x \<noteq> ''off'') modes" "any_mode (\<lambda>x. x = ''block'') modes"
    using any_mode_rule [of modes r "''block''"] assms(3) by simp_all
  then obtain cfg where cfg: "ce_config ce dir slug profiles env files = Some cfg"
    using assms(1,2) by (auto simp: evaluateDeployPolicy_def split: option.splits)
  obtain vs where vs: "EvaluatePolicy (ce_decode ce) cfg modes = Ok vs" and "filter (\<lambda>v. pv_Mode v = ''block'') vs = []"
    using assms(1,2) en cfg by (auto simp: evaluateDeployPolicy_def split: sum.splits)
  moreover
  obtain doc where doc: "ce_decode ce cfg = Some doc" "map violation_key vs = concat (map (violations_of modes) (sort_key fst doc))"
    using EvaluatePolicy_keys [OF vs] by blast
  ultimately have "\<not> breaks r svc" if "(n, svc) \<in> set doc" for n svc
    using violation_found [OF doc(2) that _ assms(3)] by (auto simp: filter_empty_conv)
  then show ?thesis using cfg doc(1) by blast
qed

lemma policy_passed_warn:
  assumes "evaluateDeployPolicy ce rules slug dir profiles env files = Ok (blocked, [])" and "PolicyRuleModes rules = (modes, None)"
    and "modes (rule_name r) = Some ''warn''"
    and "ce_config ce dir slug profiles env files = Some cfg" and "ce_decode ce cfg = Some doc"
  shows "\<forall>(n, svc) \<in> set doc. \<not> breaks r svc"
proof -
  have en: "any_mode (\<lambda>x. x \<noteq> ''off'') modes"
    using any_mode_rule [of modes r "''warn''"] assms(3) by simp
  obtain vs where vs: "EvaluatePolicy (ce_decode ce) cfg modes = Ok vs"
    using assms(5) by (simp add: EvaluatePolicy_def)
  then have "filter (\<lambda>v. pv_Mode v = ''warn'') vs = []"
    using assms(1,2,4) en by (auto simp: evaluateDeployPolicy_def)
  moreover
  have "map violation_key vs = concat (map (violations_of modes) (sort_key fst doc))"
    using EvaluatePolicy_keys [OF vs] assms(5) by simp
  ultimately show ?thesis
    using violation_found [where modes = modes and r = r and vs = vs and doc = doc] assms(3) by (fastforce simp: filter_empty_conv)
qed

lemma policy_proceeds:
  assumes "policyCheckOrRefuse ce s r p dir profiles env files confirmed kind now = (None, s')"
  shows "\<exists>warned. evaluateDeployPolicy ce (ds_rules s) (p_Slug p) dir profiles env files = Ok ([], warned) \<and> (warned = [] \<or> confirmed)"
  using assms by (auto simp: policyCheckOrRefuse_def split: sum.splits if_splits prod.splits)

lemma policy_read: "evaluateDeployPolicy ce rules slug dir profiles env files = Ok x \<Longrightarrow> \<exists>modes. PolicyRuleModes rules = (modes, None)"
  by (auto simp: evaluateDeployPolicy_def split: prod.splits option.splits rules_error.splits)

lemma after_last_notin: "c \<notin> set s \<Longrightarrow> after_last c s = None"
  by (induction s) auto

lemma after_last_append: "c \<notin> set t \<Longrightarrow> after_last c (s @ c # t) = Some t"
  by (induction s) (auto simp: after_last_notin)

lemma isLatestTag_rest:
  assumes "registry = [] \<or> last registry = CHR ''/''" and "rest \<noteq> []" and "CHR ''/'' \<notin> set rest"
    and "CHR ''@'' \<notin> set (registry @ rest)"
  shows "isLatestTag (registry @ rest) = (case after_last (CHR '':'') rest of None \<Rightarrow> True | Some tag \<Rightarrow> tag = ''latest'')"
proof -
  have "(case after_last (CHR ''/'') (registry @ rest) of None \<Rightarrow> registry @ rest | Some t \<Rightarrow> t) = rest"
  proof (cases "registry = []")
    case False
    then have "registry = butlast registry @ [CHR ''/'']" using assms(1) by (metis append_butlast_last_id)
    then have "after_last (CHR ''/'') (registry @ rest) = Some rest"
      using after_last_append [OF assms(3), of "butlast registry"] by (metis append.assoc append_Cons append_Nil)
    then show ?thesis by simp
  qed (use assms(3) in \<open>simp add: after_last_notin\<close>)
  moreover have "\<not> contains (registry @ rest) ''@''"
  proof
    assume "contains (registry @ rest) ''@''"
    then obtain a b where "registry @ rest = a @ ''@'' @ b" by (auto simp: contains_iff)
    then have "CHR ''@'' \<in> set (registry @ rest)" by simp
    with assms(4) show False by blast
  qed
  ultimately show ?thesis using assms(2) by (simp add: isLatestTag_def Let_def)
qed

lemma map_of_rev: "distinct (map fst kvs) \<Longrightarrow> map_of (rev kvs) = map_of kvs"
  by (rule map_of_inject_set [THEN iffD2]) (simp_all add: rev_map [symmetric])

lemma map_of_filter_split:
  "distinct (map fst kvs) \<Longrightarrow> map_of (filter (\<lambda>(i, x). P i x) kvs) i =
    (case map_of kvs i of None \<Rightarrow> None | Some x \<Rightarrow> if P i x then Some x else None)"
proof (induction kvs)
  case (Cons kv kvs)
  obtain k x where kv: "kv = (k, x)" by (cases kv)
  have "map_of (filter (\<lambda>(i, x). P i x) kvs) k = None"
    using Cons.prems by (force simp: kv map_of_eq_None_iff)
  with Cons show ?case by (cases "i = k") (simp_all add: kv)
qed simp

section \<open>Properties\<close>

text \<open>C13. The evaluation of a compose file reports exactly the broken rules that are turned on, each once for
  each service that breaks it, with the configured mode; services come in the order of their
  names and rules in the order of the list of rules.\<close>

theorem EvaluatePolicy_exact:
  assumes "decode cfg = Some doc"
  shows "\<exists>vs. EvaluatePolicy decode cfg modes = Ok vs \<and> map violation_key vs = concat (map (violations_of modes) (sort_key fst doc))"
  using assms by (simp add: EvaluatePolicy_def evaluate_fold_keys)

text \<open>The gate of a deployment is closed: when it lets a deployment through, the rules could be read; for
  every rule that blocks, the configuration that is deployed (of the same directory, profiles,
  environment and files) could be resolved and decoded and no service of it breaks the rule; and
  unless the warnings were confirmed, no service breaks a rule that warns.\<close>

theorem policy_gate_closed:
  assumes "policyCheckOrRefuse ce s r p dir profiles env files confirmed kind now = (None, s')"
  shows "\<exists>modes. PolicyRuleModes (ds_rules s) = (modes, None)
    \<and> (\<forall>rule. modes (rule_name rule) = Some ''block'' \<longrightarrow>
        (\<exists>cfg doc. ce_config ce dir (p_Slug p) profiles env files = Some cfg \<and> ce_decode ce cfg = Some doc
          \<and> (\<forall>(n, svc) \<in> set doc. \<not> breaks rule svc)))
    \<and> (\<not> confirmed \<longrightarrow> (\<forall>rule cfg doc. modes (rule_name rule) = Some ''warn'' \<longrightarrow>
        ce_config ce dir (p_Slug p) profiles env files = Some cfg \<longrightarrow> ce_decode ce cfg = Some doc \<longrightarrow>
        (\<forall>(n, svc) \<in> set doc. \<not> breaks rule svc)))"
proof -
  obtain warned where w: "evaluateDeployPolicy ce (ds_rules s) (p_Slug p) dir profiles env files = Ok ([], warned)" "warned = [] \<or> confirmed"
    using policy_proceeds [OF assms] by blast
  obtain modes where m: "PolicyRuleModes (ds_rules s) = (modes, None)" using policy_read [OF w(1)] by blast
  have "warned = []" if "\<not> confirmed" using w(2) that by simp
  then show ?thesis using m policy_passed [OF w(1) m] policy_passed_warn [OF _ m, of ce "p_Slug p" dir profiles env files "[]"] w(1)
    by blast
qed

text \<open>What an administrator saves for the rules is what deployments are checked against: a known rule
  has the saved mode when that is one of the three modes and is off otherwise; nothing else
  is a rule.\<close>

theorem policy_rules_roundtrip:
  assumes "SetPolicyRuleModes s modes = (Ok (), s')" and "\<not> rs_get_fails s" and "distinct (map fst modes)"
  shows "\<exists>m. PolicyRuleModes s' = (m, None) \<and>
    (\<forall>i. m i = (if i \<notin> set PolicyRuleIDs then None
        else case map_of modes i of Some x \<Rightarrow> if x \<in> set PolicyModes then Some x else Some ''off'' | None \<Rightarrow> Some ''off''))"
proof -
  have s': "s' = s\<lparr>rs_setting := StoredRules (valid_entries modes)\<rparr>"
    using assms(1) by (auto simp: SetPolicyRuleModes_def split: if_splits)
  have idem: "valid_entries (valid_entries modes) = valid_entries modes" by (simp add: valid_entries_def)
  have d: "distinct (map fst (valid_entries modes))"
    using assms(3) by (simp add: valid_entries_def distinct_map_filter)
  have rules: "PolicyRuleModes s' = (rules_off ++ map_of (valid_entries modes), None)"
    using assms(2) by (simp add: s' PolicyRuleModes_def updates_as_map idem map_of_rev d)
  have sel: "map_of (valid_entries modes) i = (case map_of modes i of None \<Rightarrow> None | Some x \<Rightarrow>
      if i \<in> set PolicyRuleIDs \<and> x \<in> set PolicyModes then Some x else None)" for i
    using assms(3) by (simp add: valid_entries_def map_of_filter_split validPolicyRuleID_def validPolicyMode_def list_ex_iff)
  show ?thesis
    by (rule exI, rule conjI [OF rules]) (auto simp: map_add_def sel rules_off_lookup split: option.splits)
qed

text \<open>No spelling of a path hides the Docker socket: an absolute bind source that resolves, element by
  element, to the socket or to a directory above it in one of the two standard places is found,
  whatever the target and however many slashes, dots and parent steps the path contains.\<close>

theorem socket_mount_found:
  assumes "path_rooted src" and "c \<in> {[''var'', ''run'', ''docker.sock''], [''run'', ''docker.sock'']}"
    and "prefix (clean_parts src) c"
  shows "mountsDockerSocket src target"
proof -
  have "clean_parts src \<in> {[], [''var''], [''var'', ''run''], [''var'', ''run'', ''docker.sock''], [''run''], [''run'', ''docker.sock'']}"
    using assms(2,3) by (auto simp: prefix_Cons)
  then show ?thesis using assms(1)
    by (elim insertE emptyE)
      (simp_all add: mountsDockerSocket_def path_Clean_def dockerSocketCandidatePaths_def has_suffix_def)
qed

text \<open>An image reference counts as unpinned exactly when it has no digest and its tag is missing or is
  \<open>latest\<close>; a port in the registry's name is not a tag.\<close>

theorem latest_tag_exact:
  assumes "registry = [] \<or> last registry = CHR ''/''" and "name \<noteq> []" and "set name \<inter> {CHR ''/'', CHR '':''} = {}"
    and "set tag \<inter> {CHR ''/'', CHR '':''} = {}" and "CHR ''@'' \<notin> set (registry @ name @ tag)"
  shows "isLatestTag (registry @ name) \<and> (isLatestTag (registry @ name @ '':'' @ tag) \<longleftrightarrow> tag = ''latest'')
    \<and> \<not> isLatestTag (ref @ ''@'' @ digest)"
proof -
  have "after_last (CHR '':'') (name @ '':'' @ tag) = Some tag" using assms(4) by (simp add: after_last_append)
  moreover have "after_last (CHR '':'') name = None" using assms(3) by (intro after_last_notin) auto
  moreover have "CHR ''/'' \<notin> set (name @ '':'' @ tag)" "CHR ''@'' \<notin> set (registry @ name @ '':'' @ tag)"
    using assms(3-5) by auto
  moreover have "\<not> isLatestTag (ref @ ''@'' @ digest)" by (auto simp: isLatestTag_def contains_iff)
  ultimately show ?thesis
    using isLatestTag_rest [OF assms(1), of name] isLatestTag_rest [OF assms(1), of "name @ '':'' @ tag"] assms(2,3,5) by simp
qed

section \<open>Witnesses\<close>

definition demo_service :: compose_service where
  "demo_service = \<lparr>cs_Image = ''registry:5000/shop/web'', cs_Volumes = [\<lparr>cv_Type = ''bind'', cv_Source = ''/var//run/../run/'', cv_Target = ''/mnt''\<rparr>],
     cs_Privileged = False, cs_NetworkMode = [], cs_Pid = [], cs_LimitCPUs = 0, cs_LimitMemory = 0, cs_CPUs = 1, cs_MemLimit = 0,
     cs_Healthcheck = None\<rparr>"

definition pinned_service :: compose_service where
  "pinned_service = demo_service\<lparr>cs_Image := ''registry:5000/shop/web:1.2'', cs_Volumes := []\<rparr>"

definition demo_compose :: compose_env where
  "demo_compose = \<lparr>ce_config = (\<lambda>dir slug profiles env files. if slug = ''shop'' then Some ''bad'' else Some ''good''),
     ce_decode = (\<lambda>cfg. Some [(''web'', if cfg = ''bad'' then demo_service else pinned_service)]), ce_text = (\<lambda>_. [])\<rparr>"

definition demo_rules :: rules_store where
  "demo_rules = \<lparr>rs_setting = StoredRules [(''docker_socket_mount'', ''block''), (''latest_tag'', ''warn'')], rs_get_fails = False, rs_put_fails = False\<rparr>"

definition demo_deploy :: deploy_srv where
  "demo_deploy = \<lparr>ds_srv = \<lparr>sv_db = demo_db, sv_mw = empty_mdb, sv_audit = \<lparr>a_log = tbl_empty, a_ins_fails = False, a_sel_fails = False\<rparr>\<rparr>,
     ds_rules = demo_rules\<rparr>"

definition demo_project :: "string \<Rightarrow> Project" where
  "demo_project slug = \<lparr>p_ID = 1, p_Name = ''Shop'', p_Slug = slug, p_ComposeFile = ''compose.yml'', p_HostID = 2, p_AllowRemoteHostPaths = False,
     p_LastDeployedProfiles = [], p_CreatedBy = ''eva'', p_CreatedAt = 0, p_UpdatedAt = 0\<rparr>"

lemma demo_gate_blocks:
  "(case fst (policyCheckOrRefuse demo_compose demo_deploy (demo_request ''POST'' ''/api/projects/1/deploy'' []) (demo_project ''shop'')
      ''d'' [] [] [] True ''deploy'' 0) of Some (RefBlocked [v]) \<Rightarrow> pv_Rule v = RuleDockerSocket | _ \<Rightarrow> False)"
  by code_simp

theorem EvaluatePolicy_exact_witness:
  "\<exists>vs. EvaluatePolicy (ce_decode demo_compose) ''bad'' (fst (PolicyRuleModes demo_rules)) = Ok vs
    \<and> map violation_key vs = [(''web'', RuleDockerSocket, ''block''), (''web'', RuleLatestTag, ''warn'')]"
proof -
  have d: "ce_decode demo_compose ''bad'' = Some [(''web'', demo_service)]" by (simp add: demo_compose_def)
  have "concat (map (violations_of (fst (PolicyRuleModes demo_rules))) (sort_key fst [(''web'', demo_service)]))
     = [(''web'', RuleDockerSocket, ''block''), (''web'', RuleLatestTag, ''warn'')]" by code_simp
  with EvaluatePolicy_exact [of "ce_decode demo_compose", OF d] show ?thesis by metis
qed

theorem policy_gate_closed_witness:
  "\<not> breaks RuleDockerSocket pinned_service \<and> \<not> breaks RuleLatestTag pinned_service"
proof -
  let ?r = "demo_request ''POST'' ''/api/projects/1/deploy'' []"
  let ?c = "policyCheckOrRefuse demo_compose demo_deploy ?r (demo_project ''pinned'') ''d'' [] [] [] False ''deploy'' 0"
  have "fst ?c = None" by code_simp
  then have c: "?c = (None, snd ?c)" by (simp add: prod_eq_iff)
  have m: "snd (PolicyRuleModes (ds_rules demo_deploy)) = None" "fst (PolicyRuleModes (ds_rules demo_deploy)) (rule_name RuleDockerSocket) = Some ''block''"
    "fst (PolicyRuleModes (ds_rules demo_deploy)) (rule_name RuleLatestTag) = Some ''warn''" by code_simp+
  have e: "ce_config demo_compose ''d'' (p_Slug (demo_project ''pinned'')) [] [] [] = Some ''good''"
    "ce_decode demo_compose ''good'' = Some [(''web'', pinned_service)]" by (simp_all add: demo_compose_def demo_project_def)
  show ?thesis using policy_gate_closed [OF c] m e by (auto simp: prod_eq_iff simp del: breaks.simps rule_name.simps)
qed

theorem policy_rules_roundtrip_witness:
  "\<exists>m. PolicyRuleModes (snd (SetPolicyRuleModes demo_rules [(''latest_tag'', ''block''), (''host_pid'', ''sometimes'')])) = (m, None)
    \<and> m ''latest_tag'' = Some ''block'' \<and> m ''host_pid'' = Some ''off'' \<and> m ''docker_socket_mount'' = Some ''off''"
proof -
  let ?kvs = "[(''latest_tag'', ''block''), (''host_pid'', ''sometimes'')]"
  have s: "SetPolicyRuleModes demo_rules ?kvs = (Ok (), snd (SetPolicyRuleModes demo_rules ?kvs))"
    by (simp add: SetPolicyRuleModes_def demo_rules_def)
  have g: "\<not> rs_get_fails demo_rules" by (simp add: demo_rules_def)
  obtain m where "PolicyRuleModes (snd (SetPolicyRuleModes demo_rules ?kvs)) = (m, None)"
    "\<forall>i. m i = (if i \<notin> set PolicyRuleIDs then None
        else case map_of ?kvs i of Some x \<Rightarrow> if x \<in> set PolicyModes then Some x else Some ''off'' | None \<Rightarrow> Some ''off'')"
    using policy_rules_roundtrip [OF s g] by auto
  then show ?thesis by (simp add: PolicyRuleIDs_def PolicyModes_def)
qed

theorem socket_mount_found_witness: "mountsDockerSocket ''/var//run/../run/'' ''/mnt''"
proof (rule socket_mount_found)
  show "path_rooted ''/var//run/../run/''" by code_simp
  show "[''var'', ''run'', ''docker.sock''] \<in> {[''var'', ''run'', ''docker.sock''], [''run'', ''docker.sock'']}" by simp
  have "clean_parts ''/var//run/../run/'' = [''var'', ''run'']" by code_simp
  then show "prefix (clean_parts ''/var//run/../run/'') [''var'', ''run'', ''docker.sock'']" by simp
qed

theorem latest_tag_exact_witness:
  "isLatestTag ''registry:5000/shop/web'' \<and> \<not> isLatestTag ''registry:5000/shop/web:1.2'' \<and> \<not> isLatestTag ''web:latest@sha256:0''"
  using latest_tag_exact [of "''registry:5000/shop/''" "''web''" "''1.2''" "''web:latest''" "''sha256:0''"] by simp

end
