(* ===== verification/Projects.thy ===== *)
theory Projects
  imports DeployPolicy
begin

text \<open>
  The tables of compose projects and their revisions, \<open>src/internal/store/projects.go\<close> and
  \<open>project_revisions.go\<close>, and the lock that lets one operation at a time change a project,
  \<open>src/internal/api/project_oplock.go\<close>. Rows that belong to a project in other tables (drift
  ignores, secrets, domain mappings, image update states) are kept as the project id and a text. The
  lock is a map from projects to what runs on them: the mutex of a project makes the test and the
  setting of its flag one step.
\<close>

section \<open>projects.go and project_revisions.go\<close>

record RevisionImage =
  ri_Service :: string
  ri_Image :: string
  ri_Digest :: string

record ProjectRevision =
  rv_ID :: int
  rv_ProjectID :: int
  rv_Revision :: int
  rv_HostID :: int
  rv_Profiles :: "string list"
  rv_Images :: "RevisionImage list"
  rv_Valid :: bool
  rv_ValidationError :: string
  rv_Output :: string
  rv_Author :: string
  rv_Reason :: string
  rv_CreatedAt :: time

datatype child_table = DriftIgnores | ProjectSecrets | DomainMappings | ImageUpdateState

datatype proj_stmt = InsProject | SelProjects | SelProject int | UpdProject int | DelProject int | DelChildren child_table int
  | DelRevisions int | BeginRev | SelMaxRev int | InsRevision int | CommitRev | SelRevisions int | UpdRevision int

datatype proj_error = PErrNotFound | PErrDuplicate | PErrUnique | PErrSQL

record project_store =
  pt_projects :: "Project tbl"
  pt_revisions :: "ProjectRevision tbl"
  pt_children :: "(child_table \<times> int \<times> string) list"
  pt_fails :: "proj_stmt \<Rightarrow> bool"

definition CreateProject :: "project_store \<Rightarrow> Project \<Rightarrow> time \<Rightarrow> (proj_error + int) \<times> project_store" where
  "CreateProject s p now =
     (if pt_fails s InsProject then (Err PErrSQL, s)
      else if list_ex (\<lambda>(i, q). p_Slug q = p_Slug p) (tbl_rows (pt_projects s)) then (Err PErrDuplicate, s)
      else let (i, tb) = tbl_insert (p\<lparr>p_ComposeFile := (if p_ComposeFile p = [] then ''compose.yml'' else p_ComposeFile p),
                p_LastDeployedProfiles := [], p_CreatedAt := trunc_sec now, p_UpdatedAt := trunc_sec now\<rparr>) (pt_projects s)
           in (Ok i, s\<lparr>pt_projects := tb\<rparr>))"

definition scanProjectRow :: "int \<times> Project \<Rightarrow> Project" where
  "scanProjectRow row = (snd row)\<lparr>p_ID := fst row\<rparr>"

definition ListProjects :: "project_store \<Rightarrow> proj_error + Project list" where
  "ListProjects s =
     (if pt_fails s SelProjects then Err PErrSQL
      else Ok (map scanProjectRow (sort_key (\<lambda>(i, p). p_Name p) (tbl_rows (pt_projects s)))))"

definition ProjectByID :: "project_store \<Rightarrow> int \<Rightarrow> proj_error + Project" where
  "ProjectByID s i =
     (if pt_fails s (SelProject i) then Err PErrSQL
      else case tbl_lookup (pt_projects s) i of None \<Rightarrow> Err PErrNotFound | Some p \<Rightarrow> Ok (scanProjectRow (i, p)))"

definition update_project :: "(Project \<Rightarrow> Project) \<Rightarrow> project_store \<Rightarrow> int \<Rightarrow> (proj_error + unit) \<times> project_store" where
  "update_project f s i =
     (if pt_fails s (UpdProject i) then (Err PErrSQL, s)
      else (Ok (), s\<lparr>pt_projects := tbl_update i f (pt_projects s)\<rparr>))"

definition UpdateProjectSettings ::
    "project_store \<Rightarrow> int \<Rightarrow> string \<Rightarrow> int \<Rightarrow> bool \<Rightarrow> time \<Rightarrow> (proj_error + unit) \<times> project_store" where
  "UpdateProjectSettings s i name host remote_paths now =
     update_project (\<lambda>p. p\<lparr>p_Name := name, p_HostID := host, p_AllowRemoteHostPaths := remote_paths, p_UpdatedAt := trunc_sec now\<rparr>) s i"

definition TouchProject :: "project_store \<Rightarrow> int \<Rightarrow> time \<Rightarrow> (proj_error + unit) \<times> project_store" where
  "TouchProject s i now = update_project (\<lambda>p. p\<lparr>p_UpdatedAt := trunc_sec now\<rparr>) s i"

definition SetLastDeployedProfiles ::
    "project_store \<Rightarrow> int \<Rightarrow> string list \<Rightarrow> time \<Rightarrow> (proj_error + unit) \<times> project_store" where
  "SetLastDeployedProfiles s i profiles now =
     update_project (\<lambda>p. p\<lparr>p_LastDeployedProfiles := profiles, p_UpdatedAt := trunc_sec now\<rparr>) s i"

definition delete_children :: "child_table \<Rightarrow> int \<Rightarrow> project_store \<Rightarrow> (proj_error + unit) \<times> project_store" where
  "delete_children t i s =
     (if pt_fails s (DelChildren t i) then (Err PErrSQL, s)
      else (Ok (), s\<lparr>pt_children := filter (\<lambda>(u, j, x). \<not> (u = t \<and> j = i)) (pt_children s)\<rparr>))"

definition deleteProjectRevisions :: "int \<Rightarrow> project_store \<Rightarrow> (proj_error + unit) \<times> project_store" where
  "deleteProjectRevisions i s =
     (if pt_fails s (DelRevisions i) then (Err PErrSQL, s)
      else (Ok (), s\<lparr>pt_revisions := (pt_revisions s)\<lparr>tbl_rows := filter (\<lambda>(j, r). rv_ProjectID r \<noteq> i) (tbl_rows (pt_revisions s))\<rparr>\<rparr>))"

definition delete_project_row :: "int \<Rightarrow> project_store \<Rightarrow> (proj_error + unit) \<times> project_store" where
  "delete_project_row i s =
     (if pt_fails s (DelProject i) then (Err PErrSQL, s)
      else (Ok (), s\<lparr>pt_projects := tbl_delete i (pt_projects s)\<rparr>))"

text \<open>Statements one after the other, each committed on its own; the first failure ends the list.\<close>

fun run_stmts :: "(project_store \<Rightarrow> (proj_error + unit) \<times> project_store) list \<Rightarrow> project_store \<Rightarrow> (proj_error + unit) \<times> project_store" where
  "run_stmts [] s = (Ok (), s)"
| "run_stmts (f # fs) s = (case f s of (Inl e, s1) \<Rightarrow> (Err e, s1) | (Inr _, s1) \<Rightarrow> run_stmts fs s1)"

definition DeleteProject :: "project_store \<Rightarrow> int \<Rightarrow> (proj_error + unit) \<times> project_store" where
  "DeleteProject s i =
     run_stmts [delete_children DriftIgnores i, deleteProjectRevisions i, delete_children ProjectSecrets i,
       delete_children DomainMappings i, delete_children ImageUpdateState i, delete_project_row i] s"

text \<open>One transaction: the highest number of the project, the insert of the next one.\<close>

definition revisions_of :: "project_store \<Rightarrow> int \<Rightarrow> int list" where
  "revisions_of s pid = map (rv_Revision \<circ> snd) (filter (\<lambda>(i, r). rv_ProjectID r = pid) (tbl_rows (pt_revisions s)))"

definition max_revision :: "int list \<Rightarrow> int" where
  "max_revision ns = (if ns = [] then 0 else Max (set ns))"

definition createRevisionOnce ::
    "project_store \<Rightarrow> ProjectRevision \<Rightarrow> time \<Rightarrow> (proj_error + int \<times> int) \<times> project_store" where
  "createRevisionOnce s rv now =
     (let pid = rv_ProjectID rv; nextRev = max_revision (revisions_of s pid) + 1
      in if pt_fails s BeginRev \<or> pt_fails s (SelMaxRev pid) \<or> pt_fails s (InsRevision pid) then (Err PErrSQL, s)
         else if nextRev \<in> set (revisions_of s pid) then (Err PErrUnique, s)
         else if pt_fails s CommitRev then (Err PErrSQL, s)
         else let (i, tb) = tbl_insert (rv\<lparr>rv_Revision := nextRev, rv_CreatedAt := trunc_sec now\<rparr>) (pt_revisions s)
              in (Ok (i, nextRev), s\<lparr>pt_revisions := tb\<rparr>))"

definition createRevisionMaxRetries :: nat where "createRevisionMaxRetries = 5"

text \<open>The loop with the attempts that are left.\<close>

fun create_loop :: "nat \<Rightarrow> project_store \<Rightarrow> ProjectRevision \<Rightarrow> time \<Rightarrow> (proj_error + int \<times> int) \<times> project_store" where
  "create_loop n s rv now =
     (case createRevisionOnce s rv now of
        (Inl e, s1) \<Rightarrow> (case n of 0 \<Rightarrow> (Err e, s1) | Suc m \<Rightarrow> if e = PErrUnique then create_loop m s1 rv now else (Err e, s1))
      | (Inr x, s1) \<Rightarrow> (Ok x, s1))"

definition CreateRevision ::
    "project_store \<Rightarrow> ProjectRevision \<Rightarrow> time \<Rightarrow> (proj_error + int \<times> int) \<times> project_store" where
  "CreateRevision s rv now = create_loop createRevisionMaxRetries s rv now"

definition scanRevisionRow :: "int \<times> ProjectRevision \<Rightarrow> ProjectRevision" where
  "scanRevisionRow row = (snd row)\<lparr>rv_ID := fst row\<rparr>"

definition ListRevisions :: "project_store \<Rightarrow> int \<Rightarrow> proj_error + ProjectRevision list" where
  "ListRevisions s pid =
     (if pt_fails s (SelRevisions pid) then Err PErrSQL
      else Ok (map scanRevisionRow (sort_key (\<lambda>(i, r). - rv_Revision r) (filter (\<lambda>(i, r). rv_ProjectID r = pid) (tbl_rows (pt_revisions s))))))"

definition RevisionByNumber :: "project_store \<Rightarrow> int \<Rightarrow> int \<Rightarrow> proj_error + ProjectRevision" where
  "RevisionByNumber s pid n =
     (if pt_fails s (SelRevisions pid) then Err PErrSQL
      else case find (\<lambda>(i, r). rv_ProjectID r = pid \<and> rv_Revision r = n) (tbl_rows (pt_revisions s)) of
        None \<Rightarrow> Err PErrNotFound | Some row \<Rightarrow> Ok (scanRevisionRow row))"

definition LatestRevision :: "project_store \<Rightarrow> int \<Rightarrow> proj_error + ProjectRevision" where
  "LatestRevision s pid =
     (if pt_fails s (SelRevisions pid) then Err PErrSQL
      else case sort_key (\<lambda>(i, r). - rv_Revision r) (filter (\<lambda>(i, r). rv_ProjectID r = pid) (tbl_rows (pt_revisions s))) of
        [] \<Rightarrow> Err PErrNotFound | row # _ \<Rightarrow> Ok (scanRevisionRow row))"

definition SetRevisionValid :: "project_store \<Rightarrow> int \<Rightarrow> bool \<Rightarrow> string \<Rightarrow> (proj_error + unit) \<times> project_store" where
  "SetRevisionValid s i valid text =
     (if pt_fails s (UpdRevision i) then (Err PErrSQL, s)
      else (Ok (), s\<lparr>pt_revisions := tbl_update i (\<lambda>r. r\<lparr>rv_Valid := valid, rv_ValidationError := text\<rparr>) (pt_revisions s)\<rparr>))"

definition ClearDriftIgnores :: "project_store \<Rightarrow> int \<Rightarrow> (proj_error + unit) \<times> project_store" where
  "ClearDriftIgnores s i = delete_children DriftIgnores i s"

section \<open>The lock of a project\<close>

type_synonym project_ops = "int \<rightharpoonup> string"

definition beginProjectOp :: "project_ops \<Rightarrow> int \<Rightarrow> string \<Rightarrow> string option \<times> project_ops" where
  "beginProjectOp ops i what = (case ops i of Some busy \<Rightarrow> (Some busy, ops) | None \<Rightarrow> (None, ops(i \<mapsto> what)))"

definition release_op :: "project_ops \<Rightarrow> int \<Rightarrow> project_ops" where
  "release_op ops i = ops(i := None)"

text \<open>The project that deploys a stack: the one of its name on the same daemon, with \<open>ResolveHostID\<close>
  given the default host.\<close>

definition ResolveHostID :: "int option \<Rightarrow> int \<Rightarrow> int option" where
  "ResolveHostID local_host h = (if h > 0 then Some h else local_host)"

definition stackProject :: "int option \<Rightarrow> project_store \<Rightarrow> int \<Rightarrow> string \<Rightarrow> unit + Project option" where
  "stackProject local_host s hostID stack =
     (case ListProjects s of
        Inl _ \<Rightarrow> Err ()
      | Inr projects \<Rightarrow>
        (case ResolveHostID local_host hostID of
           None \<Rightarrow> Err ()
         | Some host \<Rightarrow> Ok (find (\<lambda>p. p_Slug p = stack \<and> ResolveHostID local_host (p_HostID p) = Some host) projects)))"

datatype stack_claim = StackUnknown | StackBusy string | StackFree | StackClaimed int

definition beginStackOp ::
    "int option \<Rightarrow> project_store \<Rightarrow> project_ops \<Rightarrow> int \<Rightarrow> string \<Rightarrow> string \<Rightarrow> stack_claim \<times> project_ops" where
  "beginStackOp local_host s ops hostID stack what =
     (case stackProject local_host s hostID stack of
        Inl _ \<Rightarrow> (StackUnknown, ops)
      | Inr None \<Rightarrow> (StackFree, ops)
      | Inr (Some p) \<Rightarrow>
        (case beginProjectOp ops (p_ID p) what of
           (Some busy, ops1) \<Rightarrow> (StackBusy busy, ops1)
         | (None, ops1) \<Rightarrow> (StackClaimed (p_ID p), ops1)))"

section \<open>Interleaved operations\<close>

text \<open>Operations of several requests on the lock. An operation asks for its project, runs until it is
  released, or is refused and told what runs.\<close>

datatype op_state = Asking int string | Running int string | Refused int string | Finished

type_synonym op_world = "project_ops \<times> (nat \<Rightarrow> op_state)"

inductive op_step :: "op_world \<Rightarrow> op_world \<Rightarrow> bool" where
  begins: "th k = Asking i what \<Longrightarrow> beginProjectOp ops i what = (None, ops') \<Longrightarrow> op_step (ops, th) (ops', th(k := Running i what))"
| refused: "th k = Asking i what \<Longrightarrow> beginProjectOp ops i what = (Some busy, ops') \<Longrightarrow> op_step (ops, th) (ops', th(k := Refused i busy))"
| finishes: "th k = Running i what \<Longrightarrow> op_step (ops, th) (release_op ops i, th(k := Finished))"

inductive_cases op_step_cases: "op_step (ops, th) w"

inductive op_reachable :: "(nat \<Rightarrow> op_state) \<Rightarrow> op_world \<Rightarrow> bool" for start where
  op_init: "(\<forall>k. case start k of Asking _ _ \<Rightarrow> True | _ \<Rightarrow> False) \<Longrightarrow> op_reachable start (Map.empty, start)"
| op_next: "op_reachable start w \<Longrightarrow> op_step w w' \<Longrightarrow> op_reachable start w'"

definition ops_inv :: "op_world \<Rightarrow> bool" where
  "ops_inv w \<longleftrightarrow> (\<forall>i what. fst w i = Some what \<longrightarrow> (\<exists>k. snd w k = Running i what))
     \<and> (\<forall>k i what. snd w k = Running i what \<longrightarrow> fst w i = Some what)
     \<and> (\<forall>k l i a b. snd w k = Running i a \<longrightarrow> snd w l = Running i b \<longrightarrow> k = l)"

lemma beginProjectOp_cases:
  "beginProjectOp ops i what = (None, ops') \<longleftrightarrow> ops i = None \<and> ops' = ops(i \<mapsto> what)"
  "beginProjectOp ops i what = (Some busy, ops') \<longleftrightarrow> ops i = Some busy \<and> ops' = ops"
  by (auto simp: beginProjectOp_def split: option.splits)

lemma ops_invI:
  assumes "\<And>i what. ops i = Some what \<Longrightarrow> \<exists>k. th k = Running i what"
    and "\<And>k i what. th k = Running i what \<Longrightarrow> ops i = Some what"
    and "\<And>k l i a b. th k = Running i a \<Longrightarrow> th l = Running i b \<Longrightarrow> k = l"
  shows "ops_inv (ops, th)"
  using assms by (simp add: ops_inv_def)

lemma ops_invD:
  assumes "ops_inv (ops, th)"
  shows "ops i = Some what \<Longrightarrow> \<exists>k. th k = Running i what" and "th k = Running i what \<Longrightarrow> ops i = Some what"
    and "th k = Running i a \<Longrightarrow> th l = Running i b \<Longrightarrow> k = l"
  using assms by (auto simp: ops_inv_def)

lemma ops_inv_begins:
  assumes "ops_inv (ops, th)" and "th k = Asking i what" and "ops i = None"
  shows "ops_inv (ops(i \<mapsto> what), th(k := Running i what))"
proof (rule ops_invI)
  have none: "th l \<noteq> Running i b" for l b using ops_invD(2) [OF assms(1)] assms(3) by force
  show "\<exists>l. (th(k := Running i what)) l = Running j x" if "(ops(i \<mapsto> what)) j = Some x" for j x
  proof (cases "j = i")
    case False
    then have "ops j = Some x" using that by simp
    then obtain l where "th l = Running j x" using ops_invD(1) [OF assms(1)] by blast
    moreover from this have "l \<noteq> k" using assms(2) by auto
    ultimately show ?thesis by (auto intro!: exI [of _ l])
  qed (use that in \<open>auto intro!: exI [of _ k]\<close>)
  show "(ops(i \<mapsto> what)) j = Some x" if "(th(k := Running i what)) l = Running j x" for l j x
    using that none ops_invD(2) [OF assms(1), of l j x] by (cases "l = k"; cases "j = i") auto
  show "l = m" if "(th(k := Running i what)) l = Running j a" "(th(k := Running i what)) m = Running j b" for l m j a b
    using that none ops_invD(3) [OF assms(1), of l j a m b] by (cases "l = k"; cases "m = k") auto
qed

lemma ops_inv_quiet:
  assumes "ops_inv (ops, th)" and "\<And>i what. th k \<noteq> Running i what" and "\<And>i what. x \<noteq> Running i what"
  shows "ops_inv (ops, th(k := x))"
proof (rule ops_invI)
  show "\<exists>l. (th(k := x)) l = Running j y" if "ops j = Some y" for j y
  proof -
    obtain l where "th l = Running j y" using ops_invD(1) [OF assms(1) \<open>ops j = Some y\<close>] by blast
    moreover from this have "l \<noteq> k" using assms(2) by auto
    ultimately show ?thesis by (auto intro!: exI [of _ l])
  qed
  show "ops j = Some y" if "(th(k := x)) l = Running j y" for l j y
    using that assms(3) ops_invD(2) [OF assms(1), of l j y] by (auto split: if_splits)
  show "l = m" if "(th(k := x)) l = Running j a" "(th(k := x)) m = Running j b" for l m j a b
    using that assms(3) ops_invD(3) [OF assms(1), of l j a m b] by (auto split: if_splits)
qed

lemma ops_inv_finishes:
  assumes "ops_inv (ops, th)" and "th k = Running i what"
  shows "ops_inv (ops(i := None), th(k := Finished))"
proof (rule ops_invI)
  have only: "l = k" if "th l = Running i b" for l b using ops_invD(3) [OF assms(1) that assms(2)] .
  show "\<exists>l. (th(k := Finished)) l = Running j y" if "(ops(i := None)) j = Some y" for j y
  proof -
    from that have j: "j \<noteq> i" "ops j = Some y" by (auto split: if_splits)
    then obtain l where "th l = Running j y" using ops_invD(1) [OF assms(1)] by blast
    moreover from this have "l \<noteq> k" using assms(2) j(1) by auto
    ultimately show ?thesis by (auto intro!: exI [of _ l])
  qed
  show "(ops(i := None)) j = Some y" if "(th(k := Finished)) l = Running j y" for l j y
    using that only [of l y] ops_invD(2) [OF assms(1), of l j y] by (auto split: if_splits)
  show "l = m" if "(th(k := Finished)) l = Running j a" "(th(k := Finished)) m = Running j b" for l m j a b
    using that ops_invD(3) [OF assms(1), of l j a m b] by (auto split: if_splits)
qed

lemma ops_inv_step: "op_step w w' \<Longrightarrow> ops_inv w \<Longrightarrow> ops_inv w'"
proof (induction rule: op_step.induct)
  case (begins th k i what ops ops')
  then show ?case by (simp add: beginProjectOp_cases ops_inv_begins)
next
  case (refused th k i what ops busy ops')
  then show ?case by (simp add: beginProjectOp_cases ops_inv_quiet)
next
  case (finishes th k i what ops)
  then show ?case by (simp add: release_op_def ops_inv_finishes)
qed

lemma ops_inv_reachable: "op_reachable start w \<Longrightarrow> ops_inv w"
proof (induction rule: op_reachable.induct)
  case op_init
  have "start k \<noteq> Running i a" for k i a using op_init [THEN spec, of k] by (cases "start k") simp_all
  then show ?case by (intro ops_invI) simp_all
next
  case (op_next w w')
  then show ?case by (blast intro: ops_inv_step)
qed

section \<open>Lemmas on the tables\<close>

lemma max_revision_above: "m \<in> set ns \<Longrightarrow> m < max_revision ns + 1"
  by (auto simp: max_revision_def dest: Max_ge [OF finite_set])

lemma createRevisionOnce_Ok:
  assumes "createRevisionOnce s rv now = (Ok (i, n), s')"
  shows "n = max_revision (revisions_of s (rv_ProjectID rv)) + 1"
    and "s' = s\<lparr>pt_revisions := snd (tbl_insert (rv\<lparr>rv_Revision := n, rv_CreatedAt := trunc_sec now\<rparr>) (pt_revisions s))\<rparr>"
  using assms by (auto simp: createRevisionOnce_def Let_def split: if_splits prod.splits)

lemma createRevisionOnce_Err:
  "createRevisionOnce s rv now = (Err e, s') \<Longrightarrow> e = PErrSQL \<and> s' = s"
  using max_revision_above [of "max_revision (revisions_of s (rv_ProjectID rv)) + 1" "revisions_of s (rv_ProjectID rv)"]
  by (auto simp: createRevisionOnce_def Let_def split: if_splits prod.splits)

lemma CreateRevision_once: "CreateRevision s rv now = createRevisionOnce s rv now"
proof -
  obtain x s1 where c: "createRevisionOnce s rv now = (x, s1)" by force
  show ?thesis
  proof (cases x)
    case (Inl e)
    then have "e \<noteq> PErrUnique" using createRevisionOnce_Err c by blast
    then show ?thesis using c Inl by (simp add: CreateRevision_def createRevisionMaxRetries_def split: nat.splits)
  qed (use c in \<open>simp add: CreateRevision_def createRevisionMaxRetries_def\<close>)
qed

lemma tbl_insert_rows: "tbl_rows (snd (tbl_insert r t)) = tbl_rows t @ [(tbl_seq t + 1, r)]"
  by (simp add: tbl_insert_def Let_def)

lemma revisions_after:
  assumes "s' = s\<lparr>pt_revisions := snd (tbl_insert rv (pt_revisions s))\<rparr>"
  shows "revisions_of s' q = revisions_of s q @ (if q = rv_ProjectID rv then [rv_Revision rv] else [])"
  by (auto simp: revisions_of_def assms tbl_insert_rows)

lemma find_append: "find P (xs @ ys) = (case find P xs of None \<Rightarrow> find P ys | Some x \<Rightarrow> Some x)"
  by (induction xs) auto

lemma find_revision_None: "n \<notin> set (revisions_of s q) \<Longrightarrow> find (\<lambda>(i, r). rv_ProjectID r = q \<and> rv_Revision r = n) (tbl_rows (pt_revisions s)) = None"
  by (force simp: find_None_iff revisions_of_def)

lemma run_stmts_Ok:
  "run_stmts (f # fs) s = (Ok x, s') \<Longrightarrow> \<exists>s1 y. f s = (Ok y, s1) \<and> run_stmts fs s1 = (Ok x, s')"
  by (auto split: prod.splits sum.splits)

lemma delete_children_Ok:
  "delete_children t i s = (Ok x, s') \<Longrightarrow> s' = s\<lparr>pt_children := filter (\<lambda>(u, j, x). \<not> (u = t \<and> j = i)) (pt_children s)\<rparr>"
  by (auto simp: delete_children_def split: if_splits)

lemma deleteProjectRevisions_Ok:
  "deleteProjectRevisions i s = (Ok x, s') \<Longrightarrow>
     s' = s\<lparr>pt_revisions := (pt_revisions s)\<lparr>tbl_rows := filter (\<lambda>(j, r). rv_ProjectID r \<noteq> i) (tbl_rows (pt_revisions s))\<rparr>\<rparr>"
  by (auto simp: deleteProjectRevisions_def split: if_splits)

lemma delete_project_row_Ok: "delete_project_row i s = (Ok x, s') \<Longrightarrow> s' = s\<lparr>pt_projects := tbl_delete i (pt_projects s)\<rparr>"
  by (auto simp: delete_project_row_def split: if_splits)

lemma run_stmts_keeps_projects:
  assumes "\<And>f s. f \<in> set fs \<Longrightarrow> pt_projects (snd (f s)) = pt_projects s"
  shows "pt_projects (snd (run_stmts fs s)) = pt_projects s"
  using assms
proof (induction fs arbitrary: s)
  case (Cons f fs)
  have "pt_projects (snd (f s)) = pt_projects s" by (rule Cons.prems) simp
  with Cons show ?case by (cases "f s") (auto split: sum.splits)
qed simp

lemma run_stmts_append:
  "run_stmts (fs @ gs) s = (case run_stmts fs s of (Inl e, s1) \<Rightarrow> (Err e, s1) | (Inr _, s1) \<Rightarrow> run_stmts gs s1)"
  by (induction fs arbitrary: s) (auto split: prod.splits sum.splits)

lemma children_keep_projects: "pt_projects (snd (delete_children t i s)) = pt_projects s"
  "pt_projects (snd (deleteProjectRevisions i s)) = pt_projects s"
  by (simp_all add: delete_children_def deleteProjectRevisions_def)

section \<open>Properties\<close>

text \<open>C14. One operation at a time changes a project: however requests interleave, two operations that run on
  the same project are the same one, the lock names exactly what runs, and a project nobody works on
  is free. A refused request was told of an operation and never runs.\<close>

theorem one_operation_per_project:
  assumes "op_reachable start (ops, th)"
  shows "(\<forall>k l i a b. th k = Running i a \<longrightarrow> th l = Running i b \<longrightarrow> k = l)
    \<and> (\<forall>i what. ops i = Some what \<longleftrightarrow> (\<exists>k. th k = Running i what))
    \<and> (\<forall>k i what w. th k = Refused i what \<longrightarrow> op_step (ops, th) w \<longrightarrow> snd w k = Refused i what)"
proof -
  have inv: "ops_inv (ops, th)" using assms by (rule ops_inv_reachable)
  have "snd w k = Refused i what" if "th k = Refused i what" "op_step (ops, th) w" for k i what w
    using that(2,1) by (cases rule: op_step.cases) auto
  then show ?thesis using inv by (auto simp: ops_inv_def)
qed

text \<open>Revisions are numbered upwards: a recorded revision gets a number above every number the project
  has, can be read back under it exactly as given, and leaves every other revision as it was. The
  retries are never needed: a failure is a failure of the database, and then nothing changed.\<close>

theorem revision_numbering:
  "case CreateRevision s rv now of
     (Inr (i, n), s') \<Rightarrow>
       (\<forall>m \<in> set (revisions_of s (rv_ProjectID rv)). m < n)
       \<and> (\<not> pt_fails s (SelRevisions (rv_ProjectID rv)) \<longrightarrow>
            RevisionByNumber s' (rv_ProjectID rv) n
              = Ok (rv\<lparr>rv_ID := tbl_seq (pt_revisions s) + 1, rv_Revision := n, rv_CreatedAt := trunc_sec now\<rparr>))
       \<and> (\<forall>q m. (q, m) \<noteq> (rv_ProjectID rv, n) \<longrightarrow> RevisionByNumber s' q m = RevisionByNumber s q m)
   | (Inl e, s') \<Rightarrow> e = PErrSQL \<and> s' = s"
proof (cases "CreateRevision s rv now")
  case (Pair x s')
  show ?thesis
  proof (cases x)
    case (Inl e)
    then show ?thesis using Pair createRevisionOnce_Err [of s rv now e s'] by (simp add: CreateRevision_once)
  next
    case (Inr y)
    obtain i n where y: "y = (i, n)" by (cases y)
    have once: "createRevisionOnce s rv now = (Ok (i, n), s')" using Pair Inr y by (simp add: CreateRevision_once)
    note n = createRevisionOnce_Ok(1) [OF once] and s' = createRevisionOnce_Ok(2) [OF once]
    have above: "m < n" if "m \<in> set (revisions_of s (rv_ProjectID rv))" for m
      using max_revision_above [OF that] n by simp
    then have "n \<notin> set (revisions_of s (rv_ProjectID rv))" by blast
    note none = find_revision_None [OF this]
    have "RevisionByNumber s' (rv_ProjectID rv) n
        = Ok (rv\<lparr>rv_ID := tbl_seq (pt_revisions s) + 1, rv_Revision := n, rv_CreatedAt := trunc_sec now\<rparr>)"
      if "\<not> pt_fails s (SelRevisions (rv_ProjectID rv))"
      using that none by (simp add: RevisionByNumber_def s' tbl_insert_rows find_append scanRevisionRow_def)
    moreover have "RevisionByNumber s' q m = RevisionByNumber s q m" if "(q, m) \<noteq> (rv_ProjectID rv, n)" for q m
      using that by (auto simp: RevisionByNumber_def s' tbl_insert_rows find_append split: option.splits)
    ultimately show ?thesis using Pair Inr y above by simp
  qed
qed


section \<open>Witnesses\<close>

definition demo_requests :: "nat \<Rightarrow> op_state" where
  "demo_requests k = Asking 1 (if k = 0 then ''a restore'' else ''a save'')"

theorem one_operation_per_project_witness:
  "let th = demo_requests(0 := Running 1 ''a restore'', 1 := Refused 1 ''a restore'')
   in \<forall>k l a b. th k = Running 1 a \<longrightarrow> th l = Running 1 b \<longrightarrow> k = l"
proof -
  let ?th1 = "demo_requests(0 := Running 1 ''a restore'')"
  have r0: "op_reachable demo_requests (Map.empty, demo_requests)" by (rule op_init) (simp add: demo_requests_def)
  have "op_step (Map.empty, demo_requests) ([1 \<mapsto> ''a restore''], ?th1)"
    by (rule begins) (simp_all add: demo_requests_def beginProjectOp_def)
  then have r1: "op_reachable demo_requests ([1 \<mapsto> ''a restore''], ?th1)" by (rule op_next [OF r0])
  have "op_step ([1 \<mapsto> ''a restore''], ?th1) ([1 \<mapsto> ''a restore''], ?th1(1 := Refused 1 ''a restore''))"
    by (rule refused [where what = "''a save''"]) (simp_all add: demo_requests_def beginProjectOp_def)
  then have "op_reachable demo_requests ([1 \<mapsto> ''a restore''], ?th1(1 := Refused 1 ''a restore''))" by (rule op_next [OF r1])
  from one_operation_per_project [OF this] show ?thesis by (simp only: Let_def) blast
qed

definition demo_revision :: ProjectRevision where
  "demo_revision = \<lparr>rv_ID = 0, rv_ProjectID = 1, rv_Revision = 0, rv_HostID = 2, rv_Profiles = [], rv_Images = [], rv_Valid = False,
     rv_ValidationError = [], rv_Output = [], rv_Author = ''eva'', rv_Reason = [], rv_CreatedAt = 0\<rparr>"

definition empty_projects :: project_store where
  "empty_projects = \<lparr>pt_projects = tbl_empty, pt_revisions = tbl_empty, pt_children = [], pt_fails = (\<lambda>_. False)\<rparr>"

definition demo_projects :: project_store where
  "demo_projects = (snd (CreateRevision (snd (CreateProject empty_projects (demo_project ''shop'') 0)) demo_revision 0))
     \<lparr>pt_children := [(ProjectSecrets, 1, ''KEY''), (ProjectSecrets, 2, ''KEY'')]\<rparr>"

theorem revision_numbering_witness:
  "fst (CreateRevision demo_projects demo_revision 0) = Ok (2, 2)
   \<and> is_ok (RevisionByNumber (snd (CreateRevision demo_projects demo_revision 0)) 1 2)
   \<and> RevisionByNumber (snd (CreateRevision demo_projects demo_revision 0)) 1 1 = RevisionByNumber demo_projects 1 1"
proof -
  have c: "fst (CreateRevision demo_projects demo_revision 0) = Ok (2, 2)" by code_simp
  have f: "\<not> pt_fails demo_projects (SelRevisions (rv_ProjectID demo_revision))" by code_simp
  obtain s' where s': "CreateRevision demo_projects demo_revision 0 = (Ok (2, 2), s')" using c by (metis prod.collapse)
  have pid: "rv_ProjectID demo_revision = 1" by (simp add: demo_revision_def)
  show ?thesis using revision_numbering [of demo_projects demo_revision 0] f unfolding s' pid by simp
qed


end
