(* ===== verification/Deploys.thy ===== *)
theory Deploys
  imports Projects Delivery
begin

text \<open>
  Deploying a project: which of its bind mounts a remote deployment may ship
  (\<open>src/internal/docker/compose_binds.go\<close>), the environment of the compose program and the
  handlers of \<open>src/internal/api/project_handlers.go\<close>, \<open>project_revisions_handlers.go\<close> and
  \<open>mcp_projects.go\<close>. The compose program, the copying of files into volumes and the contents of
  archives are parameters; what a handler makes them do is recorded as a list of effects, and
  directories are opaque contents under their names.
\<close>

section \<open>Binds\<close>

record ProjectBind =
  bd_Service :: string
  bd_Source :: string
  bd_Target :: string
  bd_ReadOnly :: bool
  bd_Rel :: string
  bd_IsFile :: bool

record bind_volume =
  bv_Type :: string
  bv_Source :: string
  bv_Target :: string
  bv_ReadOnly :: bool

text \<open>The file system as the classification asks it: the absolute form of a path, the path with its
  symbolic links followed when it exists, and whether it is a regular file.\<close>

record file_env =
  fe_abs :: "string \<Rightarrow> string option"
  fe_links :: "string \<Rightarrow> string option"
  fe_regular :: "string \<Rightarrow> bool"

definition path_of :: "string list \<Rightarrow> string" where
  "path_of parts = CHR ''/'' # join ''/'' parts"

definition path_Join :: "string \<Rightarrow> string list \<Rightarrow> string" where
  "path_Join p rest = path_Clean (join ''/'' (filter (\<lambda>e. e \<noteq> []) (p # rest)))"

fun drop_common :: "string list \<Rightarrow> string list \<Rightarrow> string list \<times> string list" where
  "drop_common (x # xs) (y # ys) = (if x = y then drop_common xs ys else (x # xs, y # ys))"
| "drop_common xs ys = (xs, ys)"

text \<open>Go's \<open>filepath.Rel\<close> on two paths.\<close>

definition path_Rel :: "string \<Rightarrow> string \<Rightarrow> string option" where
  "path_Rel base targ =
     (if path_rooted base \<noteq> path_rooted targ then None
      else case drop_common (clean_parts base) (clean_parts targ) of
        (b, t) \<Rightarrow>
          if b \<noteq> [] \<and> hd b = ''..'' then None
          else if b = [] \<and> t = [] then Some ''.''
          else Some (join ''/'' (replicate (length b) ''..'' @ t)))"

text \<open>\<open>resolveExisting\<close>: the elements of the path that is tried, last one first, and those that do not
  exist yet.\<close>

fun resolve_from :: "file_env \<Rightarrow> string \<Rightarrow> string list \<Rightarrow> string list \<Rightarrow> string" where
  "resolve_from fe whole cur rest =
     (case fe_links fe (path_of (rev cur)) of
        Some resolved \<Rightarrow> if rest = [] then resolved else path_Join resolved rest
      | None \<Rightarrow> (case cur of [] \<Rightarrow> path_Clean whole | e # es \<Rightarrow> resolve_from fe whole es (e # rest)))"

definition resolveExisting :: "file_env \<Rightarrow> string \<Rightarrow> string" where
  "resolveExisting fe p = resolve_from fe p (rev (clean_parts p)) []"

definition canonicalDir :: "file_env \<Rightarrow> string \<Rightarrow> string option" where
  "canonicalDir fe dir = (case fe_abs fe dir of None \<Rightarrow> None | Some p \<Rightarrow> fe_links fe p)"

definition relWithin :: "file_env \<Rightarrow> string \<Rightarrow> string \<Rightarrow> string option" where
  "relWithin fe rdir p =
     (if p = [] then None
      else case fe_abs fe p of
        None \<Rightarrow> None
      | Some a \<Rightarrow>
        (case path_Rel rdir (resolveExisting fe a) of
           None \<Rightarrow> None
         | Some rel \<Rightarrow> if rel = ''..'' \<or> has_prefix ''../'' rel \<or> path_rooted rel then None else Some rel))"

definition classify_volume ::
    "file_env \<Rightarrow> string \<Rightarrow> string \<Rightarrow> bind_volume \<Rightarrow> ProjectBind list \<times> ProjectBind list \<Rightarrow> ProjectBind list \<times> ProjectBind list" where
  "classify_volume fe rdir name v acc =
     (case acc of (inner, outer) \<Rightarrow>
        if bv_Type v \<noteq> ''bind'' then (inner, outer)
        else let b = \<lparr>bd_Service = name, bd_Source = bv_Source v, bd_Target = bv_Target v, bd_ReadOnly = bv_ReadOnly v,
                      bd_Rel = [], bd_IsFile = False\<rparr>
             in case relWithin fe rdir (bv_Source v) of
                  None \<Rightarrow> (inner, outer @ [b])
                | Some rel \<Rightarrow> (inner @ [b\<lparr>bd_Rel := rel, bd_IsFile := fe_regular fe (bv_Source v)\<rparr>], outer))"

definition ClassifyProjectBinds ::
    "file_env \<Rightarrow> (string \<times> bind_volume list) list option \<Rightarrow> string \<Rightarrow> (ProjectBind list \<times> ProjectBind list) option" where
  "ClassifyProjectBinds fe cfg projectDir =
     (case cfg of
        None \<Rightarrow> None
      | Some services \<Rightarrow>
        (case canonicalDir fe projectDir of
           None \<Rightarrow> None
         | Some rdir \<Rightarrow>
           Some (foldl (\<lambda>acc (name, vs). foldl (\<lambda>a v. classify_volume fe rdir name v a) acc vs) ([], []) (sort_key fst services))))"

definition uniqueRels :: "ProjectBind list \<Rightarrow> string list" where
  "uniqueRels binds = dedup (\<lambda>_. True) [] (map bd_Rel binds)"

section \<open>The environment of a deployment\<close>

datatype fs_op = FsRemove string | FsMkdir string | FsRename string string

record deploy_env =
  de_compose :: compose_env
  de_available :: bool
  de_validates :: "string \<Rightarrow> string list \<Rightarrow> bool"
  de_secrets :: "int \<Rightarrow> (string list \<times> string list) option"
  de_registry :: "(string list \<times> string list) option"
  de_hostenv :: "Host \<Rightarrow> string list option"
  de_binds :: "string \<Rightarrow> (string \<times> bind_volume list) list option"
  de_files :: file_env
  de_temp :: "nat \<Rightarrow> string option"
  de_note :: "ProjectBind list \<Rightarrow> ProjectBind list \<Rightarrow> string"
  de_seeds :: bool
  de_up :: "string \<Rightarrow> string list \<Rightarrow> bool \<times> string"
  de_command :: "string \<Rightarrow> bool \<times> string"
  de_images :: "RevisionImage list"
  de_snapshot :: "string option"
  de_zip :: "int \<Rightarrow> int \<Rightarrow> string option"
  de_root :: "int \<Rightarrow> string"
  de_grace :: duration
  de_overlay :: "string \<Rightarrow> string \<Rightarrow> string"
  de_saves :: bool
  de_fs_fails :: "fs_op \<Rightarrow> bool"
  de_now :: time

datatype env_error = EnvHostGone | EnvHostDisabled | EnvStore | EnvSecrets | EnvNoConfig | EnvNoBinds
  | EnvOutside "ProjectBind list" | EnvHost | EnvTemp | EnvRegistry

text \<open>What a deployment does outside: copying the project's files into volumes and putting them back,
  \<open>compose up\<close> with its directory, slug, profiles, environment, files and the build and pull flags,
  and the other compose commands.\<close>

datatype deploy_effect = EffSeed int string "ProjectBind list" | EffUnseed int string
  | EffUp string string "string list" "string list" "string list" bool bool | EffCommand string string

record project_srv =
  pj_deploy :: deploy_srv
  pj_store :: project_store
  pj_ops :: project_ops
  pj_fs :: "string \<rightharpoonup> string"
  pj_effects :: "deploy_effect list"

abbreviation pj_db :: "project_srv \<Rightarrow> db" where "pj_db s \<equiv> sv_db (ds_srv (pj_deploy s))"

definition NormalizeProfiles :: "string list \<Rightarrow> string list" where
  "NormalizeProfiles ps = dedup (\<lambda>p. p \<noteq> []) [] (map trim_space ps)"

definition projectHost :: "db \<Rightarrow> Project \<Rightarrow> env_error + Host option" where
  "projectHost d p =
     (if p_HostID p = 0 then Ok None
      else case HostByID d (p_HostID p) of
        Inl ErrNotFound \<Rightarrow> Err EnvHostGone
      | Inl _ \<Rightarrow> Err EnvStore
      | Inr h \<Rightarrow> if h_Disabled h then Err EnvHostDisabled else Ok (Some h))"

definition projectComposeEnv :: "deploy_env \<Rightarrow> db \<Rightarrow> Project \<Rightarrow> env_error + string list" where
  "projectComposeEnv de d p =
     bind_res (projectHost d p) (\<lambda>ho.
       bind_res (case ho of None \<Rightarrow> Ok [] | Some h \<Rightarrow> (case de_hostenv de h of None \<Rightarrow> Err EnvHost | Some env \<Rightarrow> Ok env)) (\<lambda>env.
         case de_secrets de (p_ID p) of None \<Rightarrow> Err EnvSecrets | Some (clear, masked) \<Rightarrow> Ok (env @ masked)))"

record deploy_plan =
  dp_env :: "string list"
  dp_files :: "string list"
  dp_note :: string
  dp_seed :: "ProjectBind list option"

definition projectDeployEnvBase :: "deploy_env \<Rightarrow> db \<Rightarrow> Project \<Rightarrow> string \<Rightarrow> string list \<Rightarrow> env_error + deploy_plan" where
  "projectDeployEnvBase de d p dir profiles =
     bind_res (projectHost d p) (\<lambda>ho.
       case ho of
         Some h \<Rightarrow>
           if h_Kind h = [] \<or> h_Kind h = ''local''
           then bind_res (projectComposeEnv de d p) (\<lambda>env. Ok \<lparr>dp_env = env, dp_files = [], dp_note = [], dp_seed = None\<rparr>)
           else (case de_secrets de (p_ID p) of
                   None \<Rightarrow> Err EnvSecrets
                 | Some (clear, masked) \<Rightarrow>
                   (case ce_config (de_compose de) dir (p_Slug p) profiles masked [] of
                      None \<Rightarrow> Err EnvNoConfig
                    | Some cfg \<Rightarrow>
                      (case ClassifyProjectBinds (de_files de) (de_binds de cfg) dir of
                         None \<Rightarrow> Err EnvNoBinds
                       | Some (inner, outer) \<Rightarrow>
                         if outer \<noteq> [] \<and> \<not> p_AllowRemoteHostPaths p then Err (EnvOutside outer)
                         else (case de_hostenv de h of
                                 None \<Rightarrow> Err EnvHost
                               | Some env \<Rightarrow>
                                 if inner = [] then Ok \<lparr>dp_env = env, dp_files = [], dp_note = de_note de [] outer, dp_seed = None\<rparr>
                                 else (case de_temp de 0 of
                                         None \<Rightarrow> Err EnvTemp
                                       | Some tmp \<Rightarrow> Ok \<lparr>dp_env = env, dp_files = [p_ComposeFile p, tmp],
                                           dp_note = de_note de inner outer, dp_seed = Some inner\<rparr>)))))
       | None \<Rightarrow> bind_res (projectComposeEnv de d p) (\<lambda>env. Ok \<lparr>dp_env = env, dp_files = [], dp_note = [], dp_seed = None\<rparr>))"

definition projectDeployEnv :: "deploy_env \<Rightarrow> db \<Rightarrow> Project \<Rightarrow> string \<Rightarrow> string list \<Rightarrow> env_error + deploy_plan" where
  "projectDeployEnv de d p dir profiles =
     bind_res (projectDeployEnvBase de d p dir profiles) (\<lambda>plan.
       case de_secrets de (p_ID p) of
         None \<Rightarrow> Err EnvSecrets
       | Some (clear, masked) \<Rightarrow>
         (case de_registry de of
            None \<Rightarrow> Err EnvRegistry
          | Some (renv, warnings) \<Rightarrow>
            Ok (plan\<lparr>dp_env := dp_env plan @ clear @ renv,
                 dp_note := foldl (\<lambda>n w. (if n \<noteq> [] then n @ [CHR 0x0A] else n) @ w) (dp_note plan) warnings\<rparr>)))"

section \<open>Loading a project and the lock\<close>

datatype deploy_answer = DAErr nat | DABusy string | DARefused refusal | DAFailed string | DADone string string | DAMessage string

definition requireSectionOnHost :: "db \<Rightarrow> request \<Rightarrow> string \<Rightarrow> bool \<Rightarrow> int \<Rightarrow> bool" where
  "requireSectionOnHost d r sec write h =
     (case rq_Claims r of
        None \<Rightarrow> False
      | Some uid \<Rightarrow> (case UserByID d uid of Inl _ \<Rightarrow> False | Inr u \<Rightarrow> checkAccess d u sec write h = None))"

definition requireHostAccess :: "db \<Rightarrow> request \<Rightarrow> int \<Rightarrow> bool" where
  "requireHostAccess d r h \<longleftrightarrow>
     h = 0 \<or> (case rq_Claims r of
        None \<Rightarrow> False
      | Some uid \<Rightarrow>
        (case UserByID d uid of
           Inl _ \<Rightarrow> False
         | Inr u \<Rightarrow> checkAccess d u ''hosts'' False h = None \<and> checkAccess d u ''projects'' (isWriteRequest r) h = None))"

text \<open>The argument is the project id of the path, absent when it is no number.\<close>

definition loadProject :: "project_srv \<Rightarrow> request \<Rightarrow> int option \<Rightarrow> nat + Project" where
  "loadProject s r pid =
     (case pid of
        None \<Rightarrow> Err 400
      | Some i \<Rightarrow>
        (case ProjectByID (pj_store s) i of
           Inl PErrNotFound \<Rightarrow> Err 404
         | Inl _ \<Rightarrow> Err 500
         | Inr p \<Rightarrow>
           if \<not> requireSectionOnHost (pj_db s) r ''projects'' False (p_HostID p) then Err 404
           else if isWriteRequest r \<and> \<not> requireSectionOnHost (pj_db s) r ''projects'' True (p_HostID p) then Err 403
           else Ok p))"

text \<open>\<open>projectOpOrConflict\<close> with its deferred release around the rest of a handler.\<close>

definition with_project_op ::
    "project_srv \<Rightarrow> int \<Rightarrow> string \<Rightarrow> (string \<Rightarrow> 'a) \<Rightarrow> (project_srv \<Rightarrow> 'a \<times> project_srv) \<Rightarrow> 'a \<times> project_srv" where
  "with_project_op s i what busy rest =
     (case beginProjectOp (pj_ops s) i what of
        (Some b, ops) \<Rightarrow> (busy b, s)
      | (None, ops) \<Rightarrow> (case rest (s\<lparr>pj_ops := ops\<rparr>) of (a, s1) \<Rightarrow> (a, s1\<lparr>pj_ops := release_op (pj_ops s1) i\<rparr>)))"

definition add_effect :: "deploy_effect \<Rightarrow> project_srv \<Rightarrow> project_srv" where
  "add_effect e s = s\<lparr>pj_effects := pj_effects s @ [e]\<rparr>"

section \<open>Recording a deployment\<close>

definition captureRevision ::
    "deploy_env \<Rightarrow> project_store \<Rightarrow> Project \<Rightarrow> string list \<Rightarrow> string \<Rightarrow> string \<Rightarrow> string \<Rightarrow> project_store" where
  "captureRevision de st p profiles out reason author =
     (case CreateRevision st \<lparr>rv_ID = 0, rv_ProjectID = p_ID p, rv_Revision = 0, rv_HostID = p_HostID p, rv_Profiles = profiles,
              rv_Images = de_images de, rv_Valid = False, rv_ValidationError = ''snapshot capture in progress'', rv_Output = out,
              rv_Author = author, rv_Reason = reason, rv_CreatedAt = 0\<rparr> (de_now de) of
        (Inl _, st1) \<Rightarrow> st1
      | (Inr (i, n), st1) \<Rightarrow>
        let st2 = snd (ClearDriftIgnores st1 (p_ID p))
        in case de_snapshot de of
             Some msg \<Rightarrow> snd (SetRevisionValid st2 i False msg)
           | None \<Rightarrow> snd (SetRevisionValid st2 i True []))"

definition record_deploy ::
    "deploy_env \<Rightarrow> project_srv \<Rightarrow> request \<Rightarrow> Project \<Rightarrow> string list \<Rightarrow> string \<Rightarrow> string \<Rightarrow> string \<Rightarrow> string \<Rightarrow> project_srv" where
  "record_deploy de s r p profiles out reason action detail =
     s\<lparr>pj_store := captureRevision de (snd (SetLastDeployedProfiles (pj_store s) (p_ID p) profiles (de_now de))) p profiles out reason (rq_Username r),
       pj_deploy := auditProject (pj_deploy s) r p action detail (de_now de)\<rparr>"

definition silence_after :: "deploy_env \<Rightarrow> Project \<Rightarrow> project_srv \<Rightarrow> project_srv" where
  "silence_after de p s =
     s\<lparr>pj_deploy := (pj_deploy s)\<lparr>ds_srv :=
        autoSilenceForDeploy (de_grace de) (ds_srv (pj_deploy s)) (p_Name p) (p_Slug p) (p_HostID p) (de_now de)\<rparr>\<rparr>"

definition run_up ::
    "deploy_env \<Rightarrow> string \<Rightarrow> Project \<Rightarrow> string list \<Rightarrow> deploy_plan \<Rightarrow> bool \<Rightarrow> bool \<Rightarrow> project_srv \<Rightarrow> (bool \<times> string) \<times> project_srv" where
  "run_up de dir p profiles plan build pull s =
     (de_up de dir (dp_files plan), add_effect (EffUp dir (p_Slug p) profiles (dp_env plan) (dp_files plan) build pull) s)"

text \<open>The seed of a deployment, when there is one.\<close>

definition run_seed :: "deploy_env \<Rightarrow> Project \<Rightarrow> deploy_plan \<Rightarrow> project_srv \<Rightarrow> bool \<times> project_srv" where
  "run_seed de p plan s =
     (case dp_seed plan of
        None \<Rightarrow> (True, s)
      | Some binds \<Rightarrow> (de_seeds de, add_effect (EffSeed (p_HostID p) (p_Slug p) binds) s))"

section \<open>The handlers\<close>

record deploy_body =
  db_Profiles :: "string list"
  db_Build :: "bool option"
  db_Reason :: string
  db_Pull :: bool
  db_Confirm :: bool

definition handleDeployProject ::
    "deploy_env \<Rightarrow> project_srv \<Rightarrow> request \<Rightarrow> int option \<Rightarrow> deploy_body \<Rightarrow> deploy_answer \<times> project_srv" where
  "handleDeployProject de s0 r pid body =
     (case loadProject s0 r pid of
        Inl c \<Rightarrow> (DAErr c, s0)
      | Inr p \<Rightarrow>
        with_project_op s0 (p_ID p) ''a deploy'' DABusy (\<lambda>s.
          if \<not> de_available de then (DAErr 412, s)
          else if \<not> requireHostAccess (pj_db s) r (p_HostID p) then (DAErr 403, s)
          else let profiles = NormalizeProfiles (db_Profiles body); build = (db_Build body \<noteq> Some False); dir = de_root de (p_ID p)
          in case projectDeployEnv de (pj_db s) p dir profiles of
               Inl _ \<Rightarrow> (DAErr 400, s)
             | Inr plan \<Rightarrow>
               (case policyCheckOrRefuse (de_compose de) (pj_deploy s) r p dir profiles (dp_env plan) (dp_files plan) (db_Confirm body) ''deploy'' (de_now de) of
                  (Some ref, d1) \<Rightarrow> (DARefused ref, s\<lparr>pj_deploy := d1\<rparr>)
                | (None, d1) \<Rightarrow>
                  (case run_seed de p plan (s\<lparr>pj_deploy := d1\<rparr>) of
                     (False, s1) \<Rightarrow> (DAErr 400, s1)
                   | (True, s1) \<Rightarrow>
                     (case run_up de dir p profiles plan build (db_Pull body) s1 of
                        ((False, out), s2) \<Rightarrow> (DAFailed out, s2)
                      | ((True, out), s2) \<Rightarrow>
                        (DADone out (dp_note plan),
                         silence_after de p (record_deploy de s2 r p profiles out (db_Reason body) ''project.deploy'' (join '','' profiles))))))))"

definition runProjectCompose ::
    "deploy_env \<Rightarrow> project_srv \<Rightarrow> request \<Rightarrow> int option \<Rightarrow> string \<Rightarrow> deploy_answer \<times> project_srv" where
  "runProjectCompose de s0 r pid action =
     (case loadProject s0 r pid of
        Inl c \<Rightarrow> (DAErr c, s0)
      | Inr p \<Rightarrow>
        with_project_op s0 (p_ID p) (''a '' @ action) DABusy (\<lambda>s.
          if \<not> de_available de then (DAErr 412, s)
          else if \<not> requireHostAccess (pj_db s) r (p_HostID p) then (DAErr 403, s)
          else case projectComposeEnv de (pj_db s) p of
               Inl _ \<Rightarrow> (DAErr 400, s)
             | Inr env \<Rightarrow>
               (case (de_command de action, add_effect (EffCommand action (p_Slug p)) s) of
                  ((False, out), s1) \<Rightarrow> (DAFailed out, s1)
                | ((True, out), s1) \<Rightarrow>
                  (DADone out [], s1\<lparr>pj_deploy := auditProject (pj_deploy s1) r p (''project.'' @ action) [] (de_now de)\<rparr>))))"

definition handleDownProject :: "deploy_env \<Rightarrow> project_srv \<Rightarrow> request \<Rightarrow> int option \<Rightarrow> deploy_answer \<times> project_srv" where
  "handleDownProject de s r pid = runProjectCompose de s r pid ''down''"

definition handleRestartProject :: "deploy_env \<Rightarrow> project_srv \<Rightarrow> request \<Rightarrow> int option \<Rightarrow> deploy_answer \<times> project_srv" where
  "handleRestartProject de s r pid = runProjectCompose de s r pid ''restart''"

datatype mcp_deploy_error = MDNoCompose | MDStore | MDBusy string | MDEnv env_error | MDPolicyCheck | MDBlocked "PolicyViolation list"
  | MDWarnings "PolicyViolation list" | MDSeed | MDCompose string

definition trim_newlines :: "string \<Rightarrow> string" where
  "trim_newlines x = rev (dropWhile (\<lambda>c. c = CHR 0x0A) (rev x))"

definition mcpDeployProject ::
    "deploy_env \<Rightarrow> project_srv \<Rightarrow> int \<Rightarrow> string list \<Rightarrow> bool \<Rightarrow> (mcp_deploy_error + string) \<times> project_srv" where
  "mcpDeployProject de s0 i profiles0 confirm =
     (if \<not> de_available de then (Err MDNoCompose, s0)
      else case ProjectByID (pj_store s0) i of
        Inl _ \<Rightarrow> (Err MDStore, s0)
      | Inr p \<Rightarrow>
        with_project_op s0 (p_ID p) ''a deploy'' (\<lambda>b. Err (MDBusy b)) (\<lambda>s.
          let dir = de_root de (p_ID p); profiles = NormalizeProfiles profiles0
          in case projectDeployEnv de (pj_db s) p dir profiles of
               Inl e \<Rightarrow> (Err (MDEnv e), s)
             | Inr plan \<Rightarrow>
               (case evaluateDeployPolicy (de_compose de) (ds_rules (pj_deploy s)) (p_Slug p) dir profiles (dp_env plan) (dp_files plan) of
                  Inl _ \<Rightarrow> (Err MDPolicyCheck, s)
                | Inr (blocked, warned) \<Rightarrow>
                  if blocked \<noteq> [] then (Err (MDBlocked blocked), s)
                  else if warned \<noteq> [] \<and> \<not> confirm then (Err (MDWarnings warned), s)
                  else (case run_seed de p plan s of
                          (False, s1) \<Rightarrow> (Err MDSeed, s1)
                        | (True, s1) \<Rightarrow>
                          (case run_up de dir p profiles plan True False s1 of
                             ((ok, out0), s2) \<Rightarrow>
                               let out = (if dp_note plan \<noteq> [] then trim_newlines out0 @ CHR 0x0A # ''note: '' @ dp_note plan else out0)
                               in if ok then (Ok out, silence_after de p s2) else (Err (MDCompose out), s2))))))"

definition mcpDownProject :: "deploy_env \<Rightarrow> project_srv \<Rightarrow> int \<Rightarrow> (mcp_deploy_error + string) \<times> project_srv" where
  "mcpDownProject de s0 i =
     (if \<not> de_available de then (Err MDNoCompose, s0)
      else case ProjectByID (pj_store s0) i of
        Inl _ \<Rightarrow> (Err MDStore, s0)
      | Inr p \<Rightarrow>
        with_project_op s0 (p_ID p) ''a down'' (\<lambda>b. Err (MDBusy b)) (\<lambda>s.
          case projectComposeEnv de (pj_db s) p of
            Inl e \<Rightarrow> (Err (MDEnv e), s)
          | Inr env \<Rightarrow>
            (case de_command de ''down'' of
               (ok, out) \<Rightarrow> ((if ok then Ok out else Err (MDCompose out)), add_effect (EffCommand ''down'' (p_Slug p)) s))))"

section \<open>Restoring a revision\<close>

definition fs_remove :: "deploy_env \<Rightarrow> string \<Rightarrow> (string \<rightharpoonup> string) \<Rightarrow> (string \<rightharpoonup> string)" where
  "fs_remove de p fs = (if de_fs_fails de (FsRemove p) then fs else fs(p := None))"

definition fs_rename :: "deploy_env \<Rightarrow> string \<Rightarrow> string \<Rightarrow> (string \<rightharpoonup> string) \<Rightarrow> (string \<rightharpoonup> string) option" where
  "fs_rename de a b fs =
     (if de_fs_fails de (FsRename a b) \<or> fs a = None \<or> fs b \<noteq> None then None else Some (fs(b := fs a, a := None)))"

definition pin_line :: "RevisionImage \<Rightarrow> string" where
  "pin_line img = ''  '' @ ri_Service img @ '':'' @ CHR 0x0A # ''    image: '' @ before_byte (CHR ''@'') (ri_Image img) @ ''@'' @ ri_Digest img @ [CHR 0x0A]"

definition buildDigestPinOverride :: "RevisionImage list \<Rightarrow> string" where
  "buildDigestPinOverride images =
     (let lines = map pin_line (filter (\<lambda>img. ri_Digest img \<noteq> [] \<and> ri_Service img \<noteq> [] \<and> ri_Image img \<noteq> []) images)
      in if lines = [] then [] else ''services:'' @ CHR 0x0A # concat lines)"

definition pin_files :: "deploy_env \<Rightarrow> Project \<Rightarrow> ProjectRevision \<Rightarrow> string list \<Rightarrow> string list option" where
  "pin_files de p rv files =
     (if buildDigestPinOverride (rv_Images rv) = [] then Some files
      else case de_temp de 1 of
        None \<Rightarrow> None
      | Some pinPath \<Rightarrow> Some ((if files = [] then [p_ComposeFile p] else files) @ [pinPath]))"

definition restore_staging :: "deploy_env \<Rightarrow> Project \<Rightarrow> string" where
  "restore_staging de p = de_root de (p_ID p) @ ''.restore-staging''"

definition restore_backup :: "deploy_env \<Rightarrow> Project \<Rightarrow> string" where
  "restore_backup de p = de_root de (p_ID p) @ ''.restore-backup''"

text \<open>The leftovers of an earlier attempt are removed and the archive is unpacked into the staging
  directory.\<close>

definition stage_revision :: "deploy_env \<Rightarrow> Project \<Rightarrow> string \<Rightarrow> (string \<rightharpoonup> string) \<Rightarrow> bool \<times> (string \<rightharpoonup> string)" where
  "stage_revision de p content fs =
     (let staging = restore_staging de p; fs1 = fs_remove de (restore_backup de p) (fs_remove de staging fs)
      in if de_fs_fails de (FsMkdir staging) then (False, fs1)
         else (True, fs1(staging := Some (case fs1 staging of None \<Rightarrow> content | Some old \<Rightarrow> de_overlay de old content))))"

definition undo_seed :: "Project \<Rightarrow> deploy_plan \<Rightarrow> project_srv \<Rightarrow> project_srv" where
  "undo_seed p plan s = (if dp_seed plan = None then s else add_effect (EffUnseed (p_HostID p) (p_Slug p)) s)"

definition seed_undoable :: "deploy_env \<Rightarrow> Project \<Rightarrow> deploy_plan \<Rightarrow> project_srv \<Rightarrow> bool \<times> project_srv" where
  "seed_undoable de p plan s =
     (if dp_seed plan = None then (True, s)
      else if \<not> de_saves de then (False, s)
      else case run_seed de p plan s of (True, s1) \<Rightarrow> (True, s1) | (False, s1) \<Rightarrow> (False, undo_seed p plan s1))"

definition put_back :: "deploy_env \<Rightarrow> Project \<Rightarrow> (string \<rightharpoonup> string) \<Rightarrow> (string \<rightharpoonup> string)" where
  "put_back de p fs = (case fs_rename de (restore_backup de p) (de_root de (p_ID p)) fs of None \<Rightarrow> fs | Some fs1 \<Rightarrow> fs1)"

definition swap_and_up ::
    "deploy_env \<Rightarrow> Project \<Rightarrow> ProjectRevision \<Rightarrow> deploy_plan \<Rightarrow> project_srv \<Rightarrow> deploy_answer \<times> project_srv" where
  "swap_and_up de p rv plan s =
     (let rdir = de_root de (p_ID p); existed = (pj_fs s rdir \<noteq> None)
      in case (if existed then fs_rename de rdir (restore_backup de p) (pj_fs s) else Some (pj_fs s)) of
           None \<Rightarrow> (DAErr 500, undo_seed p plan s)
         | Some fs1 \<Rightarrow>
           (case fs_rename de (restore_staging de p) rdir fs1 of
              None \<Rightarrow> (DAErr 500, undo_seed p plan (s\<lparr>pj_fs := (if existed then put_back de p fs1 else fs1)\<rparr>))
            | Some fs2 \<Rightarrow>
              (case run_up de rdir p (rv_Profiles rv) plan False False (s\<lparr>pj_fs := fs2\<rparr>) of
                 ((False, out), s1) \<Rightarrow>
                   let s2 = undo_seed p plan s1; fs3 = fs_remove de rdir (pj_fs s2)
                   in (DAFailed out, s2\<lparr>pj_fs := (if existed then put_back de p fs3 else fs3)\<rparr>)
               | ((True, out), s1) \<Rightarrow> (DADone out (dp_note plan), s1))))"

text \<open>What follows once the archive is unpacked: validation, the pinned images, the policy on the staging
  directory, the seed, the swap and the deployment.\<close>

definition restore_staged ::
    "deploy_env \<Rightarrow> project_srv \<Rightarrow> request \<Rightarrow> Project \<Rightarrow> int \<Rightarrow> ProjectRevision \<Rightarrow> string \<Rightarrow> bool \<Rightarrow> deploy_answer \<times> project_srv" where
  "restore_staged de s r p n rv reason0 confirm =
     (case de_secrets de (p_ID p) of
        None \<Rightarrow> (DAErr 500, s)
      | Some (clear, masked) \<Rightarrow>
        if \<not> de_validates de (restore_staging de p) masked then (DAMessage ''no longer validates'', s)
        else case projectDeployEnv de (pj_db s) p (restore_staging de p) (rv_Profiles rv) of
          Inl _ \<Rightarrow> (DAErr 400, s)
        | Inr plan0 \<Rightarrow>
          (case pin_files de p rv (dp_files plan0) of
             None \<Rightarrow> (DAErr 500, s)
           | Some files \<Rightarrow>
             let plan = plan0\<lparr>dp_files := files\<rparr>
             in case policyCheckOrRefuse (de_compose de) (pj_deploy s) r p (restore_staging de p) (rv_Profiles rv) (dp_env plan) (dp_files plan)
                  confirm ''restore'' (de_now de) of
                  (Some ref, d1) \<Rightarrow> (DARefused ref, s\<lparr>pj_deploy := d1\<rparr>)
                | (None, d1) \<Rightarrow>
                  (case seed_undoable de p plan (s\<lparr>pj_deploy := d1\<rparr>) of
                     (False, s1) \<Rightarrow> (DAErr 400, s1)
                   | (True, s1) \<Rightarrow>
                     (case swap_and_up de p rv plan s1 of
                        (DADone out note, s2) \<Rightarrow>
                          let reason = (if reason0 = [] then ''restored from revision '' @ show_int n else reason0);
                              s3 = record_deploy de s2 r p (rv_Profiles rv) out reason ''project.revision.restore'' (show_int n)
                          in (DADone out note, s3\<lparr>pj_fs := fs_remove de (restore_backup de p) (pj_fs s3)\<rparr>)
                      | (a, s2) \<Rightarrow> (a, s2)))))"

text \<open>The handler's body under the lock.\<close>

definition restore_locked ::
    "deploy_env \<Rightarrow> project_srv \<Rightarrow> request \<Rightarrow> Project \<Rightarrow> int option \<Rightarrow> string \<Rightarrow> bool \<Rightarrow> deploy_answer \<times> project_srv" where
  "restore_locked de s r p num reason0 confirm =
     (if \<not> de_available de then (DAErr 412, s)
          else case num of
            None \<Rightarrow> (DAErr 400, s)
          | Some n \<Rightarrow>
            (case RevisionByNumber (pj_store s) (p_ID p) n of
               Inl PErrNotFound \<Rightarrow> (DAErr 404, s)
             | Inl _ \<Rightarrow> (DAErr 500, s)
             | Inr rv \<Rightarrow>
               if \<not> rv_Valid rv then (DAMessage ''no usable file snapshot'', s)
               else case de_zip de (p_ID p) n of
                 None \<Rightarrow> (DAErr 500, s)
               | Some content \<Rightarrow>
                 (case stage_revision de p content (pj_fs s) of
                    (False, fs1) \<Rightarrow> (DAErr 500, s\<lparr>pj_fs := fs1\<rparr>)
                  | (True, fs1) \<Rightarrow>
                    (case restore_staged de (s\<lparr>pj_fs := fs1\<rparr>) r p n rv reason0 confirm of
                       (a, s1) \<Rightarrow> (a, s1\<lparr>pj_fs := fs_remove de (restore_staging de p) (pj_fs s1)\<rparr>)))))"

definition handleRestoreRevision ::
    "deploy_env \<Rightarrow> project_srv \<Rightarrow> request \<Rightarrow> int option \<Rightarrow> int option \<Rightarrow> string \<Rightarrow> bool \<Rightarrow> deploy_answer \<times> project_srv" where
  "handleRestoreRevision de s0 r pid num reason0 confirm =
     (case loadProject s0 r pid of
        Inl c \<Rightarrow> (DAErr c, s0)
      | Inr p \<Rightarrow>
        if \<not> requireHostAccess (pj_db s0) r (p_HostID p) then (DAErr 403, s0)
        else with_project_op s0 (p_ID p) ''a restore'' DABusy (\<lambda>s. restore_locked de s r p num reason0 confirm))"

section \<open>Every way of deploying\<close>

datatype deploy_way = ByDeploy request "int option" deploy_body | ByTool int "string list" bool
  | ByRestore request "int option" "int option" string bool

fun deploy_by :: "deploy_env \<Rightarrow> deploy_way \<Rightarrow> project_srv \<Rightarrow> project_srv" where
  "deploy_by de (ByDeploy r pid body) s = snd (handleDeployProject de s r pid body)"
| "deploy_by de (ByTool i profiles confirm) s = snd (mcpDeployProject de s i profiles confirm)"
| "deploy_by de (ByRestore r pid num reason confirm) s = snd (handleRestoreRevision de s r pid num reason confirm)"

text \<open>The configuration of a directory meets every rule that blocks.\<close>

definition policy_kept ::
    "compose_env \<Rightarrow> rules_store \<Rightarrow> string \<Rightarrow> string \<Rightarrow> string list \<Rightarrow> string list \<Rightarrow> string list \<Rightarrow> bool" where
  "policy_kept ce rules slug dir profiles env files \<longleftrightarrow>
     (\<exists>modes. PolicyRuleModes rules = (modes, None) \<and> (\<forall>rule. modes (rule_name rule) = Some ''block'' \<longrightarrow>
        (\<exists>cfg doc. ce_config ce dir slug profiles env files = Some cfg \<and> ce_decode ce cfg = Some doc
          \<and> (\<forall>(n, svc) \<in> set doc. \<not> breaks rule svc))))"

lemma policy_kept_evaluated:
  assumes "evaluateDeployPolicy ce rules slug dir profiles env files = Ok ([], warned)"
  shows "policy_kept ce rules slug dir profiles env files"
  using policy_read [OF assms] policy_passed [OF assms] unfolding policy_kept_def by blast

lemma policy_kept_gate:
  "policyCheckOrRefuse ce d r p dir profiles env files confirmed kind now = (None, d') \<Longrightarrow>
    policy_kept ce (ds_rules d) (p_Slug p) dir profiles env files"
  by (blast dest: policy_proceeds intro: policy_kept_evaluated)

text \<open>Effects of one project's deployment with given arguments of \<open>compose up\<close>.\<close>

fun effect_of :: "deploy_env \<Rightarrow> Project \<Rightarrow> string list \<Rightarrow> string list \<Rightarrow> string list \<Rightarrow> deploy_effect \<Rightarrow> bool" where
  "effect_of de p profiles env files (EffUp dir slug ps en fl build pull) \<longleftrightarrow>
     dir = de_root de (p_ID p) \<and> slug = p_Slug p \<and> ps = profiles \<and> en = env \<and> fl = files"
| "effect_of de p profiles env files (EffSeed h slug binds) \<longleftrightarrow> h = p_HostID p \<and> slug = p_Slug p"
| "effect_of de p profiles env files (EffUnseed h slug) \<longleftrightarrow> h = p_HostID p \<and> slug = p_Slug p"
| "effect_of de p profiles env files (EffCommand action slug) \<longleftrightarrow> False"

definition effects_gated :: "deploy_env \<Rightarrow> rules_store \<Rightarrow> deploy_effect list \<Rightarrow> deploy_effect list \<Rightarrow> bool" where
  "effects_gated de rules old new \<longleftrightarrow>
     (\<exists>es. new = old @ es \<and> (es \<noteq> [] \<longrightarrow>
        (\<exists>p dir profiles env files. policy_kept (de_compose de) rules (p_Slug p) dir profiles env files
           \<and> (dir = de_root de (p_ID p) \<or> dir = restore_staging de p)
           \<and> list_all (effect_of de p profiles env files) es)))"

lemma effects_gated_refl: "effects_gated de rules es es"
  by (simp add: effects_gated_def)

lemma effects_gatedI:
  assumes "policy_kept (de_compose de) rules (p_Slug p) dir profiles env files"
    and "dir = de_root de (p_ID p) \<or> dir = restore_staging de p" and "list_all (effect_of de p profiles env files) es"
  shows "effects_gated de rules old (old @ es)"
  using assms unfolding effects_gated_def by blast

lemma with_project_op_gated:
  assumes "\<And>s1. pj_effects s1 = pj_effects s \<Longrightarrow> pj_deploy s1 = pj_deploy s \<Longrightarrow> effects_gated de (ds_rules (pj_deploy s)) (pj_effects s) (pj_effects (snd (f s1)))"
  shows "effects_gated de (ds_rules (pj_deploy s)) (pj_effects s) (pj_effects (snd (with_project_op s i what busy f)))"
proof (cases "beginProjectOp (pj_ops s) i what")
  case (Pair x ops)
  show ?thesis
  proof (cases x)
    case None
    have "effects_gated de (ds_rules (pj_deploy s)) (pj_effects s) (pj_effects (snd (f (s\<lparr>pj_ops := ops\<rparr>))))" by (rule assms) simp_all
    then show ?thesis using Pair None by (cases "f (s\<lparr>pj_ops := ops\<rparr>)") (simp add: with_project_op_def)
  qed (simp add: with_project_op_def Pair effects_gated_refl)
qed

lemma run_seed_effects:
  "\<exists>es. pj_effects (snd (run_seed de p plan s)) = pj_effects s @ es \<and> list_all (effect_of de p profiles env files) es"
  by (cases "dp_seed plan") (simp_all add: run_seed_def add_effect_def)

lemma undo_seed_effects:
  "\<exists>es. pj_effects (undo_seed p plan s) = pj_effects s @ es \<and> list_all (effect_of de p profiles env files) es"
  by (simp add: undo_seed_def add_effect_def)

lemma deploy_record_frame [simp]:
  "pj_effects (record_deploy de s r p profiles out reason action detail) = pj_effects s" "pj_effects (silence_after de p s) = pj_effects s"
  "pj_fs (record_deploy de s r p profiles out reason action detail) = pj_fs s" "pj_fs (silence_after de p s) = pj_fs s"
  "pj_store (silence_after de p s) = pj_store s" "pj_store (add_effect e s) = pj_store s" "pj_fs (add_effect e s) = pj_fs s"
  by (simp_all add: record_deploy_def silence_after_def add_effect_def)

lemma seed_then_up:
  assumes "run_seed de p plan s = (b, s1)" and "run_up de (de_root de (p_ID p)) p profiles plan build pull s1 = (x, s2)"
  shows "\<exists>es. pj_effects s2 = pj_effects s @ es \<and> list_all (effect_of de p profiles (dp_env plan) (dp_files plan)) es"
proof -
  obtain es where "pj_effects s1 = pj_effects s @ es" "list_all (effect_of de p profiles (dp_env plan) (dp_files plan)) es"
    using run_seed_effects [of de p plan s profiles "dp_env plan" "dp_files plan"] assms(1) by auto
  then show ?thesis using assms(2) by (auto simp: run_up_def add_effect_def)
qed

lemma seeded_up_gated:
  assumes "policy_kept (de_compose de) rules (p_Slug p) (de_root de (p_ID p)) profiles (dp_env plan) (dp_files plan)"
    and "run_seed de p plan s = (b, s1)"
  shows "effects_gated de rules (pj_effects s) (pj_effects s1)"
    and "run_up de (de_root de (p_ID p)) p profiles plan build pull s1 = (x, s2) \<Longrightarrow> effects_gated de rules (pj_effects s) (pj_effects s2)"
proof -
  obtain es where es: "pj_effects s1 = pj_effects s @ es" "list_all (effect_of de p profiles (dp_env plan) (dp_files plan)) es"
    using run_seed_effects [of de p plan s profiles "dp_env plan" "dp_files plan"] assms(2) by auto
  show "effects_gated de rules (pj_effects s) (pj_effects s1)"
    unfolding es(1) by (rule effects_gatedI [OF assms(1) _ es(2)]) simp
  show "effects_gated de rules (pj_effects s) (pj_effects s2)" if up: "run_up de (de_root de (p_ID p)) p profiles plan build pull s1 = (x, s2)"
  proof -
    obtain fs where fs: "pj_effects s2 = pj_effects s @ fs" "list_all (effect_of de p profiles (dp_env plan) (dp_files plan)) fs"
      using seed_then_up [OF assms(2) up] by blast
    show ?thesis unfolding fs(1) by (rule effects_gatedI [OF assms(1) _ fs(2)]) simp
  qed
qed

lemma deploy_gated:
  "effects_gated de (ds_rules (pj_deploy s)) (pj_effects s) (pj_effects (snd (handleDeployProject de s r pid body)))"
proof (cases "loadProject s r pid")
  case (Inr p)
  let ?dir = "de_root de (p_ID p)" and ?ps = "NormalizeProfiles (db_Profiles body)"
  show ?thesis unfolding handleDeployProject_def Inr sum.case
  proof (rule with_project_op_gated, goal_cases)
    case (1 t)
    show ?case
    proof (cases "de_available de \<and> requireHostAccess (pj_db t) r (p_HostID p)")
      case avail: True
      show ?thesis
      proof (cases "projectDeployEnv de (pj_db t) p ?dir ?ps")
        case env: (Inr plan)
        obtain ref d1 where g: "policyCheckOrRefuse (de_compose de) (pj_deploy t) r p ?dir ?ps (dp_env plan) (dp_files plan) (db_Confirm body) ''deploy'' (de_now de) = (ref, d1)"
          by force
        obtain b s1 where sd: "run_seed de p plan (t\<lparr>pj_deploy := d1\<rparr>) = (b, s1)" by force
        obtain ok out s2 where up: "run_up de ?dir p ?ps plan (db_Build body \<noteq> Some False) (db_Pull body) s1 = ((ok, out), s2)" by (metis prod.collapse)
        show ?thesis
        proof (cases ref)
          case None
          then have k: "policy_kept (de_compose de) (ds_rules (pj_deploy t)) (p_Slug p) ?dir ?ps (dp_env plan) (dp_files plan)"
            using policy_kept_gate g by blast
          note e = seeded_up_gated(1) [OF k sd] seeded_up_gated(2) [OF k sd up]
          show ?thesis using avail env g None sd up e 1 by (cases b; cases ok) (simp_all add: Let_def)
        qed (use avail env g 1 in \<open>simp add: Let_def effects_gated_refl\<close>)
      qed (use avail 1 in \<open>simp add: Let_def effects_gated_refl\<close>)
    qed (use 1 in \<open>auto simp: effects_gated_refl\<close>)
  qed
qed (simp add: handleDeployProject_def effects_gated_refl)

lemma tool_gated:
  "effects_gated de (ds_rules (pj_deploy s)) (pj_effects s) (pj_effects (snd (mcpDeployProject de s i profiles confirm)))"
proof (cases "ProjectByID (pj_store s) i")
  case (Inr p)
  let ?dir = "de_root de (p_ID p)" and ?ps = "NormalizeProfiles profiles"
  have "effects_gated de (ds_rules (pj_deploy s)) (pj_effects s) (pj_effects (snd (mcpDeployProject de s i profiles confirm)))" if "de_available de"
    unfolding mcpDeployProject_def Inr sum.case
  proof (simp only: that not_True_eq_False if_False, rule with_project_op_gated, goal_cases)
    case (1 t)
    show ?case
    proof (cases "projectDeployEnv de (pj_db t) p ?dir ?ps")
      case env: (Inr plan)
      show ?thesis
      proof (cases "evaluateDeployPolicy (de_compose de) (ds_rules (pj_deploy t)) (p_Slug p) ?dir ?ps (dp_env plan) (dp_files plan)")
        case ev: (Inr bw)
        obtain blocked warned where bw: "bw = (blocked, warned)" by (cases bw)
        obtain b s1 where sd: "run_seed de p plan t = (b, s1)" by force
        obtain ok out s2 where up: "run_up de ?dir p ?ps plan True False s1 = ((ok, out), s2)" by (metis prod.collapse)
        show ?thesis
        proof (cases "blocked = [] \<and> (warned = [] \<or> confirm)")
          case True
          then have k: "policy_kept (de_compose de) (ds_rules (pj_deploy t)) (p_Slug p) ?dir ?ps (dp_env plan) (dp_files plan)"
            using policy_kept_evaluated ev bw by blast
          note e = seeded_up_gated(1) [OF k sd] seeded_up_gated(2) [OF k sd up]
          show ?thesis using env ev bw True sd up e 1 by (cases b; cases ok) (simp_all add: Let_def effects_gated_refl)
        qed (use env ev bw 1 in \<open>auto simp: Let_def effects_gated_refl\<close>)
      qed (use env 1 in \<open>simp add: Let_def effects_gated_refl\<close>)
    qed (use 1 in \<open>simp add: Let_def effects_gated_refl\<close>)
  qed
  then show ?thesis by (cases "de_available de") (simp_all add: mcpDeployProject_def effects_gated_refl)
qed (simp add: mcpDeployProject_def effects_gated_refl)

lemma swap_effects:
  "\<exists>es. pj_effects (snd (swap_and_up de p rv plan s)) = pj_effects s @ es
     \<and> list_all (effect_of de p (rv_Profiles rv) (dp_env plan) (dp_files plan)) es"
proof -
  have u: "\<exists>es. pj_effects (undo_seed p plan t) = pj_effects t @ es \<and> list_all (effect_of de p (rv_Profiles rv) (dp_env plan) (dp_files plan)) es" for t
    by (rule undo_seed_effects)
  show ?thesis
    using u [of s] u [of "s\<lparr>pj_fs := _\<rparr>"] u
    by (auto simp: swap_and_up_def Let_def run_up_def add_effect_def undo_seed_def split: option.splits prod.splits bool.splits)
qed

lemma seed_undoable_effects:
  assumes "seed_undoable de p plan s = (b, s1)"
  shows "\<exists>es. pj_effects s1 = pj_effects s @ es \<and> list_all (effect_of de p profiles env files) es"
    and "pj_fs s1 = pj_fs s" and "pj_deploy s1 = pj_deploy s"
  using assms
  by (auto simp: seed_undoable_def run_seed_def undo_seed_def add_effect_def split: if_splits option.splits prod.splits bool.splits)

lemma restore_staged_gated:
  "effects_gated de (ds_rules (pj_deploy s)) (pj_effects s) (pj_effects (snd (restore_staged de s r p n rv reason confirm)))"
proof -
  let ?st = "restore_staging de p" and ?ps = "rv_Profiles rv"
  obtain x where x: "x = restore_staged de s r p n rv reason confirm" by simp
  show ?thesis
  proof (cases "\<exists>cl masked plan0 files d1. de_secrets de (p_ID p) = Some (cl, masked) \<and> de_validates de ?st masked
      \<and> projectDeployEnv de (pj_db s) p ?st ?ps = Ok plan0 \<and> pin_files de p rv (dp_files plan0) = Some files
      \<and> policyCheckOrRefuse (de_compose de) (pj_deploy s) r p ?st ?ps (dp_env plan0) files confirm ''restore'' (de_now de) = (None, d1)")
    case True
    then obtain cl masked plan0 files d1 where h: "de_secrets de (p_ID p) = Some (cl, masked)" "de_validates de ?st masked"
      "projectDeployEnv de (pj_db s) p ?st ?ps = Ok plan0" "pin_files de p rv (dp_files plan0) = Some files"
      "policyCheckOrRefuse (de_compose de) (pj_deploy s) r p ?st ?ps (dp_env plan0) files confirm ''restore'' (de_now de) = (None, d1)" by blast
    let ?plan = "plan0\<lparr>dp_files := files\<rparr>"
    have k: "policy_kept (de_compose de) (ds_rules (pj_deploy s)) (p_Slug p) ?st ?ps (dp_env ?plan) (dp_files ?plan)"
      using policy_kept_gate [OF h(5)] by simp
    obtain b s1 where sd: "seed_undoable de p ?plan (s\<lparr>pj_deploy := d1\<rparr>) = (b, s1)" by force
    obtain es where es: "pj_effects s1 = pj_effects s @ es" "list_all (effect_of de p ?ps (dp_env ?plan) (dp_files ?plan)) es"
      using seed_undoable_effects(1) [OF sd, of ?ps "dp_env ?plan" "dp_files ?plan"] by auto
    obtain a s2 where sw: "swap_and_up de p rv ?plan s1 = (a, s2)" by force
    obtain fs where fs: "pj_effects s2 = pj_effects s1 @ fs" "list_all (effect_of de p ?ps (dp_env ?plan) (dp_files ?plan)) fs"
      using swap_effects [of de p rv ?plan s1] sw by auto
    have g1: "effects_gated de (ds_rules (pj_deploy s)) (pj_effects s) (pj_effects s1)"
      unfolding es(1) by (rule effects_gatedI [OF k _ es(2)]) simp
    have g2: "effects_gated de (ds_rules (pj_deploy s)) (pj_effects s) (pj_effects s2)"
      unfolding fs(1) es(1) append_assoc by (rule effects_gatedI [OF k]) (use es(2) fs(2) in simp_all)
    show ?thesis using h sd sw g1 g2 by (cases b; cases a) (simp_all add: restore_staged_def Let_def)
  next
    case False
    then have "pj_effects (snd (restore_staged de s r p n rv reason confirm)) = pj_effects s"
      unfolding restore_staged_def Let_def by (auto split: option.splits prod.splits sum.splits if_splits)
    then show ?thesis by (simp add: effects_gated_refl)
  qed
qed

lemma restore_gated:
  "effects_gated de (ds_rules (pj_deploy s)) (pj_effects s) (pj_effects (snd (handleRestoreRevision de s r pid num reason confirm)))"
proof (cases "loadProject s r pid")
  case (Inr p)
  show ?thesis
  proof (cases "requireHostAccess (pj_db s) r (p_HostID p)")
    case True
    show ?thesis unfolding handleRestoreRevision_def Inr sum.case
    proof (simp only: True not_True_eq_False if_False, rule with_project_op_gated, goal_cases)
      case (1 t)
      have st: "effects_gated de (ds_rules (pj_deploy s)) (pj_effects s)
          (pj_effects (snd (restore_staged de (t\<lparr>pj_fs := fs\<rparr>) r p n rv reason confirm)))" for fs n rv
        using restore_staged_gated [of de "t\<lparr>pj_fs := fs\<rparr>" r p n rv reason confirm] 1 by simp
      show ?case using st 1
        by (auto simp: restore_locked_def effects_gated_refl split: option.splits sum.splits proj_error.splits prod.splits bool.splits)
          (metis snd_conv)+
    qed
  qed (simp add: handleRestoreRevision_def Inr effects_gated_refl)
qed (simp add: handleRestoreRevision_def effects_gated_refl)

section \<open>Binds inside the project\<close>

lemma drop_common_prefix: "drop_common xs ys = ([], t) \<Longrightarrow> ys = xs @ t"
  by (induction xs ys arbitrary: t rule: drop_common.induct) (auto split: if_splits)

lemma join_dots: "b \<noteq> [] \<Longrightarrow> join ''/'' (replicate (length b) ''..'' @ t) = ''..'' \<or> has_prefix ''../'' (join ''/'' (replicate (length b) ''..'' @ t))"
  by (cases b; cases "replicate (length (tl b)) ''..'' @ t") auto

lemma relWithin_inside:
  assumes "relWithin fe base p = Some rel"
  shows "\<exists>a. fe_abs fe p = Some a \<and> prefix (clean_parts base) (clean_parts (resolveExisting fe a))"
proof -
  obtain a where a: "fe_abs fe p = Some a" "path_Rel base (resolveExisting fe a) = Some rel" "rel \<noteq> ''..''" "\<not> has_prefix ''../'' rel"
    using assms by (auto simp: relWithin_def split: if_splits option.splits)
  obtain b t where bt: "drop_common (clean_parts base) (clean_parts (resolveExisting fe a)) = (b, t)" by force
  have "b = []"
  proof (rule ccontr)
    assume ne: "b \<noteq> []"
    then have "rel = join ''/'' (replicate (length b) ''..'' @ t)"
      using a(2) bt by (auto simp: path_Rel_def split: if_splits)
    with join_dots [OF ne, of t] a(3,4) show False by simp
  qed
  then have "clean_parts (resolveExisting fe a) = clean_parts base @ t" using drop_common_prefix bt by simp
  with a(1) show ?thesis by simp
qed

lemma classify_fold:
  "foldl (\<lambda>a v. classify_volume fe base name v a) (inner, outer) vs = (inner', outer') \<Longrightarrow> set outer \<subseteq> set outer'
     \<and> (\<forall>v \<in> set vs. bv_Type v = ''bind'' \<longrightarrow> relWithin fe base (bv_Source v) = None \<longrightarrow> outer' \<noteq> [])"
proof (induction vs arbitrary: inner outer)
  case (Cons v vs)
  obtain i1 o1 where c: "classify_volume fe base name v (inner, outer) = (i1, o1)" by force
  have o1: "set outer \<subseteq> set o1" "bv_Type v = ''bind'' \<longrightarrow> relWithin fe base (bv_Source v) = None \<longrightarrow> o1 \<noteq> []"
    using c by (auto simp: classify_volume_def Let_def split: if_splits option.splits)
  have "set o1 \<subseteq> set outer' \<and> (\<forall>v \<in> set vs. bv_Type v = ''bind'' \<longrightarrow> relWithin fe base (bv_Source v) = None \<longrightarrow> outer' \<noteq> [])"
    using Cons.IH [of i1 o1] Cons.prems c by simp
  with o1 show ?case by (cases o1) auto
qed simp

lemma classify_services:
  "foldl (\<lambda>acc (name, vs). foldl (\<lambda>a v. classify_volume fe base name v a) acc vs) acc services = (inner', outer') \<Longrightarrow>
     set (snd acc) \<subseteq> set outer' \<and> (outer' = [] \<longrightarrow> (\<forall>(name, vs) \<in> set services. \<forall>v \<in> set vs. bv_Type v = ''bind'' \<longrightarrow>
        relWithin fe base (bv_Source v) \<noteq> None))"
proof (induction services arbitrary: acc)
  case (Cons svc services)
  obtain name vs where svc: "svc = (name, vs)" by (cases svc)
  obtain i0 o0 where acc: "acc = (i0, o0)" by (cases acc)
  obtain i1 o1 where f: "foldl (\<lambda>a v. classify_volume fe base name v a) acc vs = (i1, o1)" by force
  note one = classify_fold [OF f [unfolded acc]]
  have rest: "set o1 \<subseteq> set outer' \<and> (outer' = [] \<longrightarrow> (\<forall>(name, vs) \<in> set services. \<forall>v \<in> set vs. bv_Type v = ''bind'' \<longrightarrow>
        relWithin fe base (bv_Source v) \<noteq> None))"
    using Cons.IH [of "(i1, o1)"] Cons.prems f svc by simp
  show ?case using one rest by (auto simp: svc acc)
qed simp

section \<open>Rolling back\<close>

lemma restore_names [simp]:
  "restore_staging de p \<noteq> de_root de (p_ID p)" "restore_backup de p \<noteq> de_root de (p_ID p)" "restore_staging de p \<noteq> restore_backup de p"
  "de_root de (p_ID p) \<noteq> restore_staging de p" "de_root de (p_ID p) \<noteq> restore_backup de p" "restore_backup de p \<noteq> restore_staging de p"
  by (simp_all add: restore_staging_def restore_backup_def)

lemma undo_seed_frame [simp]: "pj_fs (undo_seed p plan s) = pj_fs s" "pj_store (undo_seed p plan s) = pj_store s"
  by (simp_all add: undo_seed_def)

lemma put_back_root:
  assumes "\<not> de_fs_fails de (FsRename (restore_backup de p) (de_root de (p_ID p)))" and "fs (de_root de (p_ID p)) = None" and "fs (restore_backup de p) \<noteq> None"
  shows "put_back de p fs (de_root de (p_ID p)) = fs (restore_backup de p)"
  using assms by (simp add: put_back_def fs_rename_def)

lemma swap_rolls_back:
  assumes "swap_and_up de p rv plan s = (a, s')" and "\<And>out note. a \<noteq> DADone out note"
    and "\<not> de_fs_fails de (FsRename (restore_backup de p) (de_root de (p_ID p)))" and "\<not> de_fs_fails de (FsRemove (de_root de (p_ID p)))"
  shows "pj_fs s' (de_root de (p_ID p)) = pj_fs s (de_root de (p_ID p))"
proof -
  let ?R = "de_root de (p_ID p)" and ?B = "restore_backup de p" and ?S = "restore_staging de p"
  define first where "first = (if pj_fs s ?R \<noteq> None then fs_rename de ?R ?B (pj_fs s) else Some (pj_fs s))"
  show ?thesis
  proof (cases first)
    case None
    then have "s' = undo_seed p plan s"
      using assms(1) unfolding swap_and_up_def Let_def first_def [symmetric] by simp
    then show ?thesis by simp
  next
    case (Some fs1)
    have moved: "fs1 ?R = None" "pj_fs s ?R \<noteq> None \<Longrightarrow> fs1 ?B = pj_fs s ?R"
      using Some by (auto simp: first_def fs_rename_def split: if_splits)
    show ?thesis
    proof (cases "fs_rename de ?S ?R fs1")
      case None
      then have "pj_fs s' = (if pj_fs s ?R \<noteq> None then put_back de p fs1 else fs1)"
        using assms(1) Some unfolding swap_and_up_def Let_def first_def [symmetric] by (auto split: option.splits)
      then show ?thesis using moved put_back_root [where fs = fs1, OF assms(3) moved(1)] by (cases "pj_fs s ?R") auto
    next
      case (Some fs2)
      have fs2: "fs2 ?B = fs1 ?B" using Some by (auto simp: fs_rename_def split: if_splits)
      let ?fs3 = "fs_remove de ?R fs2"
      have fs3: "?fs3 ?R = None" "?fs3 ?B = fs1 ?B" using assms(4) fs2 by (simp_all add: fs_remove_def)
      have "pj_fs s' = (if pj_fs s ?R \<noteq> None then put_back de p ?fs3 else ?fs3)"
        using assms(1,2) Some \<open>first = Some fs1\<close> unfolding swap_and_up_def Let_def first_def [symmetric]
        by (auto simp: run_up_def split: prod.splits bool.splits)
      then show ?thesis using moved fs3 put_back_root [where fs = "?fs3", OF assms(3) fs3(1)] by (cases "pj_fs s ?R") auto
    qed
  qed
qed

lemma restore_staged_rolls_back:
  assumes "restore_staged de s r p n rv reason confirm = (a, s')" and "\<And>out note. a \<noteq> DADone out note"
    and "\<not> de_fs_fails de (FsRename (restore_backup de p) (de_root de (p_ID p)))" and "\<not> de_fs_fails de (FsRemove (de_root de (p_ID p)))"
  shows "pj_fs s' (de_root de (p_ID p)) = pj_fs s (de_root de (p_ID p))"
proof -
  let ?st = "restore_staging de p" and ?ps = "rv_Profiles rv"
  show ?thesis
  proof (cases "\<exists>cl masked plan0 files d1. de_secrets de (p_ID p) = Some (cl, masked) \<and> de_validates de ?st masked
      \<and> projectDeployEnv de (pj_db s) p ?st ?ps = Ok plan0 \<and> pin_files de p rv (dp_files plan0) = Some files
      \<and> policyCheckOrRefuse (de_compose de) (pj_deploy s) r p ?st ?ps (dp_env plan0) files confirm ''restore'' (de_now de) = (None, d1)")
    case True
    then obtain cl masked plan0 files d1 where h: "de_secrets de (p_ID p) = Some (cl, masked)" "de_validates de ?st masked"
      "projectDeployEnv de (pj_db s) p ?st ?ps = Ok plan0" "pin_files de p rv (dp_files plan0) = Some files"
      "policyCheckOrRefuse (de_compose de) (pj_deploy s) r p ?st ?ps (dp_env plan0) files confirm ''restore'' (de_now de) = (None, d1)" by blast
    let ?plan = "plan0\<lparr>dp_files := files\<rparr>"
    obtain b s1 where sd: "seed_undoable de p ?plan (s\<lparr>pj_deploy := d1\<rparr>) = (b, s1)" by force
    have s1: "pj_fs s1 = pj_fs s" using seed_undoable_effects(2) [OF sd] by simp
    obtain a2 s2 where sw: "swap_and_up de p rv ?plan s1 = (a2, s2)" by force
    show ?thesis
    proof (cases b)
      case True
      have "s' = s2 \<and> a = a2" using assms(1,2) h sd sw True by (cases a2) (auto simp: restore_staged_def Let_def)
      then show ?thesis using swap_rolls_back [OF _ assms(2-4)] sw s1 by metis
    next
      case False
      then have "s' = s1" using assms(1) h sd by (simp add: restore_staged_def Let_def)
      then show ?thesis using s1 by simp
    qed
  next
    case False
    then have "pj_fs s' = pj_fs s"
      using assms(1) unfolding restore_staged_def Let_def by (auto split: option.splits prod.splits sum.splits if_splits)
    then show ?thesis by simp
  qed
qed

lemma stage_revision_root:
  "snd (stage_revision de p content fs) (de_root de (p_ID p)) = fs (de_root de (p_ID p))"
  by (simp add: stage_revision_def Let_def fs_remove_def)

lemma loadProject_id: "loadProject s r (Some i) = Ok p \<Longrightarrow> p_ID p = i"
  by (auto simp: loadProject_def ProjectByID_def scanProjectRow_def split: sum.splits proj_error.splits if_splits option.splits)

lemma restore_locked_rolls_back:
  assumes "restore_locked de s r p num reason confirm = (a, s')" and "\<And>out note. a \<noteq> DADone out note"
    and "\<not> de_fs_fails de (FsRename (restore_backup de p) (de_root de (p_ID p)))" and "\<not> de_fs_fails de (FsRemove (de_root de (p_ID p)))"
  shows "pj_fs s' (de_root de (p_ID p)) = pj_fs s (de_root de (p_ID p))"
proof (cases "\<exists>n rv content fs1. de_available de \<and> num = Some n \<and> RevisionByNumber (pj_store s) (p_ID p) n = Ok rv \<and> rv_Valid rv
    \<and> de_zip de (p_ID p) n = Some content \<and> stage_revision de p content (pj_fs s) = (True, fs1)")
  case True
  then obtain n rv content fs1 where h: "de_available de" "num = Some n" "RevisionByNumber (pj_store s) (p_ID p) n = Ok rv" "rv_Valid rv"
    "de_zip de (p_ID p) n = Some content" "stage_revision de p content (pj_fs s) = (True, fs1)" by blast
  obtain a1 s1 where r1: "restore_staged de (s\<lparr>pj_fs := fs1\<rparr>) r p n rv reason confirm = (a1, s1)" by force
  have "a1 = a" and s': "s' = s1\<lparr>pj_fs := fs_remove de (restore_staging de p) (pj_fs s1)\<rparr>"
    using assms(1) h r1 by (simp_all add: restore_locked_def)
  then have "pj_fs s1 (de_root de (p_ID p)) = fs1 (de_root de (p_ID p))"
    using restore_staged_rolls_back [OF r1 _ assms(3,4)] assms(2) by simp
  also have "\<dots> = pj_fs s (de_root de (p_ID p))" using stage_revision_root [of de p content "pj_fs s"] h(6) by simp
  finally show ?thesis by (simp add: s' fs_remove_def)
next
  case False
  then show ?thesis
    using assms(1) stage_revision_root [of de p _ "pj_fs s"] unfolding restore_locked_def
    by (auto split: if_splits option.splits sum.splits proj_error.splits prod.splits bool.splits) (metis snd_conv)+
qed

section \<open>Properties\<close>

text \<open>C11. Every way of deploying passes the policy first: through the web interface, through a tool and by
  restoring a revision, files are copied to a remote host and \<open>compose up\<close> is run only for a
  project whose configuration, resolved with the same profiles, environment and files, breaks no
  rule that blocks; a refused deployment has no effect at all.\<close>

theorem every_deploy_passes_policy:
  "\<exists>es. pj_effects (deploy_by de w s) = pj_effects s @ es \<and> (es \<noteq> [] \<longrightarrow>
     (\<exists>p dir profiles env files. policy_kept (de_compose de) (ds_rules (pj_deploy s)) (p_Slug p) dir profiles env files
        \<and> (dir = de_root de (p_ID p) \<or> dir = restore_staging de p)
        \<and> list_all (effect_of de p profiles env files) es))"
proof -
  have "effects_gated de (ds_rules (pj_deploy s)) (pj_effects s) (pj_effects (deploy_by de w s))"
    by (cases w) (simp_all add: deploy_gated tool_gated restore_gated)
  then show ?thesis by (simp only: effects_gated_def)
qed

text \<open>C12. A restore that does not succeed leaves the project's directory as it was, wherever it stopped:
  refused by the policy, at either rename or in the deployment itself. It is assumed that the
  restored directory can be removed and the old one be moved back.\<close>

theorem failed_restore_rolls_back:
  assumes "handleRestoreRevision de s r (Some i) num reason confirm = (a, s')" and "\<And>out note. a \<noteq> DADone out note"
    and "\<not> de_fs_fails de (FsRename (de_root de i @ ''.restore-backup'') (de_root de i))" and "\<not> de_fs_fails de (FsRemove (de_root de i))"
  shows "pj_fs s' (de_root de i) = pj_fs s (de_root de i)"
proof (cases "loadProject s r (Some i)")
  case (Inl c)
  then show ?thesis using assms(1) by (simp add: handleRestoreRevision_def)
next
  case (Inr p)
  have i: "p_ID p = i" using loadProject_id [OF Inr] .
  have movable: "\<not> de_fs_fails de (FsRename (restore_backup de p) (de_root de (p_ID p)))" "\<not> de_fs_fails de (FsRemove (de_root de (p_ID p)))"
    using assms(3,4) by (simp_all add: i restore_backup_def)
  show ?thesis
  proof (cases "requireHostAccess (pj_db s) r (p_HostID p)")
    case True
    from assms(1) have w: "with_project_op s (p_ID p) ''a restore'' DABusy (\<lambda>s. restore_locked de s r p num reason confirm) = (a, s')"
      by (simp add: handleRestoreRevision_def Inr True restore_locked_def)
    show ?thesis
    proof (cases "beginProjectOp (pj_ops s) (p_ID p) ''a restore''")
      case (Pair busy ops)
      show ?thesis
      proof (cases busy)
        case None
        obtain a1 s1 where l: "restore_locked de (s\<lparr>pj_ops := ops\<rparr>) r p num reason confirm = (a1, s1)" by force
        then have "a1 = a" "pj_fs s' = pj_fs s1" using w Pair None by (auto simp: with_project_op_def)
        then show ?thesis using restore_locked_rolls_back [OF l _ movable] assms(2) by (simp add: i)
      qed (use w Pair in \<open>simp add: with_project_op_def\<close>)
    qed
  next
    case False
    then show ?thesis using assms(1) by (simp add: handleRestoreRevision_def Inr)
  qed
qed


text \<open>A deployment through a tool is not recorded: neither the profiles it used nor a revision are stored,
  so what the project shows as deployed, and what a preview resolves with, is the deployment before.\<close>

lemma tool_deploy_unrecorded: "pj_store (snd (mcpDeployProject de s i profiles confirm)) = pj_store s"
proof -
  have seed: "pj_store (snd (run_seed de p plan t)) = pj_store t" for p plan t
    by (simp add: run_seed_def split: option.splits)
  have op: "pj_store (snd (with_project_op s i what busy f)) = pj_store s" if "\<And>t. pj_store t = pj_store s \<Longrightarrow> pj_store (snd (f t)) = pj_store s"
    for i what and busy :: "string \<Rightarrow> mcp_deploy_error + string" and f
    using that [of "s\<lparr>pj_ops := snd (beginProjectOp (pj_ops s) i what)\<rparr>"]
    by (auto simp: with_project_op_def split: prod.splits option.splits)
  show ?thesis
    using seed unfolding mcpDeployProject_def
    by (auto simp: Let_def run_up_def split: sum.splits prod.splits bool.splits intro!: op) (metis snd_conv)+
qed

text \<open>A restore that was interrupted between its two renames has left the project's only files in the
  backup directory; the next restore begins by deleting them.\<close>

lemma interrupted_restore_deletes_project:
  assumes "fs_rename de (de_root de (p_ID p)) (restore_backup de p) fs = Some fs1" and "fs (de_root de (p_ID p)) = Some files"
    and "\<not> de_fs_fails de (FsRemove (restore_backup de p))"
  shows "fs1 (restore_backup de p) = Some files" and "snd (stage_revision de p content fs1) (restore_backup de p) = None"
    and "snd (stage_revision de p content fs1) (de_root de (p_ID p)) = None"
  using assms by (auto simp: fs_rename_def stage_revision_def fs_remove_def Let_def split: if_splits)

section \<open>Witnesses\<close>

definition demo_de :: deploy_env where
  "demo_de = \<lparr>de_compose = demo_compose, de_available = True, de_validates = (\<lambda>_ _. True), de_secrets = (\<lambda>_. Some ([], [])),
     de_registry = Some ([], []), de_hostenv = (\<lambda>_. Some [''DOCKER_HOST'']),
     de_binds = (\<lambda>_. Some [(''web'', [\<lparr>bv_Type = ''bind'', bv_Source = ''/data/1/html'', bv_Target = ''/srv'', bv_ReadOnly = True\<rparr>])]),
     de_files = \<lparr>fe_abs = Some, fe_links = Some, fe_regular = (\<lambda>_. False)\<rparr>, de_temp = (\<lambda>_. Some ''/tmp/o.json''), de_note = (\<lambda>_ _. []),
     de_seeds = True, de_up = (\<lambda>dir files. (dir \<noteq> ''/data/2'', [])), de_command = (\<lambda>_. (True, [])), de_images = [], de_snapshot = None,
     de_zip = (\<lambda>_ _. Some ''old files''), de_root = (\<lambda>i. ''/data/'' @ show_int i), de_grace = 0, de_overlay = (\<lambda>_ c. c), de_saves = True,
     de_fs_fails = (\<lambda>_. False), de_now = 100 * day\<rparr>"

definition demo_pj :: project_srv where
  "demo_pj = \<lparr>pj_deploy = demo_deploy\<lparr>ds_srv := (ds_srv demo_deploy)\<lparr>sv_db := admin_db\<rparr>\<rparr>,
     pj_store = (snd (CreateRevision (snd (CreateProject (snd (CreateProject empty_projects (demo_project ''a''\<lparr>p_HostID := 0\<rparr>) 0))
        (demo_project ''b''\<lparr>p_HostID := 0\<rparr>) 0)) (demo_revision\<lparr>rv_ProjectID := 2, rv_Valid := True\<rparr>) 0)),
     pj_ops = Map.empty, pj_fs = [''/data/2'' \<mapsto> ''new files''], pj_effects = []\<rparr>"

theorem every_deploy_passes_policy_witness:
  "\<exists>p dir profiles env files. policy_kept (de_compose demo_de) (ds_rules (pj_deploy demo_pj)) (p_Slug p) dir profiles env files
     \<and> list_all (effect_of demo_de p profiles env files) (pj_effects (deploy_by demo_de (ByTool 1 [] False) demo_pj))"
proof -
  have e: "pj_effects demo_pj = []" by (simp add: demo_pj_def)
  have ne: "pj_effects (deploy_by demo_de (ByTool 1 [] False) demo_pj) \<noteq> []" by code_simp
  show ?thesis using every_deploy_passes_policy [of demo_de "ByTool 1 [] False" demo_pj] ne unfolding e append_Nil by metis
qed

theorem failed_restore_rolls_back_witness:
  "let x = handleRestoreRevision demo_de demo_pj (admin_request\<lparr>rq_Method := ''POST''\<rparr>) (Some 2) (Some 1) [] False
   in fst x = DAFailed [] \<and> pj_fs (snd x) ''/data/2'' = Some ''new files''"
proof -
  let ?x = "handleRestoreRevision demo_de demo_pj (admin_request\<lparr>rq_Method := ''POST''\<rparr>) (Some 2) (Some 1) [] False"
  have a: "fst ?x = DAFailed []" by code_simp
  then have x: "?x = (DAFailed [], snd ?x)" by (simp add: prod_eq_iff)
  have r: "de_root demo_de 2 = ''/data/2''" by code_simp
  have "pj_fs (snd ?x) (de_root demo_de 2) = pj_fs demo_pj (de_root demo_de 2)"
    by (rule failed_restore_rolls_back [OF x]) (simp_all add: demo_de_def)
  then show ?thesis using a by (simp add: Let_def r) (simp add: demo_pj_def)
qed


end
