(* ===== verification/Purge.thy ===== *)
theory Purge
  imports Projects Alerts
begin

text \<open>
  How long history is kept: \<open>src/internal/store/retention.go\<close> and \<open>src/internal/api/retention.go\<close>.
  The state is the alert tables, the audit log, the project tables, the stored policy, the outcome
  of the last run, the lock of a run and the directory of the snapshot files. What can stop a round of
  deletions, a failing statement or an expired deadline, is a function of the area and the round,
  so a theorem covers a purge that stops anywhere. A statement with a limit takes the first rows in table order.
  The figures on the size of the database file and the duration of a run are left out.
\<close>

section \<open>The policy\<close>

record RetentionPolicy =
  rp_AlertEventsDays :: int
  rp_AlertDeliveriesDays :: int
  rp_AuditDays :: int
  rp_RevisionsKeep :: int

definition MinAuditRetentionDays :: int where "MinAuditRetentionDays = 30"
definition MinAlertRetentionDays :: int where "MinAlertRetentionDays = 1"
definition MinRevisionsKeep :: int where "MinRevisionsKeep = 3"
definition MaxRetentionDays :: int where "MaxRetentionDays = 36500"

definition DefaultRetention :: RetentionPolicy where
  "DefaultRetention = \<lparr>rp_AlertEventsDays = 90, rp_AlertDeliveriesDays = 90, rp_AuditDays = 365, rp_RevisionsKeep = 50\<rparr>"

datatype policy_fault = BadDays string | BadKeep | DeliveriesOutlive

definition check_days :: "string \<Rightarrow> int \<Rightarrow> int \<Rightarrow> policy_fault option" where
  "check_days name v least =
     (if v = 0 then None else if v < least \<or> v > MaxRetentionDays then Some (BadDays name) else None)"

definition Validate :: "RetentionPolicy \<Rightarrow> policy_fault option" where
  "Validate p =
     (case check_days ''alert events'' (rp_AlertEventsDays p) MinAlertRetentionDays of Some e \<Rightarrow> Some e
      | None \<Rightarrow> (case check_days ''alert deliveries'' (rp_AlertDeliveriesDays p) MinAlertRetentionDays of Some e \<Rightarrow> Some e
      | None \<Rightarrow> (case check_days ''audit log'' (rp_AuditDays p) MinAuditRetentionDays of Some e \<Rightarrow> Some e
      | None \<Rightarrow>
        if rp_RevisionsKeep p \<noteq> 0 \<and> rp_RevisionsKeep p < MinRevisionsKeep then Some BadKeep
        else if rp_AlertEventsDays p \<noteq> 0 \<and> (rp_AlertDeliveriesDays p = 0 \<or> rp_AlertDeliveriesDays p > rp_AlertEventsDays p)
        then Some DeliveriesOutlive
        else None)))"

text \<open>The settings row: absent, a text that is no policy, or a policy, which may be one this version
  does not accept.\<close>

datatype policy_setting = NoPolicy | GarbledPolicy | StoredPolicy RetentionPolicy

datatype ret_error = RetSQL | RetDeadline | RetPolicyInvalid "policy_fault option" | RetFault policy_fault | RetAuditTooShort | RetFile string string
  | RetReadDir | RetBusy

text \<open>The outcome of a run; its error text is the list of errors that were joined.\<close>

record RetentionRun =
  rr_At :: time
  rr_Trigger :: string
  rr_AlertEvents :: nat
  rr_AlertDeliveries :: nat
  rr_Audit :: nat
  rr_Revisions :: nat
  rr_RevisionFiles :: nat
  rr_Errors :: "ret_error list"

definition Total :: "RetentionRun \<Rightarrow> nat" where
  "Total r = rr_AlertEvents r + rr_AlertDeliveries r + rr_Audit r + rr_Revisions r"

text \<open>An entry of the snapshot directory: its name, whether it is a directory, and the names of the
  files in it, each with whether it is a directory itself.\<close>

record snap_dir =
  sd_Name :: string
  sd_IsDir :: bool
  sd_Files :: "(string \<times> bool) list"

record ret_srv =
  rn_busy :: bool
  rn_policy :: policy_setting
  rn_lastRun :: "RetentionRun option"
  rn_alerts :: alerts
  rn_audit :: adb
  rn_projects :: project_store
  rn_dirs :: "snap_dir list option"

datatype ret_area = AreaEvents | AreaOrphans | AreaRetries | AreaDeliveries | AreaAudit | AreaRevisions

record ret_env =
  re_now :: time
  re_sel_fails :: bool
  re_save_fails :: bool
  re_stops :: "ret_area \<Rightarrow> nat \<Rightarrow> ret_error option"
  re_trim_fails :: bool
  re_root_fails :: bool
  re_ctx_done :: "string \<Rightarrow> bool"
  re_dir_fails :: "string \<Rightarrow> bool"
  re_remove_fails :: "string \<Rightarrow> string \<Rightarrow> bool"

definition policy_of :: "ret_env \<Rightarrow> policy_setting \<Rightarrow> RetentionPolicy \<times> ret_error option" where
  "policy_of re setting =
     (if re_sel_fails re then (DefaultRetention, Some RetSQL)
      else case setting of
        NoPolicy \<Rightarrow> (DefaultRetention, None)
      | GarbledPolicy \<Rightarrow> (DefaultRetention, Some (RetPolicyInvalid None))
      | StoredPolicy p \<Rightarrow> (case Validate p of None \<Rightarrow> (p, None) | Some f \<Rightarrow> (DefaultRetention, Some (RetPolicyInvalid (Some f)))))"

definition Retention :: "ret_env \<Rightarrow> ret_srv \<Rightarrow> RetentionPolicy \<times> ret_error option" where
  "Retention re s = policy_of re (rn_policy s)"

definition SetRetention :: "ret_env \<Rightarrow> ret_srv \<Rightarrow> RetentionPolicy \<Rightarrow> ret_error option \<times> ret_srv" where
  "SetRetention re s p =
     (case Validate p of
        Some f \<Rightarrow> (Some (RetFault f), s)
      | None \<Rightarrow> if re_save_fails re then (Some RetSQL, s) else (None, s\<lparr>rn_policy := StoredPolicy p\<rparr>))"

definition LastRetentionRun :: "ret_env \<Rightarrow> ret_srv \<Rightarrow> ret_error + RetentionRun option" where
  "LastRetentionRun re s = (if re_sel_fails re then Err RetSQL else Ok (rn_lastRun s))"

definition SaveRetentionRun :: "ret_env \<Rightarrow> ret_srv \<Rightarrow> RetentionRun \<Rightarrow> ret_srv" where
  "SaveRetentionRun re s r = (if re_save_fails re then s else s\<lparr>rn_lastRun := Some r\<rparr>)"

section \<open>Deletions in batches\<close>

definition purgeBatch :: nat where "purgeBatch = 2000"

text \<open>One statement: the rows whose key is among the first matching ones.\<close>

definition delete_batch :: "(int \<times> 'r \<Rightarrow> bool) \<Rightarrow> (int \<times> 'r) list \<Rightarrow> (int \<times> 'r) list" where
  "delete_batch P rows = (let ids = map fst (take purgeBatch (filter P rows)) in filter (\<lambda>r. fst r \<notin> set ids) rows)"

lemma delete_batch_length: "length (delete_batch P rows) \<le> length rows"
  by (simp add: delete_batch_def)

text \<open>The loop: the rounds done so far, the rows and the total. A round that is stopped deletes nothing.\<close>

function delete_rounds ::
    "(nat \<Rightarrow> ret_error option) \<Rightarrow> (int \<times> 'r \<Rightarrow> bool) \<Rightarrow> nat \<Rightarrow> nat \<Rightarrow> (int \<times> 'r) list \<Rightarrow> (nat \<times> ret_error option) \<times> (int \<times> 'r) list" where
  "delete_rounds stops P k gone rows =
     (case stops k of
        Some e \<Rightarrow> ((gone, Some e), rows)
      | None \<Rightarrow>
        let rows' = delete_batch P rows; n = length rows - length rows'
        in if n < purgeBatch then ((gone + n, None), rows')
           else delete_rounds stops P (Suc k) (gone + n) rows')"
  by pat_completeness auto
termination
  using delete_batch_length
  by (relation "measure (\<lambda>(stops, P, k, gone, rows). length rows)") (auto simp: purgeBatch_def)

declare delete_rounds.simps [simp del]

definition deleteBatched ::
    "(nat \<Rightarrow> ret_error option) \<Rightarrow> (int \<times> 'r \<Rightarrow> bool) \<Rightarrow> 'r tbl \<Rightarrow> (nat \<times> ret_error option) \<times> 'r tbl" where
  "deleteBatched stops P t = (case delete_rounds stops P 0 0 (tbl_rows t) of (x, rows) \<Rightarrow> (x, t\<lparr>tbl_rows := rows\<rparr>))"

text \<open>The instant before which rows go. The number of nanoseconds is an \<open>int64\<close>, and the text it is
  compared as has whole seconds.\<close>

definition cutoffFor :: "int \<Rightarrow> time \<Rightarrow> time" where
  "cutoffFor days now = trunc_sec (now + wrap64 (wrap64 (wrap64 (- days) * 24) * hour))"

definition without_event :: "alerts \<Rightarrow> int \<Rightarrow> bool" where
  "without_event d e \<longleftrightarrow> e \<notin> set (map fst (tbl_rows (al_events d)))"

definition PurgeAlertEvents :: "ret_env \<Rightarrow> alerts \<Rightarrow> int \<Rightarrow> time \<Rightarrow> (nat \<times> nat \<times> ret_error option) \<times> alerts" where
  "PurgeAlertEvents re d days now =
     (if days \<le> 0 then ((0, 0, None), d)
      else case deleteBatched (re_stops re AreaEvents) (\<lambda>(i, e). ev_CreatedAt e < cutoffFor days now) (al_events d) of
        ((n, Some e), t) \<Rightarrow> ((n, 0, Some e), d\<lparr>al_events := t\<rparr>)
      | ((n, None), t) \<Rightarrow>
        let d1 = d\<lparr>al_events := t\<rparr>
        in case deleteBatched (re_stops re AreaOrphans) (\<lambda>(i, x). without_event d1 (dl_EventID x)) (al_deliveries d1) of
             ((m, Some e), u) \<Rightarrow> ((n, m, Some e), d1\<lparr>al_deliveries := u\<rparr>)
           | ((m, None), u) \<Rightarrow>
             let d2 = d1\<lparr>al_deliveries := u\<rparr>
             in case deleteBatched (re_stops re AreaRetries) (\<lambda>(i, x). without_event d2 (rt_EventID x)) (al_retries d2) of
                  ((_, err), v) \<Rightarrow> ((n, m, err), d2\<lparr>al_retries := v\<rparr>))"

definition PurgeAlertDeliveries :: "ret_env \<Rightarrow> alerts \<Rightarrow> int \<Rightarrow> time \<Rightarrow> (nat \<times> ret_error option) \<times> alerts" where
  "PurgeAlertDeliveries re d days now =
     (if days \<le> 0 then ((0, None), d)
      else case deleteBatched (re_stops re AreaDeliveries) (\<lambda>(i, x). dl_Attempted x < cutoffFor days now) (al_deliveries d) of
        (x, t) \<Rightarrow> (x, d\<lparr>al_deliveries := t\<rparr>))"

definition PurgeAudit :: "ret_env \<Rightarrow> adb \<Rightarrow> int \<Rightarrow> time \<Rightarrow> (nat \<times> ret_error option) \<times> adb" where
  "PurgeAudit re a days now =
     (if days \<le> 0 then ((0, None), a)
      else if days < MinAuditRetentionDays then ((0, Some RetAuditTooShort), a)
      else case deleteBatched (re_stops re AreaAudit) (\<lambda>(i, x). a_CreatedAt x < cutoffFor days now) (a_log a) of
        (x, t) \<Rightarrow> (x, a\<lparr>a_log := t\<rparr>))"

section \<open>Revisions and their files\<close>

type_synonym RevisionRef = "int \<times> int"

definition surplus :: "int \<Rightarrow> (int \<times> ProjectRevision) list \<Rightarrow> (int \<times> ProjectRevision) list" where
  "surplus keep rows =
     filter (\<lambda>(i, r). int (length (filter (\<lambda>(j, n). rv_ProjectID n = rv_ProjectID r \<and> rv_Revision n > rv_Revision r) rows)) \<ge> keep) rows"

text \<open>The rows go one at a time; what is gone is returned also when the loop is stopped.\<close>

fun trim_rows ::
    "(nat \<Rightarrow> ret_error option) \<Rightarrow> nat \<Rightarrow> (int \<times> ProjectRevision) list \<Rightarrow> project_store \<Rightarrow> (RevisionRef list \<times> ret_error option) \<times> project_store" where
  "trim_rows stops k [] s = (([], None), s)"
| "trim_rows stops k ((i, r) # rest) s =
     (case stops k of
        Some e \<Rightarrow> (([], Some e), s)
      | None \<Rightarrow>
        (case trim_rows stops (Suc k) rest (s\<lparr>pt_revisions := tbl_delete i (pt_revisions s)\<rparr>) of
           ((refs, err), s1) \<Rightarrow> (((rv_ProjectID r, rv_Revision r) # refs, err), s1)))"

definition TrimRevisions :: "ret_env \<Rightarrow> project_store \<Rightarrow> int \<Rightarrow> (RevisionRef list \<times> ret_error option) \<times> project_store" where
  "TrimRevisions re s keep =
     (if keep \<le> 0 then (([], None), s)
      else if re_trim_fails re then (([], Some RetSQL), s)
      else trim_rows (re_stops re AreaRevisions) 0 (surplus keep (tbl_rows (pt_revisions s))) s)"

definition RevisionNumbers :: "project_store \<Rightarrow> int \<Rightarrow> ret_error + int list" where
  "RevisionNumbers s pid = (if pt_fails s (SelRevisions pid) then Err RetSQL else Ok (revisions_of s pid))"

definition zip_name :: "int \<Rightarrow> string" where
  "zip_name n = show_int n @ ''.zip''"

text \<open>\<open>os.Remove\<close> of a file in the directory of that name: whether it succeeded.\<close>

definition remove_file :: "ret_env \<Rightarrow> string \<Rightarrow> string \<Rightarrow> snap_dir list option \<Rightarrow> bool \<times> snap_dir list option" where
  "remove_file re dname fname dirs =
     (case dirs of
        None \<Rightarrow> (False, None)
      | Some ds \<Rightarrow>
        if (\<exists>d \<in> set ds. sd_Name d = dname \<and> sd_IsDir d \<and> (fname, False) \<in> set (sd_Files d)) \<and> \<not> re_remove_fails re dname fname
        then (True, Some (map (\<lambda>d. if sd_Name d = dname \<and> sd_IsDir d then d\<lparr>sd_Files := filter (\<lambda>f. f \<noteq> (fname, False)) (sd_Files d)\<rparr> else d) ds))
        else (False, Some ds))"

fun remove_zips :: "ret_env \<Rightarrow> RevisionRef list \<Rightarrow> snap_dir list option \<Rightarrow> nat \<times> snap_dir list option" where
  "remove_zips re [] dirs = (0, dirs)"
| "remove_zips re ((pid, n) # refs) dirs =
     (case remove_file re (show_int pid) (zip_name n) dirs of
        (ok, dirs1) \<Rightarrow> (case remove_zips re refs dirs1 of (k, dirs2) \<Rightarrow> ((if ok then Suc k else k), dirs2)))"

text \<open>\<open>revisionZipRE\<close> with the number it captures; a number out of range is read as the largest one.\<close>

definition revision_of_name :: "string \<Rightarrow> int option" where
  "revision_of_name f =
     (let ds = trim_suffix ''.zip'' f
      in if has_suffix ''.zip'' f \<and> ds \<noteq> [] \<and> list_all is_digit ds then Some (parse_int64_value ds) else None)"

definition orphan :: "int list \<Rightarrow> string \<times> bool \<Rightarrow> bool" where
  "orphan live f \<longleftrightarrow> \<not> snd f \<and> (case revision_of_name (fst f) of None \<Rightarrow> False | Some n \<Rightarrow> n \<notin> set live)"

text \<open>One directory, given the numbers that were read for its project.\<close>

definition sweep_files :: "ret_env \<Rightarrow> int list \<Rightarrow> snap_dir \<Rightarrow> (nat \<times> ret_error list) \<times> snap_dir" where
  "sweep_files re live d =
     (let bad = filter (orphan live) (sd_Files d); gone = filter (\<lambda>f. \<not> re_remove_fails re (sd_Name d) (fst f)) bad
      in ((length gone, map (RetFile (sd_Name d) \<circ> fst) (filter (\<lambda>f. re_remove_fails re (sd_Name d) (fst f)) bad)),
          d\<lparr>sd_Files := filter (\<lambda>f. f \<notin> set gone) (sd_Files d)\<rparr>))"

fun sweep_dirs :: "ret_env \<Rightarrow> project_store \<Rightarrow> snap_dir list \<Rightarrow> (nat \<times> ret_error list) \<times> snap_dir list" where
  "sweep_dirs re s [] = ((0, []), [])"
| "sweep_dirs re s (d # ds) =
     (case (if sd_IsDir d then parse_int64 (sd_Name d) else None) of
        None \<Rightarrow> (case sweep_dirs re s ds of (x, ds1) \<Rightarrow> (x, d # ds1))
      | Some pid \<Rightarrow>
        if re_ctx_done re (sd_Name d) then ((0, [RetDeadline]), d # ds)
        else case (case RevisionNumbers s pid of
                     Inl e \<Rightarrow> ((0, [e]), d)
                   | Inr live \<Rightarrow> if re_dir_fails re (sd_Name d) then ((0, [RetReadDir]), d) else sweep_files re live d) of
               ((n, errs), d1) \<Rightarrow> (case sweep_dirs re s ds of ((m, errs1), ds1) \<Rightarrow> ((n + m, errs @ errs1), d1 # ds1)))"

definition sweepOrphanRevisionFiles ::
    "ret_env \<Rightarrow> project_store \<Rightarrow> snap_dir list option \<Rightarrow> (nat \<times> ret_error list) \<times> snap_dir list option" where
  "sweepOrphanRevisionFiles re s dirs =
     (case dirs of
        None \<Rightarrow> ((0, []), None)
      | Some ds \<Rightarrow>
        if re_root_fails re then ((0, [RetReadDir]), Some ds)
        else case sweep_dirs re s ds of (x, ds1) \<Rightarrow> (x, Some ds1))"

section \<open>A run\<close>

definition note_error :: "ret_error option \<Rightarrow> ret_error list" where
  "note_error e = (case e of None \<Rightarrow> [] | Some x \<Rightarrow> [x])"

text \<open>The body of a run with a policy: the areas one after the other, whatever fails.\<close>

definition purge_areas :: "ret_env \<Rightarrow> string \<Rightarrow> RetentionPolicy \<Rightarrow> ret_srv \<Rightarrow> RetentionRun \<times> ret_srv" where
  "purge_areas re trigger p s =
     (case PurgeAlertEvents re (rn_alerts s) (rp_AlertEventsDays p) (re_now re) of ((ne, nd, e1), d1) \<Rightarrow>
      (case PurgeAlertDeliveries re d1 (rp_AlertDeliveriesDays p) (re_now re) of ((nd2, e2), d2) \<Rightarrow>
      (case PurgeAudit re (rn_audit s) (rp_AuditDays p) (re_now re) of ((na, e3), a1) \<Rightarrow>
      (case TrimRevisions re (rn_projects s) (rp_RevisionsKeep p) of ((refs, e4), p1) \<Rightarrow>
      (case remove_zips re refs (rn_dirs s) of (nf, dirs1) \<Rightarrow>
      (case sweepOrphanRevisionFiles re p1 dirs1 of ((ns, e5), dirs2) \<Rightarrow>
        (\<lparr>rr_At = re_now re, rr_Trigger = trigger, rr_AlertEvents = ne, rr_AlertDeliveries = nd + nd2, rr_Audit = na,
          rr_Revisions = length refs, rr_RevisionFiles = nf + ns,
          rr_Errors = note_error e1 @ note_error e2 @ note_error e3 @ note_error e4 @ e5\<rparr>,
         s\<lparr>rn_alerts := d2, rn_audit := a1, rn_projects := p1, rn_dirs := dirs2\<rparr>)))))))"

text \<open>The entry is written for a purge that removed something or failed; \<open>actor\<close> is the administrator
  who asked for it.\<close>

definition record_run :: "ret_env \<Rightarrow> string \<Rightarrow> (int \<times> string) option \<Rightarrow> RetentionRun \<Rightarrow> ret_srv \<Rightarrow> ret_srv" where
  "record_run re trigger actor run s =
     (let s1 = SaveRetentionRun re s run; (uid, uname) = (case actor of None \<Rightarrow> (0, ''system'') | Some a \<Rightarrow> a)
      in if Total run > 0 \<or> rr_Errors run \<noteq> []
         then s1\<lparr>rn_audit := snd (Audit_entry (rn_audit s1) \<lparr>a_UserID = uid, a_Username = uname, a_Action = ''retention.purge'',
                a_Target = [], a_Detail = trigger, a_IP = [], a_HostID = 0, a_CreatedAt = 0\<rparr> (re_now re))\<rparr>
         else s1)"

definition runRetention ::
    "ret_env \<Rightarrow> string \<Rightarrow> (int \<times> string) option \<Rightarrow> ret_srv \<Rightarrow> (RetentionRun option \<times> ret_error list) \<times> ret_srv" where
  "runRetention re trigger actor s =
     (if rn_busy s then ((None, [RetBusy]), s)
      else case Retention re s of
        (p, Some e) \<Rightarrow> ((None, [e]), s)
      | (p, None) \<Rightarrow> (case purge_areas re trigger p s of (run, s1) \<Rightarrow> ((Some run, rr_Errors run), record_run re trigger actor run s1)))"

section \<open>The handlers\<close>

datatype ret_answer = RAErr nat | RARun RetentionRun | RASaved | RAPage RetentionPolicy bool "RetentionRun option" "(nat \<times> time option) list"

definition area :: "time list \<Rightarrow> nat \<times> time option" where
  "area ts = (length ts, if ts = [] then None else Some (Min (set ts)))"

definition RetentionStats :: "ret_srv \<Rightarrow> (nat \<times> time option) list" where
  "RetentionStats s =
     [area (map (ev_CreatedAt \<circ> snd) (tbl_rows (al_events (rn_alerts s)))),
      area (map (dl_Attempted \<circ> snd) (tbl_rows (al_deliveries (rn_alerts s)))),
      area (map (a_CreatedAt \<circ> snd) (tbl_rows (a_log (rn_audit s)))),
      area (map (rv_CreatedAt \<circ> snd) (tbl_rows (pt_revisions (rn_projects s))))]"

definition handleGetRetention :: "ret_env \<Rightarrow> bool \<Rightarrow> ret_srv \<Rightarrow> ret_answer" where
  "handleGetRetention re stats_fail s =
     (case Retention re s of
        (p, err) \<Rightarrow>
        if (case err of None \<Rightarrow> False | Some (RetPolicyInvalid f) \<Rightarrow> False | Some _ \<Rightarrow> True) then RAErr 500
        else if stats_fail then RAErr 500
        else RAPage p (err \<noteq> None) (case LastRetentionRun re s of Inl _ \<Rightarrow> None | Inr x \<Rightarrow> x) (RetentionStats s))"

text \<open>The body of the request is absent when it cannot be decoded.\<close>

definition handleSetRetention :: "ret_env \<Rightarrow> request \<Rightarrow> RetentionPolicy option \<Rightarrow> ret_srv \<Rightarrow> ret_answer \<times> ret_srv" where
  "handleSetRetention re r body s =
     (case body of
        None \<Rightarrow> (RAErr 400, s)
      | Some p \<Rightarrow>
        (case Validate p of
           Some f \<Rightarrow> (RAErr 400, s)
         | None \<Rightarrow>
           (case SetRetention re s p of
              (Some e, s1) \<Rightarrow> (RAErr 500, s1)
            | (None, s1) \<Rightarrow> (RASaved, s1\<lparr>rn_audit := audit (rn_audit s1) r None ''retention.update'' [] [] (re_now re)\<rparr>))))"

definition handlePurgeRetention :: "ret_env \<Rightarrow> request \<Rightarrow> ret_srv \<Rightarrow> ret_answer \<times> ret_srv" where
  "handlePurgeRetention re r s =
     (case runRetention re ''manual'' (map_option (\<lambda>u. (u, rq_Username r)) (rq_Claims r)) s of
        ((run, errs), s1) \<Rightarrow>
        ((case run of
            None \<Rightarrow> (case errs of [RetBusy] \<Rightarrow> RAErr 409 | [RetPolicyInvalid f] \<Rightarrow> RAErr 422 | _ \<Rightarrow> RAErr 500)
          | Some x \<Rightarrow> RARun x), s1))"

section \<open>Lemmas\<close>

lemma filter_notin_take:
  "distinct (map fst rows) \<Longrightarrow> filter P (filter (\<lambda>r. fst r \<notin> fst ` set (take n (filter P rows))) rows) = drop n (filter P rows)"
proof (induction rows arbitrary: n)
  case (Cons r rows)
  have ne: "fst x \<noteq> fst r" if "x \<in> set rows" for x using Cons.prems that by (auto simp: rev_image_eqI)
  show ?case
  proof (cases "P r \<and> n > 0")
    case True
    then obtain m where m: "n = Suc m" by (cases n) auto
    have "filter (\<lambda>x. fst x \<notin> insert (fst r) (fst ` set (take m (filter P rows)))) rows = filter (\<lambda>x. fst x \<notin> fst ` set (take m (filter P rows))) rows"
      by (rule filter_cong) (auto simp: ne)
    then show ?thesis using Cons True m by simp
  next
    case False
    have "set (take n (filter P rows)) \<subseteq> set rows" using set_take_subset [of n "filter P rows"] by auto
    then have "fst r \<notin> fst ` set (take n (filter P rows))" using ne by (metis imageE subsetD)
    then show ?thesis using Cons False by auto
  qed
qed simp

lemma delete_batch_spec:
  assumes "distinct (map fst rows)"
  shows "filter P (delete_batch P rows) = drop purgeBatch (filter P rows)"
    and "filter (\<lambda>r. \<not> P r) (delete_batch P rows) = filter (\<lambda>r. \<not> P r) rows"
    and "length rows - length (delete_batch P rows) = min purgeBatch (length (filter P rows))"
proof -
  let ?ids = "fst ` set (take purgeBatch (filter P rows))"
  have d: "delete_batch P rows = filter (\<lambda>r. fst r \<notin> ?ids) rows" by (simp add: delete_batch_def)
  show 1: "filter P (delete_batch P rows) = drop purgeBatch (filter P rows)"
    unfolding d by (rule filter_notin_take [OF assms])
  have "fst r \<notin> ?ids" if "r \<in> set rows" "\<not> P r" for r
  proof
    assume "fst r \<in> ?ids"
    then obtain x where x: "x \<in> set (take purgeBatch (filter P rows))" "fst x = fst r" by force
    then have "x \<in> set rows" "P x" by (auto dest!: in_set_takeD)
    then have "x = r" using x(2) that(1) assms by (metis eq_key_imp_eq_value prod.collapse)
    then show False using that(2) \<open>P x\<close> by simp
  qed
  then show 2: "filter (\<lambda>r. \<not> P r) (delete_batch P rows) = filter (\<lambda>r. \<not> P r) rows"
    unfolding d filter_filter by (intro filter_cong) auto
  have "length xs = length (filter P xs) + length (filter (\<lambda>r. \<not> P r) xs)" for xs by (rule sum_length_filter_compl [symmetric])
  from this [of rows] this [of "delete_batch P rows"] 1 2
  show "length rows - length (delete_batch P rows) = min purgeBatch (length (filter P rows))" by simp
qed

lemma delete_batch_sub: "set (delete_batch P rows) \<subseteq> set rows" "distinct (map fst rows) \<Longrightarrow> distinct (map fst (delete_batch P rows))"
  by (auto simp: delete_batch_def distinct_map_filter)

lemma delete_rounds_spec:
  assumes "distinct (map fst rows)" and "delete_rounds stops P k g rows = ((n, err), rows')"
  shows "filter (\<lambda>r. \<not> P r) rows' = filter (\<lambda>r. \<not> P r) rows \<and> set rows' \<subseteq> set rows \<and> distinct (map fst rows')
    \<and> n + length rows' = g + length rows \<and> (err = None \<longrightarrow> filter P rows' = []) \<and> (err \<noteq> None \<longrightarrow> (\<exists>j. stops j = err))"
  using assms
proof (induction stops P k g rows arbitrary: n err rows' rule: delete_rounds.induct)
  case (1 stops P k g rows)
  note spec = delete_batch_spec [OF 1(2), of P] and sub = delete_batch_sub(1) [of P rows] delete_batch_sub(2) [OF 1(2), of P]
  let ?b = "delete_batch P rows" and ?n = "length rows - length (delete_batch P rows)"
  note len = delete_batch_length [of P rows]
  show ?case
  proof (cases "stops k")
    case None
    note go = 1(1) [OF None refl refl _ sub(2)]
    show ?thesis
    proof (cases "?n < purgeBatch")
      case True
      then have "filter P ?b = []" using spec(1,3) by auto
      then show ?thesis using 1(3) True None spec(2) sub len by (auto simp: delete_rounds.simps [of stops P k] Let_def)
    next
      case False
      then have "delete_rounds stops P (Suc k) (g + ?n) ?b = ((n, err), rows')"
        using 1(3) None by (simp add: delete_rounds.simps [of stops P k] Let_def)
      from go [OF False this] show ?thesis using spec(2) sub len by auto
    qed
  qed (use 1 in \<open>auto simp: delete_rounds.simps [of stops P k]\<close>)
qed

lemma deleteBatched_spec:
  assumes "tbl_wf t" and "deleteBatched stops P t = ((n, err), t')"
  shows "filter (\<lambda>r. \<not> P r) (tbl_rows t') = filter (\<lambda>r. \<not> P r) (tbl_rows t)" and "set (tbl_rows t') \<subseteq> set (tbl_rows t)"
    and "n + length (tbl_rows t') = length (tbl_rows t)" and "err = None \<Longrightarrow> tbl_rows t' = filter (\<lambda>r. \<not> P r) (tbl_rows t)"
    and "err \<noteq> None \<Longrightarrow> \<exists>j. stops j = err" and "tbl_seq t' = tbl_seq t" and "tbl_wf t'"
proof -
  obtain rows' where r: "delete_rounds stops P 0 0 (tbl_rows t) = ((n, err), rows')" and t': "t' = t\<lparr>tbl_rows := rows'\<rparr>"
    using assms(2) by (auto simp: deleteBatched_def split: prod.splits)
  have d: "distinct (map fst (tbl_rows t))" using assms(1) by (simp add: tbl_wf_def)
  note sp = delete_rounds_spec [OF d r]
  show "filter (\<lambda>r. \<not> P r) (tbl_rows t') = filter (\<lambda>r. \<not> P r) (tbl_rows t)" "set (tbl_rows t') \<subseteq> set (tbl_rows t)"
    "n + length (tbl_rows t') = length (tbl_rows t)" "err \<noteq> None \<Longrightarrow> \<exists>j. stops j = err" "tbl_seq t' = tbl_seq t"
    using sp t' by simp_all
  show "tbl_wf t'" using sp t' assms(1) by (auto simp: tbl_wf_def list_all_iff)
  assume "err = None"
  then have "\<forall>r \<in> set rows'. \<not> P r" using sp by (simp add: filter_empty_conv)
  then show "tbl_rows t' = filter (\<lambda>r. \<not> P r) (tbl_rows t)" using sp t' by (simp add: filter_id_conv [THEN iffD2] flip: conjunct1 [OF sp])
qed

lemma cutoff_exact:
  assumes "0 \<le> days" and "days \<le> MaxRetentionDays"
  shows "cutoffFor days now = trunc_sec (now - days * day)"
proof -
  have "wrap64 (- days) = - days" "wrap64 (- days * 24) = - days * 24" "wrap64 (- days * 24 * hour) = - days * 24 * hour"
    using assms by (simp_all add: wrap64_id MaxRetentionDays_def hour_def minute_def second_def min_int64_def max_int64_def)
  then show ?thesis by (simp add: cutoffFor_def day_def algebra_simps)
qed

lemma Validate_bounds:
  assumes "Validate p = None"
  shows "0 \<le> rp_AlertEventsDays p \<and> rp_AlertEventsDays p \<le> MaxRetentionDays"
    and "0 \<le> rp_AlertDeliveriesDays p \<and> rp_AlertDeliveriesDays p \<le> MaxRetentionDays"
    and "rp_AuditDays p = 0 \<or> MinAuditRetentionDays \<le> rp_AuditDays p \<and> rp_AuditDays p \<le> MaxRetentionDays"
    and "rp_RevisionsKeep p = 0 \<or> MinRevisionsKeep \<le> rp_RevisionsKeep p"
  using assms
  by (auto simp: Validate_def check_days_def MinAlertRetentionDays_def MinAuditRetentionDays_def MaxRetentionDays_def
      split: option.splits if_splits)

lemma Retention_valid: "Retention re s = (p, None) \<Longrightarrow> Validate p = None"
  by (auto simp: Retention_def policy_of_def DefaultRetention_def Validate_def check_days_def MinAlertRetentionDays_def
      MinAuditRetentionDays_def MaxRetentionDays_def MinRevisionsKeep_def split: if_splits policy_setting.splits option.splits)

lemma record_run_frame [simp]:
  "rn_alerts (record_run re tr actor run s) = rn_alerts s" "rn_projects (record_run re tr actor run s) = rn_projects s"
  "rn_dirs (record_run re tr actor run s) = rn_dirs s"
  by (simp_all add: record_run_def SaveRetentionRun_def Let_def split: prod.splits)

lemma record_run_audit: "set (tbl_rows (a_log (rn_audit s))) \<subseteq> set (tbl_rows (a_log (rn_audit (record_run re tr actor run s))))"
  by (auto simp: record_run_def SaveRetentionRun_def Audit_entry_def tbl_insert_rows Let_def split: prod.splits)

lemma runRetention_cases:
  assumes "runRetention re tr actor s = ((run, errs), s')"
  obtains "run = None" "s' = s" "errs \<noteq> []"
  | p r s1 where "\<not> rn_busy s" "Retention re s = (p, None)" "Validate p = None" "purge_areas re tr p s = (r, s1)" "run = Some r" "errs = rr_Errors r"
      "s' = record_run re tr actor r s1"
proof (cases "rn_busy s")
  case False
  obtain p e where pe: "Retention re s = (p, e)" by force
  show thesis
  proof (cases e)
    case None
    obtain r s1 where r: "purge_areas re tr p s = (r, s1)" by force
    show thesis
      by (rule that(2) [OF False _ _ r]) (use assms False pe None r Retention_valid [of re s p] in \<open>auto simp: runRetention_def\<close>)
  qed (use assms False pe that(1) in \<open>auto simp: runRetention_def\<close>)
qed (use assms that(1) in \<open>auto simp: runRetention_def\<close>)

lemma purge_areas_parts:
  assumes "purge_areas re tr p s = (r, s1)"
  obtains ne nd e1 d1 nd2 e2 na e3 refs e4 nf dirs1 ns e5 where
    "PurgeAlertEvents re (rn_alerts s) (rp_AlertEventsDays p) (re_now re) = ((ne, nd, e1), d1)"
    "PurgeAlertDeliveries re d1 (rp_AlertDeliveriesDays p) (re_now re) = ((nd2, e2), rn_alerts s1)"
    "PurgeAudit re (rn_audit s) (rp_AuditDays p) (re_now re) = ((na, e3), rn_audit s1)"
    "TrimRevisions re (rn_projects s) (rp_RevisionsKeep p) = ((refs, e4), rn_projects s1)"
    "remove_zips re refs (rn_dirs s) = (nf, dirs1)"
    "sweepOrphanRevisionFiles re (rn_projects s1) dirs1 = ((ns, e5), rn_dirs s1)"
    "rr_Errors r = note_error e1 @ note_error e2 @ note_error e3 @ note_error e4 @ e5"
    "rr_Audit r = na" "rr_AlertEvents r = ne" "rr_AlertDeliveries r = nd + nd2" "rr_Revisions r = length refs"
proof -
  obtain ne nd e1 d1 where 1: "PurgeAlertEvents re (rn_alerts s) (rp_AlertEventsDays p) (re_now re) = ((ne, nd, e1), d1)"
    by (metis prod.collapse)
  obtain nd2 e2 d2 where 2: "PurgeAlertDeliveries re d1 (rp_AlertDeliveriesDays p) (re_now re) = ((nd2, e2), d2)" by (metis prod.collapse)
  obtain na e3 a1 where 3: "PurgeAudit re (rn_audit s) (rp_AuditDays p) (re_now re) = ((na, e3), a1)" by (metis prod.collapse)
  obtain refs e4 p1 where 4: "TrimRevisions re (rn_projects s) (rp_RevisionsKeep p) = ((refs, e4), p1)" by (metis prod.collapse)
  obtain nf dirs1 where 5: "remove_zips re refs (rn_dirs s) = (nf, dirs1)" by force
  obtain ns e5 dirs2 where 6: "sweepOrphanRevisionFiles re p1 dirs1 = ((ns, e5), dirs2)" by (metis prod.collapse)
  have "s1 = s\<lparr>rn_alerts := d2, rn_audit := a1, rn_projects := p1, rn_dirs := dirs2\<rparr>"
    "rr_Errors r = note_error e1 @ note_error e2 @ note_error e3 @ note_error e4 @ e5" "rr_Audit r = na" "rr_AlertEvents r = ne"
    "rr_AlertDeliveries r = nd + nd2" "rr_Revisions r = length refs"
    using assms by (auto simp: purge_areas_def 1 2 3 4 5 6)
  with 1 2 3 4 5 6 show thesis by (intro that [of ne nd e1 d1 nd2 e2 na e3 refs e4 nf dirs1 ns e5]) simp_all
qed

text \<open>Rows from before the cutoff go, or none when the area is kept forever.\<close>

definition kept_since :: "int \<Rightarrow> time \<Rightarrow> time \<Rightarrow> bool" where
  "kept_since days now t \<longleftrightarrow> days = 0 \<or> trunc_sec (now - days * day) \<le> t"

lemma PurgeAudit_keeps:
  assumes "PurgeAudit re a days now = ((n, err), a')" and "tbl_wf (a_log a)"
    and "days = 0 \<or> MinAuditRetentionDays \<le> days \<and> days \<le> MaxRetentionDays" and "(i, e) \<in> set (tbl_rows (a_log a))" and "kept_since days now (a_CreatedAt e)"
  shows "(i, e) \<in> set (tbl_rows (a_log a'))"
proof (cases "days = 0")
  case False
  then obtain t where t: "deleteBatched (re_stops re AreaAudit) (\<lambda>(i, x). a_CreatedAt x < cutoffFor days now) (a_log a) = ((n, err), t)" "a' = a\<lparr>a_log := t\<rparr>"
    using assms(1,3) by (auto simp: PurgeAudit_def MinAuditRetentionDays_def split: prod.splits)
  have "cutoffFor days now \<le> a_CreatedAt e"
    using assms(3,5) False by (simp add: cutoff_exact kept_since_def MinAuditRetentionDays_def)
  then have "(i, e) \<in> set (filter (\<lambda>r. \<not> (case r of (i, x) \<Rightarrow> a_CreatedAt x < cutoffFor days now)) (tbl_rows (a_log a)))"
    using assms(4) by simp
  then have "(i, e) \<in> set (filter (\<lambda>r. \<not> (case r of (i, x) \<Rightarrow> a_CreatedAt x < cutoffFor days now)) (tbl_rows t))"
    unfolding deleteBatched_spec(1) [OF assms(2) t(1)] .
  then show ?thesis using t(2) by simp
qed (use assms in \<open>simp add: PurgeAudit_def\<close>)

text \<open>The newest revisions: the numbers of a project from the highest downwards.\<close>

definition newest_revisions :: "int \<Rightarrow> int list \<Rightarrow> int list" where
  "newest_revisions keep ns = take (nat keep) (rev (sort ns))"

lemma filter_greater_sorted:
  "sorted_wrt (>) (ys :: int list) \<Longrightarrow> k < length ys \<Longrightarrow> filter (\<lambda>x. x > ys ! k) ys = take k ys"
proof (induction ys arbitrary: k)
  case (Cons y ys)
  show ?case
  proof (cases k)
    case 0
    then show ?thesis using Cons.prems by (auto simp: filter_empty_conv)
  next
    case (Suc m)
    then have "ys ! m < y" using Cons.prems by auto
    then show ?thesis using Suc Cons by auto
  qed
qed simp

lemma newest_iff:
  assumes "distinct ns" and "m \<in> set ns" and "0 \<le> keep"
  shows "m \<in> set (newest_revisions keep ns) \<longleftrightarrow> int (length (filter (\<lambda>x. x > m) ns)) < keep"
proof -
  let ?ys = "rev (sort ns)"
  have "sorted_wrt (<) (sort ns)" using assms(1) by (simp add: strict_sorted_iff)
  then have srt: "sorted_wrt (>) ?ys" by (simp add: sorted_wrt_rev)
  obtain k where k: "k < length ?ys" "?ys ! k = m" using assms(2) by (metis in_set_conv_nth set_rev set_sort)
  have "length (filter (\<lambda>x. x > m) ns) = length (filter (\<lambda>x. x > m) ?ys)" by (simp add: filter_sort flip: rev_filter)
  then have len: "length (filter (\<lambda>x. x > m) ns) = k" using filter_greater_sorted [OF srt k(1)] k by simp
  have "distinct ?ys" using assms(1) by simp
  then have "m \<in> set (take (nat keep) ?ys) \<longleftrightarrow> k < nat keep"
    using k by (auto simp: in_set_conv_nth nth_eq_iff_index_eq)
  then show ?thesis using len assms(3) by (simp add: newest_revisions_def zless_nat_eq_int_zless)
qed

text \<open>The key of a revision, unique in the table, and the ranges of its columns.\<close>

definition rev_key :: "ProjectRevision \<Rightarrow> int \<times> int" where
  "rev_key r = (rv_ProjectID r, rv_Revision r)"

definition revisions_ok :: "project_store \<Rightarrow> bool" where
  "revisions_ok s \<longleftrightarrow> tbl_wf (pt_revisions s) \<and> distinct (map (rev_key \<circ> snd) (tbl_rows (pt_revisions s)))
     \<and> list_all (\<lambda>(i, r). min_int64 \<le> rv_ProjectID r \<and> rv_ProjectID r \<le> max_int64 \<and> 0 \<le> rv_Revision r \<and> rv_Revision r \<le> max_int64)
         (tbl_rows (pt_revisions s))"

lemma revisions_of_mem: "m \<in> set (revisions_of s pid) \<longleftrightarrow> (\<exists>i r. (i, r) \<in> set (tbl_rows (pt_revisions s)) \<and> rev_key r = (pid, m))"
  by (force simp: revisions_of_def rev_key_def)

lemma revisions_distinct:
  assumes "revisions_ok s" shows "distinct (revisions_of s pid)"
proof -
  have "distinct (map (rev_key \<circ> snd) rows) \<Longrightarrow> distinct (map (rv_Revision \<circ> snd) (filter (\<lambda>(i, r). rv_ProjectID r = pid) rows))" for rows :: "(int \<times> ProjectRevision) list"
    by (induction rows) (auto simp: rev_key_def rev_image_eqI)
  then show ?thesis using assms by (simp add: revisions_ok_def revisions_of_def)
qed

lemma surplus_iff:
  assumes "revisions_ok s" and "(i, r) \<in> set (tbl_rows (pt_revisions s))" and "0 \<le> keep"
  shows "(i, r) \<in> set (surplus keep (tbl_rows (pt_revisions s))) \<longleftrightarrow> rv_Revision r \<notin> set (newest_revisions keep (revisions_of s (rv_ProjectID r)))"
proof -
  have mem: "rv_Revision r \<in> set (revisions_of s (rv_ProjectID r))" using assms(2) by (auto simp: revisions_of_mem rev_key_def)
  have "length (filter (\<lambda>(j, n). rv_ProjectID n = rv_ProjectID r \<and> rv_Revision n > rv_Revision r) rows)
      = length (filter (\<lambda>x. x > rv_Revision r) (map (rv_Revision \<circ> snd) (filter (\<lambda>(i, n). rv_ProjectID n = rv_ProjectID r) rows)))"
    for rows :: "(int \<times> ProjectRevision) list" by (induction rows) auto
  then show ?thesis
    using newest_iff [OF revisions_distinct [OF assms(1)] mem assms(3)] assms(2)
    by (simp add: surplus_def revisions_of_def not_less)
qed

lemma trim_rows_spec:
  assumes "trim_rows stops k vs s = ((refs, err), s')"
  shows "\<exists>n. n \<le> length vs \<and> refs = map (rev_key \<circ> snd) (take n vs) \<and> (err = None \<longrightarrow> n = length vs)
    \<and> s' = s\<lparr>pt_revisions := (pt_revisions s)\<lparr>tbl_rows := filter (\<lambda>r. fst r \<notin> fst ` set (take n vs)) (tbl_rows (pt_revisions s))\<rparr>\<rparr>"
  using assms
proof (induction stops k vs s arbitrary: refs err s' rule: trim_rows.induct)
  case (2 stops k i r rest s)
  show ?case
  proof (cases "stops k")
    case None
    obtain rf er s1 where t: "trim_rows stops (Suc k) rest (s\<lparr>pt_revisions := tbl_delete i (pt_revisions s)\<rparr>) = ((rf, er), s1)" by (metis prod.collapse)
    then have o: "refs = rev_key r # rf" "err = er" "s' = s1" using 2(2) None by (auto simp: rev_key_def)
    have "\<exists>n. n \<le> length rest \<and> rf = map (rev_key \<circ> snd) (take n rest) \<and> (er = None \<longrightarrow> n = length rest)
        \<and> s1 = s\<lparr>pt_revisions := (tbl_delete i (pt_revisions s))\<lparr>tbl_rows := filter (\<lambda>r. fst r \<notin> fst ` set (take n rest)) (tbl_rows (tbl_delete i (pt_revisions s)))\<rparr>\<rparr>"
      using 2(1) [OF None t] by (simp add: comp_def)
    then obtain n where n: "n \<le> length rest" "rf = map (rev_key \<circ> snd) (take n rest)" "er = None \<longrightarrow> n = length rest"
      "s1 = s\<lparr>pt_revisions := (tbl_delete i (pt_revisions s))\<lparr>tbl_rows := filter (\<lambda>r. fst r \<notin> fst ` set (take n rest)) (tbl_rows (tbl_delete i (pt_revisions s)))\<rparr>\<rparr>"
      by blast
    have "filter (\<lambda>r. fst r \<notin> fst ` set (take n rest)) (filter (\<lambda>(j, r). j \<noteq> i) rows)
        = filter (\<lambda>x. fst x \<notin> fst ` set (take (Suc n) ((i, r) # rest))) rows" for rows :: "(int \<times> ProjectRevision) list"
      unfolding filter_filter by (rule filter_cong) auto
    then show ?thesis using n o by (intro exI [of _ "Suc n"]) (simp add: tbl_delete_def)
  next
    case (Some e)
    then have "refs = []" "err = Some e" "s' = s" using 2(2) by simp_all
    then show ?thesis by (intro exI [of _ 0]) simp
  qed
qed simp

lemma TrimRevisions_spec:
  assumes "TrimRevisions re s keep = ((refs, err), s')" and "keep > 0"
  obtains gone where "set gone \<subseteq> set (surplus keep (tbl_rows (pt_revisions s)))" "refs = map (rev_key \<circ> snd) gone"
    "err = None \<Longrightarrow> set gone = set (surplus keep (tbl_rows (pt_revisions s)))"
    "s' = s\<lparr>pt_revisions := (pt_revisions s)\<lparr>tbl_rows := filter (\<lambda>r. fst r \<notin> fst ` set gone) (tbl_rows (pt_revisions s))\<rparr>\<rparr>"
proof (cases "re_trim_fails re")
  case True
  then show thesis using assms by (intro that [of "[]"]) (auto simp: TrimRevisions_def)
next
  case False
  then have "trim_rows (re_stops re AreaRevisions) 0 (surplus keep (tbl_rows (pt_revisions s))) s = ((refs, err), s')"
    using assms by (simp add: TrimRevisions_def)
  from trim_rows_spec [OF this] obtain n where n: "n \<le> length (surplus keep (tbl_rows (pt_revisions s)))"
    "refs = map (rev_key \<circ> snd) (take n (surplus keep (tbl_rows (pt_revisions s))))"
    "err = None \<longrightarrow> n = length (surplus keep (tbl_rows (pt_revisions s)))"
    "s' = s\<lparr>pt_revisions := (pt_revisions s)\<lparr>tbl_rows := filter (\<lambda>r. fst r \<notin> fst ` set (take n (surplus keep (tbl_rows (pt_revisions s))))) (tbl_rows (pt_revisions s))\<rparr>\<rparr>"
    by blast
  then show thesis by (intro that [of "take n (surplus keep (tbl_rows (pt_revisions s)))"]) (auto dest: in_set_takeD)
qed

lemma trimmed_rows:
  assumes "revisions_ok s" and "set gone \<subseteq> set (tbl_rows (pt_revisions s))"
    and "s' = s\<lparr>pt_revisions := (pt_revisions s)\<lparr>tbl_rows := filter (\<lambda>r. fst r \<notin> fst ` set gone) (tbl_rows (pt_revisions s))\<rparr>\<rparr>"
  shows "set (tbl_rows (pt_revisions s')) = set (tbl_rows (pt_revisions s)) - set gone"
proof -
  have d: "distinct (map fst (tbl_rows (pt_revisions s)))" using assms(1) by (simp add: revisions_ok_def tbl_wf_def)
  have "r \<in> set gone" if r: "r \<in> set (tbl_rows (pt_revisions s))" "fst r \<in> fst ` set gone" for r
  proof -
    obtain g where g: "g \<in> set gone" "fst g = fst r" using r(2) by force
    then have "g \<in> set (tbl_rows (pt_revisions s))" using assms(2) by blast
    then have "g = r" using r(1) g(2) eq_key_imp_eq_value [OF d, of "fst g" "snd g" "snd r"] by (metis prod.collapse)
    then show ?thesis using g(1) by simp
  qed
  then show ?thesis using assms(3) by auto
qed

text \<open>What a purge leaves of the alert tables when it ends without an error.\<close>

lemma kept_rows:
  assumes "0 \<le> days \<and> days \<le> MaxRetentionDays" and "days \<noteq> 0"
  shows "filter (\<lambda>r. \<not> (case r of (i, x) \<Rightarrow> g x < cutoffFor days now)) rows = filter (\<lambda>(i, x). kept_since days now (g x)) rows"
  using assms by (intro filter_cong refl) (auto simp: cutoff_exact kept_since_def not_less)

lemma PurgeAlertDeliveries_Ok:
  assumes "PurgeAlertDeliveries re d days now = ((n, None), d')" and "tbl_wf (al_deliveries d)" and "0 \<le> days \<and> days \<le> MaxRetentionDays"
  shows "al_events d' = al_events d" "al_retries d' = al_retries d"
    and "tbl_rows (al_deliveries d') = filter (\<lambda>(i, x). kept_since days now (dl_Attempted x)) (tbl_rows (al_deliveries d))"
proof -
  show "al_events d' = al_events d" "al_retries d' = al_retries d"
    using assms(1) by (auto simp: PurgeAlertDeliveries_def split: if_splits prod.splits)
  show "tbl_rows (al_deliveries d') = filter (\<lambda>(i, x). kept_since days now (dl_Attempted x)) (tbl_rows (al_deliveries d))"
  proof (cases "days = 0")
    case False
    then obtain t where t: "deleteBatched (re_stops re AreaDeliveries) (\<lambda>(i, x). dl_Attempted x < cutoffFor days now) (al_deliveries d) = ((n, None), t)"
      "d' = d\<lparr>al_deliveries := t\<rparr>" using assms(1,3) by (auto simp: PurgeAlertDeliveries_def split: prod.splits if_splits)
    show ?thesis using deleteBatched_spec(4) [OF assms(2) t(1) refl] t(2) by (simp add: kept_rows [OF assms(3) False])
  qed (use assms(1) in \<open>auto simp: PurgeAlertDeliveries_def kept_since_def\<close>)
qed

lemma PurgeAlertEvents_Ok:
  assumes "PurgeAlertEvents re d days now = ((n, m, None), d')" and "tbl_wf (al_events d)" "tbl_wf (al_deliveries d)" "tbl_wf (al_retries d)"
    and "0 \<le> days \<and> days \<le> MaxRetentionDays"
  shows "tbl_rows (al_events d') = filter (\<lambda>(i, e). kept_since days now (ev_CreatedAt e)) (tbl_rows (al_events d))"
    and "tbl_rows (al_deliveries d') = filter (\<lambda>(i, x). days = 0 \<or> \<not> without_event d' (dl_EventID x)) (tbl_rows (al_deliveries d))"
    and "tbl_rows (al_retries d') = filter (\<lambda>(i, x). days = 0 \<or> \<not> without_event d' (rt_EventID x)) (tbl_rows (al_retries d))"
    and "tbl_wf (al_deliveries d')"
proof -
  have "tbl_rows (al_events d') = filter (\<lambda>(i, e). kept_since days now (ev_CreatedAt e)) (tbl_rows (al_events d))
    \<and> tbl_rows (al_deliveries d') = filter (\<lambda>(i, x). days = 0 \<or> \<not> without_event d' (dl_EventID x)) (tbl_rows (al_deliveries d))
    \<and> tbl_rows (al_retries d') = filter (\<lambda>(i, x). days = 0 \<or> \<not> without_event d' (rt_EventID x)) (tbl_rows (al_retries d))
    \<and> tbl_wf (al_deliveries d')"
  proof (cases "days = 0")
    case True
    then show ?thesis using assms by (auto simp: PurgeAlertEvents_def kept_since_def)
  next
    case False
    then have "\<not> days \<le> 0" using assms(5) by simp
    then obtain t u v k where t: "deleteBatched (re_stops re AreaEvents) (\<lambda>(i, e). ev_CreatedAt e < cutoffFor days now) (al_events d) = ((n, None), t)"
      and u: "deleteBatched (re_stops re AreaOrphans) (\<lambda>(i, x). without_event (d\<lparr>al_events := t\<rparr>) (dl_EventID x)) (al_deliveries d) = ((m, None), u)"
      and v: "deleteBatched (re_stops re AreaRetries) (\<lambda>(i, x). without_event (d\<lparr>al_events := t, al_deliveries := u\<rparr>) (rt_EventID x)) (al_retries d) = ((k, None), v)"
      and d': "d' = d\<lparr>al_events := t, al_deliveries := u, al_retries := v\<rparr>"
      using assms(1) by (auto simp: PurgeAlertEvents_def Let_def split: prod.splits option.splits)
    have w: "without_event (d\<lparr>al_events := t\<rparr>) = without_event d'" "without_event (d\<lparr>al_events := t, al_deliveries := u\<rparr>) = without_event d'"
      by (simp_all add: without_event_def d' fun_eq_iff)
    have ev: "tbl_rows t = filter (\<lambda>(i, e). kept_since days now (ev_CreatedAt e)) (tbl_rows (al_events d))"
      using deleteBatched_spec(4) [OF assms(2) t refl] by (simp add: kept_rows [OF assms(5) False])
    show ?thesis
      using ev deleteBatched_spec(4,7) [OF assms(3) u] deleteBatched_spec(4) [OF assms(4) v refl] False
      by (simp add: d' w [unfolded d'] case_prod_unfold)
  qed
  then show "tbl_rows (al_events d') = filter (\<lambda>(i, e). kept_since days now (ev_CreatedAt e)) (tbl_rows (al_events d))"
    "tbl_rows (al_deliveries d') = filter (\<lambda>(i, x). days = 0 \<or> \<not> without_event d' (dl_EventID x)) (tbl_rows (al_deliveries d))"
    "tbl_rows (al_retries d') = filter (\<lambda>(i, x). days = 0 \<or> \<not> without_event d' (rt_EventID x)) (tbl_rows (al_retries d))"
    "tbl_wf (al_deliveries d')" by blast+
qed

lemma note_error_Nil [simp]: "note_error e = [] \<longleftrightarrow> e = None"
  by (simp add: note_error_def split: option.splits)

lemma revision_of_zip: "0 \<le> n \<Longrightarrow> n \<le> max_int64 \<Longrightarrow> revision_of_name (zip_name n) = Some n"
proof -
  assume n: "0 \<le> n" "n \<le> max_int64"
  have sh: "show_int n = show_nat (nat n)" using n(1) by (simp add: show_int_def)
  have "parse_int64 (show_int n) = Some n" using n by (intro parse_show_int) (simp_all add: min_int64_def)
  then show ?thesis
    using show_nat_digits [of "nat n"]
    by (simp add: revision_of_name_def zip_name_def has_suffix_def trim_suffix_def sh parse_int64_value_def Let_def)
qed

text \<open>A file that is gone was a snapshot without a row.\<close>

definition unreachable :: "project_store \<Rightarrow> snap_dir \<Rightarrow> string \<times> bool \<Rightarrow> bool" where
  "unreachable s d f \<longleftrightarrow> sd_IsDir d \<and> (case parse_int64 (sd_Name d) of None \<Rightarrow> False | Some pid \<Rightarrow> orphan (revisions_of s pid) f)"

definition only_orphans_gone :: "project_store \<Rightarrow> snap_dir \<Rightarrow> snap_dir \<Rightarrow> bool" where
  "only_orphans_gone s d d' \<longleftrightarrow> sd_Name d' = sd_Name d \<and> sd_IsDir d' = sd_IsDir d \<and> set (sd_Files d') \<subseteq> set (sd_Files d)
     \<and> (\<forall>f \<in> set (sd_Files d). f \<in> set (sd_Files d') \<or> unreachable s d f)"

lemma only_orphans_refl [simp]: "only_orphans_gone s d d"
  by (simp add: only_orphans_gone_def)

lemma only_orphans_trans: "only_orphans_gone s d e \<Longrightarrow> only_orphans_gone s e f \<Longrightarrow> only_orphans_gone s d f"
  unfolding only_orphans_gone_def unreachable_def by (metis subsetD subset_trans)

lemma all2_refl [simp]: "list_all2 (only_orphans_gone s) xs xs"
  by (simp add: list_all2_same)

lemma all2_trans:
  assumes "list_all2 (only_orphans_gone s) xs ys" and "list_all2 (only_orphans_gone s) ys zs"
  shows "list_all2 (only_orphans_gone s) xs zs"
  by (rule list_all2_trans [OF _ assms]) (rule only_orphans_trans)

lemma remove_file_orphans:
  assumes "remove_file re (show_int pid) (zip_name n) (Some ds) = (ok, dirs)" and "n \<notin> set (revisions_of s pid)"
    and "0 \<le> n" "n \<le> max_int64" "min_int64 \<le> pid" "pid \<le> max_int64"
  shows "\<exists>ds'. dirs = Some ds' \<and> list_all2 (only_orphans_gone s) ds ds'"
proof -
  have p: "parse_int64 (show_int pid) = Some pid" using assms(5,6) by (rule parse_show_int)
  have o: "unreachable s d (zip_name n, False)" if "sd_Name d = show_int pid" "sd_IsDir d" for d
    using that assms(2) revision_of_zip [OF assms(3,4)] p by (simp add: unreachable_def orphan_def)
  have "only_orphans_gone s d (if sd_Name d = show_int pid \<and> sd_IsDir d then d\<lparr>sd_Files := filter (\<lambda>f. f \<noteq> (zip_name n, False)) (sd_Files d)\<rparr> else d)" for d
    using o [of d] by (auto simp: only_orphans_gone_def)
  then show ?thesis
    using assms(1) by (auto simp: remove_file_def list_all2_map2 list_all2_same split: if_splits)
qed

lemma remove_zips_orphans:
  assumes "remove_zips re refs (Some ds) = (k, dirs)"
    and "\<forall>(pid, n) \<in> set refs. n \<notin> set (revisions_of s pid) \<and> 0 \<le> n \<and> n \<le> max_int64 \<and> min_int64 \<le> pid \<and> pid \<le> max_int64"
  shows "\<exists>ds'. dirs = Some ds' \<and> list_all2 (only_orphans_gone s) ds ds'"
  using assms
proof (induction refs arbitrary: ds k dirs)
  case Nil
  then show ?case by auto
next
  case (Cons x refs)
  obtain pid n where x: "x = (pid, n)" by (cases x)
  obtain ok dirs1 where f: "remove_file re (show_int pid) (zip_name n) (Some ds) = (ok, dirs1)" by force
  have "\<exists>ds1. dirs1 = Some ds1 \<and> list_all2 (only_orphans_gone s) ds ds1"
    using Cons.prems(2) x by (intro remove_file_orphans [OF f]) auto
  then obtain ds1 where ds1: "dirs1 = Some ds1" "list_all2 (only_orphans_gone s) ds ds1" by blast
  obtain k2 where "remove_zips re refs (Some ds1) = (k2, dirs)"
    using Cons.prems(1) f ds1(1) by (auto simp: x split: prod.splits)
  from Cons.IH [OF this] Cons.prems(2) obtain ds' where "dirs = Some ds'" "list_all2 (only_orphans_gone s) ds1 ds'" by auto
  then show ?case using all2_trans [OF ds1(2)] by blast
qed

lemma sweep_files_orphans:
  assumes "sweep_files re (revisions_of s pid) d = ((n, errs), d')" and "sd_IsDir d" and "parse_int64 (sd_Name d) = Some pid"
  shows "only_orphans_gone s d d'" and "errs = [] \<Longrightarrow> \<forall>f \<in> set (sd_Files d'). \<not> unreachable s d' f"
proof -
  let ?gone = "filter (\<lambda>f. \<not> re_remove_fails re (sd_Name d) (fst f)) (filter (orphan (revisions_of s pid)) (sd_Files d))"
  have d': "d' = d\<lparr>sd_Files := filter (\<lambda>f. f \<notin> set ?gone) (sd_Files d)\<rparr>"
    and e: "errs = map (RetFile (sd_Name d) \<circ> fst) (filter (\<lambda>f. re_remove_fails re (sd_Name d) (fst f)) (filter (orphan (revisions_of s pid)) (sd_Files d)))"
    using assms(1) unfolding sweep_files_def Let_def prod.inject by metis+
  show "only_orphans_gone s d d'" using assms(2,3) by (auto simp: d' only_orphans_gone_def unreachable_def)
  assume "errs = []"
  then show "\<forall>f \<in> set (sd_Files d'). \<not> unreachable s d' f"
    using assms(3) by (auto simp: d' e unreachable_def filter_empty_conv)
qed

lemma sweep_dirs_orphans:
  assumes "sweep_dirs re s ds = ((n, errs), ds')"
  shows "list_all2 (only_orphans_gone s) ds ds' \<and> (errs = [] \<longrightarrow> (\<forall>d \<in> set ds'. \<forall>f \<in> set (sd_Files d). \<not> unreachable s d f))"
  using assms
proof (induction ds arbitrary: n errs ds')
  case (Cons d ds)
  obtain m errs1 ds1 where r: "sweep_dirs re s ds = ((m, errs1), ds1)" by (metis prod.collapse)
  note IH = Cons.IH [OF r]
  show ?case
  proof (cases "if sd_IsDir d then parse_int64 (sd_Name d) else None")
    case None
    then have "\<not> unreachable s d f" for f by (auto simp: unreachable_def split: if_splits)
    moreover have "errs = errs1" "ds' = d # ds1" using Cons.prems None r by simp_all
    ultimately show ?thesis using IH by simp
  next
    case (Some pid)
    then have d: "sd_IsDir d" "parse_int64 (sd_Name d) = Some pid" by (auto split: if_splits)
    show ?thesis
    proof (cases "re_ctx_done re (sd_Name d)")
      case True
      then show ?thesis using Cons.prems d by auto
    next
      case False
      show ?thesis
      proof (cases "RevisionNumbers s pid = Ok (revisions_of s pid) \<and> \<not> re_dir_fails re (sd_Name d)")
        case True
        obtain k e d1 where f: "sweep_files re (revisions_of s pid) d = ((k, e), d1)" by (metis prod.collapse)
        have "errs = e @ errs1" "ds' = d1 # ds1" using Cons.prems d False True r f by simp_all
        then show ?thesis using IH sweep_files_orphans [OF f d] by auto
      next
        case F: False
        then have "errs \<noteq> [] \<and> ds' = d # ds1"
          using Cons.prems d False r by (auto simp: RevisionNumbers_def split: if_splits)
        then show ?thesis using IH by simp
      qed
    qed
  qed
qed simp

lemma sweep_orphans:
  assumes "sweepOrphanRevisionFiles re s (Some ds) = ((n, errs), dirs)"
  shows "\<exists>ds'. dirs = Some ds' \<and> list_all2 (only_orphans_gone s) ds ds' \<and> (errs = [] \<longrightarrow> (\<forall>d \<in> set ds'. \<forall>f \<in> set (sd_Files d). \<not> unreachable s d f))"
proof (cases "re_root_fails re")
  case False
  obtain x ds1 where x: "sweep_dirs re s ds = (x, ds1)" by (cases "sweep_dirs re s ds")
  then have "x = (n, errs)" "dirs = Some ds1" using assms False by (simp_all add: sweepOrphanRevisionFiles_def)
  then show ?thesis using sweep_dirs_orphans [of re s ds n errs ds1] x by simp
qed (use assms in \<open>auto simp: sweepOrphanRevisionFiles_def\<close>)

lemma trimmed_refs:
  assumes "revisions_ok s" and "TrimRevisions re s keep = ((refs, err), s')" and "(pid, n) \<in> set refs"
  shows "n \<notin> set (revisions_of s' pid) \<and> 0 \<le> n \<and> n \<le> max_int64 \<and> min_int64 \<le> pid \<and> pid \<le> max_int64"
proof -
  let ?rows = "tbl_rows (pt_revisions s)"
  have "keep > 0" using assms(2,3) by (auto simp: TrimRevisions_def split: if_splits)
  then obtain gone where g: "set gone \<subseteq> set (surplus keep ?rows)" "refs = map (rev_key \<circ> snd) gone"
    "s' = s\<lparr>pt_revisions := (pt_revisions s)\<lparr>tbl_rows := filter (\<lambda>r. fst r \<notin> fst ` set gone) ?rows\<rparr>\<rparr>"
    using TrimRevisions_spec [OF assms(2)] by metis
  have sub: "set gone \<subseteq> set ?rows" using g(1) by (auto simp: surplus_def)
  note rows = trimmed_rows [OF assms(1) sub g(3)]
  obtain x where x: "x \<in> set gone" "rev_key (snd x) = (pid, n)" using assms(3) g(2) by auto
  have d: "distinct (map (rev_key \<circ> snd) ?rows)" using assms(1) by (simp add: revisions_ok_def)
  have inj: "inj_on (rev_key \<circ> snd) (set ?rows)" using d by (simp add: distinct_map)
  have "y = x" if "y \<in> set ?rows" "rev_key (snd y) = (pid, n)" for y
    using inj_onD [OF inj, of y x] that x sub by auto
  then have "n \<notin> set (revisions_of s' pid)" using x(1) rows revisions_of_mem [of n s' pid] by fastforce
  moreover have "(fst x, snd x) \<in> set ?rows" using x(1) sub by auto
  then have "0 \<le> n \<and> n \<le> max_int64 \<and> min_int64 \<le> pid \<and> pid \<le> max_int64"
    using assms(1) x(2) by (fastforce simp: revisions_ok_def list_all_iff rev_key_def)
  ultimately show ?thesis by blast
qed

section \<open>Properties\<close>

text \<open>Deleting in batches is deleting: without a failure the loop ends with exactly the matching rows gone
  and their number as its total; stopped anywhere, every other row is still there in its order,
  and the total is the number of rows that went.\<close>

theorem batched_purge_exact:
  assumes "tbl_wf t" and "deleteBatched stops P t = ((n, err), t')"
  shows "(err = None \<longrightarrow> t' = t\<lparr>tbl_rows := filter (\<lambda>r. \<not> P r) (tbl_rows t)\<rparr> \<and> n = length (filter P (tbl_rows t)))
    \<and> ((\<forall>k. stops k = None) \<longrightarrow> err = None)
    \<and> filter (\<lambda>r. \<not> P r) (tbl_rows t') = filter (\<lambda>r. \<not> P r) (tbl_rows t)
    \<and> set (tbl_rows t') \<subseteq> set (tbl_rows t) \<and> n + length (tbl_rows t') = length (tbl_rows t)"
proof -
  note sp = deleteBatched_spec [OF assms]
  have "t' = t\<lparr>tbl_rows := filter (\<lambda>r. \<not> P r) (tbl_rows t)\<rparr> \<and> n = length (filter P (tbl_rows t))" if "err = None"
    using sp(3,4,6) that sum_length_filter_compl [of P "tbl_rows t"] by auto
  moreover have "err = None" if "\<forall>k. stops k = None" using sp(5) that by (cases err) auto
  ultimately show ?thesis using sp(1-3) by blast
qed

text \<open>C18. The audit log of the last thirty days survives every purge, scheduled or asked for, whatever the
  stored policy says and wherever the purge stops.\<close>

theorem recent_audit_kept:
  assumes "tbl_wf (a_log (rn_audit s))" and "(i, e) \<in> set (tbl_rows (a_log (rn_audit s)))" and "re_now re - 30 * day \<le> a_CreatedAt e"
  shows "(i, e) \<in> set (tbl_rows (a_log (rn_audit (snd (runRetention re trigger actor s)))))"
proof -
  obtain run errs s' where r: "runRetention re trigger actor s = ((run, errs), s')" by (metis prod.collapse)
  show ?thesis
  using r proof (cases rule: runRetention_cases)
    case (2 p r1 s1)
    from 2(4) obtain na e3 where a: "PurgeAudit re (rn_audit s) (rp_AuditDays p) (re_now re) = ((na, e3), rn_audit s1)"
      by (rule purge_areas_parts)
    note days = Validate_bounds(3) [OF 2(3)]
    have "kept_since (rp_AuditDays p) (re_now re) (a_CreatedAt e)"
    proof (cases "rp_AuditDays p = 0")
      case False
      then have "30 * day \<le> rp_AuditDays p * day" using days by (intro mult_right_mono) (auto simp: MinAuditRetentionDays_def day_def hour_def minute_def second_def)
      then show ?thesis using assms(3) trunc_sec_le [of "re_now re - rp_AuditDays p * day"] by (simp add: kept_since_def)
    qed (simp add: kept_since_def)
    from PurgeAudit_keeps [OF a assms(1) days assms(2) this] record_run_audit [of s1 re trigger actor r1]
    show ?thesis using r 2(7) by auto
  qed (use r assms(2) in simp)
qed

text \<open>Nothing is deleted on a policy that cannot be trusted: when the stored policy cannot be read, is no
  policy or is one that is not accepted, or another purge runs, the run changes nothing at all.\<close>

theorem untrusted_policy_deletes_nothing:
  assumes "re_sel_fails re \<or> rn_policy s = GarbledPolicy \<or> (\<exists>p. rn_policy s = StoredPolicy p \<and> Validate p \<noteq> None) \<or> rn_busy s"
  shows "snd (runRetention re trigger actor s) = s \<and> fst (fst (runRetention re trigger actor s)) = None
    \<and> snd (handlePurgeRetention re r s) = s"
proof -
  have "runRetention re tr ac s = ((None, [if rn_busy s then RetBusy else the (snd (Retention re s))]), s)" for tr ac
    using assms by (auto simp: runRetention_def Retention_def policy_of_def split: prod.splits option.splits policy_setting.splits)
  then show ?thesis by (simp add: handlePurgeRetention_def split: option.splits)
qed

text \<open>Trimming keeps the newest revisions of every project: after it ends there are exactly the given
  number of newest ones, fewer where there are fewer; stopped anywhere, none of these is gone and
  nothing is added.\<close>

theorem trim_keeps_newest:
  assumes "revisions_ok s" and "TrimRevisions re s keep = ((refs, err), s')" and "keep > 0"
  shows "set (newest_revisions keep (revisions_of s pid)) \<subseteq> set (revisions_of s' pid)
    \<and> set (revisions_of s' pid) \<subseteq> set (revisions_of s pid)
    \<and> (err = None \<longrightarrow> set (revisions_of s' pid) = set (newest_revisions keep (revisions_of s pid)))"
proof -
  let ?rows = "tbl_rows (pt_revisions s)"
  obtain gone where g: "set gone \<subseteq> set (surplus keep ?rows)" "err = None \<Longrightarrow> set gone = set (surplus keep ?rows)"
    "s' = s\<lparr>pt_revisions := (pt_revisions s)\<lparr>tbl_rows := filter (\<lambda>r. fst r \<notin> fst ` set gone) ?rows\<rparr>\<rparr>"
    using TrimRevisions_spec [OF assms(2,3)] by metis
  have sub: "set gone \<subseteq> set ?rows" using g(1) by (auto simp: surplus_def)
  note rows = trimmed_rows [OF assms(1) sub g(3)]
  note sur = surplus_iff [OF assms(1) _ order_less_imp_le [OF assms(3)]]
  have new: "set (newest_revisions keep (revisions_of s pid)) \<subseteq> set (revisions_of s pid)"
    by (auto simp: newest_revisions_def dest: in_set_takeD)
  have 1: "m \<in> set (revisions_of s' pid)" if m: "m \<in> set (newest_revisions keep (revisions_of s pid))" for m
  proof -
    obtain i r where r: "(i, r) \<in> set ?rows" "rev_key r = (pid, m)" using m new revisions_of_mem [of m s pid] by blast
    then have "(i, r) \<notin> set gone" using sur [OF r(1)] g(1) m by (auto simp: rev_key_def)
    then show ?thesis using r rows revisions_of_mem [of m s' pid] by blast
  qed
  have 2: "m \<in> set (newest_revisions keep (revisions_of s pid))" if m: "err = None" "m \<in> set (revisions_of s' pid)" for m
  proof -
    obtain i r where r: "(i, r) \<in> set ?rows" "(i, r) \<notin> set gone" "rev_key r = (pid, m)" using m(2) rows revisions_of_mem [of m s' pid] by blast
    then show ?thesis using sur [OF r(1)] g(2) [OF m(1)] by (auto simp: rev_key_def)
  qed
  have 3: "set (revisions_of s' pid) \<subseteq> set (revisions_of s pid)" using rows revisions_of_mem [of _ s' pid] revisions_of_mem [of _ s pid] by blast
  from 1 2 3 show ?thesis by blast
qed

text \<open>What a purge that reports no error leaves of the alert tables: exactly the events since the cutoff of
  the policy, all of them when they are kept forever, the deliveries since their own cutoff
  whose event is still there, and the queued retries whose event is still there.\<close>

theorem purge_leaves_exactly:
  assumes "runRetention re trigger actor s = ((Some run, []), s')" and "Retention re s = (p, None)"
    and "tbl_wf (al_events (rn_alerts s))" "tbl_wf (al_deliveries (rn_alerts s))" "tbl_wf (al_retries (rn_alerts s))"
  shows "tbl_rows (al_events (rn_alerts s'))
        = filter (\<lambda>(i, e). kept_since (rp_AlertEventsDays p) (re_now re) (ev_CreatedAt e)) (tbl_rows (al_events (rn_alerts s)))
    \<and> tbl_rows (al_deliveries (rn_alerts s'))
        = filter (\<lambda>(i, x). kept_since (rp_AlertDeliveriesDays p) (re_now re) (dl_Attempted x)
            \<and> (rp_AlertEventsDays p = 0 \<or> \<not> without_event (rn_alerts s') (dl_EventID x))) (tbl_rows (al_deliveries (rn_alerts s)))
    \<and> tbl_rows (al_retries (rn_alerts s'))
        = filter (\<lambda>(i, x). rp_AlertEventsDays p = 0 \<or> \<not> without_event (rn_alerts s') (rt_EventID x)) (tbl_rows (al_retries (rn_alerts s)))"
  using assms(1)
proof (cases rule: runRetention_cases)
  case (2 q r s1)
  have q: "q = p" "rr_Errors r = []" using 2 assms(2) by simp_all
  obtain ne nd e1 d1 nd2 e2 e3 e4 e5 where parts:
    "PurgeAlertEvents re (rn_alerts s) (rp_AlertEventsDays p) (re_now re) = ((ne, nd, e1), d1)"
    "PurgeAlertDeliveries re d1 (rp_AlertDeliveriesDays p) (re_now re) = ((nd2, e2), rn_alerts s1)"
    "rr_Errors r = note_error e1 @ note_error e2 @ note_error e3 @ note_error e4 @ e5"
    using purge_areas_parts [OF 2(4)] q(1) by metis
  have n: "e1 = None" "e2 = None" using parts(3) q(2) by simp_all
  note b = Validate_bounds [OF 2(3)]
  note ev = PurgeAlertEvents_Ok [OF parts(1) [unfolded n] assms(3-5) b(1) [unfolded q(1)]]
  note dl = PurgeAlertDeliveries_Ok [OF parts(2) [unfolded n] ev(4) b(2) [unfolded q(1)]]
  have w: "without_event d1 = without_event (rn_alerts s1)" by (simp add: without_event_def fun_eq_iff dl(1))
  show ?thesis
    using ev(1) dl(1) ev(3) dl(2) by (simp add: 2(7) dl(3) ev(2) w case_prod_unfold conj_commute)
qed simp


section \<open>Observations\<close>

text \<open>The sweep reads the numbers of a project before it lists the directory. A revision that is recorded
  and written in between is not among the numbers, and its snapshot is removed although its row
  exists.\<close>

lemma fresh_snapshot_swept:
  assumes "RevisionNumbers s pid = Ok live" and "createRevisionOnce s rv now = (Ok (i, n), s')" and "rv_ProjectID rv = pid"
    and "(zip_name n, False) \<in> set (sd_Files d)" and "0 \<le> n" "n \<le> max_int64" and "\<not> re_remove_fails re (sd_Name d) (zip_name n)"
  shows "n \<in> set (revisions_of s' pid) \<and> (zip_name n, False) \<notin> set (sd_Files (snd (sweep_files re live d)))"
proof -
  have live: "live = revisions_of s pid" using assms(1) by (simp add: RevisionNumbers_def split: if_splits)
  note c = createRevisionOnce_Ok [OF assms(2)]
  have "n \<notin> set live" using max_revision_above [of n live] c(1) assms(3) live by auto
  then have "orphan live (zip_name n, False)" using revision_of_zip [OF assms(5,6)] by (simp add: orphan_def)
  then have "(zip_name n, False) \<notin> set (sd_Files (snd (sweep_files re live d)))"
    using assms(4,7) by (simp add: sweep_files_def Let_def)
  moreover have "n \<in> set (revisions_of s' pid)"
    using c assms(3) by (auto simp: revisions_of_def tbl_insert_rows)
  ultimately show ?thesis by blast
qed

text \<open>The method that deletes audit entries refuses too few days but not too many: the nanoseconds wrap
  around, the cutoff lies in the future and an entry written now is deleted.\<close>

lemma audit_purge_overflows:
  "cutoffFor 200000 now > now
   \<and> PurgeAudit re \<lparr>a_log = \<lparr>tbl_rows = [(1, e\<lparr>a_CreatedAt := trunc_sec now\<rparr>)], tbl_seq = 1\<rparr>, a_ins_fails = False, a_sel_fails = False\<rparr> 200000 now
      = (case re_stops re AreaAudit 0 of
           None \<Rightarrow> ((1, None), \<lparr>a_log = \<lparr>tbl_rows = [], tbl_seq = 1\<rparr>, a_ins_fails = False, a_sel_fails = False\<rparr>)
         | Some x \<Rightarrow> ((0, Some x), \<lparr>a_log = \<lparr>tbl_rows = [(1, e\<lparr>a_CreatedAt := trunc_sec now\<rparr>)], tbl_seq = 1\<rparr>, a_ins_fails = False, a_sel_fails = False\<rparr>))"
proof -
  have w: "cutoffFor 200000 now = trunc_sec (now + 1166744073709551616)"
    by (simp add: cutoffFor_def wrap64_def hour_def minute_def second_def)
  have c: "trunc_sec now \<le> now" "now < trunc_sec (now + 1166744073709551616)"
    using trunc_sec_le [of now] trunc_sec_gt [of "now + 1166744073709551616"] by (simp_all add: second_def)
  then show ?thesis
    by (simp add: PurgeAudit_def MinAuditRetentionDays_def deleteBatched_def delete_rounds.simps [of _ _ 0] delete_batch_def purgeBatch_def w Let_def
        split: option.splits)
qed

section \<open>Witnesses\<close>

definition demo_ret_env :: ret_env where
  "demo_ret_env = \<lparr>re_now = 100 * day, re_sel_fails = False, re_save_fails = False, re_stops = (\<lambda>_ _. None), re_trim_fails = False,
     re_root_fails = False, re_ctx_done = (\<lambda>_. False), re_dir_fails = (\<lambda>_. False), re_remove_fails = (\<lambda>_ _. False)\<rparr>"

definition demo_delivery :: "int \<Rightarrow> time \<Rightarrow> AlertDelivery" where
  "demo_delivery e t = \<lparr>dl_ID = 0, dl_EventID = e, dl_Channel = ''email'', dl_Target = [], dl_OK = True, dl_Status = 0, dl_Detail = [], dl_Attempted = t\<rparr>"

definition demo_entry :: "time \<Rightarrow> AuditEntry" where
  "demo_entry t = \<lparr>a_UserID = 1, a_Username = ''root'', a_Action = ''x'', a_Target = [], a_Detail = [], a_IP = [], a_HostID = 0, a_CreatedAt = t\<rparr>"

definition demo_rev :: "int \<Rightarrow> ProjectRevision" where
  "demo_rev n = demo_revision\<lparr>rv_ProjectID := 7, rv_Revision := n\<rparr>"

definition demo_ret :: ret_srv where
  "demo_ret = \<lparr>rn_busy = False,
     rn_policy = StoredPolicy \<lparr>rp_AlertEventsDays = 0, rp_AlertDeliveriesDays = 7, rp_AuditDays = 30, rp_RevisionsKeep = 3\<rparr>, rn_lastRun = None,
     rn_alerts = \<lparr>al_webhooks = tbl_empty, al_rules = tbl_empty, al_events = tbl_empty,
       al_deliveries = \<lparr>tbl_rows = [(1, demo_delivery 5 day), (2, demo_delivery 6 (99 * day))], tbl_seq = 2\<rparr>, al_states = [], al_retries = tbl_empty,
       al_fails = (\<lambda>_. False)\<rparr>,
     rn_audit = \<lparr>a_log = \<lparr>tbl_rows = [(1, demo_entry day), (2, demo_entry (99 * day))], tbl_seq = 2\<rparr>, a_ins_fails = False, a_sel_fails = False\<rparr>,
     rn_projects = empty_projects\<lparr>pt_revisions := \<lparr>tbl_rows = [(1, demo_rev 1), (2, demo_rev 2), (3, demo_rev 3), (4, demo_rev 4)], tbl_seq = 4\<rparr>\<rparr>,
     rn_dirs = Some [\<lparr>sd_Name = ''7'', sd_IsDir = True, sd_Files = [(''1.zip'', False), (''2.zip'', False), (''4.zip'', False), (''9.zip'', False)]\<rparr>]\<rparr>"

lemmas ret_demo = demo_ret_def demo_ret_env_def demo_delivery_def demo_entry_def demo_rev_def demo_revision_def empty_projects_def
  tbl_wf_def tbl_empty_def

lemma demo_ret_tables:
  "tbl_wf (a_log (rn_audit demo_ret))" "tbl_wf (al_events (rn_alerts demo_ret))" "tbl_wf (al_deliveries (rn_alerts demo_ret))"
  "tbl_wf (al_retries (rn_alerts demo_ret))" "revisions_ok (rn_projects demo_ret)"
  by (simp_all add: ret_demo revisions_ok_def rev_key_def min_int64_def max_int64_def)

lemma demo_policy: "Retention demo_ret_env demo_ret
    = (\<lparr>rp_AlertEventsDays = 0, rp_AlertDeliveriesDays = 7, rp_AuditDays = 30, rp_RevisionsKeep = 3\<rparr>, None)"
  by code_simp

lemma demo_run: "\<exists>run s'. runRetention demo_ret_env ''manual'' None demo_ret = ((Some run, []), s') \<and> rr_Audit run = 1 \<and> rr_AlertDeliveries run = 1 \<and> rr_RevisionFiles run = 2"
proof -
  have "(case runRetention demo_ret_env ''manual'' None demo_ret of ((Some run, []), s') \<Rightarrow> rr_Audit run = 1 \<and> rr_AlertDeliveries run = 1 \<and> rr_RevisionFiles run = 2 | _ \<Rightarrow> False)"
    by code_simp
  then show ?thesis by (auto split: prod.splits option.splits list.splits)
qed

theorem batched_purge_exact_witness:
  "snd (deleteBatched (\<lambda>_. None) (\<lambda>(i, e). a_CreatedAt e < 50 * day) (a_log (rn_audit demo_ret))) = \<lparr>tbl_rows = [(2, demo_entry (99 * day))], tbl_seq = 2\<rparr>"
proof -
  obtain n err t' where d: "deleteBatched (\<lambda>_. None) (\<lambda>(i, e). a_CreatedAt e < 50 * day) (a_log (rn_audit demo_ret)) = ((n, err), t')" by (metis prod.collapse)
  show ?thesis using batched_purge_exact [OF demo_ret_tables(1) d] d by (simp add: ret_demo day_def hour_def minute_def second_def)
qed

theorem recent_audit_kept_witness:
  "(2, demo_entry (99 * day)) \<in> set (tbl_rows (a_log (rn_audit (snd (runRetention demo_ret_env ''manual'' None demo_ret)))))"
  by (rule recent_audit_kept [OF demo_ret_tables(1)]) (simp_all add: ret_demo day_def hour_def minute_def second_def)

theorem untrusted_policy_deletes_nothing_witness:
  "snd (runRetention demo_ret_env ''manual'' None (demo_ret\<lparr>rn_policy := GarbledPolicy\<rparr>)) = demo_ret\<lparr>rn_policy := GarbledPolicy\<rparr>"
  using untrusted_policy_deletes_nothing [of demo_ret_env "demo_ret\<lparr>rn_policy := GarbledPolicy\<rparr>" "''manual''" None] by simp

theorem trim_keeps_newest_witness:
  "set (revisions_of (snd (TrimRevisions demo_ret_env (rn_projects demo_ret) 3)) 7) = {2, 3, 4}"
proof -
  obtain refs err s' where t: "TrimRevisions demo_ret_env (rn_projects demo_ret) 3 = ((refs, err), s')" by (metis prod.collapse)
  have "snd (fst (TrimRevisions demo_ret_env (rn_projects demo_ret) 3)) = None" by code_simp
  then have "err = None" using t by simp
  moreover have "set (newest_revisions 3 (revisions_of (rn_projects demo_ret) 7)) = {2, 3, 4}" by code_simp
  ultimately show ?thesis using trim_keeps_newest [OF demo_ret_tables(5) t] t by simp
qed

theorem purge_leaves_exactly_witness:
  "\<exists>run s'. runRetention demo_ret_env ''manual'' None demo_ret = ((Some run, []), s') \<and> tbl_rows (al_deliveries (rn_alerts s')) = [(2, demo_delivery 6 (99 * day))]"
proof -
  obtain run s' where r: "runRetention demo_ret_env ''manual'' None demo_ret = ((Some run, []), s')" using demo_run by blast
  show ?thesis
    using purge_leaves_exactly [OF r demo_policy demo_ret_tables(2-4)] r
    by (simp add: ret_demo kept_since_def trunc_sec_def day_def hour_def minute_def second_def)
qed


end
