(* ===== verification/UserAdmin.thy ===== *)
theory UserAdmin
  imports McpTokens RoleSteps
begin

text \<open>
  Administration of accounts and roles: \<open>src/internal/api/user_handlers.go\<close> and
  \<open>role_handlers.go\<close>. The state is the service of \<open>AuthService\<close>, which holds the accounts and the
  role tables, and the audit log. The id in the path is a text; the handlers of accounts ignore
  that it may be no number, those of roles refuse it. A body that cannot be decoded is absent.
\<close>

section \<open>user\_handlers.go\<close>

record user_srv =
  us_sv :: service
  us_audit :: adb

record userBody =
  ub_Username :: string
  ub_Password :: string
  ub_Role :: string
  ub_ReadOnly :: bool
  ub_Sections :: "string list"
  ub_RoleIDs :: "int list option"

record roleBody =
  rb_Name :: string
  rb_Description :: string
  rb_Sections :: "RoleSection list"
  rb_HostIDs :: "int list"

datatype admin_answer = AAErr nat | AARefused | AADone | AACreated int | AACreatedWarning int | AACopied int string
  | AAUsers "(User \<times> int list \<times> string list) list" | AARoles "(Role \<times> nat) list"

definition admin_audit :: "world \<Rightarrow> request \<Rightarrow> string \<Rightarrow> string \<Rightarrow> string \<Rightarrow> user_srv \<Rightarrow> user_srv" where
  "admin_audit w r action target detail s = s\<lparr>us_audit := audit (us_audit s) r None action target detail (w_now w)\<rparr>"

fun user_views :: "db \<Rightarrow> User list \<Rightarrow> (User \<times> int list \<times> string list) list option" where
  "user_views d [] = Some []"
| "user_views d (u # us) =
     (case (RoleIDsForUser d (u_ID u), EffectiveSections d u) of
        (Inr ids, Inr secs) \<Rightarrow> (case user_views d us of None \<Rightarrow> None | Some vs \<Rightarrow> Some ((u, ids, secs) # vs))
      | _ \<Rightarrow> None)"

definition handleListUsers :: "user_srv \<Rightarrow> admin_answer" where
  "handleListUsers s =
     (case ListUsers (sv_acc (us_sv s)) of
        Inl _ \<Rightarrow> AAErr 500
      | Inr users \<Rightarrow> (case user_views (sv_db (us_sv s)) users of None \<Rightarrow> AAErr 500 | Some vs \<Rightarrow> AAUsers vs))"

definition handleCreateUser :: "world \<Rightarrow> request \<Rightarrow> userBody option \<Rightarrow> user_srv \<Rightarrow> admin_answer \<times> user_srv" where
  "handleCreateUser w r body s =
     (case body of
        None \<Rightarrow> (AAErr 400, s)
      | Some b \<Rightarrow>
        (case CreateAccount w (us_sv s) (ub_Username b) (ub_Password b) (ub_Role b) (ub_ReadOnly b) (cleanSections (ub_Sections b)) of
           (Inl e, sv1) \<Rightarrow> ((if e = ErrWeakPassword \<or> e = ErrInvalidUsername then AAErr 400 else AARefused), s\<lparr>us_sv := sv1\<rparr>)
         | (Inr u, sv1) \<Rightarrow>
           (case ub_RoleIDs b of
              Some (i # ids) \<Rightarrow>
              (case SetUserRoles (sv_db sv1) (u_ID u) (i # ids) of
                 (Inl _, d1) \<Rightarrow> (AACreatedWarning (u_ID u), admin_audit w r ''user.create'' (ub_Username b) (ub_Role b) (s\<lparr>us_sv := sv1\<lparr>sv_db := d1\<rparr>\<rparr>))
               | (Inr _, d1) \<Rightarrow> (AACreated (u_ID u), admin_audit w r ''user.create'' (ub_Username b) (ub_Role b) (s\<lparr>us_sv := sv1\<lparr>sv_db := d1\<rparr>\<rparr>)))
            | _ \<Rightarrow> (AACreated (u_ID u), admin_audit w r ''user.create'' (ub_Username b) (ub_Role b) (s\<lparr>us_sv := sv1\<rparr>)))))"

text \<open>The guard both handlers have: the account is read and is an administrator, and not more than one
  is counted. A count that fails is zero; an account that cannot be read is not guarded.\<close>

definition last_admin :: "accounts \<Rightarrow> int \<Rightarrow> bool" where
  "last_admin d i \<longleftrightarrow>
     (case AccountByID d i of
        Inl _ \<Rightarrow> False
      | Inr u \<Rightarrow> IsAdmin u \<and> (case CountAdmins d of Inl _ \<Rightarrow> True | Inr n \<Rightarrow> n \<le> 1))"

definition handleUpdateUser :: "world \<Rightarrow> request \<Rightarrow> string \<Rightarrow> userBody option \<Rightarrow> user_srv \<Rightarrow> admin_answer \<times> user_srv" where
  "handleUpdateUser w r idp body s =
     (let i = parse_int64_value idp; sv = us_sv s
      in case body of
        None \<Rightarrow> (AAErr 400, s)
      | Some b \<Rightarrow>
        if ub_Role b \<noteq> ''admin'' \<and> last_admin (sv_acc sv) i then (AARefused, s)
        else case UpdateUserAccess (sv_acc sv) i (ub_Role b) (ub_ReadOnly b) (cleanSections (ub_Sections b)) of
          (Inl _, d1) \<Rightarrow> (AAErr 500, s\<lparr>us_sv := sv\<lparr>sv_acc := d1\<rparr>\<rparr>)
        | (Inr _, d1) \<Rightarrow>
          (case ub_RoleIDs b of
             None \<Rightarrow> (AADone, admin_audit w r ''user.update'' idp (ub_Role b) (s\<lparr>us_sv := sv\<lparr>sv_acc := d1\<rparr>\<rparr>))
           | Some ids \<Rightarrow>
             (case SetUserRoles (sv_db sv) i ids of
                (Inl _, d2) \<Rightarrow> (AAErr 500, s\<lparr>us_sv := sv\<lparr>sv_acc := d1, sv_db := d2\<rparr>\<rparr>)
              | (Inr _, d2) \<Rightarrow> (AADone, admin_audit w r ''user.update'' idp (ub_Role b) (s\<lparr>us_sv := sv\<lparr>sv_acc := d1, sv_db := d2\<rparr>\<rparr>)))))"

definition handleResetUserPassword :: "world \<Rightarrow> request \<Rightarrow> string \<Rightarrow> string option \<Rightarrow> user_srv \<Rightarrow> admin_answer \<times> user_srv" where
  "handleResetUserPassword w r idp body s =
     (case body of
        None \<Rightarrow> (AAErr 400, s)
      | Some password \<Rightarrow>
        (case SetPassword w (us_sv s) (parse_int64_value idp) password of
           (Inl _, sv1) \<Rightarrow> (AAErr 400, s\<lparr>us_sv := sv1\<rparr>)
         | (Inr _, sv1) \<Rightarrow> (AADone, admin_audit w r ''user.password_reset'' idp [] (s\<lparr>us_sv := sv1\<rparr>))))"

definition handleDeleteUser :: "world \<Rightarrow> request \<Rightarrow> string \<Rightarrow> user_srv \<Rightarrow> admin_answer \<times> user_srv" where
  "handleDeleteUser w r idp s =
     (let i = parse_int64_value idp; sv = us_sv s
      in if rq_Claims r = Some i then (AARefused, s)
         else if last_admin (sv_acc sv) i then (AARefused, s)
         else case DeleteUser (sv_acc sv) i of
           (Inl _, d1) \<Rightarrow> (AAErr 500, s\<lparr>us_sv := sv\<lparr>sv_acc := d1\<rparr>\<rparr>)
         | (Inr _, d1) \<Rightarrow> (AADone, admin_audit w r ''user.delete'' idp [] (s\<lparr>us_sv := sv\<lparr>sv_acc := d1\<rparr>\<rparr>)))"

section \<open>role\_handlers.go\<close>

abbreviation us_db :: "user_srv \<Rightarrow> db" where "us_db s \<equiv> sv_db (us_sv s)"

definition with_db :: "db \<Rightarrow> user_srv \<Rightarrow> user_srv" where
  "with_db d s = s\<lparr>us_sv := (us_sv s)\<lparr>sv_db := d\<rparr>\<rparr>"

fun count_roles :: "db \<Rightarrow> User list \<Rightarrow> int list option" where
  "count_roles d [] = Some []"
| "count_roles d (u # us) =
     (case RoleIDsForUser d (u_ID u) of
        Inl _ \<Rightarrow> None | Inr ids \<Rightarrow> (case count_roles d us of None \<Rightarrow> None | Some rest \<Rightarrow> Some (ids @ rest)))"

definition roleUserCounts :: "user_srv \<Rightarrow> (int \<Rightarrow> nat) option" where
  "roleUserCounts s =
     (case ListUsers (sv_acc (us_sv s)) of
        Inl _ \<Rightarrow> None
      | Inr users \<Rightarrow> map_option (\<lambda>ids i. count_list ids i) (count_roles (us_db s) users))"

definition handleListRoles :: "user_srv \<Rightarrow> admin_answer" where
  "handleListRoles s =
     (case ListRoles (us_db s) of
        Inl _ \<Rightarrow> AAErr 500
      | Inr roles \<Rightarrow> (case roleUserCounts s of None \<Rightarrow> AAErr 500 | Some counts \<Rightarrow> AARoles (map (\<lambda>x. (x, counts (r_ID x))) roles)))"

definition cleanRoleHosts :: "int list \<Rightarrow> int list option" where
  "cleanRoleHosts hs =
     (let out = dedup (\<lambda>i. i > 0) [] hs in if hs \<noteq> [] \<and> out = [] then None else Some out)"

definition sectionSummary :: "RoleSection list \<Rightarrow> string" where
  "sectionSummary secs = join '', '' (map (\<lambda>rs. rs_Section rs @ (if rs_Write rs then '':rw'' else '':r'')) secs)"

definition scopeSummary :: "int list \<Rightarrow> string" where
  "scopeSummary hs = (if hs = [] then '' (every host)'' else '' (hosts:'' @ join '','' (map show_int hs) @ '')'')"

definition handleCreateRole :: "world \<Rightarrow> request \<Rightarrow> roleBody option \<Rightarrow> user_srv \<Rightarrow> admin_answer \<times> user_srv" where
  "handleCreateRole w r body s =
     (case body of
        None \<Rightarrow> (AAErr 400, s)
      | Some b \<Rightarrow>
        (case cleanRoleHosts (rb_HostIDs b) of
           None \<Rightarrow> (AAErr 400, s)
         | Some hs \<Rightarrow>
           (case CreateRole (us_db s) \<lparr>r_ID = 0, r_Name = rb_Name b, r_Description = rb_Description b, r_Builtin = False,
                   r_Sections = rb_Sections b, r_HostIDs = hs\<rparr> of
              (Inl e, d1) \<Rightarrow> (AAErr (if e = ErrDuplicate then 409 else 400), with_db d1 s)
            | (Inr i, d1) \<Rightarrow> (AACreated i, admin_audit w r ''role.create'' (rb_Name b) (sectionSummary (rb_Sections b) @ scopeSummary hs) (with_db d1 s)))))"

definition handleUpdateRole :: "world \<Rightarrow> request \<Rightarrow> string \<Rightarrow> roleBody option \<Rightarrow> user_srv \<Rightarrow> admin_answer \<times> user_srv" where
  "handleUpdateRole w r idp body s =
     (case parse_int64 idp of
        None \<Rightarrow> (AAErr 400, s)
      | Some i \<Rightarrow>
        (case body of
           None \<Rightarrow> (AAErr 400, s)
         | Some b \<Rightarrow>
           (case cleanRoleHosts (rb_HostIDs b) of
              None \<Rightarrow> (AAErr 400, s)
            | Some hs \<Rightarrow>
              (case UpdateRole (us_db s) i (rb_Name b) (rb_Description b) (rb_Sections b) hs of
                 (Inl e, d1) \<Rightarrow> (AAErr (if e = ErrNotFound then 404 else if e = ErrBuiltinRole then 403 else if e = ErrDuplicate then 409 else 400), with_db d1 s)
               | (Inr _, d1) \<Rightarrow> (AADone, admin_audit w r ''role.update'' (rb_Name b) (sectionSummary (rb_Sections b) @ scopeSummary hs) (with_db d1 s))))))"

definition handleDeleteRole :: "world \<Rightarrow> request \<Rightarrow> string \<Rightarrow> user_srv \<Rightarrow> admin_answer \<times> user_srv" where
  "handleDeleteRole w r idp s =
     (case parse_int64 idp of
        None \<Rightarrow> (AAErr 400, s)
      | Some i \<Rightarrow>
        (case RoleByID (us_db s) i of
           Inl e \<Rightarrow> (AAErr (if e = ErrNotFound then 404 else 500), s)
         | Inr role \<Rightarrow>
           (case DeleteRole (us_db s) i of
              (Inl e, d1) \<Rightarrow> (AAErr (if e = ErrBuiltinRole then 403 else if e = ErrRoleInUseAsFallback then 409 else 500), with_db d1 s)
            | (Inr _, d1) \<Rightarrow> (AADone, admin_audit w r ''role.delete'' (r_Name role) [] (with_db d1 s)))))"

definition roleByName :: "db \<Rightarrow> string \<Rightarrow> db_error + Role" where
  "roleByName d name =
     (case ListRoles d of
        Inl e \<Rightarrow> Err e
      | Inr roles \<Rightarrow> (case find (\<lambda>r. r_Name r = name) roles of None \<Rightarrow> Err ErrNotFound | Some r \<Rightarrow> Ok r))"

text \<open>The search for a free name: the candidate, the counter of the loop, at most fifty rounds.\<close>

function free_name :: "db \<Rightarrow> string \<Rightarrow> string \<Rightarrow> int \<Rightarrow> string option" where
  "free_name d base name i =
     (if roleByName d name = Err ErrNotFound then Some name
      else if i > 50 then None
      else free_name d base (base @ '' copy '' @ show_int i) (i + 1))"
  by pat_completeness auto
termination by (relation "measure (\<lambda>(d, base, name, i). nat (51 - i))") auto

declare free_name.simps [simp del]

definition handleDuplicateRole :: "world \<Rightarrow> request \<Rightarrow> string \<Rightarrow> user_srv \<Rightarrow> admin_answer \<times> user_srv" where
  "handleDuplicateRole w r idp s =
     (case parse_int64 idp of
        None \<Rightarrow> (AAErr 400, s)
      | Some i \<Rightarrow>
        (case RoleByID (us_db s) i of
           Inl e \<Rightarrow> (AAErr (if e = ErrNotFound then 404 else 500), s)
         | Inr src \<Rightarrow>
           (case free_name (us_db s) (r_Name src) (r_Name src @ '' copy'') 2 of
              None \<Rightarrow> (AAErr 409, s)
            | Some name \<Rightarrow>
              (case CreateRole (us_db s) \<lparr>r_ID = 0, r_Name = name, r_Description = r_Description src, r_Builtin = False,
                      r_Sections = r_Sections src, r_HostIDs = r_HostIDs src\<rparr> of
                 (Inl _, d1) \<Rightarrow> (AAErr 500, with_db d1 s)
               | (Inr j, d1) \<Rightarrow> (AACopied j name, admin_audit w r ''role.duplicate'' (r_Name src) name (with_db d1 s))))))"

section \<open>Requests of an administrator\<close>

datatype adm_req = ReqCreateUser "userBody option" | ReqUpdateUser string "userBody option" | ReqReset string "string option"
  | ReqDeleteUser string | ReqCreateRole "roleBody option" | ReqUpdateRole string "roleBody option" | ReqDeleteRole string | ReqDuplicate string

fun serve_admin :: "world \<Rightarrow> request \<Rightarrow> adm_req \<Rightarrow> user_srv \<Rightarrow> admin_answer \<times> user_srv" where
  "serve_admin w r (ReqCreateUser b) s = handleCreateUser w r b s"
| "serve_admin w r (ReqUpdateUser i b) s = handleUpdateUser w r i b s"
| "serve_admin w r (ReqReset i b) s = handleResetUserPassword w r i b s"
| "serve_admin w r (ReqDeleteUser i) s = handleDeleteUser w r i s"
| "serve_admin w r (ReqCreateRole b) s = handleCreateRole w r b s"
| "serve_admin w r (ReqUpdateRole i b) s = handleUpdateRole w r i b s"
| "serve_admin w r (ReqDeleteRole i) s = handleDeleteRole w r i s"
| "serve_admin w r (ReqDuplicate i) s = handleDuplicateRole w r i s"

text \<open>A run: each request with its own set of statements that fail.\<close>

definition admin_fails :: "(acc_stmt \<Rightarrow> bool) \<Rightarrow> (stmt \<Rightarrow> bool) \<Rightarrow> user_srv \<Rightarrow> user_srv" where
  "admin_fails f g s = s\<lparr>us_sv := (us_sv s)\<lparr>sv_acc := (sv_acc (us_sv s))\<lparr>ac_fails := f\<rparr>, sv_db := (sv_db (us_sv s))\<lparr>d_fails := g\<rparr>\<rparr>\<rparr>"

fun admin_run :: "((acc_stmt \<Rightarrow> bool) \<times> (stmt \<Rightarrow> bool) \<times> world \<times> request \<times> adm_req) list \<Rightarrow> user_srv \<Rightarrow> user_srv" where
  "admin_run [] s = s"
| "admin_run ((f, g, w, r, q) # qs) s = admin_run qs (snd (serve_admin w r q (admin_fails f g s)))"

section \<open>Lemmas\<close>

definition has_admin :: "accounts \<Rightarrow> bool" where
  "has_admin d \<longleftrightarrow> (\<exists>i u. (i, u) \<in> set (tbl_rows (ac_users d)) \<and> uc_role u = ''admin'')"

definition other_admin :: "accounts \<Rightarrow> int \<Rightarrow> bool" where
  "other_admin d i \<longleftrightarrow> (\<exists>j u. j \<noteq> i \<and> (j, u) \<in> set (tbl_rows (ac_users d)) \<and> uc_role u = ''admin'')"

lemma two_keys:
  assumes "2 \<le> length xs" and "distinct (map fst xs)"
  obtains x where "x \<in> set xs" "fst x \<noteq> i"
proof -
  obtain a b ys where xs: "xs = a # b # ys" using assms(1) by (cases xs; cases "tl xs") auto
  have "fst a \<noteq> i \<or> fst b \<noteq> i" using assms(2) xs by auto
  then show thesis using that [of a] that [of b] xs by auto
qed

lemma guard_leaves_admin:
  assumes "tbl_wf (ac_users d)" and "has_admin d" and "\<not> ac_fails d (SelUserID i)" and "\<not> last_admin d i"
  shows "other_admin d i"
proof -
  let ?rows = "tbl_rows (ac_users d)"
  have dist: "distinct (map fst ?rows)" using assms(1) by (simp add: tbl_wf_def)
  obtain k a where k: "(k, a) \<in> set ?rows" "uc_role a = ''admin''" using assms(2) by (auto simp: has_admin_def)
  then have look: "tbl_lookup (ac_users d) k = Some a" using dist by (simp add: tbl_lookup_def)
  show ?thesis
  proof (cases "k = i")
    case True
    then have "AccountByID d i = Ok (scanUserRow d (i, a))" using look assms(3) by (simp add: AccountByID_def)
    moreover have "IsAdmin (scanUserRow d (i, a))" using k(2) by (simp add: IsAdmin_def scanUserRow_def)
    ultimately have "2 \<le> length (filter (\<lambda>(i, u). uc_role u = ''admin'') ?rows)"
      using assms(4) by (auto simp: last_admin_def CountAdmins_def split: if_splits)
    moreover have "distinct (map fst (filter (\<lambda>(i, u). uc_role u = ''admin'') ?rows))" using dist by (rule distinct_map_filter)
    ultimately obtain x where "x \<in> set (filter (\<lambda>(i, u). uc_role u = ''admin'') ?rows)" "fst x \<noteq> i" by (rule two_keys)
    then show ?thesis by (auto simp: other_admin_def)
  qed (use k in \<open>auto simp: other_admin_def\<close>)
qed

lemma other_admin_update: "other_admin d i \<Longrightarrow> has_admin (snd (update_user d i f))"
  by (force simp: other_admin_def has_admin_def update_user_def tbl_update_def)

lemma admin_update_keeps:
  assumes "has_admin d" and "\<And>u. uc_role u = ''admin'' \<Longrightarrow> uc_role (f u) = ''admin''"
  shows "has_admin (snd (update_user d i f))"
proof -
  obtain k a where k: "(k, a) \<in> set (tbl_rows (ac_users d))" "uc_role a = ''admin''" using assms(1) by (auto simp: has_admin_def)
  have "(k, if k = i then f a else a) \<in> set (tbl_rows (tbl_update i f (ac_users d)))" using k(1) by (force simp: tbl_update_def)
  moreover have "uc_role (if k = i then f a else a) = ''admin''" using k(2) assms(2) by simp
  ultimately have "has_admin (d\<lparr>ac_users := tbl_update i f (ac_users d)\<rparr>)" unfolding has_admin_def by auto
  then show ?thesis using assms(1) by (simp add: update_user_def)
qed

lemma other_admin_delete: "other_admin d i \<Longrightarrow> has_admin d \<Longrightarrow> has_admin (snd (DeleteUser d i))"
  using DeleteUser_parts(1) [of d i] unfolding other_admin_def has_admin_def tbl_delete_def by auto blast+

lemma wf_update: "tbl_wf (ac_users d) \<Longrightarrow> tbl_wf (ac_users (snd (update_user d i f)))"
  by (simp add: update_user_def tbl_wf_update)

lemma wf_delete: "tbl_wf (ac_users d) \<Longrightarrow> tbl_wf (ac_users (snd (DeleteUser d i)))"
  using DeleteUser_parts(1) [of d i] tbl_wf_delete [of "ac_users d" i] by auto

lemma role_kept: "(\<And>u. uc_role (f u) = uc_role u) \<Longrightarrow> \<exists>g. (\<forall>u. uc_role (g u) = uc_role u) \<and> tbl_update i f t = tbl_update i g t"
  by blast

lemma SetPassword_users:
  "(\<exists>f. (\<forall>u. uc_role (f u) = uc_role u) \<and> ac_users (sv_acc (snd (SetPassword w s i p))) = tbl_update i f (ac_users (sv_acc s)))
   \<or> ac_users (sv_acc (snd (SetPassword w s i p))) = ac_users (sv_acc s)"
proof -
  have upd: "tbl_update i g (tbl_update i f t) = tbl_update i (\<lambda>u. g (f u)) t" for f g :: "user_row \<Rightarrow> user_row" and t
    by (simp add: tbl_update_def comp_def case_prod_unfold if_distrib cong: if_cong)
  show ?thesis
    by (auto simp: SetPassword_def UpdatePassword_def update_user_def DeleteUserSessions_def BumpSessionEpoch_def upd
        split: prod.splits sum.splits option.splits if_splits
        intro!: role_kept)
qed

lemma handlers_accounts:
  "sv_acc (us_sv (snd (handleCreateRole w r b s))) = sv_acc (us_sv s)"
  "sv_acc (us_sv (snd (handleUpdateRole w r i b s))) = sv_acc (us_sv s)"
  "sv_acc (us_sv (snd (handleDeleteRole w r i s))) = sv_acc (us_sv s)"
  "sv_acc (us_sv (snd (handleDuplicateRole w r i s))) = sv_acc (us_sv s)"
  by (auto simp: handleCreateRole_def handleUpdateRole_def handleDeleteRole_def handleDuplicateRole_def with_db_def admin_audit_def
      split: option.splits sum.splits prod.splits)

lemma handleCreateUser_accounts:
  "ac_users (sv_acc (us_sv (snd (handleCreateUser w r b s)))) = ac_users (sv_acc (us_sv s))
   \<or> (\<exists>row. ac_users (sv_acc (us_sv (snd (handleCreateUser w r b s)))) = snd (tbl_insert row (ac_users (sv_acc (us_sv s)))))"
  by (auto simp: handleCreateUser_def CreateAccount_def CreateUser_def admin_audit_def Let_def case_prod_unfold
      split: option.splits sum.splits list.splits if_splits)

lemma handleUpdateUser_accounts:
  "sv_acc (us_sv (snd (handleUpdateUser w r idp body s))) = sv_acc (us_sv s)
   \<or> (\<exists>b. body = Some b \<and> (ub_Role b = ''admin'' \<or> \<not> last_admin (sv_acc (us_sv s)) (parse_int64_value idp))
        \<and> sv_acc (us_sv (snd (handleUpdateUser w r idp body s)))
          = snd (UpdateUserAccess (sv_acc (us_sv s)) (parse_int64_value idp) (ub_Role b) (ub_ReadOnly b) (cleanSections (ub_Sections b))))"
  by (auto simp: handleUpdateUser_def admin_audit_def Let_def split: option.splits sum.splits prod.splits)

lemma handleDeleteUser_accounts:
  "sv_acc (us_sv (snd (handleDeleteUser w r idp s))) = sv_acc (us_sv s)
   \<or> \<not> last_admin (sv_acc (us_sv s)) (parse_int64_value idp)
     \<and> sv_acc (us_sv (snd (handleDeleteUser w r idp s))) = snd (DeleteUser (sv_acc (us_sv s)) (parse_int64_value idp))"
  by (auto simp: handleDeleteUser_def admin_audit_def Let_def split: sum.splits prod.splits)

lemma has_admin_users: "ac_users d' = ac_users d \<Longrightarrow> has_admin d' = has_admin d"
  by (simp add: has_admin_def)

definition admin_inv :: "accounts \<Rightarrow> bool" where
  "admin_inv d \<longleftrightarrow> tbl_wf (ac_users d) \<and> has_admin d"

lemma admin_inv_users: "ac_users d' = ac_users d \<Longrightarrow> admin_inv d \<Longrightarrow> admin_inv d'"
  by (simp add: admin_inv_def has_admin_users [of d' d])

lemma admin_inv_update:
  assumes "admin_inv d" and "\<not> ac_fails d (SelUserID i)" and "role = ''admin'' \<or> \<not> last_admin d i"
  shows "admin_inv (snd (UpdateUserAccess d i role ro secs))"
proof (cases "role = ''admin''")
  case True
  then show ?thesis using assms(1) by (simp add: admin_inv_def UpdateUserAccess_def wf_update admin_update_keeps orDefault_def)
next
  case False
  then have "other_admin d i" using assms by (intro guard_leaves_admin) (simp_all add: admin_inv_def)
  then show ?thesis using assms(1) by (simp add: admin_inv_def UpdateUserAccess_def wf_update other_admin_update)
qed

lemma admin_inv_serve:
  assumes "admin_inv (sv_acc (us_sv s))" and "\<And>i. \<not> ac_fails (sv_acc (us_sv s)) (SelUserID i)"
  shows "admin_inv (sv_acc (us_sv (snd (serve_admin w r q s))))"
proof (cases q)
  case (ReqCreateUser b)
  from handleCreateUser_accounts [of w r b s] show ?thesis
  proof
    assume "\<exists>row. ac_users (sv_acc (us_sv (snd (handleCreateUser w r b s)))) = snd (tbl_insert row (ac_users (sv_acc (us_sv s))))"
    then obtain row where "ac_users (sv_acc (us_sv (snd (handleCreateUser w r b s)))) = snd (tbl_insert row (ac_users (sv_acc (us_sv s))))" ..
    then show ?thesis using assms(1) ReqCreateUser tbl_wf_insert [of "ac_users (sv_acc (us_sv s))" row]
      by (auto simp: admin_inv_def has_admin_def tbl_insert_def Let_def)
  qed (use assms(1) ReqCreateUser in \<open>simp add: admin_inv_users [of _ "sv_acc (us_sv s)"]\<close>)
next
  case (ReqUpdateUser idp b)
  then show ?thesis using handleUpdateUser_accounts [of w r idp b s] assms admin_inv_update [OF assms(1)] by fastforce
next
  case (ReqReset idp b)
  have "admin_inv (sv_acc (snd (SetPassword w (us_sv s) i p)))" for i p
    using SetPassword_users [of w "us_sv s" i p]
  proof
    assume "\<exists>f. (\<forall>u. uc_role (f u) = uc_role u) \<and> ac_users (sv_acc (snd (SetPassword w (us_sv s) i p))) = tbl_update i f (ac_users (sv_acc (us_sv s)))"
    then obtain f where f: "\<And>u. uc_role (f u) = uc_role u" "ac_users (sv_acc (snd (SetPassword w (us_sv s) i p))) = tbl_update i f (ac_users (sv_acc (us_sv s)))" by blast
    have "has_admin (sv_acc (snd (SetPassword w (us_sv s) i p)))"
      using assms(1) f unfolding admin_inv_def has_admin_def tbl_update_def by (force simp: split: if_splits)
    then show ?thesis using assms(1) f(2) tbl_wf_update [of "ac_users (sv_acc (us_sv s))" i f] by (simp add: admin_inv_def)
  qed (use assms(1) in \<open>simp add: admin_inv_users [of _ "sv_acc (us_sv s)"]\<close>)
  then show ?thesis using assms(1) ReqReset
    by (auto simp: handleResetUserPassword_def admin_audit_def split: option.splits prod.splits sum.splits) (metis snd_conv)+
next
  case (ReqDeleteUser idp)
  let ?i = "parse_int64_value idp"
  have "admin_inv (snd (DeleteUser (sv_acc (us_sv s)) ?i))" if "\<not> last_admin (sv_acc (us_sv s)) ?i"
    using that assms guard_leaves_admin [of "sv_acc (us_sv s)" ?i] other_admin_delete wf_delete by (simp add: admin_inv_def)
  then show ?thesis using handleDeleteUser_accounts [of w r idp s] assms(1) ReqDeleteUser by auto
qed (use assms(1) in \<open>simp_all add: handlers_accounts\<close>)

lemma ValidSection_trim: "ValidSection k \<Longrightarrow> trim_space k = k \<and> k \<noteq> []"
proof -
  have "list_all (\<lambda>k. trim_space k = k \<and> k \<noteq> []) Sections" by code_simp
  then show "ValidSection k \<Longrightarrow> trim_space k = k \<and> k \<noteq> []" by (simp add: ValidSection_iff list_all_iff)
qed

lemma clean_stored:
  "distinct (map fst rows) \<Longrightarrow> (\<forall>x \<in> set rows. ValidSection (fst x) \<and> fst x \<notin> set seen) \<Longrightarrow>
     clean_sections seen (map (\<lambda>(s, w). \<lparr>rs_Section = s, rs_Write = w\<rparr>) rows) = rows"
proof (induction rows arbitrary: seen)
  case (Cons x rows)
  obtain k w where x: "x = (k, w)" by (cases x)
  have k: "ValidSection k" "trim_space k = k" "k \<noteq> []" "k \<notin> set seen" using Cons.prems(2) ValidSection_trim [of k] x by auto
  have "\<forall>y \<in> set rows. ValidSection (fst y) \<and> fst y \<notin> set (k # seen)" using Cons.prems x by (auto simp: rev_image_eqI)
  then have "clean_sections (k # seen) (map (\<lambda>(s, w). \<lparr>rs_Section = s, rs_Write = w\<rparr>) rows) = rows"
    using Cons.IH [of "k # seen"] Cons.prems(1) by simp
  then show ?case using k by (simp add: x Let_def)
qed simp

lemma stored_grants:
  assumes "db_wf d"
  shows "distinct (map fst (role_grant_rows d i))" "\<forall>x \<in> set (role_grant_rows d i). ValidSection (fst x)"
    and "distinct (role_host_rows d i)" "\<forall>h \<in> set (role_host_rows d i). 0 < h"
proof -
  have g: "distinct (map fst (map snd (filter (\<lambda>(r, _). r = i) rows)))" if "distinct (map (\<lambda>(r, s, w). (r, s)) rows)" for rows :: "(int \<times> string \<times> bool) list"
    using that by (induction rows) (auto simp: rev_image_eqI)
  have h: "distinct (map snd (filter (\<lambda>(r, _). r = i) rows))" if "distinct rows" for rows :: "(int \<times> int) list"
    using that by (induction rows) auto
  show "distinct (map fst (role_grant_rows d i))" "distinct (role_host_rows d i)"
    using assms g [of "d_role_sections d"] h [of "d_role_hosts d"] by (simp_all add: db_wf_def role_grant_rows_def role_host_rows_def)
  show "\<forall>x \<in> set (role_grant_rows d i). ValidSection (fst x)" "\<forall>h \<in> set (role_host_rows d i). 0 < h"
    using assms by (auto simp: db_wf_def role_grant_rows_def role_host_rows_def)
qed

lemma RoleByID_stored:
  assumes "RoleByID d i = Ok src"
  shows "r_Sections src = map (\<lambda>(s, w). \<lparr>rs_Section = s, rs_Write = w\<rparr>) (sort_key fst (role_grant_rows d i))"
    and "r_HostIDs src = sort (role_host_rows d i)"
    and "tbl_lookup (d_roles d) i = Some \<lparr>rr_name = r_Name src, rr_description = r_Description src, rr_builtin = r_Builtin src\<rparr>"
  using assms
  by (auto simp: RoleByID_def fill_role_def roleSections_rows roleHosts_rows bind_res_Inr_iff split: if_splits option.splits)

lemma free_name_free: "free_name d base name i = Some n \<Longrightarrow> roleByName d n = Err ErrNotFound"
  by (induction d base name i rule: free_name.induct) (simp add: free_name.simps split: if_splits)

section \<open>Properties\<close>

text \<open>C17. The last administrator stays: whatever sequence of requests administrators make to create, change,
  reset and delete accounts and to change roles, an administrator is left, as long as reading the
  account by its id does not fail; every other statement may fail at any point.\<close>

theorem last_admin_stays:
  assumes "tbl_wf (ac_users (sv_acc (us_sv s)))" and "has_admin (sv_acc (us_sv s))"
    and "\<forall>(f, g, w, r, q) \<in> set qs. \<forall>i. \<not> f (SelUserID i)"
  shows "has_admin (sv_acc (us_sv (admin_run qs s)))"
proof -
  have "admin_inv (sv_acc (us_sv s))" using assms(1,2) by (simp add: admin_inv_def)
  then have "admin_inv (sv_acc (us_sv (admin_run qs s)))"
    using assms(3)
  proof (induction qs arbitrary: s)
    case (Cons x qs)
    obtain f g w r q where x: "x = (f, g, w, r, q)" by (cases x) auto
    have "admin_inv (sv_acc (us_sv (admin_fails f g s)))"
      using Cons.prems(1) by (simp add: admin_fails_def admin_inv_def has_admin_def)
    then have "admin_inv (sv_acc (us_sv (snd (serve_admin w r q (admin_fails f g s)))))"
      by (rule admin_inv_serve) (use Cons.prems(2) x in \<open>simp add: admin_fails_def\<close>)
    then show ?case using Cons.IH Cons.prems(2) x by simp
  qed simp
  then show ?thesis by (simp add: admin_inv_def)
qed

text \<open>A role that a request limits to some hosts is never stored for every host: after a role was created
  or changed with a list of hosts, its stored scope is not empty and holds only hosts of the list.\<close>

theorem narrowed_role_stays_narrow:
  assumes "rb_HostIDs b \<noteq> []"
  shows "(fst (handleCreateRole w r (Some b) s) = AACreated i \<longrightarrow>
      role_host_rows (us_db (snd (handleCreateRole w r (Some b) s))) i \<noteq> []
      \<and> set (role_host_rows (us_db (snd (handleCreateRole w r (Some b) s))) i) \<subseteq> set (rb_HostIDs b))
    \<and> (fst (handleUpdateRole w r idp (Some b) s) = AADone \<longrightarrow>
      (\<exists>j. parse_int64 idp = Some j \<and> role_host_rows (us_db (snd (handleUpdateRole w r idp (Some b) s))) j \<noteq> []
        \<and> set (role_host_rows (us_db (snd (handleUpdateRole w r idp (Some b) s))) j) \<subseteq> set (rb_HostIDs b)))"
proof -
  have clean: "clean_hosts hs \<noteq> [] \<and> set (clean_hosts hs) \<subseteq> set (rb_HostIDs b)" if "cleanRoleHosts (rb_HostIDs b) = Some hs" for hs
  proof -
    have hs: "hs = clean_hosts (rb_HostIDs b)" "hs \<noteq> []" using that assms by (auto simp: cleanRoleHosts_def Let_def split: if_splits)
    have "set hs = {h \<in> set (rb_HostIDs b). 0 < h}" using hs(1) by (simp add: set_dedup)
    then show ?thesis using hs(2) by (auto simp: set_dedup simp flip: set_empty)
  qed
  have 1: "role_host_rows (us_db (snd (handleCreateRole w r (Some b) s))) i \<noteq> []
      \<and> set (role_host_rows (us_db (snd (handleCreateRole w r (Some b) s))) i) \<subseteq> set (rb_HostIDs b)"
    if created: "fst (handleCreateRole w r (Some b) s) = AACreated i"
  proof -
    obtain hs d1 where h: "cleanRoleHosts (rb_HostIDs b) = Some hs" "CreateRole (us_db s) \<lparr>r_ID = 0, r_Name = rb_Name b, r_Description = rb_Description b,
        r_Builtin = False, r_Sections = rb_Sections b, r_HostIDs = hs\<rparr> = (Ok i, d1)" "us_db (snd (handleCreateRole w r (Some b) s)) = d1"
      using created by (auto simp: handleCreateRole_def with_db_def admin_audit_def split: option.splits prod.splits sum.splits)
    from CreateRole_Inr [OF h(2)] have "role_host_rows d1 i = clean_hosts hs" by (elim conjE) (simp only: Role.select_convs)
    then show ?thesis using h(3) clean [OF h(1)] by simp
  qed
  have 2: "\<exists>j. parse_int64 idp = Some j \<and> role_host_rows (us_db (snd (handleUpdateRole w r idp (Some b) s))) j \<noteq> []
        \<and> set (role_host_rows (us_db (snd (handleUpdateRole w r idp (Some b) s))) j) \<subseteq> set (rb_HostIDs b)"
    if done_ok: "fst (handleUpdateRole w r idp (Some b) s) = AADone"
  proof -
    obtain j hs u d1 where h: "parse_int64 idp = Some j" "cleanRoleHosts (rb_HostIDs b) = Some hs"
      "UpdateRole (us_db s) j (rb_Name b) (rb_Description b) (rb_Sections b) hs = (Ok u, d1)" "us_db (snd (handleUpdateRole w r idp (Some b) s)) = d1"
      using done_ok by (auto simp: handleUpdateRole_def with_db_def admin_audit_def split: option.splits prod.splits sum.splits)
    obtain d2 v where "replaceRoleHosts d2 j hs = (Ok v, d1)"
      using h(3) by (auto simp: UpdateRole_def Let_def split: sum.splits if_splits prod.splits)
    then have "role_host_rows d1 j = clean_hosts hs" using host_tx.replaced [of d2 j hs v d1 j] by simp
    then show ?thesis using h(1,4) clean [OF h(2)] by simp
  qed
  from 1 2 show ?thesis by blast
qed

text \<open>A copy of a role grants what the original grants: the same sections with the same rights and the same
  hosts, under a name that was free, as a role that can be edited and that nobody holds yet; every
  role there was stays as it is.\<close>

theorem copied_role_grants_the_same:
  assumes "db_wf (us_db s)" and "handleDuplicateRole w r idp s = (AACopied j name, s')"
  shows "\<exists>i src. parse_int64 idp = Some i \<and> RoleByID (us_db s) i = Ok src
    \<and> set (role_grant_rows (us_db s') j) = set (role_grant_rows (us_db s) i)
    \<and> set (role_host_rows (us_db s') j) = set (role_host_rows (us_db s) i)
    \<and> tbl_lookup (d_roles (us_db s')) j = Some \<lparr>rr_name = trim_space name, rr_description = r_Description src, rr_builtin = False\<rparr>
    \<and> roleByName (us_db s) name = Err ErrNotFound \<and> tbl_lookup (d_roles (us_db s)) j = None
    \<and> (\<forall>u. \<not> holds_role (us_db s') u j) \<and> (\<forall>k. tbl_lookup (d_roles (us_db s)) k \<noteq> None \<longrightarrow> role_part (us_db s') k = role_part (us_db s) k)"
proof -
  let ?d = "us_db s"
  have twf: "tbl_wf (d_roles ?d)" using assms(1) by (simp add: db_wf_def)
  obtain i src where i: "parse_int64 idp = Some i" "RoleByID ?d i = Ok src" and n: "free_name ?d (r_Name src) (r_Name src @ '' copy'') 2 = Some name"
    and c: "CreateRole ?d \<lparr>r_ID = 0, r_Name = name, r_Description = r_Description src, r_Builtin = False, r_Sections = r_Sections src,
      r_HostIDs = r_HostIDs src\<rparr> = (Ok j, us_db s')"
    using assms(2) by (auto simp: handleDuplicateRole_def with_db_def admin_audit_def split: option.splits prod.splits sum.splits)
  note st = RoleByID_stored [OF i(2)] and g = stored_grants [OF assms(1), of i] and cr = CreateRole_Inr [OF c]
  have "clean_sections [] (r_Sections src) = sort_key fst (role_grant_rows ?d i)"
    unfolding st(1) using g(1,2) by (intro clean_stored) (simp_all add: distinct_map)
  moreover have rows: "role_grant_rows (us_db s') j = clean_sections [] (r_Sections src)" "role_host_rows (us_db s') j = clean_hosts (r_HostIDs src)"
    using cr by (elim conjE, simp only: Role.select_convs)+
  ultimately have 1: "set (role_grant_rows (us_db s') j) = set (role_grant_rows ?d i)" by (simp only: set_sort)
  have 2: "set (role_host_rows (us_db s') j) = set (role_host_rows ?d i)" using g(4) unfolding rows(2) st(2) by (auto simp: set_dedup)
  have 3: "tbl_lookup (d_roles ?d) j = None" using cr tbl_fresh [OF twf] by simp
  have 4: "\<not> holds_role (us_db s') u j" for u using user_roles_below [OF assms(1), of "u_ID u" j] cr by (auto simp: holds_role_def)
  have 5: "role_part (us_db s') k = role_part ?d k" if "tbl_lookup (d_roles ?d) k \<noteq> None" for k
  proof -
    have "k \<le> tbl_seq (d_roles ?d)" using tbl_lookup_bounds [OF twf] that by blast
    from role_part_CreateRole [OF assms(1) this] show ?thesis using c by (metis snd_conv)
  qed
  have 6: "tbl_lookup (d_roles (us_db s')) j = Some \<lparr>rr_name = trim_space name, rr_description = r_Description src, rr_builtin = False\<rparr>"
    using cr tbl_lookup_insert [OF twf] by simp
  show ?thesis using i free_name_free [OF n] 1 2 3 4 5 6 by blast
qed

section \<open>Observations\<close>

text \<open>The guard of the last administrator is skipped when the account cannot be read: the only
  administrator is demoted by a request whose read failed and whose update did not.\<close>

lemma unread_admin_demoted:
  assumes "tbl_rows (ac_users d) = [(i, u)]" and "uc_role u = ''admin''" and "ac_fails d (SelUserID i)" and "\<not> ac_fails d (UpdUser i)"
  shows "\<not> last_admin d i \<and> \<not> has_admin (snd (UpdateUserAccess d i ''user'' ro secs))"
  using assms by (auto simp: last_admin_def AccountByID_def UpdateUserAccess_def update_user_def tbl_update_def has_admin_def orDefault_def)

text \<open>The guard and the change are separate statements. Of two requests that both passed the guard while
  there were two administrators, each takes one away and none is left.\<close>

lemma concurrent_demotions_leave_none:
  assumes "tbl_rows (ac_users d) = [(1, u), (2, v)]" and "uc_role u = ''admin''" "uc_role v = ''admin''" and "\<And>q. \<not> ac_fails d q"
  shows "\<not> last_admin d 1 \<and> \<not> last_admin d 2
    \<and> \<not> has_admin (snd (UpdateUserAccess (snd (UpdateUserAccess d 1 ''user'' ro secs)) 2 ''user'' ro secs))"
  using assms
  by (auto simp: last_admin_def AccountByID_def CountAdmins_def UpdateUserAccess_def update_user_def tbl_update_def tbl_lookup_def
      has_admin_def orDefault_def)

section \<open>Witnesses\<close>

definition demo_admin_row :: "string \<Rightarrow> user_row" where
  "demo_admin_row n = \<lparr>uc_username = n, uc_password_hash = [], uc_role = ''admin'', uc_email = [], uc_totp_secret = [], uc_totp_pending = [],
     uc_totp_pending_stepup = False, uc_passwordless = False, uc_totp_last_counter = 0, uc_session_epoch = 0, uc_read_only = False,
     uc_sections = [], uc_auth_source = [], uc_created_at = 0, uc_last_login_at = 0, uc_ui_prefs = [], uc_webauthn_handle = []\<rparr>"

definition demo_admins :: user_srv where
  "demo_admins = \<lparr>us_sv = demo_service\<lparr>sv_db := seeded_db,
       sv_acc := \<lparr>ac_users = \<lparr>tbl_rows = [(1, demo_admin_row ''ann''), (2, demo_admin_row ''bob'')], tbl_seq = 2\<rparr>, ac_factors = tbl_empty, ac_sessions = [],
         ac_fails = (\<lambda>_. False)\<rparr>\<rparr>,
     us_audit = \<lparr>a_log = tbl_empty, a_ins_fails = False, a_sel_fails = False\<rparr>\<rparr>"

definition demo_body :: userBody where
  "demo_body = \<lparr>ub_Username = ''ann'', ub_Password = [], ub_Role = ''user'', ub_ReadOnly = False, ub_Sections = [], ub_RoleIDs = None\<rparr>"

definition demo_adm_qs :: "((acc_stmt \<Rightarrow> bool) \<times> (stmt \<Rightarrow> bool) \<times> world \<times> request \<times> adm_req) list" where
  "demo_adm_qs = map (\<lambda>q. (\<lambda>_. False, \<lambda>_. False, demo_world 0 ''x'', admin_request, q)) [ReqDeleteUser ''2'', ReqUpdateUser ''1'' (Some demo_body)]"

theorem last_admin_stays_witness: "has_admin (sv_acc (us_sv (admin_run demo_adm_qs demo_admins)))"
proof (rule last_admin_stays)
  show "tbl_wf (ac_users (sv_acc (us_sv demo_admins)))" by (simp add: demo_admins_def tbl_wf_def)
  show "has_admin (sv_acc (us_sv demo_admins))" unfolding has_admin_def
    by (intro exI [of _ 1] exI [of _ "demo_admin_row ''ann''"]) (simp add: demo_admins_def demo_admin_row_def)
qed (simp add: demo_adm_qs_def)

definition demo_role_body :: roleBody where
  "demo_role_body = \<lparr>rb_Name = ''staging'', rb_Description = [], rb_Sections = [\<lparr>rs_Section = ''projects'', rs_Write = True\<rparr>], rb_HostIDs = [0, 5]\<rparr>"

theorem narrowed_role_stays_narrow_witness:
  "fst (handleCreateRole (demo_world 0 ''x'') admin_request (Some demo_role_body) demo_admins) = AACreated 3
   \<and> set (role_host_rows (us_db (snd (handleCreateRole (demo_world 0 ''x'') admin_request (Some demo_role_body) demo_admins))) 3) \<subseteq> {0, 5}"
proof -
  have "rb_HostIDs demo_role_body \<noteq> []" "set (rb_HostIDs demo_role_body) = {0, 5}" by (simp_all add: demo_role_body_def)
  moreover have "fst (handleCreateRole (demo_world 0 ''x'') admin_request (Some demo_role_body) demo_admins) = AACreated 3" by code_simp
  ultimately show ?thesis using narrowed_role_stays_narrow [of demo_role_body "demo_world 0 ''x''" admin_request demo_admins 3] by simp
qed

theorem copied_role_grants_the_same_witness:
  "\<exists>name s'. handleDuplicateRole (demo_world 0 ''x'') admin_request ''1'' demo_admins = (AACopied 3 name, s')
     \<and> set (role_grant_rows (us_db s') 3) = set (role_grant_rows (us_db demo_admins) 1)"
proof -
  have "(case handleDuplicateRole (demo_world 0 ''x'') admin_request ''1'' demo_admins of (AACopied j name, s') \<Rightarrow> j = 3 | _ \<Rightarrow> False)" by code_simp
  then obtain name s' where d: "handleDuplicateRole (demo_world 0 ''x'') admin_request ''1'' demo_admins = (AACopied 3 name, s')"
    by (auto split: prod.splits admin_answer.splits)
  have "db_wf (us_db demo_admins)" using role_reachable_wf [OF seeded_reachable] by (simp add: demo_admins_def)
  from copied_role_grants_the_same [OF this d] have "set (role_grant_rows (us_db s') 3) = set (role_grant_rows (us_db demo_admins) 1)"
    by (auto simp: parse_int64_def is_digit_def digits_val_def digit_val_def min_int64_def max_int64_def)
  then show ?thesis using d by blast
qed

end
