(* ===== verification/Spec2Isabelle.thy ===== *)
theory Spec2Isabelle
  imports RoleSteps Access MaintenanceApi AuthService ConditionLife McpGate Deploys Purge UserAdmin
begin

text \<open>
  Docker Commander is a self-hosted web panel for Docker daemons, written in Go. One process serves
  the web interface and its API, keeps accounts, roles, settings and the alert feed in an SQLite
  database, watches the configured Docker hosts and sends alerts. This development models the
  logic of the program that decides who may do what and when somebody is told, as functions over
  explicit states, and proves what makes it correct.

  \<^bold>\<open>Parts of the program and their theories\<close>

  \<^item> \<open>Prelude\<close>: the Go and SQL primitives all parts use (strings as byte lists, 64-bit
    wrap-around, instants and durations in nanoseconds, decimal texts, results as sums).
    \<open>Tables\<close>: a table with an autoincrement key, its laws stated as a locale and interpreted.

  \<^item> Access control. \<open>Roles\<close> is \<open>src/internal/store/access.go\<close> and \<open>roles.go\<close> (sections,
    roles, host scopes, \<open>EffectiveGrants\<close>); \<open>Grants\<close> gives the declarative meaning of a grant
    and proves the fold of the code equal to it; \<open>RoleSteps\<close> treats the role operations as a step
    relation with invariants over all reachable tables; \<open>Access\<close> is the request gate
    \<open>src/internal/api/access_middleware.go\<close>.

  \<^item> Accounts and authentication. \<open>Accounts\<close> is \<open>store/users.go\<close>, \<open>factors.go\<close>,
    \<open>sessions.go\<close> and the repair of \<open>store.go\<close>; \<open>Passwords\<close> is \<open>auth/password.go\<close>;
    \<open>Ldap\<close> is \<open>store/ldap.go\<close> with the mapping of groups in \<open>auth/ldap.go\<close> and
    \<open>service.go\<close>; \<open>Throttle\<close> is \<open>auth/ratelimit.go\<close>, \<open>auth/challenge.go\<close> and
    \<open>mcp/ratelimit.go\<close>; \<open>AuthService\<close> puts them together as \<open>auth/jwt.go\<close>,
    \<open>middleware.go\<close>, \<open>totp.go\<close> and the flows of \<open>service.go\<close>.

  \<^item> Maintenance windows and the audit log. \<open>Maintenance\<close> is \<open>store/maintenance.go\<close>;
    \<open>AuditLog\<close> is \<open>store/audit.go\<close> with its readers in \<open>api\<close>; \<open>MaintenanceApi\<close> is
    \<open>api/maintenance_handlers.go\<close> and \<open>monitor/maintenance_log.go\<close>.

  \<^item> Alerting. \<open>Alerts\<close> is \<open>store/alerts.go\<close> and \<open>store/delivery_retry.go\<close>;
    \<open>Delivery\<close> is \<open>monitor/webhook.go\<close>, \<open>email.go\<close> and \<open>delivery_retry.go\<close>;
    \<open>History\<close> is \<open>src/internal/history\<close> without Redis, behind the locale
    \<open>history_store\<close>; \<open>Monitor\<close> and \<open>Conditions\<close> are \<open>monitor/config.go\<close> and
    \<open>monitor/monitor.go\<close>; \<open>ConditionLife\<close> holds what is proved of a condition's life.

  \<^bold>\<open>How states and operations correspond\<close>

  A Go struct is a record with the same fields, prefixed to keep selectors apart. A component's
  state is a record of its tables and maps; an operation of the code is a function of the same name
  from state and arguments to result and new state. Errors are values of a sum type; a failing SQL
  statement is chosen by a predicate in the state (\<open>d_fails\<close>, \<open>ac_fails\<close>, \<open>al_fails\<close>,
  \<open>m_fails\<close>), so every error path of the code is a branch here and theorems quantify over all
  failures. What a call reads from outside (clock, randomness, network, daemon, third-party
  cryptography) is an argument: the records \<open>world\<close>, \<open>outside\<close> and \<open>engine\<close>. Theorems
  that need a law of a third-party function state it as a hypothesis, and a witness instantiates it.
  A Go map that is iterated is an association list whose order stands for the iteration order.
  Floating-point measurements are rationals; counters of containers are 64-bit words.

  \<^bold>\<open>What is shown\<close>

  \<^item> Access: the gate decides exactly as a declarative specification, fails closed on store errors,
    read-only accounts never write, filters and enforcement agree; role tables keep their shape
    and built-in roles their meaning.

  \<^item> Authentication: what a login answer proves, revocation by password change and by deletion of a
    session, single use of codes and challenges, bounded guessing, second factors that stay,
    round trips of passwords and directory settings, exact role synchronisation.

  \<^item> Silences: the lookup of windows loses nothing to its SQL prefilter, windows silence only what
    their author reaches, closed windows stay as they are, the log pass tracks windows exactly.

  \<^item> Alerting: a condition ends exactly when it was seen to be over, the most severe rule speaks,
    an alert that began in silence is announced when the silence ends, alerts are spaced by their
    cooldown, retries end within their budget and respect silences, what is recorded of a delivery
    holds no secret of the URL, batched readings equal single ones.

  Loops over lists are structural recursions or folds; the two numeric recursions (decimal digits)
  have a termination proof, and no definition uses fuel. The only bound is the retry budget of the
  program itself.

  \<^bold>\<open>Not modelled\<close>

  The web interface, HTTP encoding and WebSockets, goroutines and tickers (a loop is its body, called
  once), the Docker SDK, compose files and archives, the installation as a system service, TLS
  and ACME, Redis, and the handlers that only pass data between these. The passkey ceremonies, the
  OAuth server of the tool interface, deploy policies and retention are logic of the program that
  is not modelled yet.
\<close>

end
